(* ===== verification/Prelude.thy ===== *)
theory Prelude
  imports Complex_Main "HOL-Library.Sublist"
begin

text \<open>
  The shared vocabulary of the development: Python errors as values, Python strings (prefix and
  substring tests, \<open>str.rpartition\<close>, decimal printing and parsing), JSON values, insertion-ordered
  dictionaries as association lists, and the lemma collections the component theories use.
  Nothing here is specific to the program; every program definition lives in a component theory.
\<close>

named_theorems py_simps \<open>unfolding rules for the Python primitives\<close>
named_theorems dict_simps \<open>lookup laws of insertion-ordered dictionaries\<close>

subsection \<open>Errors as values\<close>

text \<open>
  The exception classes the modelled code raises. Messages are not modelled.
\<close>

datatype py_error =
    ValueError
  | TypeError
  | KeyError
  | IndexError
  | RuntimeError
  | TimeoutErr
  | AssertionError
  | InvalidStateError
  | ReadOnlyContextError
  | NondeterminismErr
  | NotImplementedErr
  | VisibilityQueryError
  | AttributeError
  | OverflowErr
  | CancelledErr
  | ZeroDivisionErr

type_synonym 'a result = "py_error + 'a"

definition bind_result :: "'a result \<Rightarrow> ('a \<Rightarrow> 'b result) \<Rightarrow> 'b result" where
  "bind_result r f = (case r of Inl e \<Rightarrow> Inl e | Inr x \<Rightarrow> f x)"

lemma bind_result_simps [simp]:
  "bind_result (Inl e) f = Inl e"
  "bind_result (Inr x) f = f x"
  by (simp_all add: bind_result_def)

lemma bind_result_Inr_iff:
  "bind_result r f = Inr y \<longleftrightarrow> (\<exists>x. r = Inr x \<and> f x = Inr y)"
  by (cases r) auto

lemma bind_result_Inl_iff:
  "bind_result r f = Inl e \<longleftrightarrow> r = Inl e \<or> (\<exists>x. r = Inr x \<and> f x = Inl e)"
  by (cases r) auto

text \<open>Running a fallible function over a list stops at the first error, as a Python loop does.\<close>

fun map_result :: "('a \<Rightarrow> 'b result) \<Rightarrow> 'a list \<Rightarrow> 'b list result" where
  "map_result f [] = Inr []"
| "map_result f (x # xs) =
     bind_result (f x) (\<lambda>y. bind_result (map_result f xs) (\<lambda>ys. Inr (y # ys)))"

lemma map_result_Inr: "(\<And>x. x \<in> set xs \<Longrightarrow> f x = Inr (g x)) \<Longrightarrow> map_result f xs = Inr (map g xs)"
  by (induction xs) auto

lemma find_SomeD: "find P xs = Some x \<Longrightarrow> x \<in> set xs \<and> P x"
  by (auto simp: find_Some_iff)

subsection \<open>Strings\<close>

text \<open>
  A Python string is a character list; \<open>s in t\<close> is \<open>sublist s t\<close> and \<open>t.startswith(s)\<close> is
  \<open>prefix s t\<close> (both from HOL-Library.Sublist, both executable).
\<close>

definition is_digit :: "char \<Rightarrow> bool" where
  "is_digit c \<longleftrightarrow> c \<in> set ''0123456789''"

text \<open>\<open>str.isdigit\<close> is false for the empty string. Only ASCII digits are modelled.\<close>

definition isdigit :: "string \<Rightarrow> bool" where
  "isdigit s \<longleftrightarrow> s \<noteq> [] \<and> list_all is_digit s"

definition digit_char :: "nat \<Rightarrow> char" where
  "digit_char d = ''0123456789'' ! d"

definition digit_val :: "char \<Rightarrow> nat" where
  "digit_val c = of_char c - 48"

text \<open>\<open>str(n)\<close> for a non-negative integer, and \<open>int(s)\<close> for a string of digits.\<close>

fun dec :: "nat \<Rightarrow> string" where
  "dec n = (if n < 10 then [digit_char n] else dec (n div 10) @ [digit_char (n mod 10)])"

declare dec.simps [simp del]

definition int_of_digits :: "string \<Rightarrow> nat" where
  "int_of_digits s = foldl (\<lambda>acc c. 10 * acc + digit_val c) 0 s"

text \<open>\<open>str(i)\<close> for an integer.\<close>

definition dec_int :: "int \<Rightarrow> string" where
  "dec_int i = (if i < 0 then CHR ''-'' # dec (nat (- i)) else dec (nat i))"

lemma upt_10: "n < 10 \<Longrightarrow> n \<in> {0, 1, 2, 3, 4, 5, 6, 7, 8, 9 :: nat}"
  by (simp add: numeral_eq_Suc less_Suc_eq)

lemma digit_char_is_digit: "n < 10 \<Longrightarrow> is_digit (digit_char n)"
  by (drule upt_10) (auto simp: digit_char_def is_digit_def)

lemma digit_val_char: "n < 10 \<Longrightarrow> digit_val (digit_char n) = n"
  by (drule upt_10) (auto simp: digit_char_def digit_val_def)

lemma dec_nonempty [simp]: "dec n \<noteq> []"
  by (subst dec.simps) simp

lemma dec_digits: "list_all is_digit (dec n)"
proof (induction n rule: dec.induct)
  case (1 n)
  then show ?case
    by (subst dec.simps) (simp add: digit_char_is_digit)
qed

lemma isdigit_dec [simp]: "isdigit (dec n)"
  by (simp add: isdigit_def dec_digits)

lemma int_of_digits_snoc:
  "int_of_digits (s @ [c]) = 10 * int_of_digits s + digit_val c"
  by (simp add: int_of_digits_def)

lemma int_of_digits_dec [simp]: "int_of_digits (dec n) = n"
proof (induction n rule: dec.induct)
  case (1 n)
  show ?case
  proof (cases "n < 10")
    case True
    then show ?thesis
      by (subst dec.simps) (simp add: int_of_digits_def digit_val_char)
  next
    case False
    with 1 have "int_of_digits (dec (n div 10)) = n div 10" by simp
    with False show ?thesis
      by (subst dec.simps) (simp add: int_of_digits_snoc digit_val_char)
  qed
qed

lemma dec_inject [simp]: "dec m = dec n \<longleftrightarrow> m = n"
  by (metis int_of_digits_dec)

lemma is_digit_set_dec: "c \<in> set (dec n) \<Longrightarrow> is_digit c"
  using dec_digits [of n] by (simp add: list_all_iff)

lemma not_in_dec: "\<not> is_digit c \<Longrightarrow> c \<notin> set (dec n)"
  using is_digit_set_dec by blast

text \<open>
  \<open>s.rpartition(sep)\<close>: the split at the last occurrence of \<open>sep\<close> (\<open>None\<close> when there is none).
\<close>

fun rpartition :: "string \<Rightarrow> string \<Rightarrow> (string \<times> string) option" where
  "rpartition sep [] = None"
| "rpartition sep (c # cs) =
     (case rpartition sep cs of
        Some (b, s) \<Rightarrow> Some (c # b, s)
      | None \<Rightarrow> if prefix sep (c # cs) then Some ([], drop (length sep) (c # cs)) else None)"

lemma rpartition_append:
  "rpartition sep x = Some (b, s) \<Longrightarrow> rpartition sep (w @ x) = Some (w @ b, s)"
  by (induction w) auto

lemma rpartition_None_iff:
  "sep \<noteq> [] \<Longrightarrow> rpartition sep s = None \<longleftrightarrow> \<not> sublist sep s"
  by (induction s)
     (auto simp: sublist_Cons_right split: option.splits if_splits)

lemma rpartition_Some:
  "rpartition sep s = Some (b, t) \<Longrightarrow> s = b @ sep @ t"
  by (induction s arbitrary: b)
     (auto simp: prefix_def split: option.splits if_splits)

lemma sublist_setD: "sublist xs ys \<Longrightarrow> set xs \<subseteq> set ys"
  by (rule set_mono_sublist)

text \<open>
  An occurrence of \<open>sep\<close> in \<open>w @ y\<close> lies wholly inside \<open>w\<close> when the last character of
  \<open>sep\<close> does not occur in \<open>y\<close>.
\<close>

lemma sublist_append_last:
  assumes "sep \<noteq> []" and "last sep \<notin> set y"
  shows "sublist sep (w @ y) \<longleftrightarrow> sublist sep w"
proof
  assume "sublist sep (w @ y)"
  then obtain ps ss where eq: "w @ y = (ps @ sep) @ ss"
    by (auto simp: sublist_def)
  then obtain us where us: "w = (ps @ sep) @ us \<or> w @ us = ps @ sep \<and> y = us @ ss"
    using eq unfolding append_eq_append_conv2 [of w y "ps @ sep" ss] by blast
  show "sublist sep w"
  proof (cases "us = []")
    case True
    with us have "w = ps @ sep @ []" by auto
    then show ?thesis unfolding sublist_def by blast
  next
    case False
    have "\<not> (w @ us = ps @ sep \<and> y = us @ ss)"
    proof
      assume over: "w @ us = ps @ sep \<and> y = us @ ss"
      with False assms(1) have "last us = last sep"
        by (metis last_appendR)
      with False over have "last sep \<in> set y"
        using last_in_set [OF False] by auto
      with assms(2) show False by simp
    qed
    with us have "w = ps @ sep @ us" by simp
    then show ?thesis unfolding sublist_def by blast
  qed
next
  assume "sublist sep w"
  then obtain ps ss where "w = ps @ sep @ ss" by (auto simp: sublist_def)
  then have "w @ y = ps @ sep @ (ss @ y)" by simp
  then show "sublist sep (w @ y)" unfolding sublist_def by blast
qed

lemma prefix_append_same [simp]: "prefix p (p @ s)"
  by (simp add: prefix_def)

subsection \<open>JSON values\<close>

text \<open>
  Checkpoints, inputs and failure envelopes are JSON values. Python integers are unbounded
  (\<open>int\<close>); a float is modelled by the rational it denotes (rounding is not modelled).
\<close>

datatype json =
    JNull
  | JBool bool
  | JInt int
  | JNum rat
  | JStr string
  | JList "json list"
  | JObj "(string \<times> json) list"

fun obj_get :: "json \<Rightarrow> string \<Rightarrow> json option" where
  "obj_get (JObj kvs) k = map_of kvs k"
| "obj_get _ k = None"

text \<open>\<open>d.get(k)\<close>: a missing key reads as \<open>None\<close> (JSON null). \<open>d[k]\<close> raises KeyError.\<close>

definition jget :: "json \<Rightarrow> string \<Rightarrow> json" where
  "jget j k = (case obj_get j k of Some v \<Rightarrow> v | None \<Rightarrow> JNull)"

definition jget_default :: "json \<Rightarrow> string \<Rightarrow> json \<Rightarrow> json" where
  "jget_default j k d = (case obj_get j k of Some v \<Rightarrow> v | None \<Rightarrow> d)"

definition jindex :: "json \<Rightarrow> string \<Rightarrow> json result" where
  "jindex j k = (case obj_get j k of Some v \<Rightarrow> Inr v | None \<Rightarrow> Inl KeyError)"

text \<open>Python truthiness.\<close>

fun truthy :: "json \<Rightarrow> bool" where
  "truthy JNull = False"
| "truthy (JBool b) = b"
| "truthy (JInt i) = (i \<noteq> 0)"
| "truthy (JNum q) = (q \<noteq> 0)"
| "truthy (JStr s) = (s \<noteq> [])"
| "truthy (JList xs) = (xs \<noteq> [])"
| "truthy (JObj kvs) = (kvs \<noteq> [])"

definition json_of_option :: "('a \<Rightarrow> json) \<Rightarrow> 'a option \<Rightarrow> json" where
  "json_of_option f x = (case x of None \<Rightarrow> JNull | Some y \<Rightarrow> f y)"

lemma json_of_option_simps [simp]:
  "json_of_option f None = JNull"
  "json_of_option f (Some x) = f x"
  by (simp_all add: json_of_option_def)

text \<open>\<open>float(x)\<close> for a JSON number (a bool is an int in Python).\<close>

fun to_float :: "json \<Rightarrow> rat result" where
  "to_float (JInt i) = Inr (of_int i)"
| "to_float (JNum q) = Inr q"
| "to_float (JBool b) = Inr (if b then 1 else 0)"
| "to_float (JStr s) = Inl ValueError"
| "to_float _ = Inl TypeError"

fun to_int :: "json \<Rightarrow> int result" where
  "to_int (JInt i) = Inr i"
| "to_int (JNum q) = Inr (if q < 0 then - \<lfloor>- q\<rfloor> else \<lfloor>q\<rfloor>)"
| "to_int (JBool b) = Inr (if b then 1 else 0)"
| "to_int (JStr s) = (if isdigit s then Inr (int (int_of_digits s)) else Inl ValueError)"
| "to_int _ = Inl TypeError"

text \<open>\<open>list(x)\<close>: the elements of a list, the keys of a dict, the characters of a string.\<close>

fun to_list :: "json \<Rightarrow> json list result" where
  "to_list (JList xs) = Inr xs"
| "to_list (JObj kvs) = Inr (map (JStr \<circ> fst) kvs)"
| "to_list (JStr s) = Inr (map (\<lambda>c. JStr [c]) s)"
| "to_list _ = Inl TypeError"

text \<open>
  A field read back as the type its writer gives it. Python would let a value of another type
  through; the envelopes are only ever written by the modelled serialisers.
\<close>

fun as_str :: "json \<Rightarrow> string result" where
  "as_str (JStr s) = Inr s"
| "as_str _ = Inl TypeError"

fun as_obj :: "json \<Rightarrow> (string \<times> json) list result" where
  "as_obj (JObj kvs) = Inr kvs"
| "as_obj _ = Inl TypeError"

definition optional :: "(json \<Rightarrow> 'a result) \<Rightarrow> json \<Rightarrow> 'a option result" where
  "optional f j = (if j = JNull then Inr None else bind_result (f j) (\<lambda>x. Inr (Some x)))"

lemma optional_JNull [simp]: "optional f JNull = Inr None"
  by (simp add: optional_def)

lemma optional_json_of_option:
  "(\<And>x. f (g x) = Inr x \<and> g x \<noteq> JNull) \<Longrightarrow> optional f (json_of_option g x) = Inr x"
  by (cases x) (simp_all add: optional_def)

lemma map_of_size:
  "map_of kvs k = Some v \<Longrightarrow> size v < size (JObj kvs)"
proof (induction kvs)
  case (Cons kv kvs)
  then show ?case by (cases kv) (auto split: if_splits)
qed simp

lemma obj_get_size: "obj_get j k = Some v \<Longrightarrow> size v < size j"
  by (cases j) (auto dest: map_of_size simp del: json.size)

subsection \<open>Durations\<close>

text \<open>
  A \<open>timedelta\<close> is its number of microseconds; \<open>timedelta(seconds=q)\<close> rounds to the nearest
  microsecond, ties to even.
\<close>

type_synonym timedelta = int

definition total_seconds :: "timedelta \<Rightarrow> rat" where
  "total_seconds us = of_int us / 1000000"

definition round_half_even :: "rat \<Rightarrow> int" where
  "round_half_even q =
     (let f = \<lfloor>q\<rfloor>; r = q - of_int f
      in if r < 1 / 2 then f else if 1 / 2 < r then f + 1 else if even f then f else f + 1)"

definition timedelta_seconds :: "rat \<Rightarrow> timedelta" where
  "timedelta_seconds q = round_half_even (q * 1000000)"

lemma round_half_even_of_int [simp]: "round_half_even (of_int i) = i"
  by (simp add: round_half_even_def)

lemma timedelta_seconds_total [simp]: "timedelta_seconds (total_seconds us) = us"
  by (simp add: timedelta_seconds_def total_seconds_def)

lemma total_seconds_inject [simp]: "total_seconds a = total_seconds b \<longleftrightarrow> a = b"
  by (simp add: total_seconds_def)

lemma total_seconds_le [simp]: "total_seconds a \<le> total_seconds b \<longleftrightarrow> a \<le> b"
  by (simp add: total_seconds_def divide_right_mono)

lemma round_half_even_mono: "p \<le> q \<Longrightarrow> round_half_even p \<le> round_half_even q"
proof -
  assume pq: "p \<le> q"
  then have f: "\<lfloor>p\<rfloor> \<le> \<lfloor>q\<rfloor>" by (rule floor_mono)
  show ?thesis
  proof (cases "\<lfloor>p\<rfloor> = \<lfloor>q\<rfloor>")
    case True
    with pq show ?thesis by (auto simp: round_half_even_def Let_def)
  next
    case False
    with f have "\<lfloor>p\<rfloor> + 1 \<le> \<lfloor>q\<rfloor>" by simp
    moreover have "round_half_even p \<le> \<lfloor>p\<rfloor> + 1" "\<lfloor>q\<rfloor> \<le> round_half_even q"
      by (auto simp: round_half_even_def Let_def)
    ultimately show ?thesis by simp
  qed
qed

subsection \<open>Float powers\<close>

text \<open>
  \<open>x ** n\<close> on floats. Rounding is not modelled, but the range is: a result that does not fit a
  double raises OverflowError (it does not become an infinity).
\<close>

definition float_limit :: rat where
  "float_limit = 2 ^ 1024 - 2 ^ 970"

definition exact_pow :: "rat \<Rightarrow> int \<Rightarrow> rat" where
  "exact_pow x n = (if 0 \<le> n then x ^ nat n else 1 / x ^ nat (- n))"

definition float_pow :: "rat \<Rightarrow> int \<Rightarrow> rat result" where
  "float_pow x n = (if float_limit \<le> \<bar>exact_pow x n\<bar> then Inl OverflowErr else Inr (exact_pow x n))"

lemma exact_pow_ge_1: "1 \<le> x \<Longrightarrow> 0 \<le> n \<Longrightarrow> 1 \<le> exact_pow x n"
  by (simp add: exact_pow_def)

lemma exact_pow_mono: "1 \<le> x \<Longrightarrow> 0 \<le> m \<Longrightarrow> m \<le> n \<Longrightarrow> exact_pow x m \<le> exact_pow x n"
  by (simp add: exact_pow_def power_increasing nat_mono)

subsection \<open>Insertion-ordered dictionaries\<close>

text \<open>
  A Python dict whose iteration order matters is an association list: assignment to an existing
  key keeps its position, a new key goes to the end.
\<close>

type_synonym ('k, 'v) dict = "('k \<times> 'v) list"

fun dict_set :: "'k \<Rightarrow> 'v \<Rightarrow> ('k, 'v) dict \<Rightarrow> ('k, 'v) dict" where
  "dict_set k v [] = [(k, v)]"
| "dict_set k v ((k', v') # d) = (if k' = k then (k, v) # d else (k', v') # dict_set k v d)"

definition dict_get :: "('k, 'v) dict \<Rightarrow> 'k \<Rightarrow> 'v option" where
  "dict_get d k = map_of d k"

definition dict_del :: "'k \<Rightarrow> ('k, 'v) dict \<Rightarrow> ('k, 'v) dict" where
  "dict_del k d = filter (\<lambda>(k', v). k' \<noteq> k) d"

definition dict_wf :: "('k, 'v) dict \<Rightarrow> bool" where
  "dict_wf d \<longleftrightarrow> distinct (map fst d)"

lemma dict_get_Nil [simp, dict_simps]: "dict_get [] k = None"
  by (simp add: dict_get_def)

lemma dict_get_Cons [dict_simps]:
  "dict_get ((k', v) # d) k = (if k = k' then Some v else dict_get d k)"
  by (simp add: dict_get_def)

lemma dict_get_set [dict_simps]:
  "dict_get (dict_set k v d) k' = (if k' = k then Some v else dict_get d k')"
  by (induction d) (auto simp: dict_get_def)

lemma dict_get_del [dict_simps]:
  "dict_get (dict_del k d) k' = (if k' = k then None else dict_get d k')"
  by (induction d) (auto simp: dict_get_def dict_del_def)

lemma keys_dict_set: "fst ` set (dict_set k v d) = insert k (fst ` set d)"
proof (induction d)
  case (Cons kv d)
  then show ?case by (cases kv) (simp add: insert_commute)
qed simp

lemma keys_dict_del: "fst ` set (dict_del k d) = fst ` set d - {k}"
  by (induction d) (auto simp: dict_del_def)

lemma dict_wf_Nil [simp]: "dict_wf []"
  by (simp add: dict_wf_def)

lemma dict_wf_set [intro]: "dict_wf d \<Longrightarrow> dict_wf (dict_set k v d)"
  unfolding dict_wf_def
proof (induction d)
  case (Cons kv d)
  obtain a b where kv: "kv = (a, b)" by (cases kv)
  have "set (map fst (dict_set k v d)) = insert k (set (map fst d))"
    using keys_dict_set [of k v d] by simp
  with Cons kv show ?case by auto
qed simp

lemma dict_wf_del [intro]: "dict_wf d \<Longrightarrow> dict_wf (dict_del k d)"
  unfolding dict_wf_def dict_del_def
  by (induction d) auto

lemma dict_get_in_set: "dict_get d k = Some v \<Longrightarrow> (k, v) \<in> set d"
  by (simp add: dict_get_def map_of_SomeD)

lemma dict_get_None_iff: "dict_get d k = None \<longleftrightarrow> k \<notin> fst ` set d"
  by (simp add: dict_get_def map_of_eq_None_iff)

lemma set_dict_del: "(k', v) \<in> set (dict_del k d) \<longleftrightarrow> (k', v) \<in> set d \<and> k' \<noteq> k"
  by (auto simp: dict_del_def)

text \<open>
  The dictionary interface its clients rely on: what a lookup returns after an assignment and
  after a deletion, and that both keep the keys distinct.
\<close>

locale ordered_dict =
  fixes upd :: "'k \<Rightarrow> 'v \<Rightarrow> 'd \<Rightarrow> 'd"
    and del :: "'k \<Rightarrow> 'd \<Rightarrow> 'd"
    and get :: "'d \<Rightarrow> 'k \<Rightarrow> 'v option"
    and wf :: "'d \<Rightarrow> bool"
  assumes get_upd: "get (upd k v d) k' = (if k' = k then Some v else get d k')"
    and get_del: "get (del k d) k' = (if k' = k then None else get d k')"
    and wf_upd: "wf d \<Longrightarrow> wf (upd k v d)"
    and wf_del: "wf d \<Longrightarrow> wf (del k d)"
begin

lemma pop_once: "get (del k (del k d)) = get (del k d)"
  by (rule ext) (simp add: get_del)

lemma upd_then_pop: "get (del k (upd k v d)) = get (del k d)"
  by (rule ext) (simp add: get_del get_upd)

lemma upd_upd: "get (upd k v (upd k v' d)) = get (upd k v d)"
  by (rule ext) (simp add: get_upd)

lemma wf_fold_del: "wf d \<Longrightarrow> wf (fold del ks d)"
  by (induction ks arbitrary: d) (auto intro: wf_del)

lemma get_fold_del: "get (fold del ks d) k = (if k \<in> set ks then None else get d k)"
  by (induction ks arbitrary: d) (auto simp: get_del)

end

interpretation pydict: ordered_dict dict_set dict_del dict_get dict_wf
  by unfold_locales (auto simp: dict_get_set dict_get_del)

end
