(* ===== verification/Payloads.thy ===== *)
theory Payloads
  imports Prelude
begin

text \<open>
  Run inputs and their metadata (\<open>RunMeta\<close>, \<open>wrap_input\<close>, \<open>unwrap_input\<close> of
  \<open>dbosify/_internal/payloads.py\<close>) and retry policies on the wire (\<open>RetryPolicy\<close> of
  \<open>dbosify/common.py\<close> with its two converters).
\<close>

subsection \<open>Run metadata\<close>

type_synonym jdict = "(string \<times> json) list"

record run_meta =
  m_cron :: "string option"
  m_attempt :: int
  m_retry_policy :: "jdict option"
  m_run_timeout :: "rat option"
  m_last_completion :: "jdict option"
  m_last_failure :: "jdict option"
  m_attributes :: "jdict option"
  m_headers :: "jdict option"
  m_root :: "jdict option"

definition default_meta :: run_meta where
  "default_meta = \<lparr>m_cron = None, m_attempt = 1, m_retry_policy = None, m_run_timeout = None,
     m_last_completion = None, m_last_failure = None, m_attributes = None, m_headers = None, m_root = None\<rparr>"

definition is_empty_meta :: "run_meta \<Rightarrow> bool" where
  "is_empty_meta m \<longleftrightarrow>
     m_cron m = None \<and> m_attempt m = 1 \<and> m_retry_policy m = None \<and> m_run_timeout m = None \<and>
     m_last_completion m = None \<and> m_last_failure m = None \<and> m_attributes m = None \<and>
     (m_headers m = None \<or> m_headers m = Some []) \<and> m_root m = None"

definition carried_forward :: "run_meta \<Rightarrow> run_meta" where
  "carried_forward m = \<lparr>m_cron = m_cron m, m_attempt = 1, m_retry_policy = m_retry_policy m,
     m_run_timeout = m_run_timeout m, m_last_completion = m_last_completion m,
     m_last_failure = m_last_failure m, m_attributes = m_attributes m, m_headers = m_headers m, m_root = m_root m\<rparr>"

definition INPUT_ENVELOPE_KEY :: string where
  "INPUT_ENVELOPE_KEY = ''__dbosify_input__''"

text \<open>The payload of a run: a bare argument list, or the input envelope.\<close>

definition meta_json :: "run_meta \<Rightarrow> json" where
  "meta_json m = JObj [
     (''cron'', json_of_option JStr (m_cron m)),
     (''attempt'', JInt (m_attempt m)),
     (''retry_policy'', json_of_option JObj (m_retry_policy m)),
     (''run_timeout'', json_of_option JNum (m_run_timeout m)),
     (''last_completion'', json_of_option JObj (m_last_completion m)),
     (''last_failure'', json_of_option JObj (m_last_failure m)),
     (''attributes'', json_of_option JObj (m_attributes m)),
     (''headers'', json_of_option JObj (m_headers m)),
     (''root'', json_of_option JObj (m_root m))]"

definition wrap_input :: "json list \<Rightarrow> run_meta option \<Rightarrow> json" where
  "wrap_input args meta =
     (case meta of
        None \<Rightarrow> JList args
      | Some m \<Rightarrow>
          if is_empty_meta m then JList args
          else JObj [(INPUT_ENVELOPE_KEY, JInt 1), (''args'', JList args), (''meta'', meta_json m)])"

definition meta_of_json :: "json \<Rightarrow> run_meta result" where
  "meta_of_json raw =
     bind_result (optional as_str (jget raw ''cron'')) (\<lambda>c.
     bind_result (to_int (jget_default raw ''attempt'' (JInt 1))) (\<lambda>a.
     bind_result (optional as_obj (jget raw ''retry_policy'')) (\<lambda>rp.
     bind_result (optional to_float (jget raw ''run_timeout'')) (\<lambda>rt.
     bind_result (optional as_obj (jget raw ''last_completion'')) (\<lambda>lc.
     bind_result (optional as_obj (jget raw ''last_failure'')) (\<lambda>lf.
     bind_result (optional as_obj (jget raw ''attributes'')) (\<lambda>ats.
     bind_result (optional as_obj (jget raw ''headers'')) (\<lambda>h.
     bind_result (optional as_obj (jget raw ''root'')) (\<lambda>r.
       Inr \<lparr>m_cron = c, m_attempt = a, m_retry_policy = rp, m_run_timeout = rt, m_last_completion = lc,
            m_last_failure = lf, m_attributes = ats, m_headers = h, m_root = r\<rparr>)))))))))"

definition unwrap_input :: "json \<Rightarrow> (json list \<times> run_meta) result" where
  "unwrap_input payload =
     (case obj_get payload INPUT_ENVELOPE_KEY of
        Some _ \<Rightarrow>
          let raw = (if truthy (jget payload ''meta'') then jget payload ''meta'' else JObj [])
          in bind_result (jindex payload ''args'') (\<lambda>args_json.
             bind_result (to_list args_json) (\<lambda>args.
             bind_result (meta_of_json raw) (\<lambda>meta. Inr (args, meta))))
      | None \<Rightarrow> bind_result (to_list payload) (\<lambda>args. Inr (args, default_meta)))"

lemma meta_json_roundtrip: "meta_of_json (meta_json m) = Inr m"
proof -
  have "optional as_str (json_of_option JStr x) = Inr x"
    and "optional as_obj (json_of_option JObj y) = Inr y"
    and "optional to_float (json_of_option JNum z) = Inr z" for x y z
    by (rule optional_json_of_option, simp)+
  then show ?thesis by (simp add: meta_of_json_def meta_json_def jget_def jget_default_def)
qed

lemma unwrap_wrapped:
  "unwrap_input (wrap_input args (Some m)) = Inr (args, if is_empty_meta m then default_meta else m) \<and>
   unwrap_input (wrap_input args None) = Inr (args, default_meta)"
proof -
  have "truthy (meta_json m)" by (simp add: meta_json_def)
  then show ?thesis
    by (auto simp: unwrap_input_def wrap_input_def Let_def jget_def jindex_def meta_json_roundtrip
        INPUT_ENVELOPE_KEY_def)
qed

text \<open>
  A run's start arguments and metadata survive the dispatcher payload: unwrapping gives
  back the arguments and the metadata, except that metadata saying nothing beyond empty m_headers
  comes back as the default metadata. Continue-as-new, m_cron and retry hops all pass through here.
\<close>

theorem unwrap_wrap_input:
  "unwrap_input (wrap_input args (Some m)) = Inr (args, if is_empty_meta m then default_meta else m) \<and>
   unwrap_input (wrap_input args None) = Inr (args, default_meta)"
  by (rule unwrap_wrapped)

subsection \<open>Retry policies\<close>

record retry_policy =
  initial_interval :: timedelta
  backoff_coefficient :: rat
  maximum_interval :: "timedelta option"
  maximum_attempts :: int
  non_retryable_error_types :: "string list option"

text \<open>
  \<open>RetryPolicy._validate\<close>. A zero \<open>timedelta\<close> is falsy, so a zero maximum interval is not checked.
\<close>

definition validate_retry_policy :: "retry_policy \<Rightarrow> unit result" where
  "validate_retry_policy p =
     (if maximum_attempts p = 1 then Inr ()
      else if total_seconds (initial_interval p) < 0 then Inl ValueError
      else if backoff_coefficient p < 1 then Inl ValueError
      else if (case maximum_interval p of
                 Some mi \<Rightarrow> mi \<noteq> 0 \<and> (total_seconds mi < 0 \<or> mi < initial_interval p)
               | None \<Rightarrow> False) then Inl ValueError
      else if maximum_attempts p < 0 then Inl ValueError
      else Inr ())"

definition serialize_retry_policy :: "retry_policy \<Rightarrow> json" where
  "serialize_retry_policy p = JObj [
     (''initial_interval'', JNum (total_seconds (initial_interval p))),
     (''backoff_coefficient'', JNum (backoff_coefficient p)),
     (''maximum_interval'', json_of_option (\<lambda>m. JNum (total_seconds m)) (maximum_interval p)),
     (''maximum_attempts'', JInt (maximum_attempts p)),
     (''non_retryable_error_types'',
        json_of_option (\<lambda>ts. JList (map JStr ts)) (non_retryable_error_types p))]"

definition as_str_list :: "json \<Rightarrow> string list result" where
  "as_str_list j = bind_result (to_list j) (map_result as_str)"

definition deserialize_retry_policy :: "json \<Rightarrow> retry_policy result" where
  "deserialize_retry_policy env =
     bind_result (bind_result (jindex env ''initial_interval'') to_float) (\<lambda>ii.
     bind_result (bind_result (jindex env ''backoff_coefficient'') to_float) (\<lambda>bc.
     bind_result (optional to_float (jget env ''maximum_interval'')) (\<lambda>mi.
     bind_result (to_int (jget_default env ''maximum_attempts'' (JInt 0))) (\<lambda>ma.
     bind_result (optional as_str_list (jget env ''non_retryable_error_types'')) (\<lambda>ts.
       Inr \<lparr>initial_interval = timedelta_seconds ii, backoff_coefficient = bc,
            maximum_interval = map_option timedelta_seconds mi, maximum_attempts = ma,
            non_retryable_error_types = ts\<rparr>)))))"

lemma as_str_list_JStr: "as_str_list (JList (map JStr ts)) = Inr ts"
proof -
  have "map_result as_str (map JStr ts) = Inr ts" by (induction ts) simp_all
  then show ?thesis by (simp add: as_str_list_def)
qed

lemma wire_policy_roundtrip:
  "deserialize_retry_policy (serialize_retry_policy p) = Inr p"
proof -
  have "optional to_float (json_of_option (\<lambda>m. JNum (total_seconds m)) x)
      = Inr (map_option total_seconds x)" for x
    by (cases x) (simp_all add: optional_def)
  moreover have "optional as_str_list (json_of_option (\<lambda>ts. JList (map JStr ts)) y) = Inr y" for y
    by (rule optional_json_of_option) (simp add: as_str_list_JStr)
  ultimately show ?thesis
    by (simp add: serialize_retry_policy_def deserialize_retry_policy_def jindex_def jget_def
        jget_default_def option.map_comp o_def option.map_ident)
qed

text \<open>
  A retry policy survives its wire form exactly, the unset fields included.
\<close>

theorem retry_policy_roundtrip:
  "deserialize_retry_policy (serialize_retry_policy p) = Inr p"
  by (rule wire_policy_roundtrip)

end
