(* ===== verification/Inbox.thy ===== *)
theory Inbox
  imports Payloads
begin

text \<open>
  The inbox (\<open>dbosify/_internal/inbox.py\<close>): message envelopes, topics and event keys. The sender's
  wall clock \<open>time.time()\<close> is the parameter \<open>now\<close>.
\<close>

definition INBOX_TOPIC :: string where "INBOX_TOPIC = ''__dbosify_inbox''"
definition ASYNC_COMPLETE_TOPIC :: string where "ASYNC_COMPLETE_TOPIC = ''__dbosify_async_complete''"
definition RECV_TIMEOUT_SECONDS :: rat where "RECV_TIMEOUT_SECONDS = 3600"
definition CHILDREN_EVENT_KEY :: string where "CHILDREN_EVENT_KEY = ''__dbosify_children''"

subsection \<open>Envelopes\<close>

text \<open>\<open>dict(headers) if headers else {}\<close>.\<close>

definition headers_json :: "jdict option \<Rightarrow> json" where
  "headers_json h = (case h of Some d \<Rightarrow> JObj d | None \<Rightarrow> JObj [])"

definition signal_envelope :: "rat \<Rightarrow> string \<Rightarrow> json list \<Rightarrow> jdict option \<Rightarrow> json" where
  "signal_envelope now name args headers = JObj [
     (''kind'', JStr ''signal''), (''name'', JStr name), (''args'', JList args),
     (''headers'', headers_json headers), (''sent_at'', JNum now)]"

definition update_envelope :: "rat \<Rightarrow> string \<Rightarrow> json list \<Rightarrow> string \<Rightarrow> jdict option \<Rightarrow> json" where
  "update_envelope now name args update_id headers = JObj [
     (''kind'', JStr ''update''), (''name'', JStr name), (''args'', JList args),
     (''update_id'', JStr update_id), (''headers'', headers_json headers), (''sent_at'', JNum now)]"

definition query_envelope :: "rat \<Rightarrow> string \<Rightarrow> json list \<Rightarrow> string \<Rightarrow> jdict option \<Rightarrow> json" where
  "query_envelope now name args request_id headers = JObj [
     (''kind'', JStr ''query''), (''name'', JStr name), (''args'', JList args),
     (''request_id'', JStr request_id), (''headers'', headers_json headers), (''sent_at'', JNum now)]"

definition cancel_envelope :: "rat \<Rightarrow> string \<Rightarrow> json" where
  "cancel_envelope now reason = JObj [
     (''kind'', JStr ''cancel''), (''name'', JStr ''''), (''args'', JList []),
     (''reason'', JStr reason), (''sent_at'', JNum now)]"

definition activity_result_envelope ::
  "rat \<Rightarrow> string \<Rightarrow> json \<Rightarrow> json \<Rightarrow> bool \<Rightarrow> json" where
  "activity_result_envelope now activity_id result failure cancelled = JObj [
     (''kind'', JStr ''activity_result''), (''name'', JStr ''''), (''args'', JList []),
     (''activity_id'', JStr activity_id), (''ok'', JBool (failure = JNull \<and> \<not> cancelled)),
     (''result'', result), (''failure'', failure), (''cancelled'', JBool cancelled),
     (''sent_at'', JNum now)]"

definition activity_heartbeat_envelope :: "rat \<Rightarrow> string \<Rightarrow> json list \<Rightarrow> json" where
  "activity_heartbeat_envelope now activity_id details = JObj [
     (''kind'', JStr ''activity_heartbeat''), (''name'', JStr ''''), (''args'', JList []),
     (''activity_id'', JStr activity_id), (''details'', JList details), (''sent_at'', JNum now)]"

definition rehydrate_stop_envelope :: "rat \<Rightarrow> json" where
  "rehydrate_stop_envelope now = JObj [(''kind'', JStr ''rehydrate_stop''), (''sent_at'', JNum now)]"

text \<open>\<open>message.get("kind")\<close> of a message that is a dict.\<close>

definition message_kind :: "json \<Rightarrow> json" where
  "message_kind m = jget m ''kind''"

definition run_scoped :: "json \<Rightarrow> bool" where
  "run_scoped m \<longleftrightarrow> message_kind m = JStr ''activity_result'' \<or> message_kind m = JStr ''activity_heartbeat''"

definition is_cancel_message :: "json \<Rightarrow> bool" where
  "is_cancel_message m \<longleftrightarrow> message_kind m = JStr ''cancel''"

subsection \<open>Event keys\<close>

definition async_activity_gone_key :: "string \<Rightarrow> string" where
  "async_activity_gone_key activity_id = ''__dbosify_act_'' @ activity_id @ ''_gone''"

definition activity_cancel_key :: "string \<Rightarrow> string" where
  "activity_cancel_key activity_id = ''__dbosify_act_'' @ activity_id @ ''_cancel''"

definition update_acceptance_key :: "string \<Rightarrow> string" where
  "update_acceptance_key update_id = ''__dbosify_upd_'' @ update_id @ ''_accepted''"

definition update_result_key :: "string \<Rightarrow> string" where
  "update_result_key update_id = ''__dbosify_upd_'' @ update_id"

definition query_result_key :: "string \<Rightarrow> string" where
  "query_result_key request_id = ''__dbosify_q_'' @ request_id"

text \<open>
  Reply keys of distinct requests differ, with one exception: the result key of update
  \<open>v\<close> is the acceptance key of update \<open>u\<close> exactly when \<open>v\<close> is \<open>u\<close> followed by \<open>_accepted\<close>, so two
  updates with such ids read each other's events.
\<close>

theorem reply_keys:
  "(update_result_key u = update_result_key v \<longleftrightarrow> u = v) \<and>
   (update_acceptance_key u = update_acceptance_key v \<longleftrightarrow> u = v) \<and>
   (query_result_key u = query_result_key v \<longleftrightarrow> u = v) \<and>
   update_result_key u \<noteq> query_result_key v \<and> update_acceptance_key u \<noteq> query_result_key v \<and>
   async_activity_gone_key u \<noteq> activity_cancel_key v \<and>
   (update_result_key v = update_acceptance_key u \<longleftrightarrow> v = u @ ''_accepted'')"
proof -
  have "last (async_activity_gone_key u) \<noteq> last (activity_cancel_key v)"
    by (simp add: async_activity_gone_key_def activity_cancel_key_def)
  then have "async_activity_gone_key u \<noteq> activity_cancel_key v" by metis
  then show ?thesis
    by (simp add: update_result_key_def update_acceptance_key_def query_result_key_def)
qed

end
