(* ===== verification/Attributes.thy ===== *)
theory Attributes
  imports Payloads "HOL-Library.List_Lexorder" "HOL-Library.Char_ord"
begin

text \<open>
  Search attributes and memo: the typed collection and its keys (\<open>dbosify/common.py\<close>) and the DBOS
  attributes dict they are stored in (\<open>dbosify/_internal/attributes.py\<close>). Parameters: the value
  converter of memo entries, and \<open>datetime.fromisoformat\<close> (a datetime is its ISO form and whether it
  carries a time zone).
\<close>

subsection \<open>Typed keys and values\<close>

datatype sa_type = SA_TEXT | SA_KEYWORD | SA_INT | SA_DOUBLE | SA_BOOL | SA_DATETIME | SA_KEYWORD_LIST

datatype datetime = Datetime (iso: string) (tz_aware: bool)

datatype sa_value =
    SaStr string | SaInt int | SaFloat rat | SaBool bool | SaDatetime datetime | SaKeywords "string list"

datatype sa_pair = SaPair (sp_name: string) (sp_type: sa_type) (sp_value: sa_value)

fun metadata_type :: "sa_type \<Rightarrow> string" where
  "metadata_type SA_TEXT = ''Text''"
| "metadata_type SA_KEYWORD = ''Keyword''"
| "metadata_type SA_INT = ''Int''"
| "metadata_type SA_DOUBLE = ''Double''"
| "metadata_type SA_BOOL = ''Bool''"
| "metadata_type SA_DATETIME = ''Datetime''"
| "metadata_type SA_KEYWORD_LIST = ''KeywordList''"

definition from_metadata_type :: "string \<Rightarrow> sa_type option" where
  "from_metadata_type t =
     (if t \<in> {''Text'', ''INDEXED_VALUE_TYPE_TEXT''} then Some SA_TEXT
      else if t \<in> {''Keyword'', ''INDEXED_VALUE_TYPE_KEYWORD''} then Some SA_KEYWORD
      else if t \<in> {''Int'', ''INDEXED_VALUE_TYPE_INT''} then Some SA_INT
      else if t \<in> {''Double'', ''INDEXED_VALUE_TYPE_DOUBLE''} then Some SA_DOUBLE
      else if t \<in> {''Bool'', ''INDEXED_VALUE_TYPE_BOOL''} then Some SA_BOOL
      else if t \<in> {''Datetime'', ''INDEXED_VALUE_TYPE_DATETIME''} then Some SA_DATETIME
      else if t \<in> {''KeywordList'', ''INDEXED_VALUE_TYPE_KEYWORD_LIST''} then Some SA_KEYWORD_LIST
      else None)"

text \<open>
  The key guessed for an untyped value list. \<open>isinstance(v, int)\<close> holds of a bool as well, so the
  bool branch is never reached.
\<close>

definition guess_from_untyped_values :: "sa_value list \<Rightarrow> sa_type option" where
  "guess_from_untyped_values vals =
     (case vals of
        [] \<Rightarrow> None
      | v # w # _ \<Rightarrow> (case v of SaStr _ \<Rightarrow> Some SA_KEYWORD_LIST | _ \<Rightarrow> None)
      | [v] \<Rightarrow> (case v of
            SaStr _ \<Rightarrow> Some SA_KEYWORD
          | SaInt _ \<Rightarrow> Some SA_INT
          | SaBool _ \<Rightarrow> Some SA_INT
          | SaFloat _ \<Rightarrow> Some SA_DOUBLE
          | SaDatetime _ \<Rightarrow> Some SA_DATETIME
          | SaKeywords _ \<Rightarrow> None))"

subsection \<open>The typed collection\<close>

text \<open>\<open>TypedSearchAttributes(pairs)\<close>: sorted by key name, duplicate names rejected.\<close>

definition typed_search_attributes :: "sa_pair list \<Rightarrow> sa_pair list result" where
  "typed_search_attributes pairs =
     (let s = sort_key sp_name pairs
      in if distinct_adj (map sp_name s) then Inr s else Inl ValueError)"

definition sa_wf :: "sa_pair list \<Rightarrow> bool" where
  "sa_wf s \<longleftrightarrow> sorted (map sp_name s) \<and> distinct (map sp_name s)"

definition sa_getitem :: "sa_pair list \<Rightarrow> string \<Rightarrow> sa_type \<Rightarrow> sa_value result" where
  "sa_getitem s name t =
     (case find (\<lambda>p. sp_name p = name \<and> sp_type p = t) s of
        Some p \<Rightarrow> Inr (sp_value p) | None \<Rightarrow> Inl KeyError)"

definition sa_get :: "sa_pair list \<Rightarrow> string \<Rightarrow> sa_type \<Rightarrow> sa_value option \<Rightarrow> sa_value option" where
  "sa_get s name t dflt =
     (case sa_getitem s name t of Inr v \<Rightarrow> Some v | Inl _ \<Rightarrow> dflt)"

text \<open>One replacement of \<open>updated\<close>: the first pair of that name, or a new pair at the end.\<close>

fun sa_replace :: "sa_pair list \<Rightarrow> sa_pair \<Rightarrow> sa_pair list" where
  "sa_replace [] attr = [attr]"
| "sa_replace (p # ps) attr = (if sp_name attr = sp_name p then attr # ps else p # sa_replace ps attr)"

definition sa_updated :: "sa_pair list \<Rightarrow> sa_pair list \<Rightarrow> sa_pair list result" where
  "sa_updated s attrs = typed_search_attributes (foldl sa_replace s attrs)"

lemma sorted_distinct_adj:
  "sorted xs \<Longrightarrow> distinct_adj xs \<longleftrightarrow> distinct (xs :: 'a :: linorder list)"
proof (induction xs)
  case (Cons x xs)
  then show ?case
  proof (cases xs)
    case (Cons y ys)
    with Cons.IH Cons.prems show ?thesis
      by (auto simp: distinct_adj_Cons)
  qed simp
qed simp

lemma typed_search_attributes_Inr:
  "typed_search_attributes ps = Inr s \<longleftrightarrow> s = sort_key sp_name ps \<and> distinct (map sp_name ps)"
proof -
  have "distinct (map sp_name (sort_key sp_name ps)) \<longleftrightarrow> distinct (map sp_name ps)"
    by (simp add: distinct_map)
  then show ?thesis
    by (auto simp: typed_search_attributes_def Let_def sorted_distinct_adj)
qed

lemma typed_search_attributes_wf: "typed_search_attributes ps = Inr s \<Longrightarrow> sa_wf s"
  by (auto simp: typed_search_attributes_Inr sa_wf_def distinct_map)

lemma names_sa_replace: "sp_name ` set (sa_replace s a) = insert (sp_name a) (sp_name ` set s)"
  by (induction s) auto

lemma distinct_sa_replace: "distinct (map sp_name s) \<Longrightarrow> distinct (map sp_name (sa_replace s a))"
proof (induction s)
  case (Cons p s)
  with names_sa_replace [of s a] show ?case by auto
qed simp

lemma distinct_foldl_replace:
  "distinct (map sp_name s) \<Longrightarrow> distinct (map sp_name (foldl sa_replace s attrs))"
  by (induction attrs arbitrary: s) (auto intro: distinct_sa_replace)

text \<open>The pair stored under a name.\<close>

definition sa_lookup :: "sa_pair list \<Rightarrow> string \<Rightarrow> sa_pair option" where
  "sa_lookup s n = find (\<lambda>p. sp_name p = n) s"

lemma sa_lookup_Some:
  "distinct (map sp_name s) \<Longrightarrow> sa_lookup s n = Some p \<longleftrightarrow> p \<in> set s \<and> sp_name p = n"
proof (induction s)
  case (Cons q s)
  then show ?case by (auto simp: sa_lookup_def)
qed (simp add: sa_lookup_def)

lemma sa_lookup_cong:
  assumes "distinct (map sp_name s)" "distinct (map sp_name t)" "set s = set t"
  shows "sa_lookup s n = sa_lookup t n"
  using sa_lookup_Some [OF assms(1), of n] sa_lookup_Some [OF assms(2), of n] assms(3)
  by (metis not_Some_eq)

lemma sa_lookup_replace:
  "sa_lookup (sa_replace s a) n = (if n = sp_name a then Some a else sa_lookup s n)"
  by (induction s) (auto simp: sa_lookup_def)

text \<open>The value a sequence of replacements leaves under a name: the last one written.\<close>

lemma sa_lookup_foldl:
  "sa_lookup (foldl sa_replace s attrs) n =
     (case sa_lookup (rev attrs) n of Some a \<Rightarrow> Some a | None \<Rightarrow> sa_lookup s n)"
proof (induction attrs rule: rev_induct)
  case (snoc a attrs)
  have "sa_lookup (a # rev attrs) n = (if sp_name a = n then Some a else sa_lookup (rev attrs) n)"
    by (simp add: sa_lookup_def)
  with snoc show ?case by (simp add: sa_lookup_replace)
qed (simp add: sa_lookup_def)

lemma sa_lookup_sort:
  "distinct (map sp_name s) \<Longrightarrow> sa_lookup (sort_key sp_name s) n = sa_lookup s n"
  by (rule sa_lookup_cong) (auto simp: distinct_map)

lemma sa_updated_ok:
  assumes "sa_wf s"
  shows "\<exists>s'. sa_updated s attrs = Inr s' \<and> sa_wf s' \<and>
    (\<forall>n. sa_lookup s' n =
       (case sa_lookup (rev attrs) n of Some a \<Rightarrow> Some a | None \<Rightarrow> sa_lookup s n))"
proof -
  let ?r = "foldl sa_replace s attrs"
  have d: "distinct (map sp_name ?r)"
    using assms by (intro distinct_foldl_replace) (simp add: sa_wf_def)
  then have "sa_updated s attrs = Inr (sort_key sp_name ?r)"
    by (simp add: sa_updated_def typed_search_attributes_Inr)
  moreover from this have "sa_wf (sort_key sp_name ?r)"
    by (simp add: sa_updated_def typed_search_attributes_wf)
  ultimately show ?thesis using d by (simp add: sa_lookup_sort sa_lookup_foldl)
qed

subsection \<open>Upserts\<close>

text \<open>An update sets a key to a value or, with \<open>None\<close>, removes every pair of its name.\<close>

datatype sa_update = SaUpdate (su_name: string) (su_type: sa_type) (su_value: "sa_value option")

text \<open>
  The untyped form: a dict of value lists. (A list that starts with a string is a keyword list;
  other values in it are outside the value type and are left out.)
\<close>

definition untyped_pairs :: "(string, sa_value list) dict \<Rightarrow> sa_pair list" where
  "untyped_pairs attrs = List.map_filter (\<lambda>(name, values).
     case guess_from_untyped_values values of
       None \<Rightarrow> None
     | Some t \<Rightarrow> Some (SaPair name t
         (if t = SA_KEYWORD_LIST then SaKeywords (List.map_filter (\<lambda>v. case v of SaStr s \<Rightarrow> Some s | _ \<Rightarrow> None) values)
          else hd values))) attrs"

definition apply_sa_update :: "sa_pair list \<Rightarrow> sa_update \<Rightarrow> sa_pair list result" where
  "apply_sa_update s u =
     (case su_value u of
        None \<Rightarrow> typed_search_attributes (filter (\<lambda>p. sp_name p \<noteq> su_name u) s)
      | Some v \<Rightarrow> sa_updated s [SaPair (su_name u) (su_type u) v])"

fun apply_sa_updates :: "sa_pair list \<Rightarrow> sa_update list \<Rightarrow> sa_pair list result" where
  "apply_sa_updates s [] = Inr s"
| "apply_sa_updates s (u # us) = bind_result (apply_sa_update s u) (\<lambda>s'. apply_sa_updates s' us)"

definition apply_untyped_updates ::
  "sa_pair list \<Rightarrow> (string, sa_value list) dict \<Rightarrow> sa_pair list result" where
  "apply_untyped_updates s attrs = sa_updated s (untyped_pairs attrs)"

lemma apply_sa_update_ok:
  assumes "sa_wf s"
  shows "\<exists>s'. apply_sa_update s u = Inr s' \<and> sa_wf s' \<and>
    (\<forall>n. sa_lookup s' n =
       (if n = su_name u then map_option (SaPair n (su_type u)) (su_value u) else sa_lookup s n))"
proof (cases "su_value u")
  case None
  let ?f = "filter (\<lambda>p. sp_name p \<noteq> su_name u) s"
  have d: "distinct (map sp_name ?f)" using assms by (auto simp: sa_wf_def distinct_map inj_on_def)
  then have "apply_sa_update s u = Inr (sort_key sp_name ?f)"
    using None by (simp add: apply_sa_update_def typed_search_attributes_Inr)
  moreover from this have "sa_wf (sort_key sp_name ?f)"
    using None by (simp add: apply_sa_update_def typed_search_attributes_wf)
  moreover have "sa_lookup ?f n = (if n = su_name u then None else sa_lookup s n)" for n
    by (induction s) (auto simp: sa_lookup_def)
  ultimately show ?thesis using d None by (simp add: sa_lookup_sort)
next
  case (Some v)
  with sa_updated_ok [OF assms, of "[SaPair (su_name u) (su_type u) v]"] show ?thesis
    by (auto simp: apply_sa_update_def sa_lookup_def split: if_splits)
qed

text \<open>
  What a sequence of updates means for one name: the last update of that name decides.
\<close>

definition updates_spec :: "sa_pair list \<Rightarrow> sa_update list \<Rightarrow> string \<Rightarrow> sa_pair option" where
  "updates_spec s us n =
     (case find (\<lambda>u. su_name u = n) (rev us) of
        Some u \<Rightarrow> map_option (SaPair n (su_type u)) (su_value u)
      | None \<Rightarrow> sa_lookup s n)"

lemma find_snoc: "find P (xs @ [x]) = (case find P xs of Some y \<Rightarrow> Some y | None \<Rightarrow> if P x then Some x else None)"
  by (induction xs) auto

text \<open>
  Upserting search attributes never raises and keeps the collection sorted by name
  without duplicates; afterwards each name holds what the last update of that name says: the new
  typed value, nothing when it was unset, the old pair when no update names it.
\<close>

theorem apply_sa_updates_spec:
  assumes "sa_wf s"
  shows "\<exists>s'. apply_sa_updates s us = Inr s' \<and> sa_wf s' \<and> (\<forall>n. sa_lookup s' n = updates_spec s us n)"
  using assms
proof (induction us arbitrary: s)
  case (Cons u us)
  from apply_sa_update_ok [OF Cons.prems, of u] obtain s1 where s1: "apply_sa_update s u = Inr s1"
    "sa_wf s1" "\<And>n. sa_lookup s1 n =
       (if n = su_name u then map_option (SaPair n (su_type u)) (su_value u) else sa_lookup s n)"
    by blast
  from Cons.IH [OF s1(2)] obtain s' where s': "apply_sa_updates s1 us = Inr s'" "sa_wf s'"
    "\<And>n. sa_lookup s' n = updates_spec s1 us n" by blast
  have "updates_spec s1 us n = updates_spec s (u # us) n" for n
    by (auto simp: updates_spec_def s1(3) find_snoc split: option.split)
  with s1 s' show ?case by auto
qed (simp add: updates_spec_def)

theorem apply_sa_updates_spec_witness:
  "\<exists>s'. apply_sa_updates [SaPair ''a'' SA_INT (SaInt 1), SaPair ''c'' SA_KEYWORD (SaStr ''x'')]
       [SaUpdate ''b'' SA_BOOL (Some (SaBool True)), SaUpdate ''a'' SA_INT None] = Inr s' \<and>
     sa_lookup s' ''a'' = None \<and> sa_lookup s' ''c'' = Some (SaPair ''c'' SA_KEYWORD (SaStr ''x''))"
proof -
  have "sa_wf [SaPair ''a'' SA_INT (SaInt 1), SaPair ''c'' SA_KEYWORD (SaStr ''x'')]"
    by (simp add: sa_wf_def less_eq_char_def)
  from apply_sa_updates_spec [OF this, of "[SaUpdate ''b'' SA_BOOL (Some (SaBool True)), SaUpdate ''a'' SA_INT None]"]
  show ?thesis by (auto simp: updates_spec_def sa_lookup_def)
qed

subsection \<open>The stored form\<close>

definition sa_value_to_json :: "sa_type \<Rightarrow> sa_value \<Rightarrow> json result" where
  "sa_value_to_json t v =
     (if t = SA_DATETIME then
        (case v of
           SaDatetime d \<Rightarrow> if tz_aware d then Inr (JStr (iso d)) else Inl ValueError
         | _ \<Rightarrow> Inl TypeError)
      else if t = SA_KEYWORD_LIST then
        (case v of
           SaKeywords ks \<Rightarrow> Inr (JList (map JStr ks))
         | SaStr s \<Rightarrow> Inr (JList (map (\<lambda>c. JStr [c]) s))
         | _ \<Rightarrow> Inl TypeError)
      else (case v of
           SaStr s \<Rightarrow> Inr (JStr s)
         | SaInt i \<Rightarrow> Inr (JInt i)
         | SaFloat q \<Rightarrow> Inr (JNum q)
         | SaBool b \<Rightarrow> Inr (JBool b)
         | SaKeywords ks \<Rightarrow> Inr (JList (map JStr ks))
         | SaDatetime d \<Rightarrow> Inl TypeError))"

text \<open>
  Back from the stored scalar. A scalar of another shape would be passed through as it is; it is
  outside the value type and reads as TypeError.
\<close>

definition sa_value_from_json :: "(string \<Rightarrow> datetime option) \<Rightarrow> sa_type \<Rightarrow> json \<Rightarrow> sa_value result" where
  "sa_value_from_json fromisoformat t jv =
     (if t = SA_DATETIME then
        bind_result (as_str jv) (\<lambda>s. case fromisoformat s of
          Some d \<Rightarrow> Inr (SaDatetime d) | None \<Rightarrow> Inl ValueError)
      else if t = SA_KEYWORD_LIST then
        bind_result (to_list jv) (\<lambda>js. bind_result (map_result as_str js) (\<lambda>ks. Inr (SaKeywords ks)))
      else (case jv of
           JStr s \<Rightarrow> Inr (SaStr s)
         | JInt i \<Rightarrow> Inr (SaInt i)
         | JNum q \<Rightarrow> Inr (SaFloat q)
         | JBool b \<Rightarrow> Inr (SaBool b)
         | _ \<Rightarrow> Inl TypeError))"

fun encode_search_attributes :: "sa_pair list \<Rightarrow> jdict \<Rightarrow> jdict result" where
  "encode_search_attributes [] out = Inr out"
| "encode_search_attributes (p # ps) out =
     bind_result (sa_value_to_json (sp_type p) (sp_value p)) (\<lambda>v.
       encode_search_attributes ps
         (dict_set (sp_name p) (JObj [(''t'', JStr (metadata_type (sp_type p))), (''v'', v)]) out))"

text \<open>One stored entry; a malformed one is skipped.\<close>

definition decode_sa_entry :: "(string \<Rightarrow> datetime option) \<Rightarrow> string \<times> json \<Rightarrow> sa_pair option" where
  "decode_sa_entry fromisoformat = (\<lambda>(name, entry).
     case (obj_get entry ''t'', obj_get entry ''v'') of
       (Some (JStr t), Some v) \<Rightarrow>
         (case from_metadata_type t of
            None \<Rightarrow> None
          | Some ty \<Rightarrow>
              (case sa_value_from_json fromisoformat ty v of
                 Inl _ \<Rightarrow> None
               | Inr value \<Rightarrow> Some (SaPair name ty value)))
     | _ \<Rightarrow> None)"

definition decode_search_attributes ::
  "(string \<Rightarrow> datetime option) \<Rightarrow> jdict \<Rightarrow> sa_pair list result" where
  "decode_search_attributes fromisoformat stored =
     typed_search_attributes (List.map_filter (decode_sa_entry fromisoformat) stored)"

definition typed_to_untyped :: "sa_pair list \<Rightarrow> (string, sa_value list) dict" where
  "typed_to_untyped s = fold (\<lambda>p. dict_set (sp_name p)
     (case sp_value p of
        SaKeywords ks \<Rightarrow> if sp_type p = SA_KEYWORD_LIST then map SaStr ks else [sp_value p]
      | v \<Rightarrow> [v])) s []"

subsection \<open>Memo and the combined attributes\<close>

text \<open>\<open>enc\<close> and \<open>decv\<close> are \<open>conversion.encode_value\<close> and \<open>decode_value\<close>.\<close>

definition encode_memo :: "(json \<Rightarrow> json) \<Rightarrow> jdict \<Rightarrow> jdict" where
  "encode_memo enc memo = map (\<lambda>(k, v). (k, enc v)) memo"

definition decode_memo :: "(json \<Rightarrow> json) \<Rightarrow> jdict \<Rightarrow> jdict" where
  "decode_memo decv stored = map (\<lambda>(k, v). (k, decv v)) stored"

text \<open>\<open>apply_memo_updates\<close>, and the upsert of \<open>runtime_upsert_memo\<close>: \<open>None\<close> removes.\<close>

definition apply_memo_update :: "string \<times> json \<Rightarrow> jdict \<Rightarrow> jdict" where
  "apply_memo_update = (\<lambda>(name, v) memo. if v = JNull then dict_del name memo else dict_set name v memo)"

definition apply_memo_updates :: "jdict \<Rightarrow> jdict \<Rightarrow> jdict" where
  "apply_memo_updates memo updates = fold apply_memo_update updates memo"

definition encode_attributes ::
  "(json \<Rightarrow> json) \<Rightarrow> jdict option \<Rightarrow> sa_pair list option \<Rightarrow> jdict option result" where
  "encode_attributes enc memo sa =
     bind_result (case sa of None \<Rightarrow> Inr [] | Some s \<Rightarrow> encode_search_attributes s []) (\<lambda>encoded_sa.
       let out = (case memo of Some m \<Rightarrow> if m = [] then [] else [(''memo'', JObj (encode_memo enc m))] | None \<Rightarrow> [])
                 @ (if encoded_sa = [] then [] else [(''search_attributes'', JObj encoded_sa)])
       in Inr (if out = [] then None else Some out))"

definition decode_attributes ::
  "(string \<Rightarrow> datetime option) \<Rightarrow> (json \<Rightarrow> json) \<Rightarrow> jdict option \<Rightarrow> (jdict \<times> sa_pair list) result" where
  "decode_attributes fromisoformat decv attrs =
     (case attrs of
        None \<Rightarrow> Inr ([], [])
      | Some a \<Rightarrow>
          if a = [] then Inr ([], [])
          else
            bind_result (as_obj (jget_default (JObj a) ''memo'' (JObj []))) (\<lambda>m.
            bind_result (as_obj (jget_default (JObj a) ''search_attributes'' (JObj []))) (\<lambda>sa.
            bind_result (decode_search_attributes fromisoformat sa) (\<lambda>s.
              Inr (decode_memo decv m, s)))))"

subsection \<open>Storing and reading back\<close>

text \<open>Values of the type their key declares, datetimes with a time zone.\<close>

fun sa_typed :: "sa_pair \<Rightarrow> bool" where
  "sa_typed (SaPair _ SA_TEXT (SaStr _)) = True"
| "sa_typed (SaPair _ SA_KEYWORD (SaStr _)) = True"
| "sa_typed (SaPair _ SA_INT (SaInt _)) = True"
| "sa_typed (SaPair _ SA_DOUBLE (SaFloat _)) = True"
| "sa_typed (SaPair _ SA_BOOL (SaBool _)) = True"
| "sa_typed (SaPair _ SA_DATETIME (SaDatetime d)) = tz_aware d"
| "sa_typed (SaPair _ SA_KEYWORD_LIST (SaKeywords _)) = True"
| "sa_typed _ = False"

lemma from_metadata_type_metadata [simp]: "from_metadata_type (metadata_type t) = Some t"
  by (cases t) (simp_all add: from_metadata_type_def)

lemma map_result_as_str [simp]: "map_result as_str (map JStr ks) = Inr ks"
  by (induction ks) simp_all

text \<open>What the storage relies on.\<close>

locale attribute_codec =
  fixes enc decv :: "json \<Rightarrow> json" and fromisoformat :: "string \<Rightarrow> datetime option"
  assumes decv_enc: "decv (enc v) = v"
    and iso_roundtrip: "tz_aware d \<Longrightarrow> fromisoformat (iso d) = Some d"
begin

lemma sa_value_roundtrip:
  assumes "sa_typed p"
  obtains jv where "sa_value_to_json (sp_type p) (sp_value p) = Inr jv"
    "decode_sa_entry fromisoformat (sp_name p, JObj [(''t'', JStr (metadata_type (sp_type p))), (''v'', jv)])
       = Some p"
  using assms
  by (cases p rule: sa_typed.cases)
     (auto simp: sa_value_to_json_def decode_sa_entry_def sa_value_from_json_def iso_roundtrip from_metadata_type_def)

lemma encode_search_attributes_ok:
  assumes "\<forall>p\<in>set s. sa_typed p" and "distinct (map sp_name s)" and "sp_name ` set s \<inter> fst ` set out = {}"
  shows "\<exists>es. encode_search_attributes s out = Inr (out @ es) \<and>
    List.map_filter (decode_sa_entry fromisoformat) es = s"
  using assms
proof (induction s arbitrary: out)
  case (Cons p s)
  then have "sa_typed p" by simp
  from sa_value_roundtrip [OF this] obtain jv where
    jv: "sa_value_to_json (sp_type p) (sp_value p) = Inr jv" and
    e: "decode_sa_entry fromisoformat (sp_name p, JObj [(''t'', JStr (metadata_type (sp_type p))), (''v'', jv)])
       = Some p" by blast
  let ?e = "(sp_name p, JObj [(''t'', JStr (metadata_type (sp_type p))), (''v'', jv)])"
  have "sp_name p \<notin> fst ` set out" using Cons.prems(3) by auto
  then have set_new: "dict_set (sp_name p) (snd ?e) out = out @ [?e]"
    by (induction out) auto
  have "\<exists>es. encode_search_attributes s (out @ [?e]) = Inr ((out @ [?e]) @ es) \<and>
      List.map_filter (decode_sa_entry fromisoformat) es = s"
    using Cons.prems by (intro Cons.IH) auto
  then obtain es where "encode_search_attributes s (out @ [?e]) = Inr (out @ ?e # es)"
    "List.map_filter (decode_sa_entry fromisoformat) es = s" by auto
  with jv e set_new show ?case by (intro exI [of _ "?e # es"]) simp
qed (simp add: List.map_filter_def)

lemma decode_memo_encode: "decode_memo decv (encode_memo enc m) = m"
  by (induction m) (auto simp: decode_memo_def encode_memo_def decv_enc)

lemma attributes_roundtrip:
  assumes "\<forall>p\<in>set s. sa_typed p" and "sa_wf s"
  shows "\<exists>a. encode_attributes enc (Some m) (Some s) = Inr a \<and>
             decode_attributes fromisoformat decv a = Inr (m, s)"
proof -
  from encode_search_attributes_ok [OF assms(1), of "[]"] assms(2) obtain es where
    es: "encode_search_attributes s [] = Inr es" "List.map_filter (decode_sa_entry fromisoformat) es = s"
    by (auto simp: sa_wf_def)
  have "decode_search_attributes fromisoformat es = Inr s"
    using assms(2) es(2) by (simp add: decode_search_attributes_def typed_search_attributes_Inr sa_wf_def sort_key_id_if_sorted)
  with es(1) show ?thesis
    by (auto simp: encode_attributes_def decode_attributes_def jget_default_def decode_memo_encode
        Let_def typed_search_attributes_def decode_search_attributes_def List.map_filter_def)
       (auto simp: decode_memo_def encode_memo_def)
qed

end

interpretation json_attributes: attribute_codec "\<lambda>v. v" "\<lambda>v. v" "\<lambda>s. Some (Datetime s True)"
  by unfold_locales (auto simp: datetime.expand)

text \<open>
  Memo and search attributes survive the attributes column: when the converter gives back
  what it encoded and \<open>fromisoformat\<close> inverts \<open>isoformat\<close> on zoned datetimes, a well-typed
  collection and a memo are encoded without error and decode to themselves, the empty ones
  included. Continue-as-new and recovery read them back this way.
\<close>

theorem attributes_survive:
  assumes "\<And>v. decv (enc v) = v" and "\<And>d. tz_aware d \<Longrightarrow> fromisoformat (iso d) = Some d"
    and "\<forall>p\<in>set s. sa_typed p" and "sa_wf s"
  shows "\<exists>a. encode_attributes enc (Some m) (Some s) = Inr a \<and>
             decode_attributes fromisoformat decv a = Inr (m, s)"
  using assms by (intro attribute_codec.attributes_roundtrip attribute_codec.intro)

theorem attributes_survive_witness:
  "\<exists>a. encode_attributes (\<lambda>v. v) (Some [(''note'', JInt 3)])
         (Some [SaPair ''at'' SA_DATETIME (SaDatetime (Datetime ''2024-01-01T00:00:00+00:00'' True)),
                SaPair ''k'' SA_KEYWORD_LIST (SaKeywords [''x'', ''y''])]) = Inr a \<and>
       decode_attributes (\<lambda>s. Some (Datetime s True)) (\<lambda>v. v) a =
         Inr ([(''note'', JInt 3)],
              [SaPair ''at'' SA_DATETIME (SaDatetime (Datetime ''2024-01-01T00:00:00+00:00'' True)),
                SaPair ''k'' SA_KEYWORD_LIST (SaKeywords [''x'', ''y''])])"
  by (rule attributes_survive) (auto simp: sa_wf_def less_eq_char_def datetime.expand)

end
