(* ===== verification/Ids.thy ===== *)
theory Ids
  imports Prelude
begin

text \<open>
  Run, activity and replay-scratch ids (\<open>dbosify/_internal/ids.py\<close>): the reserved separators, how a
  Temporal workflow id and a run index are folded into one DBOS id and split again, and how a
  scratch fork's mode travels in its id.
\<close>

definition RUN_SEPARATOR :: string where "RUN_SEPARATOR = ''--r''"
definition ACTIVITY_SEPARATOR :: string where "ACTIVITY_SEPARATOR = ''--a''"
definition VERIFY_SEPARATOR :: string where "VERIFY_SEPARATOR = ''--v''"
definition REHYDRATE_SEPARATOR :: string where "REHYDRATE_SEPARATOR = ''--q''"

lemmas separator_defs =
  RUN_SEPARATOR_def ACTIVITY_SEPARATOR_def VERIFY_SEPARATOR_def REHYDRATE_SEPARATOR_def

subsection \<open>Building ids\<close>

definition validate_workflow_id :: "string \<Rightarrow> unit result" where
  "validate_workflow_id workflow_id =
     (if workflow_id = [] then Inl ValueError
      else if list_ex (\<lambda>separator. sublist separator workflow_id)
             [RUN_SEPARATOR, ACTIVITY_SEPARATOR, VERIFY_SEPARATOR, REHYDRATE_SEPARATOR]
      then Inl ValueError
      else Inr ())"

definition run_dbos_id :: "string \<Rightarrow> nat \<Rightarrow> string" where
  "run_dbos_id workflow_id run_index =
     (if run_index = 0 then workflow_id else workflow_id @ RUN_SEPARATOR @ dec run_index)"

definition activity_dbos_id :: "string \<Rightarrow> nat \<Rightarrow> string" where
  "activity_dbos_id run_id seq = run_id @ ACTIVITY_SEPARATOR @ dec seq"

text \<open>
  The scratch modes. The source passes the mode as the string \<open>"verify"\<close> or \<open>"rehydrate"\<close>.
\<close>

datatype replay_mode = Verify | Rehydrate

definition replay_scratch_id :: "string \<Rightarrow> replay_mode \<Rightarrow> string \<Rightarrow> string" where
  "replay_scratch_id run_id mode sfx =
     (let sep = (if mode = Verify then VERIFY_SEPARATOR else REHYDRATE_SEPARATOR)
      in run_id @ sep @ sfx)"

definition replay_scratch_mode :: "string \<Rightarrow> replay_mode option" where
  "replay_scratch_mode dbos_id =
     (if sublist VERIFY_SEPARATOR dbos_id then Some Verify
      else if sublist REHYDRATE_SEPARATOR dbos_id then Some Rehydrate
      else None)"

definition is_replay_scratch :: "string \<Rightarrow> bool" where
  "is_replay_scratch dbos_id \<longleftrightarrow> replay_scratch_mode dbos_id \<noteq> None"

subsection \<open>Splitting ids\<close>

definition parse_run :: "string \<Rightarrow> string \<times> nat" where
  "parse_run dbos_id =
     (case rpartition RUN_SEPARATOR dbos_id of
        Some (base, sfx) \<Rightarrow>
          if isdigit sfx then (base, int_of_digits sfx) else (dbos_id, 0)
      | None \<Rightarrow> (dbos_id, 0))"

definition run_index_of :: "string \<Rightarrow> string \<Rightarrow> nat option" where
  "run_index_of workflow_id dbos_id =
     (if dbos_id = workflow_id then Some 0
      else if \<not> prefix (workflow_id @ RUN_SEPARATOR) dbos_id then None
      else let sfx = drop (length workflow_id + length RUN_SEPARATOR) dbos_id
           in if isdigit sfx then Some (int_of_digits sfx) else None)"

text \<open>The id of an auto-named child: \<open>{parent run id}_{seq}\<close> (interpreter).\<close>

definition child_dbos_id :: "string \<Rightarrow> nat \<Rightarrow> string" where
  "child_dbos_id run_id seq = run_id @ ''_'' @ dec seq"

subsection \<open>Facts about the separators\<close>

lemma separators_nonempty [simp]:
  "RUN_SEPARATOR \<noteq> []" "ACTIVITY_SEPARATOR \<noteq> []"
  "VERIFY_SEPARATOR \<noteq> []" "REHYDRATE_SEPARATOR \<noteq> []"
  by (simp_all add: separator_defs)

lemma not_digit_separator_chars [simp]:
  "\<not> is_digit (CHR ''-'')" "\<not> is_digit (CHR ''r'')" "\<not> is_digit (CHR ''a'')"
  "\<not> is_digit (CHR ''v'')" "\<not> is_digit (CHR ''q'')" "\<not> is_digit (CHR ''_'')"
  by (simp_all add: is_digit_def)

lemma separator_chars_not_in_dec [simp]:
  "CHR ''-'' \<notin> set (dec n)" "CHR ''r'' \<notin> set (dec n)" "CHR ''a'' \<notin> set (dec n)"
  "CHR ''v'' \<notin> set (dec n)" "CHR ''q'' \<notin> set (dec n)" "CHR ''_'' \<notin> set (dec n)"
  by (rule not_in_dec, simp)+

lemma validate_workflow_id_iff:
  "validate_workflow_id w = Inr () \<longleftrightarrow>
     w \<noteq> [] \<and> \<not> sublist RUN_SEPARATOR w \<and> \<not> sublist ACTIVITY_SEPARATOR w \<and>
     \<not> sublist VERIFY_SEPARATOR w \<and> \<not> sublist REHYDRATE_SEPARATOR w"
  by (simp add: validate_workflow_id_def)

lemma no_dash_no_separator: "CHR ''-'' \<notin> set s \<Longrightarrow> \<not> sublist RUN_SEPARATOR s"
  by (auto simp: separator_defs dest: sublist_setD)

lemma rpartition_separator:
  assumes "CHR ''-'' \<notin> set s"
  shows "rpartition RUN_SEPARATOR (w @ RUN_SEPARATOR @ s) = Some (w, s)"
proof -
  have none: "rpartition RUN_SEPARATOR s = None"
    using assms by (simp add: rpartition_None_iff no_dash_no_separator)
  have np: "\<not> prefix RUN_SEPARATOR (CHR ''r'' # s)" "\<not> prefix RUN_SEPARATOR (CHR ''-'' # CHR ''r'' # s)"
    by (simp_all add: separator_defs)
  have "rpartition RUN_SEPARATOR (RUN_SEPARATOR @ s) = Some ([], s)"
    using none np by (simp add: separator_defs)
  then show ?thesis
    using rpartition_append by fastforce
qed

lemma parse_run_successor: "n > 0 \<Longrightarrow> parse_run (run_dbos_id w n) = (w, n)"
  by (simp add: parse_run_def run_dbos_id_def rpartition_separator)

lemma parse_run_base: "\<not> sublist RUN_SEPARATOR w \<Longrightarrow> parse_run w = (w, 0)"
  using rpartition_None_iff [of RUN_SEPARATOR w] by (simp add: parse_run_def)

lemma parse_run_child: "parse_run (child_dbos_id r k) = (child_dbos_id r k, 0)"
proof (cases "rpartition RUN_SEPARATOR (child_dbos_id r k)")
  case None
  then show ?thesis by (simp add: parse_run_def)
next
  case (Some bs)
  obtain b s where bs: "bs = (b, s)" by (cases bs)
  have eq: "r @ ''_'' @ dec k = b @ RUN_SEPARATOR @ s"
    using Some bs rpartition_Some by (simp add: child_dbos_id_def)
  have "\<not> isdigit s"
  proof
    assume "isdigit s"
    then have ds: "\<And>c. c \<in> set s \<Longrightarrow> is_digit c" by (auto simp: isdigit_def list_all_iff)
    obtain us where us: "r @ us = b @ RUN_SEPARATOR \<and> ''_'' @ dec k = us @ s
        \<or> r = (b @ RUN_SEPARATOR) @ us \<and> us @ ''_'' @ dec k = s"
      using eq append_eq_append_conv2 [of r "''_'' @ dec k" "b @ RUN_SEPARATOR" s] by auto
    then show False
    proof
      assume a: "r @ us = b @ RUN_SEPARATOR \<and> ''_'' @ dec k = us @ s"
      show False
      proof (cases us rule: rev_cases)
        case Nil
        with a ds [of "CHR ''_''"] show False by auto
      next
        case (snoc us' x)
        with a have "x = CHR ''r''"
          by (metis append_assoc append_is_Nil_conv last_appendR last_snoc separators_nonempty(1)
              RUN_SEPARATOR_def last.simps list.distinct(1))
        moreover have "x \<in> set (''_'' @ dec k)"
          using a snoc by simp
        ultimately show False by simp
      qed
    next
      assume "r = (b @ RUN_SEPARATOR) @ us \<and> us @ ''_'' @ dec k = s"
      with ds [of "CHR ''_''"] show False by auto
    qed
  qed
  with Some bs show ?thesis by (simp add: parse_run_def)
qed

lemma replay_mode_of_run:
  assumes "\<not> sublist VERIFY_SEPARATOR w" and "\<not> sublist REHYDRATE_SEPARATOR w"
  shows "replay_scratch_mode (run_dbos_id w n) = None"
proof -
  have "\<not> sublist VERIFY_SEPARATOR (w @ RUN_SEPARATOR @ dec n)"
    using assms(1) by (subst sublist_append_last) (simp_all add: separator_defs)
  moreover have "\<not> sublist REHYDRATE_SEPARATOR (w @ RUN_SEPARATOR @ dec n)"
    using assms(2) by (subst sublist_append_last) (simp_all add: separator_defs)
  ultimately show ?thesis
    using assms by (simp add: replay_scratch_mode_def run_dbos_id_def)
qed

lemma replay_mode_of_suffixed:
  assumes "\<not> sublist VERIFY_SEPARATOR w" and "\<not> sublist REHYDRATE_SEPARATOR w"
    and "CHR ''v'' \<notin> set y" and "CHR ''q'' \<notin> set y"
  shows "replay_scratch_mode (w @ y) = None"
proof -
  have "\<not> sublist VERIFY_SEPARATOR (w @ y)"
    using assms by (subst sublist_append_last) (simp_all add: separator_defs)
  moreover have "\<not> sublist REHYDRATE_SEPARATOR (w @ y)"
    using assms by (subst sublist_append_last) (simp_all add: separator_defs)
  ultimately show ?thesis by (simp add: replay_scratch_mode_def)
qed


lemma parse_run_valid: "validate_workflow_id w = Inr () \<Longrightarrow> parse_run (run_dbos_id w n) = (w, n)"
  by (cases "n = 0")
     (simp_all add: parse_run_successor, simp add: run_dbos_id_def parse_run_base validate_workflow_id_iff)

subsection \<open>Properties\<close>

text \<open>
  A run id splits back into the workflow id and the run index it was built from: for
  every id the client accepts, and every run index, \<open>parse_run\<close> inverts \<open>run_dbos_id\<close>.
\<close>
theorem parse_run_roundtrip:
  assumes "validate_workflow_id w = Inr ()"
  shows "parse_run (run_dbos_id w n) = (w, n)"
  using assms by (rule parse_run_valid)

theorem parse_run_roundtrip_witness:
  "validate_workflow_id ''order-7'' = Inr () \<and> parse_run (run_dbos_id ''order-7'' 12) = (''order-7'', 12)"
proof -
  have h: "validate_workflow_id ''order-7'' = Inr ()" by code_simp
  show ?thesis using h parse_run_roundtrip [OF h, of 12] by simp
qed

text \<open>
  Claim C35. Run ids cannot collide: two accepted workflow ids and two run indexes give the same
  DBOS id only when they are the same id and the same index, and the id of an auto-named child of
  a run is never the id of a run of an accepted workflow id other than run 0 of itself: it parses
  as its own run 0, also when the parent is a later run of its chain.
\<close>
theorem run_ids_injective:
  assumes "validate_workflow_id w = Inr ()" and "validate_workflow_id w' = Inr ()"
  shows "(run_dbos_id w n = run_dbos_id w' n' \<longleftrightarrow> w = w' \<and> n = n') \<and>
         parse_run (child_dbos_id (run_dbos_id w n) k) = (child_dbos_id (run_dbos_id w n) k, 0)"
  using parse_run_valid [OF assms(1), of n] parse_run_valid [OF assms(2), of n'] parse_run_child
  by (metis Pair_inject)

theorem run_ids_injective_witness:
  "validate_workflow_id ''a'' = Inr () \<and> validate_workflow_id ''a_1'' = Inr () \<and>
   run_dbos_id ''a'' 1 \<noteq> run_dbos_id ''a_1'' 1"
proof -
  have h: "validate_workflow_id ''a'' = Inr ()" "validate_workflow_id ''a_1'' = Inr ()"
    by code_simp+
  show ?thesis using h run_ids_injective [OF h, of 1 1] by simp
qed

text \<open>
  The index a chain member reports agrees with \<open>parse_run\<close>, and only members of the
  chain have one: \<open>run_index_of\<close> recovers the index of every run of the chain, and gives none
  to an auto-named child of one of its runs.
\<close>
theorem run_index_of_chain:
  assumes "validate_workflow_id w = Inr ()"
  shows "run_index_of w (run_dbos_id w n) = Some n \<and>
         run_index_of w (child_dbos_id (run_dbos_id w n) k) = None"
proof (cases "n = 0")
  case True
  have "\<not> prefix (w @ RUN_SEPARATOR) (w @ ''_'' @ dec k)"
    by (simp add: separator_defs)
  with True show ?thesis
    by (simp add: run_index_of_def run_dbos_id_def child_dbos_id_def)
next
  case False
  have "\<not> isdigit (dec n @ ''_'' @ dec k)"
    by (auto simp: isdigit_def)
  with False show ?thesis
    by (simp add: run_index_of_def run_dbos_id_def child_dbos_id_def separator_defs)
qed

theorem run_index_of_chain_witness:
  "validate_workflow_id ''w'' = Inr () \<and> run_index_of ''w'' (run_dbos_id ''w'' 3) = Some 3 \<and>
   run_index_of ''w'' (child_dbos_id (run_dbos_id ''w'' 3) 5) = None"
proof -
  have h: "validate_workflow_id ''w'' = Inr ()" by code_simp
  show ?thesis using h run_index_of_chain [OF h] by simp
qed

text \<open>
  A worker recognises a replay scratch fork, and its mode, from the id alone: no run,
  child or cross-queue activity of an accepted workflow id is taken for a scratch fork, and the
  scratch id of any such run reads back the mode it was made with. The token that makes a scratch
  id unique is a UUID (hexadecimal digits and dashes).
\<close>
theorem scratch_ids_recognised:
  assumes "validate_workflow_id w = Inr ()"
    and "set tok \<subseteq> set ''0123456789abcdef-''"
  shows "\<not> is_replay_scratch (run_dbos_id w n) \<and>
         \<not> is_replay_scratch (child_dbos_id (run_dbos_id w n) k) \<and>
         \<not> is_replay_scratch (activity_dbos_id (run_dbos_id w n) k) \<and>
         replay_scratch_mode (replay_scratch_id (run_dbos_id w n) mode tok) = Some mode"
proof -
  have w: "\<not> sublist VERIFY_SEPARATOR w" "\<not> sublist REHYDRATE_SEPARATOR w"
    using assms(1) by (simp_all add: validate_workflow_id_iff)
  have run: "\<not> sublist VERIFY_SEPARATOR (run_dbos_id w n)" "\<not> sublist REHYDRATE_SEPARATOR (run_dbos_id w n)"
    using replay_mode_of_run [OF w, of n] by (auto simp: replay_scratch_mode_def split: if_splits)
  have "replay_scratch_mode (child_dbos_id (run_dbos_id w n) k) = None"
    unfolding child_dbos_id_def by (rule replay_mode_of_suffixed [OF run]) simp_all
  moreover have "replay_scratch_mode (activity_dbos_id (run_dbos_id w n) k) = None"
    unfolding activity_dbos_id_def by (rule replay_mode_of_suffixed [OF run]) (simp_all add: separator_defs)
  moreover have "replay_scratch_mode (replay_scratch_id (run_dbos_id w n) mode tok) = Some mode"
  proof (cases mode)
    case Verify
    then show ?thesis by (simp add: replay_scratch_mode_def replay_scratch_id_def)
  next
    case Rehydrate
    have "CHR ''v'' \<notin> set tok" using assms(2) by auto
    then have "\<not> sublist VERIFY_SEPARATOR (run_dbos_id w n @ (REHYDRATE_SEPARATOR @ tok))"
      using run(1) by (subst sublist_append_last) (simp_all add: separator_defs)
    with Rehydrate show ?thesis
      by (simp add: replay_scratch_mode_def replay_scratch_id_def)
  qed
  ultimately show ?thesis
    using replay_mode_of_run [OF w, of n] by (simp add: is_replay_scratch_def)
qed

theorem scratch_ids_recognised_witness:
  "validate_workflow_id ''w'' = Inr () \<and>
   replay_scratch_mode (replay_scratch_id (run_dbos_id ''w'' 2) Rehydrate ''0a-9'') = Some Rehydrate"
proof -
  have h: "validate_workflow_id ''w'' = Inr ()" "set ''0a-9'' \<subseteq> set ''0123456789abcdef-''"
    by code_simp+
  show ?thesis using h scratch_ids_recognised [OF h] by blast
qed

end
