(* ===== verification/Chain.thy ===== *)
theory Chain
  imports Ids
begin

text \<open>
  Resolving a run chain to its newest run (\<open>resolve_latest_run\<close> of \<open>dbosify/_internal/ids.py\<close>):
  a batched probe over a ladder of run indexes, a doubling phase for chains past the ladder's top,
  and a bracket refinement. The status lookup is a parameter (it is a database read); the locale
  \<open>chain_store\<close> states what the resolution relies on.
\<close>

type_synonym 'st lookup = "string list \<Rightarrow> (string \<times> 'st) list"

definition DENSE_PROBE_LIMIT :: nat where "DENSE_PROBE_LIMIT = 16"
definition MAX_PROBE_EXPONENT :: nat where "MAX_PROBE_EXPONENT = 20"
definition REFINE_BATCH :: nat where "REFINE_BATCH = 16"

definition probe_ladder :: "nat list" where
  "probe_ladder = [0..<DENSE_PROBE_LIMIT + 1] @ map (\<lambda>e. 2 ^ e) [5..<MAX_PROBE_EXPONENT + 1]"

text \<open>\<open>range(a, b, s)\<close> for a positive step.\<close>

definition range_step :: "nat \<Rightarrow> nat \<Rightarrow> nat \<Rightarrow> nat list" where
  "range_step a b s = map (\<lambda>k. a + k * s) [0..<(b - a + s - 1) div s]"

text \<open>
  \<open>probe\<close>: the ids of the asked indexes, one batched lookup, and the answers keyed by index
  again. An id the lookup was not asked for raises KeyError.
\<close>

definition probe_ids :: "string \<Rightarrow> nat list \<Rightarrow> (string, nat) dict" where
  "probe_ids workflow_id indexes = fold (\<lambda>i. dict_set (run_dbos_id workflow_id i) i) indexes []"

definition probe :: "string \<Rightarrow> 'st lookup \<Rightarrow> nat list \<Rightarrow> (nat, 'st) dict result" where
  "probe workflow_id lookup indexes =
     (let by_id = probe_ids workflow_id indexes;
          statuses = lookup (map fst by_id)
      in bind_result
           (map_result (\<lambda>(did, st). case dict_get by_id did of
              None \<Rightarrow> Inl KeyError | Some i \<Rightarrow> Inr (i, st)) statuses)
           (\<lambda>kvs. Inr (fold (\<lambda>(i, st). dict_set i st) kvs [])))"

text \<open>\<open>max(found)\<close> together with \<open>found[max(found)]\<close>; none for an empty dict.\<close>

fun newest :: "(nat, 'st) dict \<Rightarrow> (nat \<times> 'st) option" where
  "newest [] = None"
| "newest ((i, st) # d) =
     (case newest d of
        None \<Rightarrow> Some (i, st)
      | Some (j, st') \<Rightarrow> if i < j then Some (j, st') else Some (i, st))"

definition first_missing :: "nat \<Rightarrow> (nat, 'st) dict \<Rightarrow> nat list \<Rightarrow> nat option" where
  "first_missing lo found cs = find (\<lambda>c. lo < c \<and> dict_get found c = None) cs"

text \<open>Doubling past the ladder's top, until some probed index above the newest is missing.\<close>

partial_function (option) extend_bracket ::
  "string \<Rightarrow> 'st lookup \<Rightarrow> nat \<Rightarrow> 'st \<Rightarrow> (nat \<times> 'st \<times> nat) result option" where
  "extend_bracket workflow_id lookup lo lo_status =
     (let extension = map (\<lambda>k. lo * 2 ^ k) [1..<5]
      in case probe workflow_id lookup extension of
           Inl e \<Rightarrow> Some (Inl e)
         | Inr found \<Rightarrow>
             (let missing = filter (\<lambda>c. dict_get found c = None) extension;
                  best = (case newest found of Some b \<Rightarrow> b | None \<Rightarrow> (lo, lo_status))
              in case find (\<lambda>c. fst best < c) missing of
                   Some hi \<Rightarrow> Some (Inr (fst best, snd best, hi))
                 | None \<Rightarrow> extend_bracket workflow_id lookup (fst best) (snd best)))"

lemma keys_probe_ids: "fst ` set (probe_ids w is) = run_dbos_id w ` set is"
proof -
  have "fst ` set (fold (\<lambda>i. dict_set (run_dbos_id w i) i) is d) = fst ` set d \<union> run_dbos_id w ` set is"
    for d by (induction "is" arbitrary: d) (simp_all add: keys_dict_set)
  then show ?thesis by (simp add: probe_ids_def)
qed

lemma probe_ids_values: "dict_get (probe_ids w is) d = Some i \<Longrightarrow> i \<in> set is \<and> d = run_dbos_id w i"
proof -
  have "dict_get (fold (\<lambda>i. dict_set (run_dbos_id w i) i) is m) d = Some i \<Longrightarrow>
        dict_get m d = Some i \<or> i \<in> set is \<and> d = run_dbos_id w i" for m
  proof (induction "is" arbitrary: m)
    case (Cons a as)
    from Cons.IH Cons.prems
    have "dict_get (dict_set (run_dbos_id w a) a m) d = Some i \<or> i \<in> set as \<and> d = run_dbos_id w i"
      by simp
    then show ?case by (auto simp: dict_get_set split: if_splits)
  qed simp
  then show "dict_get (probe_ids w is) d = Some i \<Longrightarrow> i \<in> set is \<and> d = run_dbos_id w i"
    by (fastforce simp: probe_ids_def)
qed

lemma fold_dict_set_keys:
  "fst ` set (fold (\<lambda>(i, st). dict_set i st) kvs d) = fst ` set d \<union> fst ` set kvs"
  by (induction kvs arbitrary: d) (simp_all add: keys_dict_set split_beta)

lemma map_result_keys:
  "map_result f xs = Inr ys \<Longrightarrow> y \<in> set ys \<Longrightarrow> \<exists>x\<in>set xs. f x = Inr y"
  by (induction xs arbitrary: ys) (auto simp: bind_result_Inr_iff)

lemma probe_keys:
  assumes "probe w lookup is = Inr found"
  shows "fst ` set found \<subseteq> set is"
proof
  fix i assume "i \<in> fst ` set found"
  moreover from assms obtain kvs where
    kvs: "map_result (\<lambda>(did, st). case dict_get (probe_ids w is) did of
            None \<Rightarrow> Inl KeyError | Some i \<Rightarrow> Inr (i, st)) (lookup (map fst (probe_ids w is))) = Inr kvs"
    and found: "found = fold (\<lambda>(i, st). dict_set i st) kvs []"
    by (auto simp: probe_def Let_def bind_result_Inr_iff)
  ultimately obtain st where "(i, st) \<in> set kvs" by (auto simp: fold_dict_set_keys)
  from map_result_keys [OF kvs this] show "i \<in> set is"
    by (auto split: option.splits dest: probe_ids_values)
qed

lemma newest_in: "newest d = Some (i, st) \<Longrightarrow> (i, st) \<in> set d"
proof (induction d arbitrary: i st)
  case (Cons x d)
  then show ?case by (cases x) (auto split: option.splits if_splits)
qed simp

lemma newest_None_iff: "newest d = None \<longleftrightarrow> d = []"
  by (cases d) (auto split: option.splits if_splits)

lemma set_range_step: "s > 0 \<Longrightarrow> x \<in> set (range_step a b s) \<Longrightarrow> a \<le> x \<and> x < b"
proof -
  assume s: "s > 0" and "x \<in> set (range_step a b s)"
  then obtain k where k: "k < (b - a + s - 1) div s" "x = a + k * s"
    by (auto simp: range_step_def)
  then have "Suc k \<le> (b - a + s - 1) div s" by simp
  then have "Suc k * s \<le> b - a + s - 1"
    using s by (metis div_times_less_eq_dividend le_trans mult_le_mono1)
  with k s show "a \<le> x \<and> x < b" by auto
qed

lemma range_step_Cons: "s > 0 \<Longrightarrow> a < b \<Longrightarrow> \<exists>xs. range_step a b s = a # xs"
proof -
  assume "s > 0" "a < b"
  then have "0 < (b - a + s - 1) div s"
    by (simp add: div_greater_zero_iff)
  then show ?thesis by (simp add: range_step_def upt_conv_Cons)
qed

text \<open>
  Refining the bracket \<open>lo\<close> (newest index found) to \<open>hi\<close> (an index above it that is missing).
\<close>

definition refine_points :: "nat \<Rightarrow> nat \<Rightarrow> nat list" where
  "refine_points lo hi =
     (let step = max 1 ((hi - lo) div (REFINE_BATCH + 1))
      in take REFINE_BATCH (range_step (lo + step) hi step))"

lemma refine_points_bounds: "p \<in> set (refine_points lo hi) \<Longrightarrow> lo < p \<and> p < hi"
proof -
  let ?s = "max 1 ((hi - lo) div (REFINE_BATCH + 1))"
  assume "p \<in> set (refine_points lo hi)"
  then have "p \<in> set (range_step (lo + ?s) hi ?s)"
    by (auto simp: refine_points_def Let_def dest: in_set_takeD)
  then have "lo + ?s \<le> p \<and> p < hi"
    by (rule set_range_step [rotated]) simp
  moreover have "1 \<le> ?s" by simp
  ultimately show ?thesis by linarith
qed

lemma refine_points_Cons:
  assumes "hi - lo > 1" shows "\<exists>p ps. refine_points lo hi = p # ps"
proof -
  let ?s = "max 1 ((hi - lo) div (REFINE_BATCH + 1))"
  have "(hi - lo) div (REFINE_BATCH + 1) < hi - lo"
    using assms by (simp add: REFINE_BATCH_def)
  with assms have "lo + ?s < hi" by linarith
  moreover have "0 < ?s" by linarith
  ultimately obtain xs where "range_step (lo + ?s) hi ?s = (lo + ?s) # xs"
    using range_step_Cons by blast
  then show ?thesis
    by (simp add: refine_points_def Let_def REFINE_BATCH_def)
qed

lemma newest_of_probe_bounds:
  assumes "probe w lookup (refine_points lo hi) = Inr found" and "newest found = Some (lo', st')"
  shows "lo < lo' \<and> lo' < hi"
  using newest_in [OF assms(2)] probe_keys [OF assms(1)] refine_points_bounds [of lo' lo hi]
  by force

lemma first_missing_bounds:
  assumes "first_missing lo' found (refine_points lo hi) = Some p"
  shows "lo' < p \<and> p < hi"
  using assms refine_points_bounds [of p lo hi]
  by (auto simp: first_missing_def find_Some_iff in_set_conv_nth)

lemma refine_measure_none:
  assumes "Suc 0 < hi - lo" shows "hd (refine_points lo hi) - lo < hi - lo"
proof -
  obtain p ps where "refine_points lo hi = p # ps"
    using refine_points_Cons assms by (metis One_nat_def)
  then show ?thesis using refine_points_bounds [of p lo hi] by auto
qed

lemma refine_measure_some:
  assumes "probe w lookup (refine_points lo hi) = Inr found" and "newest found = Some (lo', st')"
  shows "(case first_missing lo' found (refine_points lo hi) of None \<Rightarrow> hi | Some p \<Rightarrow> p) - lo' < hi - lo"
proof -
  have "lo < lo' \<and> lo' < hi" using assms by (rule newest_of_probe_bounds)
  then show ?thesis
    by (auto split: option.split dest: first_missing_bounds)
qed

function refine_bracket ::
  "string \<Rightarrow> 'st lookup \<Rightarrow> nat \<Rightarrow> 'st \<Rightarrow> nat \<Rightarrow> (nat \<times> 'st) result" where
  "refine_bracket workflow_id lookup lo lo_status hi =
     (if hi - lo > 1 then
        let points = refine_points lo hi
        in case probe workflow_id lookup points of
             Inl e \<Rightarrow> Inl e
           | Inr found \<Rightarrow>
               (case newest found of
                  Some (lo', st') \<Rightarrow>
                    refine_bracket workflow_id lookup lo' st'
                      (case first_missing lo' found points of Some p \<Rightarrow> p | None \<Rightarrow> hi)
                | None \<Rightarrow> refine_bracket workflow_id lookup lo lo_status (hd points))
      else Inr (lo, lo_status))"
  by pat_completeness auto

termination
  by (relation "measure (\<lambda>(w, lookup, lo, st, hi). hi - lo)")
     (auto intro: refine_measure_none refine_measure_some)

declare refine_bracket.simps [simp del]

definition resolve_latest_run ::
  "string \<Rightarrow> 'st lookup \<Rightarrow> (nat \<times> 'st) option result option" where
  "resolve_latest_run workflow_id lookup =
     (case probe workflow_id lookup probe_ladder of
        Inl e \<Rightarrow> Some (Inl e)
      | Inr found \<Rightarrow>
          (case newest found of
             None \<Rightarrow> Some (Inr None)
           | Some (lo, lo_status) \<Rightarrow>
               (case (case first_missing lo found probe_ladder of
                        Some hi \<Rightarrow> Some (Inr (lo, lo_status, hi))
                      | None \<Rightarrow> extend_bracket workflow_id lookup lo lo_status) of
                  None \<Rightarrow> None
                | Some (Inl e) \<Rightarrow> Some (Inl e)
                | Some (Inr (lo, lo_status, hi)) \<Rightarrow>
                    Some (bind_result (refine_bracket workflow_id lookup lo lo_status hi)
                            (\<lambda>r. Inr (Some r))))))"

subsection \<open>The lookup the resolution relies on\<close>

text \<open>
  A batched exact-id lookup answers with exactly the asked ids that exist, each with its status.
\<close>

locale chain_store =
  fixes lookup :: "'st lookup"
    and status :: "string \<Rightarrow> 'st option"
  assumes lookup_exact: "dict_get (lookup ids) d = (if d \<in> set ids then status d else None)"
    and lookup_wf: "dict_wf (lookup ids)"

lemma run_dbos_id_inject: "run_dbos_id w i = run_dbos_id w j \<longleftrightarrow> i = j"
  by (auto simp: run_dbos_id_def RUN_SEPARATOR_def)

lemma dict_get_probe_ids:
  "dict_get (probe_ids w is) d = Some i \<longleftrightarrow> i \<in> set is \<and> d = run_dbos_id w i"
proof
  assume h: "i \<in> set is \<and> d = run_dbos_id w i"
  then have "d \<in> fst ` set (probe_ids w is)" by (simp add: keys_probe_ids)
  then obtain j where j: "dict_get (probe_ids w is) d = Some j"
    by (metis dict_get_None_iff option.exhaust)
  with h show "dict_get (probe_ids w is) d = Some i"
    using probe_ids_values [OF j] by (simp add: run_dbos_id_inject)
qed (rule probe_ids_values)

lemma dict_get_fold_set:
  assumes "distinct (map fst kvs)"
  shows "dict_get (fold (\<lambda>(i, st). dict_set i st) kvs d) i =
         (case map_of kvs i of Some v \<Rightarrow> Some v | None \<Rightarrow> dict_get d i)"
  using assms
proof (induction kvs arbitrary: d)
  case (Cons kv kvs)
  obtain j v where kv: "kv = (j, v)" by (cases kv)
  with Cons.prems have "map_of kvs j = None" by (auto simp: map_of_eq_None_iff)
  with Cons kv show ?case by (auto simp: dict_get_set split: option.splits)
qed simp

lemma dict_wf_fold_set: "dict_wf d \<Longrightarrow> dict_wf (fold (\<lambda>(i, st). dict_set i st) kvs d)"
  by (induction kvs arbitrary: d) (auto intro: dict_wf_set)

lemma dict_get_iff: "dict_wf d \<Longrightarrow> dict_get d k = Some v \<longleftrightarrow> (k, v) \<in> set d"
  by (auto simp: dict_wf_def dict_get_def)

lemma dict_get_swap_keys:
  assumes "dict_wf sts" and "\<And>did st. (did, st) \<in> set sts \<Longrightarrow> \<exists>i. did = f i"
    and "\<And>i. g (f i) = i"
  shows "map_of (map (\<lambda>(did, st). (g did, st)) sts) i = dict_get sts (f i) \<and>
         distinct (map fst (map (\<lambda>(did, st). (g did, st)) sts))"
  using assms(1,2)
proof (induction sts)
  case (Cons x sts)
  obtain did st where x: "x = (did, st)" by (cases x)
  with Cons.prems(2) obtain j where j: "did = f j" by auto
  have IH: "map_of (map (\<lambda>(did, st). (g did, st)) sts) i = dict_get sts (f i)"
    "distinct (map fst (map (\<lambda>(did, st). (g did, st)) sts))"
    using Cons by (auto simp: dict_wf_def)
  have "g did \<notin> fst ` set (map (\<lambda>(did, st). (g did, st)) sts)"
  proof
    assume "g did \<in> fst ` set (map (\<lambda>(did, st). (g did, st)) sts)"
    then obtain did' st' where d': "(did', st') \<in> set sts" "g did' = g did" by auto
    with Cons.prems(2) obtain k where "did' = f k" by auto
    with d' j assms(3) have "did' = did" by simp
    with d' Cons.prems(1) x show False by (force simp: dict_wf_def)
  qed
  moreover have "f i = did \<longleftrightarrow> g did = i" using j assms(3) by metis
  ultimately show ?case using IH x by (auto simp: dict_get_def)
qed (simp add: dict_wf_def)

context chain_store
begin

lemma probe_spec:
  "\<exists>found. probe w lookup is = Inr found \<and> dict_wf found \<and>
     (\<forall>i. dict_get found i = (if i \<in> set is then status (run_dbos_id w i) else None))"
proof -
  let ?by = "probe_ids w is"
  let ?sts = "lookup (map fst ?by)"
  let ?g = "\<lambda>did. (if \<exists>i. did = run_dbos_id w i then (THE i. did = run_dbos_id w i) else 0)"
  have g: "?g (run_dbos_id w i) = i" for i by (simp add: run_dbos_id_inject)
  have keys: "did \<in> run_dbos_id w ` set is" if "(did, st) \<in> set ?sts" for did st
  proof -
    from that lookup_wf have "dict_get ?sts did = Some st" by (simp add: dict_get_iff)
    then show ?thesis by (simp add: lookup_exact keys_probe_ids split: if_splits)
  qed
  have each: "(case x of (did, st) \<Rightarrow> case dict_get ?by did of None \<Rightarrow> Inl KeyError | Some i \<Rightarrow> Inr (i, st))
      = Inr (case x of (did, st) \<Rightarrow> (?g did, st))" if "x \<in> set ?sts" for x
  proof -
    obtain did st where x: "x = (did, st)" by (cases x)
    with keys that obtain i where i: "i \<in> set is" "did = run_dbos_id w i" by auto
    then have "dict_get ?by did = Some i" by (simp add: dict_get_probe_ids)
    with x i g show ?thesis by simp
  qed
  let ?kvs = "map (\<lambda>(did, st). (?g did, st)) ?sts"
  have run: "probe w lookup is = Inr (fold (\<lambda>(i, st). dict_set i st) ?kvs [])"
    using map_result_Inr [of ?sts, OF each] by (simp add: probe_def Let_def)
  have sw: "map_of ?kvs i = dict_get ?sts (run_dbos_id w i) \<and> distinct (map fst ?kvs)" for i
    by (rule dict_get_swap_keys [OF lookup_wf]) (use keys g in auto)
  have "dict_get (fold (\<lambda>(i, st). dict_set i st) ?kvs []) i
      = (if i \<in> set is then status (run_dbos_id w i) else None)" for i
  proof -
    have "dict_get (fold (\<lambda>(i, st). dict_set i st) ?kvs []) i = map_of ?kvs i"
      using sw by (subst dict_get_fold_set) (auto split: option.split)
    also have "\<dots> = (if run_dbos_id w i \<in> run_dbos_id w ` set is then status (run_dbos_id w i) else None)"
      using sw [of i] by (simp add: lookup_exact keys_probe_ids)
    finally show ?thesis by (auto simp: run_dbos_id_inject)
  qed
  then show ?thesis using run dict_wf_fold_set [of "[]"] by fastforce
qed

end

lemma newest_spec:
  assumes "dict_wf d"
  shows "newest d = Some (i, st) \<longleftrightarrow> dict_get d i = Some st \<and> (\<forall>j. dict_get d j \<noteq> None \<longrightarrow> j \<le> i)"
  using assms
proof (induction d arbitrary: i st)
  case (Cons x d)
  obtain a b where x: "x = (a, b)" by (cases x)
  from Cons.prems x have wf: "dict_wf d" and a: "dict_get d a = None"
    by (auto simp: dict_wf_def dict_get_None_iff)
  show ?case
  proof (cases "newest d")
    case None
    then have "d = []" by (simp add: newest_None_iff)
    with x show ?thesis by (auto simp: dict_get_Cons)
  next
    case (Some js)
    obtain j s where js: "js = (j, s)" by (cases js)
    with Some Cons.IH [OF wf] have "dict_get d j = Some s" "\<forall>k. dict_get d k \<noteq> None \<longrightarrow> k \<le> j"
      by auto
    note j = this
    show ?thesis
    proof (cases "a < j")
      case True
      with x js Some have "newest (x # d) = Some (i, st) \<longleftrightarrow> i = j \<and> st = s" by auto
      moreover have "i = j" if "dict_get (x # d) i = Some st" "\<forall>k. dict_get (x # d) k \<noteq> None \<longrightarrow> k \<le> i"
      proof -
        have "dict_get (x # d) j \<noteq> None" using x j by (simp add: dict_get_Cons)
        with that(2) have "j \<le> i" by blast
        with True x that(1) have "dict_get d i = Some st" by (simp add: dict_get_Cons)
        with j(2) have "i \<le> j" by auto
        with \<open>j \<le> i\<close> show ?thesis by simp
      qed
      moreover have "dict_get (x # d) j = Some s" using True x j by (simp add: dict_get_Cons)
      moreover have "\<forall>k. dict_get (x # d) k \<noteq> None \<longrightarrow> k \<le> j"
        using True x j(2) by (auto simp: dict_get_Cons)
      ultimately show ?thesis by (metis option.inject)
    next
      case False
      with x js Some have "newest (x # d) = Some (i, st) \<longleftrightarrow> i = a \<and> st = b" by auto
      moreover have "i = a" if "dict_get (x # d) i = Some st" "\<forall>k. dict_get (x # d) k \<noteq> None \<longrightarrow> k \<le> i"
      proof (rule ccontr)
        assume "i \<noteq> a"
        with x that(1) j(2) have "i \<le> j" by (simp add: dict_get_Cons)
        moreover have "a \<le> i" using that(2) x by (simp add: dict_get_Cons)
        ultimately show False using False \<open>i \<noteq> a\<close> by simp
      qed
      moreover have "\<forall>k. dict_get (x # d) k \<noteq> None \<longrightarrow> k \<le> a"
        using False x j(2) by (auto simp: dict_get_Cons)
      moreover have "dict_get (x # d) a = Some b" using x by (simp add: dict_get_Cons)
      ultimately show ?thesis by (metis option.inject)
    qed
  qed
qed simp

lemma newest_None_spec: "newest d = None \<longleftrightarrow> (\<forall>i. dict_get d i = None)"
  by (metis dict_get_None_iff empty_iff ex_in_conv image_is_empty newest_None_iff set_empty)

text \<open>
  A run chain whose runs from index \<open>m\<close> to index \<open>n\<close> exist (no gap between them; runs before
  \<open>m\<close> may have been deleted).
\<close>

locale run_chain = chain_store lookup status
  for lookup :: "'st lookup" and status :: "string \<Rightarrow> 'st option" +
  fixes w :: string and m n :: nat
  assumes exists_iff: "status (run_dbos_id w i) \<noteq> None \<longleftrightarrow> m \<le> i \<and> i \<le> n"
    and nonempty: "m \<le> n"
begin

lemma probe_found:
  assumes "probe w lookup is = Inr found"
  shows "dict_wf found" and "dict_get found i = (if i \<in> set is then status (run_dbos_id w i) else None)"
  using probe_spec [of w "is"] assms by auto

lemma probe_total: "\<exists>found. probe w lookup is = Inr found"
  using probe_spec [of w "is"] by blast

lemma found_iff:
  assumes "probe w lookup is = Inr found"
  shows "dict_get found i \<noteq> None \<longleftrightarrow> i \<in> set is \<and> m \<le> i \<and> i \<le> n"
  using probe_found(2) [OF assms, of i] exists_iff [of i] by auto

lemma newest_found:
  assumes "probe w lookup is = Inr found" and "newest found = Some (lo, st)"
  shows "lo \<in> set is \<and> m \<le> lo \<and> lo \<le> n \<and> status (run_dbos_id w lo) = Some st \<and>
         (\<forall>j\<in>set is. m \<le> j \<and> j \<le> n \<longrightarrow> j \<le> lo)"
proof -
  from assms probe_found(1) have get: "dict_get found lo = Some st"
    and max: "\<forall>j. dict_get found j \<noteq> None \<longrightarrow> j \<le> lo"
    by (auto simp: newest_spec)
  from get have "lo \<in> set is \<and> m \<le> lo \<and> lo \<le> n"
    using found_iff [OF assms(1), of lo] by simp
  moreover from get calculation have "status (run_dbos_id w lo) = Some st"
    using probe_found(2) [OF assms(1), of lo] by simp
  moreover have "\<forall>j\<in>set is. m \<le> j \<and> j \<le> n \<longrightarrow> j \<le> lo"
    using max found_iff [OF assms(1)] by blast
  ultimately show ?thesis by blast
qed

lemma missing_above:
  assumes "probe w lookup is = Inr found" and "p \<in> set is" and "dict_get found p = None" and "m \<le> p"
  shows "n < p"
  using found_iff [OF assms(1), of p] assms(2-4) by auto

lemma refine_latest:
  assumes "m \<le> lo" "lo \<le> n" "n < hi" "status (run_dbos_id w lo) = Some st"
  shows "\<exists>s. refine_bracket w lookup lo st hi = Inr (n, s) \<and> status (run_dbos_id w n) = Some s"
  using assms
proof (induction "hi - lo" arbitrary: lo st hi rule: less_induct)
  case less
  show ?case
  proof (cases "hi - lo > 1")
    case False
    with less.prems have "lo = n" by simp
    with False less.prems show ?thesis by (subst refine_bracket.simps) simp
  next
    case True
    let ?ps = "refine_points lo hi"
    obtain found where f: "probe w lookup ?ps = Inr found" using probe_total by blast
    show ?thesis
    proof (cases "newest found")
      case None
      obtain p ps where ps: "?ps = p # ps" using refine_points_Cons [OF True] by blast
      then have b: "lo < p \<and> p < hi" using refine_points_bounds [of p lo hi] by simp
      from None have "dict_get found p = None" by (simp add: newest_None_spec)
      with f ps b less.prems(1) have "n < p" by (intro missing_above [OF f]) auto
      with b less.prems less.hyps [of p lo st]
      have "\<exists>s. refine_bracket w lookup lo st p = Inr (n, s) \<and> status (run_dbos_id w n) = Some s"
        by auto
      with True f None ps show ?thesis by (simp add: refine_bracket.simps [of w lookup lo] Let_def)
    next
      case (Some x)
      obtain lo' st' where x: "x = (lo', st')" by (cases x)
      note nf = newest_found [OF f Some [unfolded x]]
      from f Some x have b: "lo < lo' \<and> lo' < hi" using newest_of_probe_bounds by metis
      let ?hi = "case first_missing lo' found ?ps of Some p \<Rightarrow> p | None \<Rightarrow> hi"
      have hi: "n < ?hi \<and> ?hi \<le> hi"
      proof (cases "first_missing lo' found ?ps")
        case None
        with less.prems show ?thesis by simp
      next
        case (Some p)
        then have "p \<in> set ?ps" "lo' < p" "dict_get found p = None"
          by (auto simp: first_missing_def find_Some_iff)
        with nf have "n < p" by (intro missing_above [OF f]) auto
        with Some first_missing_bounds [OF Some] show ?thesis by simp
      qed
      have "?hi - lo' < hi - lo" using b hi nf less.prems by linarith
      with less.hyps [of ?hi lo' st'] nf hi
      have "\<exists>s. refine_bracket w lookup lo' st' ?hi = Inr (n, s) \<and> status (run_dbos_id w n) = Some s"
        by blast
      with True f Some x show ?thesis by (simp add: refine_bracket.simps [of w lookup lo] Let_def)
    qed
  qed
qed

lemma extend_latest:
  assumes "m \<le> lo" "lo \<le> n" "0 < lo" "status (run_dbos_id w lo) = Some st"
  shows "\<exists>lo' st' hi. extend_bracket w lookup lo st = Some (Inr (lo', st', hi)) \<and>
           m \<le> lo' \<and> lo' \<le> n \<and> n < hi \<and> status (run_dbos_id w lo') = Some st'"
  using assms
proof (induction "n - lo" arbitrary: lo st rule: less_induct)
  case less
  let ?ext = "map (\<lambda>k. lo * 2 ^ k) [1..<5]"
  obtain found where f: "probe w lookup ?ext = Inr found" using probe_total by blast
  let ?best = "case newest found of Some b \<Rightarrow> b | None \<Rightarrow> (lo, st)"
  obtain lo' st' where best: "?best = (lo', st')" by (cases ?best)
  have b: "m \<le> lo' \<and> lo \<le> lo' \<and> lo' \<le> n \<and> status (run_dbos_id w lo') = Some st' \<and>
           (\<forall>j\<in>set ?ext. j \<le> n \<longrightarrow> j \<le> lo')"
  proof (cases "newest found")
    case None
    have "\<not> j \<le> n" if "j \<in> set ?ext" for j
    proof -
      have "lo \<le> j" using that by auto
      with None found_iff [OF f, of j] that less.prems show ?thesis by (simp add: newest_None_spec)
    qed
    with None best less.prems show ?thesis by auto
  next
    case (Some x)
    with best have x: "newest found = Some (lo', st')" by simp
    from newest_found [OF f x] have nf: "lo' \<in> set ?ext" "m \<le> lo'" "lo' \<le> n"
      "status (run_dbos_id w lo') = Some st'" "\<forall>j\<in>set ?ext. m \<le> j \<and> j \<le> n \<longrightarrow> j \<le> lo'"
      by auto
    moreover have ge: "lo \<le> j" if "j \<in> set ?ext" for j using that by auto
    ultimately show ?thesis using less.prems(1) by (meson order_trans)
  qed
  let ?missing = "filter (\<lambda>c. dict_get found c = None) ?ext"
  show ?case
  proof (cases "find (\<lambda>c. lo' < c) ?missing")
    case (Some hi)
    then have "hi \<in> set ?ext" "dict_get found hi = None" "lo' < hi"
      using find_SomeD [OF Some] by auto
    with f b have "n < hi" by (intro missing_above [OF f]) auto
    with f best b Some show ?thesis by (subst extend_bracket.simps) (simp add: Let_def)
  next
    case None
    have "lo * 2 ^ 4 \<in> (\<lambda>k. lo * 2 ^ k) ` {1..<5}" by (rule imageI) simp
    then have ext16: "lo * 16 \<in> set ?ext" by simp
    have "lo * 16 \<le> n"
    proof (rule ccontr)
      assume "\<not> lo * 16 \<le> n"
      then have "dict_get found (lo * 16) = None" using found_iff [OF f, of "lo * 16"] by simp
      with ext16 have "lo * 16 \<in> set ?missing" by simp
      with None have "\<not> lo' < lo * 16" unfolding find_None_iff by blast
      with b \<open>\<not> lo * 16 \<le> n\<close> show False by simp
    qed
    with ext16 have "lo * 16 \<le> lo'" using b by blast
    with less.prems(3) b have "n - lo' < n - lo" "0 < lo'" by linarith+
    with less.hyps [of lo' st'] b
    have "\<exists>lo'' st'' hi. extend_bracket w lookup lo' st' = Some (Inr (lo'', st'', hi)) \<and>
            m \<le> lo'' \<and> lo'' \<le> n \<and> n < hi \<and> status (run_dbos_id w lo'') = Some st''"
      by blast
    with f best None show ?thesis by (subst extend_bracket.simps) (simp add: Let_def)
  qed
qed

lemma resolve_latest:
  assumes "c \<in> set probe_ladder" "m \<le> c" "c \<le> n"
  shows "\<exists>s. resolve_latest_run w lookup = Some (Inr (Some (n, s))) \<and> status (run_dbos_id w n) = Some s"
proof -
  obtain found where f: "probe w lookup probe_ladder = Inr found" using probe_total by blast
  have "dict_get found c \<noteq> None" using assms found_iff [OF f, of c] by simp
  then have "newest found \<noteq> None" by (auto simp: newest_None_spec)
  then obtain lo st where x: "newest found = Some (lo, st)" by auto
  from newest_found [OF f x] assms have nf: "lo \<in> set probe_ladder" "m \<le> lo" "lo \<le> n"
    "status (run_dbos_id w lo) = Some st" by auto
  let ?br = "case first_missing lo found probe_ladder of Some hi \<Rightarrow> Some (Inr (lo, st, hi))
             | None \<Rightarrow> extend_bracket w lookup lo st"
  have "\<exists>lo' st' hi. ?br = Some (Inr (lo', st', hi)) \<and> m \<le> lo' \<and> lo' \<le> n \<and> n < hi \<and>
          status (run_dbos_id w lo') = Some st'"
  proof (cases "first_missing lo found probe_ladder")
    case (Some hi)
    then have "hi \<in> set probe_ladder" "lo < hi" "dict_get found hi = None"
      by (auto simp: first_missing_def dest: find_SomeD)
    with nf have "n < hi" by (intro missing_above [OF f]) auto
    with Some nf show ?thesis by simp
  next
    case None
    have "2 ^ 20 \<in> set probe_ladder"
      by (simp add: probe_ladder_def MAX_PROBE_EXPONENT_def image_iff)
    moreover have "lo \<noteq> 0"
    proof
      assume "lo = 0"
      with None calculation have "dict_get found (2 ^ 20) \<noteq> None"
        by (auto simp: first_missing_def find_None_iff)
      then have "2 ^ 20 \<le> lo"
        using x newest_spec [OF probe_found(1) [OF f]] by blast
      with \<open>lo = 0\<close> show False by simp
    qed
    ultimately show ?thesis using None extend_latest nf by simp
  qed
  then obtain lo' st' hi where br: "?br = Some (Inr (lo', st', hi))"
    and inv: "m \<le> lo'" "lo' \<le> n" "n < hi" "status (run_dbos_id w lo') = Some st'" by blast
  obtain s where s: "refine_bracket w lookup lo' st' hi = Inr (n, s)" "status (run_dbos_id w n) = Some s"
    using refine_latest [OF inv] by blast
  with f x br show ?thesis by (simp add: resolve_latest_run_def)
qed

end

context chain_store
begin

lemma resolve_absent:
  assumes "\<And>c. c \<in> set probe_ladder \<Longrightarrow> status (run_dbos_id w c) = None"
  shows "resolve_latest_run w lookup = Some (Inr None)"
proof -
  obtain found where f: "probe w lookup probe_ladder = Inr found"
    "\<forall>i. dict_get found i = (if i \<in> set probe_ladder then status (run_dbos_id w i) else None)"
    using probe_spec [of w probe_ladder] by blast
  with assms have "newest found = None" by (simp add: newest_None_spec)
  with f show ?thesis by (simp add: resolve_latest_run_def)
qed

end

subsection \<open>The two lookups in use\<close>

text \<open>
  The client (\<open>Client._chain_lookup\<close>) keys the listed status rows by their id; the interpreter
  (\<open>_safe_status_list\<close>) keeps the status string only. \<open>list_workflows\<close> is DBOS's exact-id listing,
  a parameter.
\<close>

definition chain_lookup :: "(string list \<Rightarrow> 'row list) \<Rightarrow> ('row \<Rightarrow> string) \<Rightarrow> 'row lookup" where
  "chain_lookup list_workflows row_id dbos_ids =
     fold (\<lambda>r. dict_set (row_id r) r) (list_workflows dbos_ids) []"

definition safe_status_list ::
  "(string list \<Rightarrow> 'row list) \<Rightarrow> ('row \<Rightarrow> string) \<Rightarrow> ('row \<Rightarrow> string) \<Rightarrow> string lookup" where
  "safe_status_list list_workflows row_id row_status dbos_ids =
     fold (\<lambda>r. dict_set (row_id r) (row_status r)) (list_workflows dbos_ids) []"

text \<open>
  What the exact-id listing of the status table promises: the rows of the asked ids, each under
  its own primary key.
\<close>

locale status_listing =
  fixes list_workflows :: "string list \<Rightarrow> 'row list"
    and row_id :: "'row \<Rightarrow> string"
    and row_of :: "string \<Rightarrow> 'row option"
  assumes listed: "r \<in> set (list_workflows ids) \<longleftrightarrow> (\<exists>d\<in>set ids. row_of d = Some r)"
    and primary_key: "row_of d = Some r \<Longrightarrow> row_id r = d"

lemma dict_get_fold_rows:
  "dict_get (fold (\<lambda>r. dict_set (k r) (v r)) rs d) x =
     (case find (\<lambda>r. k r = x) (rev rs) of Some r \<Rightarrow> Some (v r) | None \<Rightarrow> dict_get d x)"
  by (induction rs arbitrary: d rule: rev_induct) (auto simp: dict_get_set)

lemma dict_wf_fold_rows: "dict_wf d \<Longrightarrow> dict_wf (fold (\<lambda>r. dict_set (k r) (v r)) rs d)"
  by (induction rs arbitrary: d) (auto intro: dict_wf_set)

context status_listing
begin

lemma find_row:
  "find (\<lambda>r. row_id r = d) (rev (list_workflows ids)) = (if d \<in> set ids then row_of d else None)"
proof (cases "find (\<lambda>r. row_id r = d) (rev (list_workflows ids))")
  case None
  then have "\<forall>r\<in>set (list_workflows ids). row_id r \<noteq> d" by (auto simp: find_None_iff)
  then have "d \<notin> set ids \<or> row_of d = None"
    by (metis listed option.exhaust primary_key)
  with None show ?thesis by auto
next
  case (Some r)
  from find_SomeD [OF this] have r: "r \<in> set (list_workflows ids)" "row_id r = d" by auto
  then obtain d' where "d' \<in> set ids" "row_of d' = Some r" by (auto simp: listed)
  with r primary_key have "d \<in> set ids" "row_of d = Some r" by auto
  with Some show ?thesis by simp
qed

lemma chain_lookup_store: "chain_store (chain_lookup list_workflows row_id) row_of"
  by unfold_locales
     (auto simp: chain_lookup_def dict_get_fold_rows find_row dict_wf_fold_rows split: option.split)

lemma safe_status_list_store:
  "chain_store (safe_status_list list_workflows row_id row_status) (map_option row_status \<circ> row_of)"
  by unfold_locales
     (auto simp: safe_status_list_def dict_get_fold_rows find_row dict_wf_fold_rows split: option.split)

end

subsection \<open>A status table\<close>

text \<open>
  A concrete status table, keyed by workflow id, on which the listing contract holds: it discharges
  the contract for both lookups, and a table holding runs \<open>m\<close> to \<open>n\<close> of a chain discharges
  \<open>run_chain\<close>.
\<close>

definition table_row :: "(string, 's) dict \<Rightarrow> string \<Rightarrow> (string \<times> 's) option" where
  "table_row rows d = map_option (Pair d) (dict_get rows d)"

definition list_rows :: "(string, 's) dict \<Rightarrow> string list \<Rightarrow> (string \<times> 's) list" where
  "list_rows rows ids = List.map_filter (table_row rows) ids"

definition chain_rows :: "string \<Rightarrow> nat \<Rightarrow> nat \<Rightarrow> 's \<Rightarrow> (string, 's) dict" where
  "chain_rows w m k st = map (\<lambda>i. (run_dbos_id w i, st)) [m..<Suc (m + k)]"

lemma set_map_filter_iff: "y \<in> set (List.map_filter f xs) \<longleftrightarrow> (\<exists>x\<in>set xs. f x = Some y)"
  by (induction xs) (auto split: option.splits)

interpretation table: status_listing "list_rows rows" fst "table_row rows" for rows
  by unfold_locales (auto simp: list_rows_def table_row_def set_map_filter_iff)

interpretation client_store: chain_store "chain_lookup (list_rows rows) fst" "table_row rows" for rows
  by (rule table.chain_lookup_store)

interpretation interp_store:
  chain_store "safe_status_list (list_rows rows) fst snd" "map_option snd \<circ> table_row rows" for rows
  by (rule table.safe_status_list_store)

lemma dict_get_chain_rows:
  "dict_get (chain_rows w m k st) (run_dbos_id w i) = (if m \<le> i \<and> i \<le> m + k then Some st else None)"
proof -
  have "dict_get (map (\<lambda>i. (run_dbos_id w i, st)) is) (run_dbos_id w i)
      = (if i \<in> set is then Some st else None)" for "is"
    by (induction "is") (auto simp: dict_get_Cons run_dbos_id_inject)
  from this [of "[m..<Suc (m + k)]"] show ?thesis
    unfolding chain_rows_def set_upt by (simp only: atLeastLessThan_iff less_Suc_eq_le)
qed

interpretation stored_chain:
  run_chain "chain_lookup (list_rows (chain_rows w m k st)) fst" "table_row (chain_rows w m k st)" w m "m + k"
  for w m k st
  by unfold_locales (auto simp: table_row_def dict_get_chain_rows)

text \<open>
  Claim C8. The newest run of a chain is found. When the status listing answers with exactly the
  rows that exist, each under its own id, and runs \<open>m\<close> to \<open>n\<close> of the chain exist (older runs may
  have been deleted), then the resolution terminates and returns run \<open>n\<close> with its row, however
  long the chain is, provided some ladder index still exists; a chain whose run 0 exists is the
  special case \<open>c = 0\<close>.
\<close>

theorem resolve_latest_run_newest:
  assumes "\<And>ids r. r \<in> set (list_workflows ids) \<longleftrightarrow> (\<exists>d\<in>set ids. row_of d = Some r)"
    and "\<And>d r. row_of d = Some r \<Longrightarrow> row_id r = d"
    and "\<And>i. row_of (run_dbos_id w i) \<noteq> None \<longleftrightarrow> m \<le> i \<and> i \<le> n"
    and "c \<in> set probe_ladder" and "m \<le> c" and "c \<le> n"
  shows "\<exists>r. resolve_latest_run w (chain_lookup list_workflows row_id) = Some (Inr (Some (n, r))) \<and>
             row_of (run_dbos_id w n) = Some r"
proof -
  have "status_listing list_workflows row_id row_of"
    using assms(1,2) by (intro status_listing.intro) blast+
  then have "chain_store (chain_lookup list_workflows row_id) row_of"
    by (rule status_listing.chain_lookup_store)
  then have "run_chain (chain_lookup list_workflows row_id) row_of w m n"
    using assms(3,5,6) by (intro run_chain.intro run_chain_axioms.intro) auto
  then show ?thesis using assms(4-6) by (rule run_chain.resolve_latest)
qed

theorem resolve_latest_run_newest_witness:
  "\<exists>r. resolve_latest_run ''W'' (chain_lookup (list_rows (chain_rows ''W'' 3 5000000 ''PENDING'')) fst) =
         Some (Inr (Some (5000003, r))) \<and>
       table_row (chain_rows ''W'' 3 5000000 ''PENDING'') (run_dbos_id ''W'' 5000003) = Some r"
proof -
  have "3 \<in> set probe_ladder" by (simp add: probe_ladder_def DENSE_PROBE_LIMIT_def)
  moreover have "table_row (chain_rows ''W'' 3 5000000 ''PENDING'') (run_dbos_id ''W'' i) \<noteq> None \<longleftrightarrow>
    3 \<le> i \<and> i \<le> 5000003" for i
    unfolding stored_chain.exists_iff by simp
  ultimately show ?thesis
    by (intro resolve_latest_run_newest [where m = 3 and c = 3] table.listed table.primary_key) auto
qed

text \<open>
  The same for the interpreter's lookup, which keeps only the status string: the newest
  run is found with the status of its row, and a chain none of whose ladder indexes exists
  resolves to nothing.
\<close>

theorem resolve_latest_run_status:
  assumes "\<And>ids r. r \<in> set (list_workflows ids) \<longleftrightarrow> (\<exists>d\<in>set ids. row_of d = Some r)"
    and "\<And>d r. row_of d = Some r \<Longrightarrow> row_id r = d"
    and "\<And>i. row_of (run_dbos_id w i) \<noteq> None \<longleftrightarrow> m \<le> i \<and> i < n"
  shows "resolve_latest_run w (safe_status_list list_workflows row_id row_status) =
     Some (Inr (if \<exists>c\<in>set probe_ladder. m \<le> c \<and> c < n
                then Some (n - 1, row_status (the (row_of (run_dbos_id w (n - 1))))) else None))"
proof -
  let ?lookup = "safe_status_list list_workflows row_id row_status"
  let ?st = "map_option row_status \<circ> row_of"
  have "status_listing list_workflows row_id row_of"
    using assms(1,2) by (intro status_listing.intro) blast+
  then have store: "chain_store ?lookup ?st" by (rule status_listing.safe_status_list_store)
  show ?thesis
  proof (cases "\<exists>c\<in>set probe_ladder. m \<le> c \<and> c < n")
    case True
    then obtain c where c: "c \<in> set probe_ladder" "m \<le> c" "c \<le> n - 1" by auto
    have ex: "?st (run_dbos_id w i) \<noteq> None \<longleftrightarrow> m \<le> i \<and> i \<le> n - 1" for i
      using True assms(3) [of i] by auto
    have "run_chain ?lookup ?st w m (n - 1)"
      using store ex c by (intro run_chain.intro run_chain_axioms.intro) auto
    from run_chain.resolve_latest [OF this c] True show ?thesis by auto
  next
    case False
    then have "?st (run_dbos_id w c) = None" if "c \<in> set probe_ladder" for c
      using that assms(3) [of c] by auto
    with chain_store.resolve_absent [OF store] False show ?thesis by simp
  qed
qed

theorem resolve_latest_run_status_witness:
  "resolve_latest_run ''W'' (safe_status_list (list_rows (chain_rows ''W'' 17 7 ''PENDING'')) fst snd) =
     Some (Inr None)"
proof -
  have "table_row (chain_rows ''W'' 17 7 ''PENDING'') (run_dbos_id ''W'' i) \<noteq> None \<longleftrightarrow>
    17 \<le> i \<and> i < 25" for i
    unfolding stored_chain.exists_iff by auto
  moreover have "\<not> (\<exists>c\<in>set probe_ladder. 17 \<le> c \<and> c < 25)"
  proof
    assume "\<exists>c\<in>set probe_ladder. 17 \<le> c \<and> c < (25 :: nat)"
    then obtain e where "5 \<le> e" "(2 :: nat) ^ e < 25"
      by (auto simp: probe_ladder_def DENSE_PROBE_LIMIT_def)
    moreover from this have "(2 :: nat) ^ 5 \<le> 2 ^ e" by (intro power_increasing) auto
    ultimately show False by simp
  qed
  ultimately show ?thesis
    by (subst resolve_latest_run_status [where m = 17 and n = 25, OF table.listed table.primary_key]) auto
qed

end
