(* ===== verification/Failures.thy ===== *)
theory Failures
  imports Payloads
begin

text \<open>
  The Temporal exception tree (\<open>dbosify/exceptions.py\<close>) and its durable envelope
  (\<open>serialize_failure\<close>, \<open>deserialize_failure\<close> and \<open>FailureView\<close> of
  \<open>dbosify/_internal/payloads.py\<close>). The conversion of user values (failure details) is a parameter:
  \<open>enc\<close> is \<open>encode_values_sync\<close> under the chosen converter, \<open>decv\<close> is \<open>decode_value_sync\<close>. Stack
  traces are strings already formatted by \<open>traceback.format_tb\<close>.
\<close>

subsection \<open>Exceptions\<close>

datatype app_category = UNSPECIFIED | BENIGN

datatype timeout_type = START_TO_CLOSE | SCHEDULE_TO_START | SCHEDULE_TO_CLOSE | HEARTBEAT

datatype retry_state =
    IN_PROGRESS | NON_RETRYABLE_FAILURE | TIMEOUT | MAXIMUM_ATTEMPTS_REACHED
  | RETRY_POLICY_NOT_SET | INTERNAL_SERVER_ERROR | CANCEL_REQUESTED

text \<open>\<open>int(e)\<close> of an \<open>IntEnum\<close> member and \<open>E(value)\<close>, which raises ValueError for another value.\<close>

fun category_int :: "app_category \<Rightarrow> int" where
  "category_int UNSPECIFIED = 0"
| "category_int BENIGN = 1"

fun timeout_type_int :: "timeout_type \<Rightarrow> int" where
  "timeout_type_int START_TO_CLOSE = 1"
| "timeout_type_int SCHEDULE_TO_START = 2"
| "timeout_type_int SCHEDULE_TO_CLOSE = 3"
| "timeout_type_int HEARTBEAT = 4"

fun retry_state_int :: "retry_state \<Rightarrow> int" where
  "retry_state_int IN_PROGRESS = 1"
| "retry_state_int NON_RETRYABLE_FAILURE = 2"
| "retry_state_int TIMEOUT = 3"
| "retry_state_int MAXIMUM_ATTEMPTS_REACHED = 4"
| "retry_state_int RETRY_POLICY_NOT_SET = 5"
| "retry_state_int INTERNAL_SERVER_ERROR = 6"
| "retry_state_int CANCEL_REQUESTED = 7"

definition enum_of :: "('e \<Rightarrow> int) \<Rightarrow> 'e list \<Rightarrow> json \<Rightarrow> 'e result" where
  "enum_of f members j =
     (case j of
        JInt i \<Rightarrow> (case find (\<lambda>e. f e = i) members of Some e \<Rightarrow> Inr e | None \<Rightarrow> Inl ValueError)
      | _ \<Rightarrow> Inl ValueError)"

definition category_of :: "json \<Rightarrow> app_category result" where
  "category_of = enum_of category_int [UNSPECIFIED, BENIGN]"

definition timeout_type_of :: "json \<Rightarrow> timeout_type result" where
  "timeout_type_of = enum_of timeout_type_int
     [START_TO_CLOSE, SCHEDULE_TO_START, SCHEDULE_TO_CLOSE, HEARTBEAT]"

definition retry_state_of :: "json \<Rightarrow> retry_state result" where
  "retry_state_of = enum_of retry_state_int
     [IN_PROGRESS, NON_RETRYABLE_FAILURE, TIMEOUT, MAXIMUM_ATTEMPTS_REACHED,
      RETRY_POLICY_NOT_SET, INTERNAL_SERVER_ERROR, CANCEL_REQUESTED]"

text \<open>
  The exceptions \<open>serialize_failure\<close> distinguishes, with their fields in constructor order
  (\<open>'v\<close> is a user value); every other exception is known by its class name and \<open>str\<close>, be it a
  \<open>FailureError\<close> (\<open>OtherFailure\<close>) or not, and the asyncio cancellation is a class of its own.
\<close>

datatype 'v exc_kind =
    ApplicationError string "'v list" "string option" bool "timedelta option" app_category
  | CancelledError string "'v list"
  | TerminatedError string "'v list"
  | TimeoutError string "timeout_type option" "'v list"
  | ActivityError string int int string string string "retry_state option"
  | ChildWorkflowError string string string string string int int "retry_state option"
  | ServerError string bool
  | OtherFailure string string
  | OtherException string string
  | AsyncioCancelled

text \<open>
  An exception with its chaining attributes \<open>__cause__\<close>, \<open>__context__\<close>, \<open>__suppress_context__\<close>,
  its formatted traceback and the envelope behind \<open>FailureError.failure\<close>.
\<close>

datatype 'v exc = Exc
  (exc_kind: "'v exc_kind")
  (exc_cause: "'v exc option")
  (exc_context: "'v exc option")
  (suppress_context: bool)
  (exc_traceback: "string option")
  (exc_failure: "jdict option")

definition new_exc :: "'v exc_kind \<Rightarrow> 'v exc" where
  "new_exc k = Exc k None None False None None"

definition raise_from :: "'v exc_kind \<Rightarrow> 'v exc \<Rightarrow> 'v exc" where
  "raise_from k c = Exc k (Some c) None True None None"

fun is_CancelledError :: "'v exc_kind \<Rightarrow> bool" where
  "is_CancelledError (CancelledError _ _) = True"
| "is_CancelledError _ = False"

definition is_cancelled_exception :: "'v exc \<Rightarrow> bool" where
  "is_cancelled_exception e =
     (case exc_kind e of
        AsyncioCancelled \<Rightarrow> True
      | CancelledError _ _ \<Rightarrow> True
      | ActivityError _ _ _ _ _ _ _ \<Rightarrow>
          (case exc_cause e of Some c \<Rightarrow> is_CancelledError (exc_kind c) | None \<Rightarrow> False)
      | ChildWorkflowError _ _ _ _ _ _ _ _ \<Rightarrow>
          (case exc_cause e of Some c \<Rightarrow> is_CancelledError (exc_kind c) | None \<Rightarrow> False)
      | _ \<Rightarrow> False)"

text \<open>\<open>isinstance(e, FailureError)\<close>.\<close>

fun is_FailureError :: "'v exc_kind \<Rightarrow> bool" where
  "is_FailureError (OtherException _ _) = False"
| "is_FailureError AsyncioCancelled = False"
| "is_FailureError _ = True"

subsection \<open>The envelope\<close>

fun kind_env :: "('v list \<Rightarrow> json list) \<Rightarrow> 'v exc_kind \<Rightarrow> jdict" where
  "kind_env enc (ApplicationError msg details typ nr delay cat) =
     [(''cls'', JStr ''ApplicationError''), (''message'', JStr msg),
      (''type'', json_of_option JStr typ), (''details'', JList (enc details)),
      (''non_retryable'', JBool nr), (''category'', JInt (category_int cat)),
      (''next_retry_delay'', json_of_option (\<lambda>d. JNum (total_seconds d)) delay)]"
| "kind_env enc (CancelledError msg details) =
     [(''cls'', JStr ''CancelledError''), (''message'', JStr msg), (''details'', JList (enc details))]"
| "kind_env enc (TerminatedError msg details) =
     [(''cls'', JStr ''TerminatedError''), (''message'', JStr msg), (''details'', JList (enc details))]"
| "kind_env enc (TimeoutError msg typ details) =
     [(''cls'', JStr ''TimeoutError''), (''message'', JStr msg),
      (''timeout_type'', json_of_option (\<lambda>t. JInt (timeout_type_int t)) typ),
      (''last_heartbeat_details'', JList (enc details))]"
| "kind_env enc (ActivityError msg sched started ident atype aid rs) =
     [(''cls'', JStr ''ActivityError''), (''message'', JStr msg),
      (''activity_type'', JStr atype), (''activity_id'', JStr aid), (''identity'', JStr ident),
      (''retry_state'', json_of_option (\<lambda>r. JInt (retry_state_int r)) rs)]"
| "kind_env enc (ChildWorkflowError msg ns wid rid wtype init started rs) =
     [(''cls'', JStr ''ChildWorkflowError''), (''message'', JStr msg), (''namespace'', JStr ns),
      (''workflow_id'', JStr wid), (''run_id'', JStr rid), (''workflow_type'', JStr wtype),
      (''retry_state'', json_of_option (\<lambda>r. JInt (retry_state_int r)) rs)]"
| "kind_env enc (ServerError msg nr) =
     [(''cls'', JStr ''ServerError''), (''message'', JStr msg), (''non_retryable'', JBool nr)]"
| "kind_env enc (OtherFailure name msg) =
     [(''cls'', JStr ''ApplicationError''), (''message'', JStr msg), (''type'', JStr name),
      (''details'', JList []), (''non_retryable'', JBool False), (''next_retry_delay'', JNull)]"
| "kind_env enc (OtherException name msg) =
     [(''cls'', JStr ''ApplicationError''), (''message'', JStr msg), (''type'', JStr name),
      (''details'', JList []), (''non_retryable'', JBool False), (''next_retry_delay'', JNull)]"
| "kind_env enc AsyncioCancelled =
     [(''cls'', JStr ''ApplicationError''), (''message'', JStr ''''),
      (''type'', JStr ''CancelledError''),
      (''details'', JList []), (''non_retryable'', JBool False), (''next_retry_delay'', JNull)]"

definition trace_env :: "string option \<Rightarrow> jdict" where
  "trace_env t = (case t of Some s \<Rightarrow> [(''stack_trace'', JStr s)] | None \<Rightarrow> [])"

fun serialize_failure :: "('v list \<Rightarrow> json list) \<Rightarrow> 'v exc \<Rightarrow> json" where
  "serialize_failure enc (Exc k c ctx suppress trace fl) =
     JObj (kind_env enc k @ trace_env trace @
       [(''cause'', (case c of
           Some e \<Rightarrow> serialize_failure enc e
         | None \<Rightarrow> if suppress then JNull
                  else (case ctx of Some e \<Rightarrow> serialize_failure enc e | None \<Rightarrow> JNull)))])"

text \<open>\<open>_decode_details\<close> of the named field, absent fields reading as the empty list.\<close>

definition decode_details :: "(json \<Rightarrow> 'v) \<Rightarrow> json \<Rightarrow> string \<Rightarrow> 'v list result" where
  "decode_details decv env field =
     bind_result (to_list (jget_default env field (JList []))) (\<lambda>items. Inr (map decv items))"

definition str_field :: "json \<Rightarrow> string \<Rightarrow> string result" where
  "str_field env field = bind_result (jindex env field) as_str"

definition kind_of_env :: "(json \<Rightarrow> 'v) \<Rightarrow> json \<Rightarrow> 'v exc_kind result" where
  "kind_of_env decv env = bind_result (str_field env ''cls'') (\<lambda>cls.
     if cls = ''ApplicationError'' then
       bind_result (str_field env ''message'') (\<lambda>msg.
       bind_result (decode_details decv env ''details'') (\<lambda>details.
       bind_result (optional as_str (jget env ''type'')) (\<lambda>typ.
       bind_result (optional to_float (jget env ''next_retry_delay'')) (\<lambda>delay.
       bind_result (optional category_of (jget env ''category'')) (\<lambda>category.
         Inr (ApplicationError msg details typ
           (truthy (jget_default env ''non_retryable'' (JBool False)))
           (map_option timedelta_seconds delay)
           (case category of Some c \<Rightarrow> c | None \<Rightarrow> UNSPECIFIED)))))))
     else if cls = ''CancelledError'' then
       bind_result (str_field env ''message'') (\<lambda>msg.
       bind_result (decode_details decv env ''details'') (\<lambda>details.
         Inr (CancelledError msg details)))
     else if cls = ''TerminatedError'' then
       bind_result (str_field env ''message'') (\<lambda>msg.
       bind_result (decode_details decv env ''details'') (\<lambda>details.
         Inr (TerminatedError msg details)))
     else if cls = ''TimeoutError'' then
       bind_result (str_field env ''message'') (\<lambda>msg.
       bind_result (optional timeout_type_of (jget env ''timeout_type'')) (\<lambda>typ.
       bind_result (decode_details decv env ''last_heartbeat_details'') (\<lambda>details.
         Inr (TimeoutError msg typ details))))
     else if cls = ''ActivityError'' then
       bind_result (str_field env ''message'') (\<lambda>msg.
       bind_result (as_str (jget_default env ''identity'' (JStr []))) (\<lambda>ident.
       bind_result (str_field env ''activity_type'') (\<lambda>atype.
       bind_result (str_field env ''activity_id'') (\<lambda>aid.
       bind_result (optional retry_state_of (jget env ''retry_state'')) (\<lambda>rs.
         Inr (ActivityError msg 0 0 ident atype aid rs))))))
     else if cls = ''ChildWorkflowError'' then
       bind_result (str_field env ''message'') (\<lambda>msg.
       bind_result (as_str (jget_default env ''namespace'' (JStr []))) (\<lambda>ns.
       bind_result (str_field env ''workflow_id'') (\<lambda>wid.
       bind_result (as_str (jget_default env ''run_id'' (JStr []))) (\<lambda>rid.
       bind_result (str_field env ''workflow_type'') (\<lambda>wtype.
       bind_result (optional retry_state_of (jget env ''retry_state'')) (\<lambda>rs.
         Inr (ChildWorkflowError msg ns wid rid wtype 0 0 rs)))))))
     else if cls = ''ServerError'' then
       bind_result (str_field env ''message'') (\<lambda>msg.
         Inr (ServerError msg (truthy (jget_default env ''non_retryable'' (JBool False)))))
     else Inl ValueError)"

function deserialize_failure :: "(json \<Rightarrow> 'v) \<Rightarrow> json \<Rightarrow> 'v exc result" where
  "deserialize_failure decv env =
     bind_result (kind_of_env decv env) (\<lambda>k.
     bind_result (case obj_get env ''cause'' of
         None \<Rightarrow> Inr None
       | Some c \<Rightarrow> if c = JNull then Inr None
                  else bind_result (deserialize_failure decv c) (\<lambda>e. Inr (Some e))) (\<lambda>cs.
     bind_result (as_obj env) (\<lambda>fields.
       Inr (Exc k cs None (cs \<noteq> None) None (Some fields)))))"
  by pat_completeness auto

termination
  by (relation "measure (\<lambda>(decv, env). size env)") (auto dest: obj_get_size)

declare deserialize_failure.simps [simp del]

subsection \<open>The attribute view of an envelope\<close>

text \<open>
  \<open>FailureView\<close>: \<open>str\<close> of a field is modelled for string fields, which is all the serialiser writes.
\<close>

definition view_message :: "json \<Rightarrow> string result" where
  "view_message env = as_str (jget_default env ''message'' (JStr []))"

definition view_stack_trace :: "json \<Rightarrow> string result" where
  "view_stack_trace env = as_str (jget_default env ''stack_trace'' (JStr []))"

definition view_cause :: "json \<Rightarrow> json option" where
  "view_cause env = (case obj_get env ''cause'' of
     Some c \<Rightarrow> if c = JNull then None else Some c | None \<Rightarrow> None)"

subsection \<open>Round trip\<close>

text \<open>What the envelope keeps of an exception: the event ids of activity and child errors are not
  recorded, and an exception outside the tree becomes an application error typed by its class.\<close>

fun recorded_kind :: "'v exc_kind \<Rightarrow> 'v exc_kind" where
  "recorded_kind (OtherFailure name msg) = ApplicationError msg [] (Some name) False None UNSPECIFIED"
| "recorded_kind (OtherException name msg) = ApplicationError msg [] (Some name) False None UNSPECIFIED"
| "recorded_kind AsyncioCancelled = ApplicationError '''' [] (Some ''CancelledError'') False None UNSPECIFIED"
| "recorded_kind (ActivityError msg sched started ident atype aid rs) =
     ActivityError msg 0 0 ident atype aid rs"
| "recorded_kind (ChildWorkflowError msg ns wid rid wtype init started rs) =
     ChildWorkflowError msg ns wid rid wtype 0 0 rs"
| "recorded_kind k = k"

text \<open>The chain of exceptions Python reports: explicit causes, else unsuppressed contexts.\<close>

fun exc_chain :: "'v exc \<Rightarrow> 'v exc_kind list" where
  "exc_chain (Exc k c ctx suppress trace fl) =
     k # (case c of
            Some e \<Rightarrow> exc_chain e
          | None \<Rightarrow> if suppress then [] else (case ctx of Some e \<Rightarrow> exc_chain e | None \<Rightarrow> []))"

text \<open>The conversion of failure details, as far as the round trip relies on it.\<close>

locale detail_codec =
  fixes enc :: "'v list \<Rightarrow> json list"
    and decv :: "json \<Rightarrow> 'v"
  assumes decode_encode: "map decv (enc vs) = vs"
begin

lemma enum_roundtrips:
  "optional category_of (JInt (category_int cat)) = Inr (Some cat)"
  "optional timeout_type_of (json_of_option (\<lambda>t. JInt (timeout_type_int t)) typ) = Inr typ"
  "optional retry_state_of (json_of_option (\<lambda>r. JInt (retry_state_int r)) rs) = Inr rs"
proof -
  have "timeout_type_of (JInt (timeout_type_int t)) = Inr t" for t
    by (cases t) (simp_all add: timeout_type_of_def enum_of_def)
  then show "optional timeout_type_of (json_of_option (\<lambda>t. JInt (timeout_type_int t)) typ) = Inr typ"
    by (intro optional_json_of_option) simp
  have "retry_state_of (JInt (retry_state_int r)) = Inr r" for r
    by (cases r) (simp_all add: retry_state_of_def enum_of_def)
  then show "optional retry_state_of (json_of_option (\<lambda>r. JInt (retry_state_int r)) rs) = Inr rs"
    by (intro optional_json_of_option) simp
  show "optional category_of (JInt (category_int cat)) = Inr (Some cat)"
    by (cases cat) (simp_all add: category_of_def enum_of_def optional_def)
qed

lemma option_roundtrips:
  "optional as_str (json_of_option JStr typ) = Inr typ"
  "optional to_float (json_of_option (\<lambda>d. JNum (total_seconds d)) delay)
     = Inr (map_option total_seconds delay)"
  by (cases "typ", simp, simp add: optional_def) (cases "delay", simp, simp add: optional_def)

lemma kind_of_env_kind_env:
  "kind_of_env decv (JObj (kind_env enc k @ trace_env t @ [(''cause'', c)])) = Inr (recorded_kind k)"
proof -
  have [simp]: "map_of (trace_env t) f = None" if "f \<noteq> ''stack_trace''" for f
    using that by (auto simp: trace_env_def split: option.split)
  have [simp]: "optional as_str (JStr x) = Inr (Some x)" for x by (simp add: optional_def)
  note [simp] = kind_of_env_def str_field_def jindex_def jget_def jget_default_def decode_details_def
    decode_encode enum_roundtrips option_roundtrips option.map_comp o_def option.map_ident
  show ?thesis by (cases k) (simp_all add: map_add_def)
qed

lemma cause_of_env: "obj_get (JObj (kind_env enc k @ trace_env t @ [(''cause'', c)])) ''cause'' = Some c"
  by (cases k) (auto simp: trace_env_def split: option.split)

lemma deserialize_serialize:
  "\<exists>e'. deserialize_failure decv (serialize_failure enc e) = Inr e' \<and>
        exc_chain e' = map recorded_kind (exc_chain e) \<and>
        serialize_failure enc e = JObj (the (exc_failure e'))"
proof (induction e)
  case (Exc k c ctx suppress trace fl)
  define nxt where "nxt = (case c of Some e \<Rightarrow> Some e | None \<Rightarrow> if suppress then None else ctx)"
  let ?c = "case nxt of Some e \<Rightarrow> serialize_failure enc e | None \<Rightarrow> JNull"
  let ?env = "kind_env enc k @ trace_env trace @ [(''cause'', ?c)]"
  have ser: "serialize_failure enc (Exc k c ctx suppress trace fl) = JObj ?env"
    by (simp add: nxt_def split: option.split)
  have chain: "exc_chain (Exc k c ctx suppress trace fl) =
      k # (case nxt of Some e \<Rightarrow> exc_chain e | None \<Rightarrow> [])"
    by (simp add: nxt_def split: option.split)
  show ?case
  proof (cases nxt)
    case None
    then have "deserialize_failure decv (JObj ?env) =
        Inr (Exc (recorded_kind k) None None False None (Some ?env))"
      by (subst deserialize_failure.simps)
         (simp only: kind_of_env_kind_env cause_of_env bind_result_simps option.simps if_True
           as_obj.simps simp_thms)
    then show ?thesis unfolding ser chain using None by simp
  next
    case (Some e)
    then have "e \<in> set_option c \<or> e \<in> set_option ctx"
      by (auto simp: nxt_def split: option.splits if_splits)
    with Exc.IH obtain e' where e': "deserialize_failure decv (serialize_failure enc e) = Inr e'"
      "exc_chain e' = map recorded_kind (exc_chain e)" by blast
    have nn: "serialize_failure enc e \<noteq> JNull" by (cases e) simp
    from Some e' nn have "deserialize_failure decv (JObj ?env) =
        Inr (Exc (recorded_kind k) (Some e') None True None (Some ?env))"
      by (subst deserialize_failure.simps)
         (simp only: kind_of_env_kind_env cause_of_env bind_result_simps option.simps if_False
           as_obj.simps simp_thms)
    then show ?thesis unfolding ser chain using Some e' by simp
  qed
qed

end

text \<open>
  The codec the witnesses use: details that are JSON values already, kept as they are.
\<close>

interpretation plain: detail_codec "\<lambda>vs. vs" "\<lambda>j. j"
  by unfold_locales simp

text \<open>
  Claim C33. A failure crosses the ledger with its whole cause chain: when the converter gives back
  the detail values it encoded, deserialising the envelope of any exception succeeds, and the
  exception and its explicit or implicit causes come back link by link (event ids aside, foreign
  exceptions as application errors named by their class), with the envelope itself as the
  \<open>failure\<close> view.
\<close>

theorem failure_roundtrip:
  assumes "\<And>vs. map decv (enc vs) = vs"
  shows "\<exists>e'. deserialize_failure decv (serialize_failure enc e) = Inr e' \<and>
        exc_chain e' = map recorded_kind (exc_chain e) \<and>
        serialize_failure enc e = JObj (the (exc_failure e'))"
  using assms by (intro detail_codec.deserialize_serialize detail_codec.intro)

theorem failure_roundtrip_witness:
  "\<exists>e'. deserialize_failure (\<lambda>j. j) (serialize_failure (\<lambda>vs. vs)
          (raise_from (ActivityError ''boom'' 4 5 ''id'' ''t'' ''1'' (Some TIMEOUT))
            (new_exc (OtherException ''KeyError'' ''x'')))) = Inr e' \<and>
        exc_chain e' = [ActivityError ''boom'' 0 0 ''id'' ''t'' ''1'' (Some TIMEOUT),
          ApplicationError ''x'' [] (Some ''KeyError'') False None UNSPECIFIED]"
  using failure_roundtrip [where enc = "\<lambda>vs. vs" and decv = "\<lambda>j. j" and
      e = "raise_from (ActivityError ''boom'' 4 5 ''id'' ''t'' ''1'' (Some TIMEOUT))
            (new_exc (OtherException ''KeyError'' ''x''))"]
  by (fastforce simp: raise_from_def new_exc_def simp del: serialize_failure.simps)

end
