(* ===== verification/Retry.thy ===== *)
theory Retry
  imports Failures
begin

text \<open>
  The retry decisions: activities (\<open>retry_decision\<close>, \<open>effective_deadline\<close> of
  \<open>dbosify/_internal/activities.py\<close>) and workflow runs (\<open>_workflow_retry_delay\<close> of
  \<open>dbosify/_internal/dispatcher.py\<close>). Seconds are rationals.
\<close>

subsection \<open>Activities\<close>

definition default_retry_policy :: retry_policy where
  "default_retry_policy = \<lparr>initial_interval = 1000000, backoff_coefficient = 2,
     maximum_interval = None, maximum_attempts = 0, non_retryable_error_types = None\<rparr>"

definition schedule_to_close_timeout :: "json \<Rightarrow> bool" where
  "schedule_to_close_timeout failure \<longleftrightarrow>
     jget failure ''cls'' = JStr ''TimeoutError'' \<and>
     jget failure ''timeout_type'' = JInt (timeout_type_int SCHEDULE_TO_CLOSE)"

text \<open>The type string of a failure is one of the policy's non-retryable types.\<close>

definition type_listed :: "json \<Rightarrow> string list option \<Rightarrow> bool" where
  "type_listed failure types =
     (case types of
        None \<Rightarrow> False
      | Some ts \<Rightarrow> jget failure ''type'' \<noteq> JNull \<and> jget failure ''type'' \<in> JStr ` set ts)"

text \<open>\<open>policy.maximum_interval\<close> is tested for truth: a zero interval counts as unset.\<close>

definition policy_maximum :: "retry_policy \<Rightarrow> rat" where
  "policy_maximum p =
     (case maximum_interval p of
        Some mi \<Rightarrow> if mi \<noteq> 0 then total_seconds mi else total_seconds (initial_interval p) * 100
      | None \<Rightarrow> total_seconds (initial_interval p) * 100)"

definition backoff_delay :: "retry_policy \<Rightarrow> int \<Rightarrow> rat result" where
  "backoff_delay p att =
     bind_result (float_pow (backoff_coefficient p) (att - 1)) (\<lambda>x.
       Inr (min (total_seconds (initial_interval p) * x) (policy_maximum p)))"

definition retry_decision ::
  "retry_policy \<Rightarrow> int \<Rightarrow> json \<Rightarrow> rat option \<Rightarrow> rat option \<Rightarrow> (rat option \<times> retry_state) result" where
  "retry_decision policy att failure elapsed schedule_to_close =
     (if truthy (jget failure ''non_retryable'') then Inr (None, NON_RETRYABLE_FAILURE)
      else if type_listed failure (non_retryable_error_types policy) then Inr (None, NON_RETRYABLE_FAILURE)
      else if schedule_to_close_timeout failure then Inr (None, TIMEOUT)
      else if maximum_attempts policy \<noteq> 0 \<and> maximum_attempts policy \<le> att
      then Inr (None, MAXIMUM_ATTEMPTS_REACHED)
      else
        bind_result
          (if jget failure ''next_retry_delay'' \<noteq> JNull
           then to_float (jget failure ''next_retry_delay'') else backoff_delay policy att)
          (\<lambda>delay.
            case (schedule_to_close, elapsed) of
              (Some budget, Some e) \<Rightarrow>
                if budget \<le> e + delay then Inr (None, TIMEOUT) else Inr (Some delay, IN_PROGRESS)
            | _ \<Rightarrow> Inr (Some delay, IN_PROGRESS)))"

datatype deadline_type = Start_To_Close | Schedule_To_Close

text \<open>\<open>min\<close> of the two candidates keeps the first one, start-to-close, on a tie.\<close>

definition effective_deadline :: "rat option \<Rightarrow> rat option \<Rightarrow> rat option \<times> deadline_type" where
  "effective_deadline start_to_close remaining_schedule_to_close =
     (case (start_to_close, remaining_schedule_to_close) of
        (None, None) \<Rightarrow> (None, Start_To_Close)
      | (Some s, None) \<Rightarrow> (Some (max 0 s), Start_To_Close)
      | (None, Some r) \<Rightarrow> (Some (max 0 r), Schedule_To_Close)
      | (Some s, Some r) \<Rightarrow>
          if max 0 s \<le> max 0 r then (Some (max 0 s), Start_To_Close)
          else (Some (max 0 r), Schedule_To_Close))"

subsection \<open>Workflow runs\<close>

text \<open>\<open>x or ()\<close> and \<open>x or 0\<close> of the wire policy.\<close>

definition wire_types :: "json \<Rightarrow> json list result" where
  "wire_types policy =
     (let ts = jget policy ''non_retryable_error_types''
      in if truthy ts then to_list ts else Inr [])"

definition wire_attempts :: "json \<Rightarrow> int result" where
  "wire_attempts policy =
     (let n = jget policy ''maximum_attempts'' in if truthy n then to_int n else Inr 0)"

definition workflow_retry_delay :: "json \<Rightarrow> int \<Rightarrow> json \<Rightarrow> rat option result" where
  "workflow_retry_delay policy att failure =
     bind_result (jindex failure ''cls'') (\<lambda>cls_name.
     if cls_name \<in> {JStr ''CancelledError'', JStr ''TerminatedError''} then Inr None
     else if cls_name = JStr ''TimeoutError'' \<and>
        jget failure ''timeout_type'' \<notin>
          {JInt (timeout_type_int START_TO_CLOSE), JInt (timeout_type_int HEARTBEAT)} then Inr None
     else if truthy (jget failure ''non_retryable'') then Inr None
     else
       bind_result (if jget failure ''type'' \<noteq> JNull then wire_types policy else Inr []) (\<lambda>types.
       if jget failure ''type'' \<in> set types then Inr None
       else
         bind_result (wire_attempts policy) (\<lambda>ma.
         if ma \<noteq> 0 \<and> ma \<le> att then Inr None
         else if jget failure ''next_retry_delay'' \<noteq> JNull then
           bind_result (to_float (jget failure ''next_retry_delay'')) (\<lambda>d. Inr (Some d))
         else
           bind_result (bind_result (jindex policy ''initial_interval'') to_float) (\<lambda>initial.
           bind_result (bind_result (jindex policy ''backoff_coefficient'') to_float) (\<lambda>coeff.
           bind_result (float_pow coeff (att - 1)) (\<lambda>x.
           if jget policy ''maximum_interval'' \<noteq> JNull then
             bind_result (to_float (jget policy ''maximum_interval'')) (\<lambda>mi.
               Inr (Some (min (initial * x) mi)))
           else Inr (Some (min (initial * x) (initial * 100)))))))))"

subsection \<open>What a decision to retry means\<close>

lemma retry_decision_cases:
  assumes "retry_decision p att f elapsed budget = Inr (d, rs)"
  obtains (give_up) "d = None" "rs \<in> {NON_RETRYABLE_FAILURE, TIMEOUT, MAXIMUM_ATTEMPTS_REACHED}"
  | (retry) delay where "d = Some delay" "rs = IN_PROGRESS"
      "\<not> truthy (jget f ''non_retryable'')" "\<not> type_listed f (non_retryable_error_types p)"
      "\<not> schedule_to_close_timeout f" "maximum_attempts p = 0 \<or> att < maximum_attempts p"
      "(if jget f ''next_retry_delay'' \<noteq> JNull then to_float (jget f ''next_retry_delay'')
        else backoff_delay p att) = Inr delay"
      "\<And>b e. budget = Some b \<Longrightarrow> elapsed = Some e \<Longrightarrow> e + delay < b"
proof (cases "truthy (jget f ''non_retryable'') \<or> type_listed f (non_retryable_error_types p) \<or>
    schedule_to_close_timeout f \<or> maximum_attempts p \<noteq> 0 \<and> maximum_attempts p \<le> att")
  case True
  with assms have "d = None \<and> rs \<in> {NON_RETRYABLE_FAILURE, TIMEOUT, MAXIMUM_ATTEMPTS_REACHED}"
    by (auto simp: retry_decision_def split: if_splits)
  with give_up show ?thesis by blast
next
  case False
  let ?d = "if jget f ''next_retry_delay'' \<noteq> JNull then to_float (jget f ''next_retry_delay'')
        else backoff_delay p att"
  from False assms obtain delay where delay: "?d = Inr delay"
    and out: "(case (budget, elapsed) of
              (Some b, Some e) \<Rightarrow> if b \<le> e + delay then Inr (None, TIMEOUT) else Inr (Some delay, IN_PROGRESS)
            | _ \<Rightarrow> Inr (Some delay, IN_PROGRESS)) = (Inr (d, rs) :: (rat option \<times> retry_state) result)"
    unfolding retry_decision_def by (auto simp only: if_False bind_result_Inr_iff de_Morgan_disj)
  show ?thesis
  proof (cases "\<exists>b e. budget = Some b \<and> elapsed = Some e \<and> b \<le> e + delay")
    case True
    with out give_up show ?thesis by auto
  next
    case fits: False
    with out have "d = Some delay" "rs = IN_PROGRESS" by (auto split: option.splits)
    with False delay fits show ?thesis by (intro retry [of delay]) (auto simp: not_le)
  qed
qed

lemma backoff_delay_bounds:
  assumes "backoff_delay p att = Inr d" and "0 \<le> initial_interval p" and "1 \<le> backoff_coefficient p"
    and "1 \<le> att" and "\<And>mi. maximum_interval p = Some mi \<Longrightarrow> mi = 0 \<or> initial_interval p \<le> mi"
  shows "total_seconds (initial_interval p) \<le> d \<and> d \<le> policy_maximum p"
proof -
  from assms(1) have d: "d = min (total_seconds (initial_interval p) *
      exact_pow (backoff_coefficient p) (att - 1)) (policy_maximum p)"
    by (auto simp: backoff_delay_def bind_result_Inr_iff float_pow_def split: if_splits)
  have ii: "0 \<le> total_seconds (initial_interval p)" using assms(2) by (simp add: total_seconds_def)
  have "1 \<le> exact_pow (backoff_coefficient p) (att - 1)" using assms(3,4) by (intro exact_pow_ge_1) auto
  with ii have "total_seconds (initial_interval p) * 1 \<le>
      total_seconds (initial_interval p) * exact_pow (backoff_coefficient p) (att - 1)"
    by (intro mult_left_mono) auto
  moreover have "total_seconds (initial_interval p) \<le> policy_maximum p"
    using ii assms(5) by (auto simp: policy_maximum_def split: option.split)
  ultimately show ?thesis using d by simp
qed

text \<open>What \<open>_validate\<close> guarantees of a policy that allows a second attempt.\<close>

lemma validated_policy:
  assumes "validate_retry_policy p = Inr ()" and "maximum_attempts p \<noteq> 1"
  shows "0 \<le> initial_interval p" "1 \<le> backoff_coefficient p" "0 \<le> maximum_attempts p"
    "maximum_interval p = Some mi \<Longrightarrow> mi = 0 \<or> initial_interval p \<le> mi"
  using assms
  by (auto simp: validate_retry_policy_def total_seconds_def not_less split: if_splits)

text \<open>
  Claim C34. An activity is retried only within its limits. For a validated policy, a decision to
  retry attempt \<open>n\<close> means that the failure is retryable, that attempts remain, that the
  schedule-to-close budget is not exhausted by the delay, and that a delay taken from the policy
  lies between the initial and the maximum interval.
\<close>

theorem retry_within_limits:
  assumes "validate_retry_policy p = Inr ()" and "1 \<le> n"
    and "retry_decision p n f elapsed budget = Inr (Some d, rs)"
  shows "rs = IN_PROGRESS \<and> \<not> truthy (jget f ''non_retryable'') \<and>
    \<not> type_listed f (non_retryable_error_types p) \<and> \<not> schedule_to_close_timeout f \<and>
    (maximum_attempts p = 0 \<or> n < maximum_attempts p) \<and>
    (\<forall>b e. budget = Some b \<and> elapsed = Some e \<longrightarrow> e + d < b) \<and>
    (jget f ''next_retry_delay'' = JNull \<longrightarrow>
       total_seconds (initial_interval p) \<le> d \<and> d \<le> policy_maximum p)"
  using assms(3)
proof (cases rule: retry_decision_cases)
  case (retry delay)
  then have "maximum_attempts p \<noteq> 1" using assms(2) by auto
  note v = validated_policy [OF assms(1) this]
  have "total_seconds (initial_interval p) \<le> delay \<and> delay \<le> policy_maximum p"
    if "jget f ''next_retry_delay'' = JNull"
  proof (rule backoff_delay_bounds)
    show "backoff_delay p n = Inr delay" using retry that by simp
  qed (use v assms(2) in auto)
  with retry show ?thesis by auto
qed simp

theorem retry_within_limits_witness:
  "retry_decision default_retry_policy 3 (JObj [(''cls'', JStr ''ApplicationError'')]) (Some 3) (Some 10)
     = Inr (Some 4, IN_PROGRESS) \<and> (1 :: rat) \<le> 4 \<and> (3 :: rat) + 4 < 10"
proof -
  have d: "retry_decision default_retry_policy 3 (JObj [(''cls'', JStr ''ApplicationError'')])
      (Some 3) (Some 10) = Inr (Some 4, IN_PROGRESS)"
    by (simp add: retry_decision_def default_retry_policy_def jget_def type_listed_def
        schedule_to_close_timeout_def backoff_delay_def float_pow_def float_limit_def exact_pow_def
        policy_maximum_def total_seconds_def)
  have "validate_retry_policy default_retry_policy = Inr ()"
    by (simp add: validate_retry_policy_def default_retry_policy_def total_seconds_def)
  from retry_within_limits [OF this _ d] show ?thesis
    using d by (simp add: default_retry_policy_def jget_def total_seconds_def)
qed

text \<open>
  The backoff never shrinks: for a validated policy that allows retries, the delay after
  attempt \<open>n + 1\<close> is at least the delay after attempt \<open>n\<close>.
\<close>

theorem backoff_monotone:
  assumes "validate_retry_policy p = Inr ()" and "maximum_attempts p \<noteq> 1" and "1 \<le> n"
    and "backoff_delay p n = Inr d" and "backoff_delay p (n + 1) = Inr d'"
  shows "d \<le> d'"
proof -
  note v = validated_policy [OF assms(1,2)]
  have "exact_pow (backoff_coefficient p) (n - 1) \<le> exact_pow (backoff_coefficient p) n"
    using v assms(3) by (intro exact_pow_mono) auto
  with v have "total_seconds (initial_interval p) * exact_pow (backoff_coefficient p) (n - 1) \<le>
      total_seconds (initial_interval p) * exact_pow (backoff_coefficient p) n"
    by (intro mult_left_mono) (auto simp: total_seconds_def)
  with assms(4,5) show ?thesis
    by (auto simp: backoff_delay_def bind_result_Inr_iff float_pow_def split: if_splits)
qed

theorem backoff_monotone_witness:
  "backoff_delay default_retry_policy 7 = Inr 64 \<and> backoff_delay default_retry_policy 8 = Inr 100 \<and>
   (64 :: rat) \<le> 100"
proof -
  note ev = default_retry_policy_def backoff_delay_def float_pow_def float_limit_def exact_pow_def
    policy_maximum_def total_seconds_def validate_retry_policy_def
  have "backoff_delay default_retry_policy 7 = Inr 64" "backoff_delay default_retry_policy 8 = Inr 100"
    by (simp_all add: ev)
  then show ?thesis
    using backoff_monotone [of default_retry_policy 7 64 100] by (simp add: ev)
qed

text \<open>
  The default policy does not retry for ever: its delays are capped at 100 seconds, yet
  the power behind them is computed first, so the decision after attempt 1025 raises OverflowError
  instead of backing off another 100 seconds.
\<close>

theorem default_policy_overflows:
  "retry_decision default_retry_policy 1024 (JObj [(''cls'', JStr ''ApplicationError'')]) None None
     = Inr (Some 100, IN_PROGRESS) \<and>
   retry_decision default_retry_policy 1025 (JObj [(''cls'', JStr ''ApplicationError'')]) None None
     = Inl OverflowErr"
  by (simp add: retry_decision_def default_retry_policy_def jget_def type_listed_def
        schedule_to_close_timeout_def backoff_delay_def float_pow_def float_limit_def exact_pow_def
        policy_maximum_def total_seconds_def)

text \<open>
  The effective deadline of an attempt is the tighter of the two bounds, never negative,
  and its label names a bound that is present and binding.
\<close>

theorem effective_deadline_binding:
  "effective_deadline s r = (d, t) \<longleftrightarrow>
     d = (case (s, r) of (None, None) \<Rightarrow> None | (Some a, None) \<Rightarrow> Some (max 0 a)
          | (None, Some b) \<Rightarrow> Some (max 0 b) | (Some a, Some b) \<Rightarrow> Some (max 0 (min a b))) \<and>
     (t = Schedule_To_Close \<longleftrightarrow>
        (case (s, r) of (_, None) \<Rightarrow> False | (None, Some b) \<Rightarrow> True | (Some a, Some b) \<Rightarrow> max 0 b < max 0 a))"
  by (cases t) (auto simp: effective_deadline_def split: option.splits)

subsection \<open>The two decisions agree\<close>

lemma wire_policy_fields:
  "jindex (serialize_retry_policy p) ''initial_interval'' = Inr (JNum (total_seconds (initial_interval p)))"
  "jindex (serialize_retry_policy p) ''backoff_coefficient'' = Inr (JNum (backoff_coefficient p))"
  "jget (serialize_retry_policy p) ''maximum_interval'' =
     json_of_option (\<lambda>m. JNum (total_seconds m)) (maximum_interval p)"
  "wire_attempts (serialize_retry_policy p) = Inr (maximum_attempts p)"
  "wire_types (serialize_retry_policy p) =
     Inr (case non_retryable_error_types p of Some ts \<Rightarrow> map JStr ts | None \<Rightarrow> [])"
  by (auto simp: serialize_retry_policy_def jindex_def jget_def wire_attempts_def wire_types_def Let_def
      split: option.split)

lemma type_listed_wire:
  "jget f ''type'' \<in> set (case types of Some ts \<Rightarrow> map JStr ts | None \<Rightarrow> []) \<longleftrightarrow>
   type_listed f types"
  by (auto simp: type_listed_def split: option.split)

lemma wire_backoff:
  assumes "maximum_interval p \<noteq> Some 0"
  defines "wm \<equiv> jget (serialize_retry_policy p) ''maximum_interval''"
  shows "bind_result (float_pow (backoff_coefficient p) (n - 1)) (\<lambda>x.
       if wm \<noteq> JNull
       then bind_result (to_float wm)
              (\<lambda>mi. Inr (Some (min (total_seconds (initial_interval p) * x) mi)))
       else Inr (Some (min (total_seconds (initial_interval p) * x) (total_seconds (initial_interval p) * 100))))
     = bind_result (backoff_delay p n) (\<lambda>d. Inr (Some d))"
  using assms(1) unfolding wm_def
  by (cases "maximum_interval p"; cases "float_pow (backoff_coefficient p) (n - 1)")
     (auto simp: backoff_delay_def policy_maximum_def wire_policy_fields)

text \<open>
  The workflow retry decision mirrors the activity one: on every failure that is not a
  cancellation, a termination or a timeout, and for every policy whose maximum interval is not
  zero, the dispatcher's decision on the wire policy is the activity decision on the policy itself
  without a schedule-to-close budget. With a zero maximum interval the two differ: the activity
  backs off up to 100 initial intervals, the workflow restarts at once.
\<close>

theorem workflow_retry_mirrors_activity:
  "(jindex f ''cls'' = Inr (JStr c) \<and> c \<notin> {''CancelledError'', ''TerminatedError'', ''TimeoutError''} \<and>
    maximum_interval p \<noteq> Some 0 \<longrightarrow>
      workflow_retry_delay (serialize_retry_policy p) n f =
      bind_result (retry_decision p n f None budget) (\<lambda>(d, _). Inr d)) \<and>
   (let zero = default_retry_policy\<lparr>maximum_interval := Some 0\<rparr>;
        boom = JObj [(''cls'', JStr ''ApplicationError'')]
    in retry_decision zero 1 boom None None = Inr (Some 1, IN_PROGRESS) \<and>
       workflow_retry_delay (serialize_retry_policy zero) 1 boom = Inr (Some 0))"
proof (intro conjI impI, elim conjE)
  assume a: "jindex f ''cls'' = Inr (JStr c)"
    and "c \<notin> {''CancelledError'', ''TerminatedError'', ''TimeoutError''}"
    and mi: "maximum_interval p \<noteq> Some 0"
  then have c: "c \<noteq> ''CancelledError''" "c \<noteq> ''TerminatedError''" "c \<noteq> ''TimeoutError''" by auto
  from a have cls: "jget f ''cls'' = JStr c" by (auto simp: jindex_def jget_def split: option.splits)
  have stc: "\<not> schedule_to_close_timeout f" using cls c by (simp add: schedule_to_close_timeout_def)
  have untyped: "\<not> type_listed f ts" if "jget f ''type'' = JNull" for ts
    using that by (simp add: type_listed_def split: option.split)
  show "workflow_retry_delay (serialize_retry_policy p) n f =
      bind_result (retry_decision p n f None budget) (\<lambda>(d, _). Inr d)"
  proof (cases "type_listed f (non_retryable_error_types p)")
    case True
    then obtain ts where "non_retryable_error_types p = Some ts" "jget f ''type'' \<noteq> JNull"
      "jget f ''type'' \<in> JStr ` set ts"
      by (auto simp: type_listed_def split: option.splits)
    with True show ?thesis
      using a c by (simp add: workflow_retry_delay_def retry_decision_def wire_policy_fields)
  next
    case False
    then have nt: "(if jget f ''type'' \<noteq> JNull then wire_types (serialize_retry_policy p) else Inr []) =
        Inr ts \<Longrightarrow> jget f ''type'' \<notin> set ts" for ts
      using type_listed_wire [of f "non_retryable_error_types p"]
      by (cases "jget f ''type'' = JNull")
         (auto simp only: wire_policy_fields(5) sum.inject if_True if_False list.set empty_iff simp_thms)
    obtain ts where ts: "(if jget f ''type'' \<noteq> JNull then wire_types (serialize_retry_policy p) else Inr []) = Inr ts"
      by (cases "jget f ''type'' = JNull") (simp_all add: wire_policy_fields)
    show ?thesis
      using False a c stc nt [OF ts]
      by (cases budget; cases "to_float (jget f ''next_retry_delay'')"; cases "backoff_delay p n")
         (simp_all add: workflow_retry_delay_def retry_decision_def ts wire_policy_fields(1,2,4) wire_backoff [OF mi])
  qed
next
  show "let zero = default_retry_policy\<lparr>maximum_interval := Some 0\<rparr>;
        boom = JObj [(''cls'', JStr ''ApplicationError'')]
    in retry_decision zero 1 boom None None = Inr (Some 1, IN_PROGRESS) \<and>
       workflow_retry_delay (serialize_retry_policy zero) 1 boom = Inr (Some 0)"
    by (simp add: retry_decision_def default_retry_policy_def jget_def type_listed_def
        schedule_to_close_timeout_def backoff_delay_def float_pow_def float_limit_def exact_pow_def
        policy_maximum_def total_seconds_def workflow_retry_delay_def jindex_def wire_attempts_def
        serialize_retry_policy_def)
qed

theorem workflow_retry_mirrors_activity_witness:
  "workflow_retry_delay (serialize_retry_policy default_retry_policy) 3
     (JObj [(''cls'', JStr ''ApplicationError''), (''type'', JStr ''Oops'')]) = Inr (Some 4)"
proof -
  let ?f = "JObj [(''cls'', JStr ''ApplicationError''), (''type'', JStr ''Oops'')]"
  have "retry_decision default_retry_policy 3 ?f None None = Inr (Some 4, IN_PROGRESS)"
    by (simp add: retry_decision_def default_retry_policy_def jget_def type_listed_def
        schedule_to_close_timeout_def backoff_delay_def float_pow_def float_limit_def exact_pow_def
        policy_maximum_def total_seconds_def)
  then show ?thesis
    using workflow_retry_mirrors_activity [of ?f "''ApplicationError''" default_retry_policy 3 None]
    by (simp add: jindex_def default_retry_policy_def)
qed

end
