(* ===== verification/Interp_State.thy ===== *)
theory Interp_State
  imports Inbox Attributes Chain Retry
begin

text \<open>
  The state of one workflow execution (\<open>Interpreter\<close>, \<open>_ActivityExec\<close>, \<open>_ChildExec\<close>, \<open>_Waiter\<close> of
  \<open>dbosify/_internal/interpreter.py\<close>), the futures of its virtual loop, the log of the DBOS calls it
  makes and the DBOS reads it depends on.

  User code (the workflow and its handlers) is not modelled: it acts on the state through the runtime
  operations of \<open>Interp_Runtime\<close>, in any order. A DBOS write is an entry of \<open>i_log\<close>; a DBOS read is a
  function of the \<open>env\<close> record, given anew to every operation that reads. User values and the payload
  dicts they are converted to are both JSON values.
\<close>

subsection \<open>Futures, tasks and waiters\<close>

datatype fut_state = Pending | Resolved json | Rejected "json exc" | FutCancelled

datatype callback =
    TimerFire nat        \<comment> \<open>the callback of a timer handle\<close>
  | ActivityDone nat nat \<comment> \<open>the done callback of an activity's future (future, seq)\<close>
  | ChildDone nat nat    \<comment> \<open>the done callback of a child's result future (future, seq)\<close>
  | Wakeup nat           \<comment> \<open>whatever user code awaits this future\<close>
  | StartTask nat        \<comment> \<open>the first step of a handler task\<close>
  | CancelPrimary        \<comment> \<open>\<open>primary_task.cancel\<close>\<close>

datatype wkind = WInbox | WTimer | WActivity | WQActivity | WActS2C | WActHB | WChild

record waiter =
  w_kind :: wkind
  w_seq :: nat
  w_task :: nat

text \<open>What a waiter's real-loop task runs.\<close>

datatype task_op =
    TSleep rat
  | TAttempt string "json list" "rat option" json
  | TActivityResult string
  | TChildResult string
  | TRecv string rat

datatype dbos_op =
    Launch nat task_op
  | CancelTask nat
  | SetEvent string json
  | Send string json string
  | Recv string rat
  | EnqueueRun string string json "string option" "rat option" "jdict option"
  | EnqueueActivity string string json
  | CancelWorkflow string
  | UpdateAttributes "jdict option"
  | PatchMarker string
  | RequestCancel nat
  | ForgetAttempt nat
  | StoreHeartbeat nat "json list"

subsection \<open>Activities and children\<close>

definition ABANDON_ACTIVITY :: int where "ABANDON_ACTIVITY = 2"
definition WAIT_CANCELLATION_COMPLETED :: int where "WAIT_CANCELLATION_COMPLETED = 1"

record activity_exec =
  ae_seq :: nat
  ae_name :: string
  ae_args :: "json list"
  ae_retry_policy :: retry_policy
  ae_start_to_close :: "rat option"
  ae_schedule_to_close :: "rat option"
  ae_activity_id :: string
  ae_scheduled_at :: rat
  ae_future :: nat
  ae_cancellation_type :: int
  ae_attempt :: int
  ae_in_backoff :: bool
  ae_pending_wait :: rat
  ae_last_failure :: "json option"
  ae_cancel_requested :: bool
  ae_async_pending :: bool
  ae_park_type :: timeout_type
  ae_heartbeat_timeout :: "rat option"
  ae_hb_seen :: bool
  ae_task_queue :: "string option"
  ae_queued_id :: "string option"
  ae_schedule_to_start :: "rat option"
  ae_headers :: jdict

record child_exec =
  ce_seq :: nat
  ce_type :: string
  ce_id :: string
  ce_args :: "json list"
  ce_task_queue :: "string option"
  ce_policy :: int
  ce_cancellation :: int
  ce_start_future :: nat
  ce_result_future :: nat
  ce_memo :: "jdict option"
  ce_sa :: "sa_pair list option"
  ce_started :: bool
  ce_headers :: jdict
  ce_run_timeout :: "rat option"
  ce_retry_policy :: "jdict option"

subsection \<open>Handlers and outcomes\<close>

text \<open>A signal, query or update definition; \<open>None\<close> names the dynamic handler.\<close>

record handler_defn =
  h_name :: "string option"
  h_fn :: nat
  h_policy :: int
  h_validator :: bool

type_synonym handlers = "(string option, handler_defn) dict"

record workflow_defn =
  wd_name :: string
  wd_signals :: handlers
  wd_queries :: handlers
  wd_updates :: handlers

record handler_rec =
  hr_kind :: string
  hr_name :: string
  hr_id :: "string option"
  hr_policy :: int

text \<open>A \<open>ContinueAsNewError\<close>.\<close>

record can_request =
  can_args :: "json list"
  can_workflow :: "string option"
  can_task_queue :: "string option"
  can_run_timeout :: "timedelta option"
  can_retry_policy :: "retry_policy option"
  can_memo :: "jdict option"
  can_sa :: "sa_pair list option"
  can_headers :: jdict

datatype outcome =
    OkOutcome json
  | Failure "json exc"
  | TaskFailure "json exc"
  | Cancelled "json exc"
  | ContinuedAsNew can_request

datatype command = CmdTimer nat | CmdActivity nat | CmdChild nat | CmdSend nat | CmdAttributes | CmdPatch nat

text \<open>The counters of \<open>_next_seq\<close>.\<close>

datatype seq_kind = SeqTimer | SeqActivity | SeqChild | SeqSend | SeqPatch

subsection \<open>The execution\<close>

record interp =
  i_workflow_id :: string
  i_defn :: workflow_defn
  i_meta :: run_meta
  i_replay_mode :: "replay_mode option"
  i_replay_horizon :: nat
  i_time :: rat
  i_ready :: "callback list"
  i_futs :: "nat \<Rightarrow> fut_state"
  i_next_fut :: nat
  i_callbacks :: "nat \<Rightarrow> callback list"
  i_next_task :: nat
  i_seqs :: "seq_kind \<Rightarrow> nat"
  i_timers :: "(nat, rat) dict"
  i_activities :: "(nat, activity_exec) dict"
  i_commands :: "command list"
  i_outbox :: "(string \<times> json) list"
  i_waiters :: "waiter list"
  i_buffered :: "(string, json list) dict"
  i_signal_overrides :: "(string option, handler_defn option) dict"
  i_query_overrides :: "(string option, handler_defn option) dict"
  i_update_overrides :: "(string option, handler_defn option) dict"
  i_pending_flush :: "json list"
  i_seen_updates :: "string list"
  i_inflight :: "(nat, handler_rec) dict"
  i_read_only :: bool
  i_cancel_requested :: bool
  i_cancel_reason :: "string option"
  i_cancelled_activities :: "nat list"
  i_queued_wait_cancels :: "nat list"
  i_abandoned :: "nat list"
  i_children :: "(nat, child_exec) dict"
  i_children_registry :: "(string \<times> int) list"
  i_cancelled_children :: "nat list"
  i_sends :: "(nat, string \<times> json \<times> nat \<times> bool) dict"
  i_own_queue :: "string option"
  i_own_queue_resolved :: bool
  i_task_queue_name :: string
  i_namespace :: string
  i_patches_recorded :: "string list"
  i_patches_memo :: "(string, bool) dict"
  i_pending_patches :: "(nat, string) dict"
  i_rehydrate_stop :: bool
  i_can_new_run :: "string option"
  i_memo :: jdict
  i_sa :: "sa_pair list"
  i_details :: string
  i_primary_done :: bool
  i_outcome :: "outcome option"
  i_log :: "dbos_op list"

text \<open>\<open>Interpreter.__init__\<close>. The worker's task queue and namespace are arguments.\<close>

definition new_interp ::
  "string \<Rightarrow> workflow_defn \<Rightarrow> run_meta option \<Rightarrow> string option \<Rightarrow> string option \<Rightarrow> interp" where
  "new_interp workflow_id defn meta worker_queue worker_namespace = \<lparr>
     i_workflow_id = workflow_id, i_defn = defn,
     i_meta = (case meta of Some m \<Rightarrow> m | None \<Rightarrow> default_meta),
     i_replay_mode = None, i_replay_horizon = 0, i_time = 0, i_ready = [], i_futs = (\<lambda>_. Pending),
     i_next_fut = 0, i_callbacks = (\<lambda>_. []), i_next_task = 0, i_seqs = (\<lambda>_. 0), i_timers = [],
     i_activities = [], i_commands = [], i_outbox = [], i_waiters = [], i_buffered = [],
     i_signal_overrides = [], i_query_overrides = [], i_update_overrides = [], i_pending_flush = [],
     i_seen_updates = [], i_inflight = [], i_read_only = False, i_cancel_requested = False,
     i_cancel_reason = None, i_cancelled_activities = [], i_queued_wait_cancels = [],
     i_abandoned = [], i_children = [], i_children_registry = [], i_cancelled_children = [],
     i_sends = [], i_own_queue = None, i_own_queue_resolved = False,
     i_task_queue_name = (case worker_queue of Some q \<Rightarrow> if q \<noteq> [] then q else ''default'' | None \<Rightarrow> ''default''),
     i_namespace = (case worker_namespace of Some n \<Rightarrow> if n \<noteq> [] then n else ''default'' | None \<Rightarrow> ''default''),
     i_patches_recorded = [], i_patches_memo = [], i_pending_patches = [], i_rehydrate_stop = False,
     i_can_new_run = None, i_memo = [], i_sa = [], i_details = [], i_primary_done = False,
     i_outcome = None, i_log = []\<rparr>"

text \<open>
  The start of \<open>execute\<close>: the replay mode is read off the run's own id, the recorded steps give the
  checkpoint horizon and the recorded patch ids, and the first checkpoint gives the start time.
\<close>

record recorded_step =
  rs_function_id :: nat
  rs_function_name :: string
  rs_output :: json

definition PATCH_STEP_NAME :: string where "PATCH_STEP_NAME = ''__dbosify_patch''"

definition begin_execution :: "recorded_step list \<Rightarrow> rat \<Rightarrow> jdict \<Rightarrow> sa_pair list \<Rightarrow> interp \<Rightarrow> interp" where
  "begin_execution steps start_time memo sa s =
     s\<lparr>i_replay_mode := replay_scratch_mode (i_workflow_id s),
       i_replay_horizon := fold max (map rs_function_id steps) 0,
       i_patches_recorded :=
         List.map_filter (\<lambda>st. if rs_function_name st = PATCH_STEP_NAME
           then (case rs_output st of JStr pid \<Rightarrow> Some pid | _ \<Rightarrow> None) else None) steps,
       i_time := start_time, i_memo := memo, i_sa := sa\<rparr>"

text \<open>
  The parent link of a run: a link within the run's own chain is a continuation, any other one a
  real parent.
\<close>

definition classify_parent :: "string \<Rightarrow> string option \<Rightarrow> string option \<times> string option" where
  "classify_parent workflow_id parent =
     (case parent of
        None \<Rightarrow> (None, None)
      | Some p \<Rightarrow> if fst (parse_run p) = fst (parse_run workflow_id) then (Some p, None) else (None, Some p))"

text \<open>
  The reads: the clock of outgoing envelopes, the function id of the DBOS context after the calls
  made so far, the registries (for a workflow type and the activity dispatcher: the message of the
  KeyError a failing lookup raises), the status table, the queues, the exception a DBOS call raises
  (type name and message), the value conversions, and the verdicts of synchronous user code. Only
  calls whose exceptions the code catches consult \<open>env_raises\<close>: any other DBOS failure aborts the
  execution, which is run again from its checkpoints.
\<close>

record status_fields =
  sf_status :: string
  sf_queue :: "string option"

record env =
  env_now :: rat
  env_function_id :: "dbos_op list \<Rightarrow> nat option"
  env_activity_step :: "string \<Rightarrow> bool"
  env_workflow_type :: "string \<Rightarrow> string option"
  env_dispatcher :: "string option"
  env_taken :: "string \<Rightarrow> bool"
  env_status :: "string \<Rightarrow> status_fields option"
  env_status_list :: "string lookup"
  env_queue :: "string \<Rightarrow> bool"
  env_children_event :: "string \<Rightarrow> json"
  env_raises :: "dbos_op \<Rightarrow> (string \<times> string) option"
  env_enc :: "json \<Rightarrow> json"
  env_dec :: "json \<Rightarrow> json"
  env_decode_args :: "handler_defn option \<Rightarrow> json list \<Rightarrow> json list result"
  env_enc_headers :: "jdict \<Rightarrow> jdict"
  env_rejects :: "json \<Rightarrow> json option"
  env_query :: "json \<Rightarrow> json exc + json"

subsection \<open>Basic operations\<close>

definition emit :: "dbos_op \<Rightarrow> interp \<Rightarrow> interp" where
  "emit op s = s\<lparr>i_log := i_log s @ [op]\<rparr>"

definition create_future :: "interp \<Rightarrow> nat \<times> interp" where
  "create_future s = (i_next_fut s,
     s\<lparr>i_next_fut := Suc (i_next_fut s),
       i_futs := (i_futs s)(i_next_fut s := Pending),
       i_callbacks := (i_callbacks s)(i_next_fut s := [])\<rparr>)"

text \<open>\<open>future.add_done_callback\<close>, used right after creation.\<close>

definition add_done_callback :: "nat \<Rightarrow> callback \<Rightarrow> interp \<Rightarrow> interp" where
  "add_done_callback f cb s = s\<lparr>i_callbacks := (i_callbacks s)(f := i_callbacks s f @ [cb])\<rparr>"

text \<open>
  Completing a future schedules its done callbacks on the virtual loop. \<open>set_result\<close> and
  \<open>set_exception\<close> raise InvalidStateError on a future that is done; \<open>cancel\<close> is ignored by it.
\<close>

definition complete_future :: "nat \<Rightarrow> fut_state \<Rightarrow> interp \<Rightarrow> interp" where
  "complete_future f st s =
     s\<lparr>i_futs := (i_futs s)(f := st), i_ready := i_ready s @ i_callbacks s f @ [Wakeup f]\<rparr>"

definition settle :: "nat \<Rightarrow> fut_state \<Rightarrow> interp \<Rightarrow> interp \<times> unit result" where
  "settle f st s =
     (if i_futs s f = Pending then (complete_future f st s, Inr ()) else (s, Inl InvalidStateError))"

definition cancel_future :: "nat \<Rightarrow> interp \<Rightarrow> interp" where
  "cancel_future f s = (if i_futs s f = Pending then complete_future f FutCancelled s else s)"

definition launch_waiter :: "wkind \<Rightarrow> nat \<Rightarrow> task_op \<Rightarrow> interp \<Rightarrow> interp" where
  "launch_waiter k sq op s =
     emit (Launch (i_next_task s) op)
       (s\<lparr>i_next_task := Suc (i_next_task s),
          i_waiters := i_waiters s @ [\<lparr>w_kind = k, w_seq = sq, w_task = i_next_task s\<rparr>]\<rparr>)"

definition next_seq :: "seq_kind \<Rightarrow> interp \<Rightarrow> nat \<times> interp" where
  "next_seq k s =
     (let sq = Suc (i_seqs s k) in (sq, s\<lparr>i_seqs := (i_seqs s)(k := sq)\<rparr>))"

definition set_outcome :: "outcome \<Rightarrow> interp \<Rightarrow> interp" where
  "set_outcome out s = (if i_outcome s = None then s\<lparr>i_outcome := Some out\<rparr> else s)"

definition advance_time :: "rat option \<Rightarrow> interp \<Rightarrow> interp" where
  "advance_time to_seconds s =
     (case to_seconds of
        Some t \<Rightarrow> if i_time s < t then s\<lparr>i_time := t\<rparr> else s
      | None \<Rightarrow> s)"

definition update_activity :: "nat \<Rightarrow> (activity_exec \<Rightarrow> activity_exec) \<Rightarrow> interp \<Rightarrow> interp" where
  "update_activity sq f s =
     (case dict_get (i_activities s) sq of
        Some a \<Rightarrow> s\<lparr>i_activities := dict_set sq (f a) (i_activities s)\<rparr>
      | None \<Rightarrow> s)"

definition drop_activity :: "nat \<Rightarrow> interp \<Rightarrow> interp" where
  "drop_activity sq s = s\<lparr>i_activities := dict_del sq (i_activities s)\<rparr>"

text \<open>\<open>_check_replay_horizon\<close>.\<close>

definition check_replay_horizon :: "env \<Rightarrow> interp \<Rightarrow> unit result" where
  "check_replay_horizon e s =
     (if i_replay_mode s = None then Inr ()
      else case env_function_id e (i_log s) of
             Some n \<Rightarrow> if i_replay_horizon s \<le> n then Inl NondeterminismErr else Inr ()
           | None \<Rightarrow> Inr ())"

text \<open>
  \<open>_resolve_current_run\<close>: the current run of a chain by exact-id probes. (Whether the probing
  returns is settled in theory \<open>Chain\<close>; a divergent probe has no value here.)
\<close>

definition resolve_current_run :: "env \<Rightarrow> string \<Rightarrow> string result" where
  "resolve_current_run e workflow_id =
     (case resolve_latest_run workflow_id (env_status_list e) of
        Some (Inr (Some (i, _))) \<Rightarrow> Inr (run_dbos_id workflow_id i)
      | Some (Inr None) \<Rightarrow> Inr workflow_id
      | Some (Inl err) \<Rightarrow> Inl err
      | None \<Rightarrow> Inl RuntimeError)"

definition resolve_own_queue :: "env \<Rightarrow> interp \<Rightarrow> interp" where
  "resolve_own_queue e s =
     (if i_own_queue_resolved s then s
      else s\<lparr>i_own_queue := (case env_status e (i_workflow_id s) of Some f \<Rightarrow> sf_queue f | None \<Rightarrow> None),
             i_own_queue_resolved := True\<rparr>)"

subsection \<open>Exceptions of workflow code\<close>

text \<open>
  \<open>_as_failure_error\<close>. \<open>is_failure_type\<close> tells whether a foreign exception is an
  \<open>asyncio.TimeoutError\<close> or listed in the workflow's or the worker's \<open>failure_exception_types\<close>.
\<close>

definition as_failure_error :: "json exc \<Rightarrow> json exc" where
  "as_failure_error err =
     (if is_FailureError (exc_kind err) then err
      else case exc_kind err of
             OtherException name msg \<Rightarrow>
               Exc (ApplicationError msg [] (Some name) False None UNSPECIFIED)
                 (exc_cause err) None True (exc_traceback err) None
           | _ \<Rightarrow> Exc (ApplicationError '''' [] (Some ''CancelledError'') False None UNSPECIFIED)
                 (exc_cause err) None True (exc_traceback err) None)"

definition is_failure_exception :: "(json exc \<Rightarrow> bool) \<Rightarrow> json exc \<Rightarrow> bool" where
  "is_failure_exception is_failure_type err \<longleftrightarrow>
     is_FailureError (exc_kind err) \<or> is_failure_type err"

text \<open>
  \<open>_record_workflow_error\<close>. A divergence detected by DBOS or by the replay guard is the foreign
  exception \<open>DBOSUnexpectedStepError\<close> or \<open>NondeterminismError\<close>.
\<close>

definition is_divergence :: "json exc \<Rightarrow> bool" where
  "is_divergence err =
     (case exc_kind err of
        OtherException name _ \<Rightarrow> name = ''DBOSUnexpectedStepError'' \<or> name = ''NondeterminismError''
      | _ \<Rightarrow> False)"

definition record_workflow_error :: "(json exc \<Rightarrow> bool) \<Rightarrow> json exc \<Rightarrow> interp \<Rightarrow> interp" where
  "record_workflow_error is_failure_type err s =
     (if is_divergence err \<and> i_replay_mode s \<noteq> None then set_outcome (Failure err) s
      else if i_cancel_requested s \<and> is_cancelled_exception err then set_outcome (Cancelled err) s
      else if is_failure_exception is_failure_type err then set_outcome (Failure (as_failure_error err)) s
      else set_outcome (TaskFailure err) s)"

text \<open>\<open>_run_primary\<close>: how the primary coroutine ends.\<close>

datatype completion = Returned json | ContinueAsNew can_request | Threw "json exc"

definition run_primary :: "(json exc \<Rightarrow> bool) \<Rightarrow> completion \<Rightarrow> interp \<Rightarrow> interp" where
  "run_primary is_failure_type how s =
     (let s = s\<lparr>i_primary_done := True\<rparr>
      in case how of
           Returned v \<Rightarrow> set_outcome (OkOutcome v) s
         | ContinueAsNew can \<Rightarrow> set_outcome (ContinuedAsNew can) s
         | Threw err \<Rightarrow>
             (if exc_kind err = AsyncioCancelled then
                let cancelled = new_exc (CancelledError ''Workflow cancelled'' [])
                in if i_cancel_requested s then set_outcome (Cancelled cancelled) s
                   else set_outcome (Failure cancelled) s
              else record_workflow_error is_failure_type err s))"

end
