(* ===== verification/Interp_Runtime.thy ===== *)
theory Interp_Runtime
  imports Interp_State
begin

text \<open>
  The runtime operations workflow code calls (the \<open>_create_timer\<close>, \<open>_cancel_timer\<close>, \<open>runtime_*\<close>,
  \<open>_request_activity_cancel\<close>, \<open>_patch\<close> and handler resolution of
  \<open>dbosify/_internal/interpreter.py\<close>). Each returns the state it leaves behind and its value or the
  exception it raises into workflow code.
\<close>

definition assert_not_read_only :: "interp \<Rightarrow> unit result" where
  "assert_not_read_only s = (if i_read_only s then Inl ReadOnlyContextError else Inr ())"

definition push_command :: "command \<Rightarrow> interp \<Rightarrow> interp" where
  "push_command c s = s\<lparr>i_commands := i_commands s @ [c]\<rparr>"

subsection \<open>Timers\<close>

definition create_timer :: "rat \<Rightarrow> interp \<Rightarrow> interp \<times> nat result" where
  "create_timer delay s =
     (case assert_not_read_only s of
        Inl err \<Rightarrow> (s, Inl err)
      | Inr _ \<Rightarrow>
          if delay < 0 then (s, Inl ValueError)
          else let (sq, s1) = next_seq SeqTimer s
               in (push_command (CmdTimer sq)
                     (s1\<lparr>i_timers := dict_set sq (i_time s1 + delay) (i_timers s1)\<rparr>), Inr sq))"

text \<open>Removing the waiters of a kind, each with its real-loop task cancelled.\<close>

definition cancel_waiters :: "(waiter \<Rightarrow> bool) \<Rightarrow> interp \<Rightarrow> interp" where
  "cancel_waiters P s =
     fold (\<lambda>w. emit (CancelTask (w_task w))) (filter P (i_waiters s))
       (s\<lparr>i_waiters := filter (\<lambda>w. \<not> P w) (i_waiters s)\<rparr>)"

definition cancel_timer :: "nat \<Rightarrow> interp \<Rightarrow> interp" where
  "cancel_timer sq s =
     (case dict_get (i_timers s) sq of
        None \<Rightarrow> s
      | Some _ \<Rightarrow> cancel_waiters (\<lambda>w. w_kind w = WTimer \<and> w_seq w = sq)
                    (s\<lparr>i_timers := dict_del sq (i_timers s)\<rparr>))"

subsection \<open>Activities\<close>

record activity_request =
  ar_name :: string
  ar_args :: "json list"
  ar_schedule_to_close :: "timedelta option"
  ar_start_to_close :: "timedelta option"
  ar_retry_policy :: "retry_policy option"
  ar_activity_id :: "string option"
  ar_cancellation_type :: int
  ar_heartbeat_timeout :: "timedelta option"
  ar_task_queue :: "string option"
  ar_schedule_to_start :: "timedelta option"
  ar_headers :: jdict

text \<open>\<open>t.total_seconds() if t else None\<close>: a zero duration counts as unset.\<close>

definition seconds_if :: "timedelta option \<Rightarrow> rat option" where
  "seconds_if t = (case t of Some d \<Rightarrow> if d \<noteq> 0 then Some (total_seconds d) else None | None \<Rightarrow> None)"

text \<open>\<open>activity_id or f"{seq}"\<close>: an empty id counts as unset.\<close>

definition resolved_activity_id :: "activity_request \<Rightarrow> nat \<Rightarrow> string" where
  "resolved_activity_id r sq =
     (case ar_activity_id r of Some aid \<Rightarrow> if aid \<noteq> [] then aid else dec sq | None \<Rightarrow> dec sq)"

definition new_activity_exec :: "activity_request \<Rightarrow> retry_policy \<Rightarrow> nat \<Rightarrow> nat \<Rightarrow> rat \<Rightarrow> activity_exec" where
  "new_activity_exec r policy sq fut now = \<lparr>ae_seq = sq, ae_name = ar_name r, ae_args = ar_args r,
     ae_retry_policy = policy, ae_start_to_close = seconds_if (ar_start_to_close r),
     ae_schedule_to_close = seconds_if (ar_schedule_to_close r),
     ae_activity_id = resolved_activity_id r sq, ae_scheduled_at = now, ae_future = fut,
     ae_cancellation_type = ar_cancellation_type r, ae_attempt = 1, ae_in_backoff = False,
     ae_pending_wait = 0, ae_last_failure = None, ae_cancel_requested = False,
     ae_async_pending = False, ae_park_type = START_TO_CLOSE,
     ae_heartbeat_timeout = seconds_if (ar_heartbeat_timeout r), ae_hb_seen = False,
     ae_task_queue = ar_task_queue r, ae_queued_id = None,
     ae_schedule_to_start = seconds_if (ar_schedule_to_start r), ae_headers = ar_headers r\<rparr>"

definition start_activity :: "env \<Rightarrow> activity_request \<Rightarrow> interp \<Rightarrow> interp \<times> (nat \<times> nat) result" where
  "start_activity e r s =
     (case assert_not_read_only s of
        Inl err \<Rightarrow> (s, Inl err)
      | Inr _ \<Rightarrow>
          if ar_task_queue r = None \<and> \<not> env_activity_step e (ar_name r) then (s, Inl KeyError)
          else let (sq, s1) = next_seq SeqActivity s;
                   aid = resolved_activity_id r sq;
                   policy = (case ar_retry_policy r of Some p \<Rightarrow> p | None \<Rightarrow> default_retry_policy)
               in if \<exists>a\<in>snd ` set (i_activities s1). ae_activity_id a = aid then (s1, Inl ValueError)
                  else case validate_retry_policy policy of
                    Inl err \<Rightarrow> (s1, Inl err)
                  | Inr _ \<Rightarrow>
                      let (fut, s2) = create_future s1;
                          exec = new_activity_exec r policy sq fut (i_time s2)
                      in (add_done_callback fut (ActivityDone fut sq)
                            (push_command (CmdActivity sq)
                              (s2\<lparr>i_activities := dict_set sq exec (i_activities s2)\<rparr>)), Inr (sq, fut)))"

text \<open>The done callback of an activity's future.\<close>

definition activity_done :: "nat \<Rightarrow> nat \<Rightarrow> interp \<Rightarrow> interp" where
  "activity_done fut sq s =
     (if i_futs s fut = FutCancelled \<and> dict_get (i_activities s) sq \<noteq> None
      then s\<lparr>i_cancelled_activities := i_cancelled_activities s @ [sq]\<rparr> else s)"

definition request_activity_cancel :: "nat \<Rightarrow> interp \<Rightarrow> interp" where
  "request_activity_cancel sq s =
     (case dict_get (i_activities s) sq of
        None \<Rightarrow> s
      | Some a \<Rightarrow>
          if ae_cancellation_type a = WAIT_CANCELLATION_COMPLETED \<and> \<not> ae_async_pending a then
            let s1 = update_activity sq (ae_cancel_requested_update (\<lambda>_. True)) s
            in if ae_queued_id a \<noteq> None
               then s1\<lparr>i_queued_wait_cancels := i_queued_wait_cancels s1 @ [sq]\<rparr>
               else emit (RequestCancel sq) s1
          else cancel_future (ae_future a) s)"

subsection \<open>Children and sends\<close>

record child_request =
  cr_type :: string
  cr_args :: "json list"
  cr_id :: "string option"
  cr_task_queue :: "string option"
  cr_policy :: int
  cr_cancellation :: int
  cr_memo :: "jdict option"
  cr_sa :: "sa_pair list option"
  cr_run_timeout :: "timedelta option"
  cr_retry_policy :: "retry_policy option"
  cr_headers :: jdict

definition jdict_of :: "json \<Rightarrow> jdict" where
  "jdict_of j = (case j of JObj kvs \<Rightarrow> kvs | _ \<Rightarrow> [])"

definition start_child_workflow :: "child_request \<Rightarrow> interp \<Rightarrow> interp \<times> (nat \<times> nat) result" where
  "start_child_workflow r s =
     (case assert_not_read_only s of
        Inl err \<Rightarrow> (s, Inl err)
      | Inr _ \<Rightarrow>
          let (sq, s1) = next_seq SeqChild s
          in case (case cr_id r of Some cid \<Rightarrow> validate_workflow_id cid | None \<Rightarrow> Inr ()) of
               Inl err \<Rightarrow> (s1, Inl err)
             | Inr _ \<Rightarrow>
                 let cid = (case cr_id r of Some c \<Rightarrow> if c \<noteq> [] then c else child_dbos_id (i_workflow_id s) sq
                            | None \<Rightarrow> child_dbos_id (i_workflow_id s) sq);
                     (sf, s2) = create_future s1;
                     (rf, s3) = create_future s2;
                     child = \<lparr>ce_seq = sq, ce_type = cr_type r, ce_id = cid, ce_args = cr_args r,
                       ce_task_queue = cr_task_queue r, ce_policy = cr_policy r,
                       ce_cancellation = cr_cancellation r, ce_start_future = sf, ce_result_future = rf,
                       ce_memo = cr_memo r, ce_sa = cr_sa r, ce_started = False, ce_headers = cr_headers r,
                       ce_run_timeout = map_option total_seconds (cr_run_timeout r),
                       ce_retry_policy = map_option (jdict_of \<circ> serialize_retry_policy) (cr_retry_policy r)\<rparr>
                 in (add_done_callback rf (ChildDone rf sq)
                       (push_command (CmdChild sq) (s3\<lparr>i_children := dict_set sq child (i_children s3)\<rparr>)),
                     Inr (sq, sf)))"

definition child_done :: "nat \<Rightarrow> nat \<Rightarrow> interp \<Rightarrow> interp" where
  "child_done fut sq s =
     (if i_futs s fut = FutCancelled \<and> dict_get (i_children s) sq \<noteq> None
      then s\<lparr>i_cancelled_children := i_cancelled_children s @ [sq]\<rparr> else s)"

definition send_to_workflow :: "string \<Rightarrow> json \<Rightarrow> bool \<Rightarrow> interp \<Rightarrow> interp \<times> nat result" where
  "send_to_workflow target envelope resolve_chain s =
     (case assert_not_read_only s of
        Inl err \<Rightarrow> (s, Inl err)
      | Inr _ \<Rightarrow>
          let (sq, s1) = next_seq SeqSend s;
              (fut, s2) = create_future s1
          in (push_command (CmdSend sq)
                (s2\<lparr>i_sends := dict_set sq (target, envelope, fut, resolve_chain) (i_sends s2)\<rparr>), Inr fut))"

subsection \<open>Attributes, details, patches\<close>

definition upsert_memo :: "jdict \<Rightarrow> interp \<Rightarrow> interp \<times> unit result" where
  "upsert_memo updates s =
     (case assert_not_read_only s of
        Inl err \<Rightarrow> (s, Inl err)
      | Inr _ \<Rightarrow> (push_command CmdAttributes (s\<lparr>i_memo := apply_memo_updates (i_memo s) updates\<rparr>), Inr ()))"

definition upsert_search_attributes :: "sa_update list \<Rightarrow> interp \<Rightarrow> interp \<times> unit result" where
  "upsert_search_attributes us s =
     (case assert_not_read_only s of
        Inl err \<Rightarrow> (s, Inl err)
      | Inr _ \<Rightarrow>
          (case bind_result (apply_sa_updates (i_sa s) us) (\<lambda>sa.
                bind_result (encode_search_attributes sa []) (\<lambda>_. Inr sa)) of
             Inl err \<Rightarrow> (s, Inl err)
           | Inr sa \<Rightarrow> (push_command CmdAttributes (s\<lparr>i_sa := sa\<rparr>), Inr ())))"

definition set_current_details :: "string \<Rightarrow> interp \<Rightarrow> interp \<times> unit result" where
  "set_current_details details s =
     (case assert_not_read_only s of
        Inl err \<Rightarrow> (s, Inl err)
      | Inr _ \<Rightarrow> (s\<lparr>i_details := details\<rparr>, Inr ()))"

definition is_replaying :: "env \<Rightarrow> interp \<Rightarrow> bool" where
  "is_replaying e s =
     (case env_function_id e (i_log s) of Some n \<Rightarrow> n < i_replay_horizon s | None \<Rightarrow> False)"

definition history_length :: "env \<Rightarrow> interp \<Rightarrow> nat" where
  "history_length e s = (case env_function_id e (i_log s) of Some n \<Rightarrow> n | None \<Rightarrow> 0)"

definition patch :: "env \<Rightarrow> string \<Rightarrow> interp \<Rightarrow> interp \<times> bool result" where
  "patch e pid s =
     (case assert_not_read_only s of
        Inl err \<Rightarrow> (s, Inl err)
      | Inr _ \<Rightarrow>
          (case dict_get (i_patches_memo s) pid of
             Some use \<Rightarrow> (s, Inr use)
           | None \<Rightarrow>
               let use = (\<not> is_replaying e s \<or> pid \<in> set (i_patches_recorded s));
                   s1 = s\<lparr>i_patches_memo := dict_set pid use (i_patches_memo s)\<rparr>
               in if use
                  then let (sq, s2) = next_seq SeqPatch s1
                       in (push_command (CmdPatch sq)
                             (s2\<lparr>i_pending_patches := dict_set sq pid (i_pending_patches s2)\<rparr>), Inr use)
                  else (s1, Inr use)))"

subsection \<open>Handlers\<close>

definition resolve_handler ::
  "(string option, handler_defn option) dict \<Rightarrow> handlers \<Rightarrow> string option \<Rightarrow> handler_defn option" where
  "resolve_handler overrides defns name =
     (let dynamic = (case dict_get overrides None of
                       Some (Some d) \<Rightarrow> Some d
                     | _ \<Rightarrow> dict_get defns None)
      in case dict_get overrides name of
           Some (Some d) \<Rightarrow> Some d
         | Some None \<Rightarrow> dynamic
         | None \<Rightarrow> (case dict_get defns name of Some d \<Rightarrow> Some d | None \<Rightarrow> dynamic))"

definition resolve_signal :: "interp \<Rightarrow> string \<Rightarrow> handler_defn option" where
  "resolve_signal s name = resolve_handler (i_signal_overrides s) (wd_signals (i_defn s)) (Some name)"

definition resolve_query :: "interp \<Rightarrow> string \<Rightarrow> handler_defn option" where
  "resolve_query s name = resolve_handler (i_query_overrides s) (wd_queries (i_defn s)) (Some name)"

definition resolve_update :: "interp \<Rightarrow> string \<Rightarrow> handler_defn option" where
  "resolve_update s name = resolve_handler (i_update_overrides s) (wd_updates (i_defn s)) (Some name)"

text \<open>\<open>runtime_get_handler\<close> of a category, its overrides and definitions given.\<close>

definition get_handler ::
  "(string option, handler_defn option) dict \<Rightarrow> handlers \<Rightarrow> string option \<Rightarrow> handler_defn option" where
  "get_handler overrides defns name =
     (case dict_get overrides name of
        Some entry \<Rightarrow> entry
      | None \<Rightarrow> dict_get defns name)"

datatype category = SignalHandler | QueryHandler | UpdateHandler

definition set_handler ::
  "category \<Rightarrow> string option \<Rightarrow> handler_defn option \<Rightarrow> interp \<Rightarrow> interp \<times> unit result" where
  "set_handler cat name handler s =
     (case assert_not_read_only s of
        Inl err \<Rightarrow> (s, Inl err)
      | Inr _ \<Rightarrow>
          (case cat of
             QueryHandler \<Rightarrow> (s\<lparr>i_query_overrides := dict_set name handler (i_query_overrides s)\<rparr>, Inr ())
           | UpdateHandler \<Rightarrow> (s\<lparr>i_update_overrides := dict_set name handler (i_update_overrides s)\<rparr>, Inr ())
           | SignalHandler \<Rightarrow>
               let s1 = s\<lparr>i_signal_overrides := dict_set name handler (i_signal_overrides s)\<rparr>
               in if handler = None then (s1, Inr ())
                  else case name of
                    None \<Rightarrow> (s1\<lparr>i_pending_flush := i_pending_flush s1 @ concat (map snd (i_buffered s1)),
                               i_buffered := []\<rparr>, Inr ())
                  | Some n \<Rightarrow>
                      (case dict_get (i_buffered s1) n of
                         Some envs \<Rightarrow> (s1\<lparr>i_pending_flush := i_pending_flush s1 @ envs,
                                         i_buffered := dict_del n (i_buffered s1)\<rparr>, Inr ())
                       | None \<Rightarrow> (s1, Inr ()))))"

text \<open>
  Handler precedence: a runtime handler for the exact name wins over the decorated one,
  an unset exact name and an unknown name fall to the dynamic handler, a runtime dynamic handler
  wins over the decorated one, and unsetting the dynamic override uncovers the decorated dynamic
  handler again.
\<close>

theorem handler_precedence:
  "resolve_handler ov defns name =
     (case (dict_get ov name, dict_get defns name, dict_get ov None, dict_get defns None) of
        (Some (Some d), _, _, _) \<Rightarrow> Some d
      | (None, Some d, _, _) \<Rightarrow> Some d
      | (_, _, Some (Some d), _) \<Rightarrow> Some d
      | (_, _, _, d) \<Rightarrow> d)"
  by (auto simp: resolve_handler_def Let_def split: option.split)

text \<open>
  A patch decision is stable for the whole run and recorded once: asking again gives the
  same answer without queueing another marker, a new run always takes the new path, and a replay
  takes it exactly when the marker is in the recorded history.
\<close>

theorem patch_stable:
  assumes "patch e pid s = (s1, Inr use)" and "\<not> i_read_only s1"
  shows "patch e' pid s1 = (s1, Inr use) \<and>
    use = (case dict_get (i_patches_memo s) pid of
             Some u \<Rightarrow> u | None \<Rightarrow> \<not> is_replaying e s \<or> pid \<in> set (i_patches_recorded s)) \<and>
    (if dict_get (i_patches_memo s) pid = None \<and> use
     then \<exists>sq. i_commands s1 = i_commands s @ [CmdPatch sq] \<and> dict_get (i_pending_patches s1) sq = Some pid
     else i_commands s1 = i_commands s)"
proof (cases "dict_get (i_patches_memo s) pid")
  case None
  then show ?thesis
    using assms
    by (auto simp: patch_def assert_not_read_only_def Let_def next_seq_def push_command_def dict_get_set
        split: if_splits)
next
  case (Some u)
  then show ?thesis using assms by (auto simp: patch_def assert_not_read_only_def split: if_splits)
qed

text \<open>A workflow without handlers, and an environment whose reads answer as a fresh run sees them.\<close>

definition plain_defn :: workflow_defn where
  "plain_defn = \<lparr>wd_name = ''W'', wd_signals = [], wd_queries = [], wd_updates = []\<rparr>"

definition plain_env :: env where
  "plain_env = \<lparr>env_now = 0, env_function_id = (\<lambda>log. Some (length log)), env_activity_step = (\<lambda>_. True),
     env_workflow_type = (\<lambda>_. None), env_dispatcher = None, env_taken = (\<lambda>_. False),
     env_status = (\<lambda>_. Some \<lparr>sf_status = ''PENDING'', sf_queue = None\<rparr>), env_status_list = (\<lambda>_. []),
     env_queue = (\<lambda>_. True), env_children_event = (\<lambda>_. JNull), env_raises = (\<lambda>_. None),
     env_enc = (\<lambda>v. v), env_dec = (\<lambda>v. v), env_decode_args = (\<lambda>_ args. Inr args),
     env_enc_headers = (\<lambda>h. h), env_rejects = (\<lambda>_. None), env_query = (\<lambda>_. Inr JNull)\<rparr>"

theorem patch_stable_witness:
  "\<exists>s1. patch plain_env ''fix-1'' (new_interp ''W'' plain_defn None None None) = (s1, Inr True) \<and>
        patch plain_env ''fix-1'' s1 = (s1, Inr True) \<and> i_commands s1 = [CmdPatch 1]"
proof -
  let ?s = "new_interp ''W'' plain_defn None None None"
  obtain s1 where s1: "patch plain_env ''fix-1'' ?s = (s1, Inr True)" "\<not> i_read_only s1"
      "i_commands s1 = [CmdPatch 1]"
    by (simp add: patch_def assert_not_read_only_def new_interp_def is_replaying_def plain_env_def
        next_seq_def push_command_def)
  then show ?thesis using patch_stable [OF s1(1,2), of plain_env] by blast
qed

end
