(* ===== verification/Interp_Commands.thy ===== *)
theory Interp_Commands
  imports Interp_Runtime
begin

text \<open>
  The outer loop's side of the commands: launching attempts, queued activities and children,
  processing the queued commands, sweeping cancellations, flushing replies
  (\<open>_process_commands\<close>, \<open>_launch_attempt\<close>, \<open>_launch_queued_activity\<close>, \<open>_start_child\<close>,
  \<open>_sweep_cancellations\<close>, \<open>_ensure_inbox_waiter\<close>, \<open>_flush_outbox\<close> of
  \<open>dbosify/_internal/interpreter.py\<close>). An operation that can raise returns the state it leaves and
  a result.
\<close>

subsection \<open>Small parts\<close>

definition py_repr :: "string \<Rightarrow> string" where
  "py_repr s = [CHR 0x27] @ s @ [CHR 0x27]"

fun error_name :: "py_error \<Rightarrow> string" where
  "error_name ValueError = ''ValueError''"
| "error_name TypeError = ''TypeError''"
| "error_name KeyError = ''KeyError''"
| "error_name IndexError = ''IndexError''"
| "error_name RuntimeError = ''RuntimeError''"
| "error_name TimeoutErr = ''TimeoutError''"
| "error_name AssertionError = ''AssertionError''"
| "error_name InvalidStateError = ''InvalidStateError''"
| "error_name ReadOnlyContextError = ''ReadOnlyContextError''"
| "error_name NondeterminismErr = ''NondeterminismError''"
| "error_name NotImplementedErr = ''NotImplementedError''"
| "error_name VisibilityQueryError = ''VisibilityQueryError''"
| "error_name AttributeError = ''AttributeError''"
| "error_name OverflowErr = ''OverflowError''"
| "error_name CancelledErr = ''CancelledError''"

definition app_error :: "string \<Rightarrow> string \<Rightarrow> json exc" where
  "app_error typ msg = new_exc (ApplicationError msg [] (Some typ) False None UNSPECIFIED)"

text \<open>\<open>if not future.cancelled(): future.set_...\<close>\<close>

definition settle_unless_cancelled :: "nat \<Rightarrow> fut_state \<Rightarrow> interp \<Rightarrow> interp \<times> unit result" where
  "settle_unless_cancelled f st s = (if i_futs s f = FutCancelled then (s, Inr ()) else settle f st s)"

text \<open>Waiters whose tasks are detached instead of cancelled.\<close>

definition abandon_waiters :: "(waiter \<Rightarrow> bool) \<Rightarrow> interp \<Rightarrow> interp" where
  "abandon_waiters P s =
     s\<lparr>i_waiters := filter (\<lambda>w. \<not> P w) (i_waiters s),
       i_abandoned := i_abandoned s @ map w_task (filter P (i_waiters s))\<rparr>"

definition base_id :: "interp \<Rightarrow> string" where
  "base_id s = fst (parse_run (i_workflow_id s))"

subsection \<open>Activity attempts\<close>

definition remaining_schedule_to_close :: "interp \<Rightarrow> activity_exec \<Rightarrow> rat option" where
  "remaining_schedule_to_close s a =
     map_option (\<lambda>stc. stc - (i_time s - ae_scheduled_at a)) (ae_schedule_to_close a)"

fun deadline_name :: "deadline_type \<Rightarrow> string" where
  "deadline_name Start_To_Close = ''start_to_close''"
| "deadline_name Schedule_To_Close = ''schedule_to_close''"

definition attempt_meta :: "interp \<Rightarrow> activity_exec \<Rightarrow> deadline_type \<Rightarrow> json" where
  "attempt_meta s a dt = JObj [
     (''activity_id'', JStr (ae_activity_id a)), (''activity_type'', JStr (ae_name a)),
     (''attempt'', JInt (ae_attempt a)),
     (''heartbeat_timeout'', json_of_option JNum (ae_heartbeat_timeout a)),
     (''schedule_to_close'', json_of_option JNum (ae_schedule_to_close a)),
     (''start_to_close'', json_of_option JNum (ae_start_to_close a)),
     (''retry_policy'', serialize_retry_policy (ae_retry_policy a)),
     (''seq'', JInt (int (ae_seq a))),
     (''task_queue'', JStr (case ae_task_queue a of
        Some q \<Rightarrow> if q \<noteq> [] then q else i_task_queue_name s | None \<Rightarrow> i_task_queue_name s)),
     (''workflow_id'', JStr (base_id s)), (''workflow_run_id'', JStr (i_workflow_id s)),
     (''workflow_type'', JStr (wd_name (i_defn s))), (''headers'', JObj (ae_headers a)),
     (''deadline_type'', JStr (deadline_name dt))]"

definition launch_attempt :: "env \<Rightarrow> nat \<Rightarrow> interp \<Rightarrow> interp \<times> unit result" where
  "launch_attempt e sq s =
     (case dict_get (i_activities s) sq of
        None \<Rightarrow> (s, Inl KeyError)
      | Some a \<Rightarrow>
          if \<not> env_activity_step e (ae_name a) then (s, Inl KeyError)
          else let s1 = update_activity sq (ae_in_backoff_update (\<lambda>_. False)) s;
                   (deadline, dt) = effective_deadline (ae_start_to_close a) (remaining_schedule_to_close s a)
               in (launch_waiter WActivity sq (TAttempt (ae_name a) (ae_args a) deadline (attempt_meta s a dt)) s1,
                   Inr ()))"

subsection \<open>Cross-queue activities\<close>

definition queued_meta :: "interp \<Rightarrow> activity_exec \<Rightarrow> string \<Rightarrow> string \<Rightarrow> json" where
  "queued_meta s a queue dbos_id = JObj [
     (''activity_id'', JStr (ae_activity_id a)), (''activity_type'', JStr (ae_name a)),
     (''attempt'', JInt (ae_attempt a)),
     (''heartbeat_timeout'', json_of_option JNum (ae_heartbeat_timeout a)),
     (''seq'', JInt (int (ae_seq a))), (''task_queue'', JStr queue),
     (''workflow_id'', JStr (base_id s)), (''workflow_run_id'', JStr (i_workflow_id s)),
     (''workflow_type'', JStr (wd_name (i_defn s))), (''headers'', JObj (ae_headers a)),
     (''queued'', JBool True), (''queued_activity_dbos_id'', JStr dbos_id)]"

definition queued_payload :: "interp \<Rightarrow> activity_exec \<Rightarrow> string \<Rightarrow> string \<Rightarrow> json" where
  "queued_payload s a queue dbos_id = JObj [
     (''activity_name'', JStr (ae_name a)), (''args'', JList (ae_args a)),
     (''start_to_close'', json_of_option JNum (ae_start_to_close a)),
     (''schedule_to_close'', json_of_option JNum (ae_schedule_to_close a)),
     (''schedule_to_start'', json_of_option JNum (ae_schedule_to_start a)),
     (''retry_policy'', serialize_retry_policy (ae_retry_policy a)),
     (''meta'', queued_meta s a queue dbos_id)]"

definition signal_queued_activity_cancel :: "env \<Rightarrow> activity_exec \<Rightarrow> interp \<Rightarrow> interp" where
  "signal_queued_activity_cancel e a s =
     (case ae_queued_id a of
        None \<Rightarrow> s
      | Some dbos_id \<Rightarrow>
          emit (Send dbos_id (activity_result_envelope (env_now e) (ae_activity_id a) JNull JNull True)
                  ASYNC_COMPLETE_TOPIC)
            (emit (SetEvent (activity_cancel_key (ae_activity_id a)) (JBool True)) s))"

text \<open>What the \<open>try\<close> block of the dispatch raises, if anything: type name and message.\<close>

definition queue_dispatch_error :: "env \<Rightarrow> string \<Rightarrow> dbos_op \<Rightarrow> (string \<times> string) option" where
  "queue_dispatch_error e queue op =
     (case env_dispatcher e of
        Some msg \<Rightarrow> Some (''KeyError'', msg)
      | None \<Rightarrow>
          if \<not> env_queue e queue
          then Some (''RuntimeError'', ''Task queue '' @ py_repr queue @ '' is not registered'')
          else env_raises e op)"

definition launch_queued_activity :: "env \<Rightarrow> nat \<Rightarrow> interp \<Rightarrow> interp \<times> unit result" where
  "launch_queued_activity e sq s =
     (case dict_get (i_activities s) sq of
        None \<Rightarrow> (s, Inl KeyError)
      | Some a \<Rightarrow>
          (case ae_task_queue a of
             None \<Rightarrow> (s, Inl AssertionError)
           | Some queue \<Rightarrow>
               let dbos_id = activity_dbos_id (i_workflow_id s) sq;
                   op = EnqueueActivity dbos_id queue (queued_payload s a queue dbos_id)
               in case queue_dispatch_error e queue op of
                    Some (typ, msg) \<Rightarrow>
                      settle_unless_cancelled (ae_future a)
                        (Rejected (Exc (ActivityError
                             (''Failed to schedule activity on task queue '' @ py_repr queue)
                             0 0 '''' (ae_name a) (ae_activity_id a) None)
                           (Some (app_error typ msg)) None True None None))
                        (drop_activity sq s)
                  | None \<Rightarrow>
                      let s1 = update_activity sq (ae_queued_id_update (\<lambda>_. Some dbos_id)) (emit op s);
                          s2 = launch_waiter WQActivity sq (TActivityResult dbos_id) s1
                      in (if ae_cancel_requested a
                          then signal_queued_activity_cancel e (a\<lparr>ae_queued_id := Some dbos_id\<rparr>) s2 else s2,
                          Inr ())))"

text \<open>An \<open>activity\<close> command: arguments are encoded once, then the activity goes to a queue or runs here.\<close>

definition process_activity :: "env \<Rightarrow> nat \<Rightarrow> interp \<Rightarrow> interp \<times> bool result" where
  "process_activity e sq s =
     (case dict_get (i_activities s) sq of
        None \<Rightarrow> (s, Inr False)
      | Some a \<Rightarrow>
          let s1 = update_activity sq (\<lambda>a. a\<lparr>ae_args := map (env_enc e) (ae_args a),
                     ae_headers := env_enc_headers e (ae_headers a)\<rparr>) s;
              s2 = (if ae_task_queue a \<noteq> None then resolve_own_queue e s1 else s1)
          in case check_replay_horizon e s2 of
               Inl err \<Rightarrow> (s2, Inl err)
             | Inr _ \<Rightarrow>
                 let (s3, r) = (if ae_task_queue a = None \<or> ae_task_queue a = i_own_queue s2
                                then launch_attempt e sq s2 else launch_queued_activity e sq s2)
                 in (s3, bind_result r (\<lambda>_. Inr False)))"

subsection \<open>Timers\<close>

definition process_timer :: "env \<Rightarrow> nat \<Rightarrow> interp \<Rightarrow> interp \<times> bool result" where
  "process_timer e sq s =
     (case dict_get (i_timers s) sq of
        None \<Rightarrow> (s, Inr False)
      | Some when_due \<Rightarrow>
          let real_delay = when_due - i_time s
          in if real_delay \<le> 0
             then (s\<lparr>i_timers := dict_del sq (i_timers s), i_ready := i_ready s @ [TimerFire sq]\<rparr>, Inr True)
             else case check_replay_horizon e s of
               Inl err \<Rightarrow> (s, Inl err)
             | Inr _ \<Rightarrow> (launch_waiter WTimer sq (TSleep real_delay) s, Inr False))"

subsection \<open>Children\<close>

definition child_meta :: "env \<Rightarrow> interp \<Rightarrow> child_exec \<Rightarrow> jdict option \<Rightarrow> run_meta" where
  "child_meta e s c attrs =
     default_meta\<lparr>m_attributes := attrs,
       m_headers := (let h = env_enc_headers e (ce_headers c) in if h = [] then None else Some h),
       m_root := (case m_root (i_meta s) of
                    Some r \<Rightarrow> if r \<noteq> [] then Some r
                              else Some [(''workflow_id'', JStr (base_id s)), (''run_id'', JStr (i_workflow_id s))]
                  | None \<Rightarrow> Some [(''workflow_id'', JStr (base_id s)), (''run_id'', JStr (i_workflow_id s))]),
       m_run_timeout := ce_run_timeout c, m_retry_policy := ce_retry_policy c\<rparr>"

definition registry_json :: "(string \<times> int) list \<Rightarrow> json" where
  "registry_json reg = JList (map (\<lambda>(cid, pol). JObj [(''id'', JStr cid), (''policy'', JInt pol)]) reg)"

text \<open>The failure branch of \<open>_start_child\<close>: the child is forgotten, its starter gets the exception.\<close>

definition fail_child_start :: "nat \<Rightarrow> child_exec \<Rightarrow> json exc \<Rightarrow> interp \<Rightarrow> interp \<times> unit result" where
  "fail_child_start sq c exc s =
     settle_unless_cancelled (ce_start_future c) (Rejected exc)
       (s\<lparr>i_children := dict_del sq (i_children s)\<rparr>)"

definition register_child :: "child_exec \<Rightarrow> interp \<Rightarrow> interp" where
  "register_child c s =
     (let reg = i_children_registry s @ [(ce_id c, ce_policy c)]
      in emit (SetEvent CHILDREN_EVENT_KEY (registry_json reg)) (s\<lparr>i_children_registry := reg\<rparr>))"

definition child_queue :: "env \<Rightarrow> interp \<Rightarrow> child_exec \<Rightarrow> string option" where
  "child_queue e s c =
     (case (case ce_task_queue c of Some q \<Rightarrow> if q \<noteq> [] then Some q else i_own_queue s
            | None \<Rightarrow> i_own_queue s) of
        Some q \<Rightarrow> if env_queue e q then Some q else None
      | None \<Rightarrow> None)"

definition start_child :: "env \<Rightarrow> nat \<Rightarrow> interp \<Rightarrow> interp \<times> unit result" where
  "start_child e sq s =
     (case dict_get (i_children s) sq of
        None \<Rightarrow> (s, Inl KeyError)
      | Some c \<Rightarrow>
          (case env_workflow_type e (ce_type c) of
             Some msg \<Rightarrow> fail_child_start sq c (app_error ''KeyError'' msg) s
           | None \<Rightarrow>
               if env_taken e (ce_id c) then
                 fail_child_start sq c
                   (new_exc (OtherFailure ''WorkflowAlreadyStartedError'' ''Workflow execution already started'')) s
               else
                 let s1 = register_child c (resolve_own_queue e s)
                 in case encode_attributes (env_enc e) (ce_memo c) (ce_sa c) of
                      Inl err \<Rightarrow> fail_child_start sq c (app_error (error_name err) '''') s1
                    | Inr attrs \<Rightarrow>
                        let payload = wrap_input (map (env_enc e) (ce_args c)) (Some (child_meta e s c attrs));
                            op = EnqueueRun (ce_type c) (ce_id c) payload (child_queue e s1 c)
                                   (ce_run_timeout c) attrs
                        in case env_raises e op of
                             Some (typ, msg) \<Rightarrow> fail_child_start sq c (app_error typ msg) s1
                           | None \<Rightarrow>
                               let s2 = emit op s1;
                                   s3 = s2\<lparr>i_children := dict_set sq (c\<lparr>ce_started := True\<rparr>) (i_children s2)\<rparr>;
                                   (s4, r) = settle_unless_cancelled (ce_start_future c) (Resolved JNull) s3
                               in (case r of
                                     Inl err \<Rightarrow> (s4, Inl err)
                                   | Inr _ \<Rightarrow> (launch_waiter WChild sq (TChildResult (ce_id c)) s4, Inr ()))))"

subsection \<open>Sends, attributes and patches\<close>

definition encode_signal :: "env \<Rightarrow> json \<Rightarrow> json" where
  "encode_signal e envelope =
     (if message_kind envelope = JStr ''signal'' then
        (case envelope of
           JObj kvs \<Rightarrow>
             JObj (dict_set ''headers'' (JObj (env_enc_headers e (jdict_of (jget envelope ''headers''))))
               (dict_set ''args'' (JList (case jget_default envelope ''args'' (JList []) of
                  JList xs \<Rightarrow> map (env_enc e) xs | _ \<Rightarrow> [])) kvs))
         | _ \<Rightarrow> envelope)
      else envelope)"

definition process_send :: "env \<Rightarrow> nat \<Rightarrow> interp \<Rightarrow> interp \<times> bool result" where
  "process_send e sq s =
     (case check_replay_horizon e s of
        Inl err \<Rightarrow> (s, Inl err)
      | Inr _ \<Rightarrow>
          (case dict_get (i_sends s) sq of
             None \<Rightarrow> (s, Inl KeyError)
           | Some (target, envelope, fut, resolve_chain) \<Rightarrow>
               let s1 = s\<lparr>i_sends := dict_del sq (i_sends s)\<rparr>;
                   msg = encode_signal e envelope
               in case (if resolve_chain then resolve_current_run e target else Inr target) of
                    Inl err \<Rightarrow>
                      (let (s2, r) = settle_unless_cancelled fut (Rejected (app_error (error_name err) '''')) s1
                       in (s2, bind_result r (\<lambda>_. Inr True)))
                  | Inr tgt \<Rightarrow>
                      let op = Send tgt msg INBOX_TOPIC;
                          (s2, r) = (case env_raises e op of
                            Some (typ, m) \<Rightarrow> settle_unless_cancelled fut (Rejected (app_error typ m)) s1
                          | None \<Rightarrow> settle_unless_cancelled fut (Resolved JNull) (emit op s1))
                      in (s2, bind_result r (\<lambda>_. Inr True))))"

definition current_attributes :: "env \<Rightarrow> interp \<Rightarrow> jdict option result" where
  "current_attributes e s =
     encode_attributes (env_enc e) (if i_memo s = [] then None else Some (i_memo s)) (Some (i_sa s))"

definition process_attributes :: "env \<Rightarrow> interp \<Rightarrow> interp \<times> bool result" where
  "process_attributes e s =
     (case bind_result (current_attributes e s) (\<lambda>encoded.
            bind_result (check_replay_horizon e s) (\<lambda>_. Inr encoded)) of
        Inl err \<Rightarrow> (s, Inl err)
      | Inr encoded \<Rightarrow> (emit (UpdateAttributes encoded) s, Inr False))"

definition process_patch :: "env \<Rightarrow> nat \<Rightarrow> interp \<Rightarrow> interp \<times> bool result" where
  "process_patch e sq s =
     (case dict_get (i_pending_patches s) sq of
        None \<Rightarrow> (s, Inl KeyError)
      | Some pid \<Rightarrow>
          let s1 = s\<lparr>i_pending_patches := dict_del sq (i_pending_patches s)\<rparr>
          in case check_replay_horizon e s1 of
               Inl err \<Rightarrow> (s1, Inl err)
             | Inr _ \<Rightarrow> (emit (PatchMarker pid) s1, Inr False))"

subsection \<open>Processing the commands\<close>

definition process_command :: "env \<Rightarrow> command \<Rightarrow> interp \<Rightarrow> interp \<times> bool result" where
  "process_command e c s =
     (case c of
        CmdTimer sq \<Rightarrow> process_timer e sq s
      | CmdActivity sq \<Rightarrow> process_activity e sq s
      | CmdChild sq \<Rightarrow>
          (case check_replay_horizon e s of
             Inl err \<Rightarrow> (s, Inl err)
           | Inr _ \<Rightarrow> (let (s1, r) = start_child e sq s in (s1, bind_result r (\<lambda>_. Inr True))))
      | CmdSend sq \<Rightarrow> process_send e sq s
      | CmdAttributes \<Rightarrow> process_attributes e s
      | CmdPatch sq \<Rightarrow> process_patch e sq s)"

fun process_all :: "env \<Rightarrow> command list \<Rightarrow> bool \<Rightarrow> interp \<Rightarrow> interp \<times> bool result" where
  "process_all e [] progressed s = (s, Inr progressed)"
| "process_all e (c # cs) progressed s =
     (case process_command e c s of
        (s1, Inl err) \<Rightarrow> (s1, Inl err)
      | (s1, Inr p) \<Rightarrow> process_all e cs (progressed \<or> p) s1)"

definition process_commands :: "env \<Rightarrow> interp \<Rightarrow> interp \<times> bool result" where
  "process_commands e s = process_all e (i_commands s) False (s\<lparr>i_commands := []\<rparr>)"

subsection \<open>Sweeping cancellations\<close>

definition sweep_wait_cancel :: "env \<Rightarrow> nat \<Rightarrow> interp \<Rightarrow> interp" where
  "sweep_wait_cancel e sq s =
     (case dict_get (i_activities s) sq of
        Some a \<Rightarrow> signal_queued_activity_cancel e a s
      | None \<Rightarrow> s)"

definition activity_waiter :: "nat \<Rightarrow> waiter \<Rightarrow> bool" where
  "activity_waiter sq w \<longleftrightarrow> w_kind w \<in> {WActivity, WActS2C, WActHB, WQActivity} \<and> w_seq w = sq"

definition sweep_activity :: "env \<Rightarrow> nat \<Rightarrow> interp \<Rightarrow> interp" where
  "sweep_activity e sq s =
     (case dict_get (i_activities s) sq of
        None \<Rightarrow> s
      | Some a \<Rightarrow>
          let s1 = drop_activity sq s;
              s2 = (if ae_cancellation_type a \<noteq> ABANDON_ACTIVITY
                    then (if ae_queued_id a \<noteq> None then signal_queued_activity_cancel e a s1
                          else emit (RequestCancel sq) s1)
                    else s1);
              s3 = emit (ForgetAttempt sq) s2;
              s4 = (if ae_async_pending a
                    then emit (SetEvent (async_activity_gone_key (ae_activity_id a)) (JBool True)) s3 else s3)
          in if ae_cancellation_type a = ABANDON_ACTIVITY then abandon_waiters (activity_waiter sq) s4
             else cancel_waiters (activity_waiter sq) s4)"

definition sweep_child :: "env \<Rightarrow> nat \<Rightarrow> interp \<Rightarrow> interp \<times> unit result" where
  "sweep_child e sq s =
     (case dict_get (i_children s) sq of
        None \<Rightarrow> (s, Inr ())
      | Some c \<Rightarrow>
          let s1 = cancel_waiters (\<lambda>w. w_kind w = WChild \<and> w_seq w = sq)
                     (s\<lparr>i_children := dict_del sq (i_children s)\<rparr>)
          in if ce_cancellation c \<noteq> 0 \<and> ce_started c
             then (case resolve_current_run e (ce_id c) of
                     Inl err \<Rightarrow> (s1, Inl err)
                   | Inr current \<Rightarrow> (emit (Send current (cancel_envelope (env_now e) '''') INBOX_TOPIC) s1, Inr ()))
             else (s1, Inr ()))"

fun sweep_children :: "env \<Rightarrow> nat list \<Rightarrow> interp \<Rightarrow> interp \<times> unit result" where
  "sweep_children e [] s = (s, Inr ())"
| "sweep_children e (sq # sqs) s =
     (case sweep_child e sq s of
        (s1, Inl err) \<Rightarrow> (s1, Inl err)
      | (s1, Inr _) \<Rightarrow> sweep_children e sqs s1)"

definition sweep_activities :: "env \<Rightarrow> interp \<Rightarrow> interp" where
  "sweep_activities e s =
     (let s1 = fold (sweep_wait_cancel e) (i_queued_wait_cancels s) (s\<lparr>i_queued_wait_cancels := []\<rparr>)
      in fold (sweep_activity e) (i_cancelled_activities s1) (s1\<lparr>i_cancelled_activities := []\<rparr>))"

definition sweep_cancellations :: "env \<Rightarrow> interp \<Rightarrow> interp \<times> unit result" where
  "sweep_cancellations e s =
     (let s2 = sweep_activities e s
      in sweep_children e (i_cancelled_children s2) (s2\<lparr>i_cancelled_children := []\<rparr>))"

subsection \<open>The inbox waiter and the outbox\<close>

definition REHYDRATE_POLL_SECONDS :: rat where "REHYDRATE_POLL_SECONDS = 1"

definition ensure_inbox_waiter :: "interp \<Rightarrow> interp" where
  "ensure_inbox_waiter s =
     (if list_ex (\<lambda>w. w_kind w = WInbox) (i_waiters s) then s
      else let recv_timeout = (if i_replay_mode s = Some Rehydrate
                               then min RECV_TIMEOUT_SECONDS REHYDRATE_POLL_SECONDS else RECV_TIMEOUT_SECONDS)
           in launch_waiter WInbox 0 (TRecv INBOX_TOPIC recv_timeout) s)"

definition encode_reply :: "env \<Rightarrow> json \<Rightarrow> json" where
  "encode_reply e v =
     (case v of
        JObj kvs \<Rightarrow>
          (case dict_get kvs ''result'' of
             Some r \<Rightarrow> JObj (dict_set ''result'' (env_enc e r) kvs)
           | None \<Rightarrow> v)
      | _ \<Rightarrow> v)"

definition flush_outbox :: "env \<Rightarrow> interp \<Rightarrow> interp" where
  "flush_outbox e s =
     fold (\<lambda>(key, v). emit (SetEvent key (encode_reply e v))) (i_outbox s) (s\<lparr>i_outbox := []\<rparr>)"

end
