(* ===== verification/Interp_Messages.thy ===== *)
theory Interp_Messages
  imports Interp_Commands
begin

text \<open>
  Signals, updates, queries and cancel requests (\<open>_apply_signal\<close>, \<open>_apply_update\<close>, \<open>_apply_query\<close>,
  \<open>_apply_cancel\<close>, \<open>_spawn_handler\<close>, \<open>_run_signal_handler\<close>, \<open>_run_update_handler\<close>, \<open>_reply\<close>,
  \<open>_flush_pending_handler_signals\<close> of \<open>dbosify/_internal/interpreter.py\<close>). How a handler body ends is
  an argument (\<open>completion\<close>).
\<close>

subsection \<open>Replies\<close>

datatype reply_body = ReplyResult json | ReplyFailure "json exc" | ReplyEnvelope json

definition reply_payload :: "env \<Rightarrow> string \<Rightarrow> reply_body \<Rightarrow> json" where
  "reply_payload e status body = JObj [
     (''status'', JStr status),
     (case body of
        ReplyEnvelope env \<Rightarrow> (''failure'', env)
      | ReplyFailure exc \<Rightarrow> (''failure'', serialize_failure (map (env_enc e)) exc)
      | ReplyResult r \<Rightarrow> (''result'', r))]"

definition reply :: "env \<Rightarrow> string \<Rightarrow> string \<Rightarrow> reply_body \<Rightarrow> interp \<Rightarrow> interp" where
  "reply e key status body s = s\<lparr>i_outbox := i_outbox s @ [(key, reply_payload e status body)]\<rparr>"

definition not_found_failure :: "string \<Rightarrow> string \<Rightarrow> json exc" where
  "not_found_failure what name =
     new_exc (ApplicationError (what @ '' handler '' @ py_repr name @ '' not found'') []
       (Some ''NotFoundError'') True None UNSPECIFIED)"

subsection \<open>Handler tasks\<close>

definition spawn_handler :: "string \<Rightarrow> string \<Rightarrow> int \<Rightarrow> string option \<Rightarrow> interp \<Rightarrow> interp" where
  "spawn_handler kind name pol hid s =
     s\<lparr>i_inflight := dict_set (i_next_task s)
           \<lparr>hr_kind = kind, hr_name = name, hr_id = hid, hr_policy = pol\<rparr> (i_inflight s),
       i_ready := i_ready s @ [StartTask (i_next_task s)],
       i_next_task := Suc (i_next_task s)\<rparr>"

text \<open>The done callback of a handler task.\<close>

definition handler_finished :: "nat \<Rightarrow> interp \<Rightarrow> interp" where
  "handler_finished task s = s\<lparr>i_inflight := dict_del task (i_inflight s)\<rparr>"

definition run_signal_handler :: "(json exc \<Rightarrow> bool) \<Rightarrow> completion \<Rightarrow> interp \<Rightarrow> interp" where
  "run_signal_handler is_failure_type how s =
     (case how of
        Returned _ \<Rightarrow> s
      | ContinueAsNew can \<Rightarrow> set_outcome (ContinuedAsNew can) s
      | Threw err \<Rightarrow> record_workflow_error is_failure_type err s)"

definition run_update_handler ::
  "env \<Rightarrow> (json exc \<Rightarrow> bool) \<Rightarrow> string \<Rightarrow> completion \<Rightarrow> interp \<Rightarrow> interp" where
  "run_update_handler e is_failure_type reply_key how s =
     (case how of
        Returned v \<Rightarrow> reply e reply_key ''completed'' (ReplyResult v) s
      | ContinueAsNew can \<Rightarrow> set_outcome (ContinuedAsNew can) s
      | Threw err \<Rightarrow>
          if is_failure_exception is_failure_type err
          then reply e reply_key ''failed'' (ReplyFailure err) s
          else record_workflow_error is_failure_type err s)"

definition handler_label :: "handler_defn \<Rightarrow> string \<Rightarrow> string" where
  "handler_label d name = (case h_name d of Some n \<Rightarrow> if n \<noteq> [] then n else name | None \<Rightarrow> name)"

subsection \<open>Decoding arguments\<close>

definition message_args :: "json \<Rightarrow> json list" where
  "message_args m = (case jget_default m ''args'' (JList []) of JList xs \<Rightarrow> xs | _ \<Rightarrow> [])"

definition with_args :: "json \<Rightarrow> json list \<Rightarrow> json" where
  "with_args m args = (case m of JObj kvs \<Rightarrow> JObj (dict_set ''args'' (JList args) kvs) | _ \<Rightarrow> m)"

text \<open>
  \<open>_decode_message_args\<close>: against the handler's signature; a dynamic handler gets the message name
  and the raw payloads.
\<close>

definition decode_message_args ::
  "env \<Rightarrow> (string \<Rightarrow> handler_defn option) \<Rightarrow> json \<Rightarrow> json result" where
  "decode_message_args e resolve envelope =
     bind_result (str_field envelope ''name'') (\<lambda>name.
       let defn = resolve name
       in if defn \<noteq> None \<and> h_name (the defn) = None
          then Inr (with_args envelope [JStr name, JList (message_args envelope)])
          else bind_result (env_decode_args e defn (message_args envelope)) (\<lambda>args.
                 Inr (with_args envelope args)))"

subsection \<open>Signals\<close>

definition buffer_signal :: "string \<Rightarrow> json \<Rightarrow> interp \<Rightarrow> interp" where
  "buffer_signal name envelope s =
     s\<lparr>i_buffered := dict_set name
         ((case dict_get (i_buffered s) name of Some es \<Rightarrow> es | None \<Rightarrow> []) @ [envelope]) (i_buffered s)\<rparr>"

definition apply_signal :: "env \<Rightarrow> json \<Rightarrow> interp \<Rightarrow> interp \<times> unit result" where
  "apply_signal e envelope s =
     (case str_field envelope ''name'' of
        Inl err \<Rightarrow> (s, Inl err)
      | Inr name \<Rightarrow>
          (case resolve_signal s name of
             None \<Rightarrow> (buffer_signal name envelope s, Inr ())
           | Some d \<Rightarrow>
               (case decode_message_args e (resolve_signal s) envelope of
                  Inl _ \<Rightarrow> (s, Inr ())
                | Inr _ \<Rightarrow> (spawn_handler ''signal'' (handler_label d name) (h_policy d) None s, Inr ()))))"

fun apply_signals :: "env \<Rightarrow> json list \<Rightarrow> interp \<Rightarrow> interp \<times> unit result" where
  "apply_signals e [] s = (s, Inr ())"
| "apply_signals e (m # ms) s =
     (case apply_signal e m s of
        (s1, Inl err) \<Rightarrow> (s1, Inl err)
      | (s1, Inr _) \<Rightarrow> apply_signals e ms s1)"

definition flush_pending_handler_signals :: "env \<Rightarrow> interp \<Rightarrow> interp \<times> bool result" where
  "flush_pending_handler_signals e s =
     (if i_pending_flush s = [] then (s, Inr False)
      else let (s1, r) = apply_signals e (i_pending_flush s) (s\<lparr>i_pending_flush := []\<rparr>)
           in (s1, bind_result r (\<lambda>_. Inr True)))"

subsection \<open>Updates\<close>

definition apply_update :: "env \<Rightarrow> json \<Rightarrow> interp \<Rightarrow> interp \<times> unit result" where
  "apply_update e envelope s =
     (case str_field envelope ''update_id'' of
        Inl err \<Rightarrow> (s, Inl err)
      | Inr update_id \<Rightarrow>
          if update_id \<in> set (i_seen_updates s) then (s, Inr ())
          else
            let s1 = s\<lparr>i_seen_updates := i_seen_updates s @ [update_id]\<rparr>;
                reply_key = update_result_key update_id;
                acceptance_key = update_acceptance_key update_id
            in case str_field envelope ''name'' of
                 Inl err \<Rightarrow> (s1, Inl err)
               | Inr name \<Rightarrow>
                   (case resolve_update s1 name of
                      None \<Rightarrow>
                        let failure = ReplyFailure (not_found_failure ''update'' name)
                        in (reply e reply_key ''rejected'' failure
                              (reply e acceptance_key ''rejected'' failure s1), Inr ())
                    | Some d \<Rightarrow>
                        (case (if h_validator d then env_rejects e envelope else None) of
                           Some failure \<Rightarrow>
                             (reply e reply_key ''rejected'' (ReplyEnvelope failure)
                                (reply e acceptance_key ''rejected'' (ReplyEnvelope failure) s1), Inr ())
                         | None \<Rightarrow>
                             (spawn_handler ''update'' (handler_label d name) (h_policy d) (Some update_id)
                                (reply e acceptance_key ''accepted'' (ReplyResult JNull) s1), Inr ()))))"

subsection \<open>Queries\<close>

text \<open>
  The query handler runs synchronously in a read-only context; \<open>env_query\<close> is what it returns or
  raises.
\<close>

definition apply_query :: "env \<Rightarrow> json \<Rightarrow> interp \<Rightarrow> interp \<times> unit result" where
  "apply_query e envelope s =
     (case str_field envelope ''request_id'' of
        Inl err \<Rightarrow> (s, Inl err)
      | Inr request_id \<Rightarrow>
          let reply_key = query_result_key request_id
          in case str_field envelope ''name'' of
               Inl err \<Rightarrow> (s, Inl err)
             | Inr name \<Rightarrow>
                 (case resolve_query s name of
                    None \<Rightarrow> (reply e reply_key ''failed'' (ReplyFailure (not_found_failure ''query'' name)) s, Inr ())
                  | Some _ \<Rightarrow>
                      let s1 = s\<lparr>i_read_only := True\<rparr>;
                          s2 = s1\<lparr>i_read_only := False\<rparr>
                      in (case env_query e envelope of
                            Inl exc \<Rightarrow>
                              if exc_kind exc = AsyncioCancelled then (s2, Inl CancelledErr)
                              else (reply e reply_key ''failed'' (ReplyFailure exc) s2, Inr ())
                          | Inr v \<Rightarrow> (reply e reply_key ''completed'' (ReplyResult v) s2, Inr ()))))"

subsection \<open>Cancel requests\<close>

definition apply_cancel :: "json \<Rightarrow> interp \<Rightarrow> interp" where
  "apply_cancel envelope s =
     (if i_cancel_requested s then s
      else let reason = (case jget envelope ''reason'' of JStr r \<Rightarrow> if r \<noteq> [] then Some r else None | _ \<Rightarrow> None);
               s1 = s\<lparr>i_cancel_requested := True, i_cancel_reason := reason\<rparr>
           in if i_primary_done s1 then s1 else s1\<lparr>i_ready := i_ready s1 @ [CancelPrimary]\<rparr>)"

subsection \<open>Handlers a closing run leaves behind\<close>

definition abandoned_failure :: "json exc" where
  "abandoned_failure = new_exc (ApplicationError ''Workflow run finished before the update handler completed'' []
     (Some ''AcceptedUpdateCompletedWorkflow'') True None UNSPECIFIED)"

definition fail_abandoned_updates :: "env \<Rightarrow> interp \<Rightarrow> interp" where
  "fail_abandoned_updates e s =
     fold (\<lambda>(_, r) s. case hr_id r of
         Some uid \<Rightarrow> if hr_kind r \<noteq> ''update'' then s
           else emit (SetEvent (update_result_key uid)
                  (JObj [(''status'', JStr ''failed''),
                         (''failure'', serialize_failure (map (env_enc e)) abandoned_failure)])) s
       | None \<Rightarrow> s) (i_inflight s) s"

definition WARN_AND_ABANDON :: int where "WARN_AND_ABANDON = 1"

text \<open>
  The warnings of \<open>_warn_if_unfinished_handlers\<close>: the updates by name and id, the signals by name with
  their number, most frequent first (ties in order of first appearance).
\<close>

definition unfinished_updates :: "interp \<Rightarrow> (string \<times> string option) list" where
  "unfinished_updates s =
     map (\<lambda>r. (hr_name r, hr_id r))
       (filter (\<lambda>r. hr_kind r = ''update'' \<and> hr_policy r = WARN_AND_ABANDON) (map snd (i_inflight s)))"

definition unfinished_signals :: "interp \<Rightarrow> (string \<times> nat) list" where
  "unfinished_signals s =
     (let names = map hr_name (filter (\<lambda>r. hr_kind r = ''signal'' \<and> hr_policy r = WARN_AND_ABANDON)
                    (map snd (i_inflight s)))
      in sort_key (\<lambda>(_, c). - int c) (map (\<lambda>n. (n, count_list names n)) (rev (remdups (rev names)))))"

definition all_handlers_finished :: "interp \<Rightarrow> bool" where
  "all_handlers_finished s \<longleftrightarrow> i_inflight s = []"

subsection \<open>Reading the operations\<close>

lemma str_field_Inr: "str_field m k = Inr v \<longleftrightarrow> obj_get m k = Some (JStr v)"
proof -
  have "as_str j = Inr v \<longleftrightarrow> j = JStr v" for j by (cases j) auto
  then show ?thesis by (auto simp: str_field_def jindex_def bind_result_Inr_iff split: option.splits)
qed

lemma reply_simps [simp]:
  "i_seen_updates (reply e k st b s) = i_seen_updates s" "i_inflight (reply e k st b s) = i_inflight s"
  "i_outbox (reply e k st b s) = i_outbox s @ [(k, reply_payload e st b)]"
  "i_next_task (reply e k st b s) = i_next_task s"
  by (simp_all add: reply_def)

lemma spawn_handler_simps [simp]:
  "i_seen_updates (spawn_handler k n p h s) = i_seen_updates s"
  "i_outbox (spawn_handler k n p h s) = i_outbox s"
  by (simp_all add: spawn_handler_def)


text \<open>An update with one handler, used by the examples.\<close>

definition update_defn :: workflow_defn where
  "update_defn = plain_defn\<lparr>wd_updates :=
     [(Some ''set'', \<lparr>h_name = Some ''set'', h_fn = 0, h_policy = 1, h_validator = False\<rparr>)]\<rparr>"

definition update_envelope_demo :: json where
  "update_envelope_demo = JObj [(''kind'', JStr ''update''), (''name'', JStr ''set''),
     (''update_id'', JStr ''u1''), (''args'', JList [])]"


text \<open>
  A first-time update is answered in order. Its acceptance event is queued before any
  result event; it is rejected on both keys when there is no handler or the validator refuses it,
  without starting a handler; otherwise it is accepted, exactly one handler task is started under
  its id, and no result is queued yet.
\<close>

theorem update_acceptance:
  assumes "str_field m ''update_id'' = Inr uid" and "uid \<notin> set (i_seen_updates s)"
    and "str_field m ''name'' = Inr name" and "apply_update e m s = (s1, r)"
  shows "r = Inr () \<and>
    (case resolve_update s name of
       Some d \<Rightarrow>
         if h_validator d \<and> env_rejects e m \<noteq> None
         then i_inflight s1 = i_inflight s \<and>
           (\<exists>b. i_outbox s1 = i_outbox s @
              [(update_acceptance_key uid, reply_payload e ''rejected'' b),
               (update_result_key uid, reply_payload e ''rejected'' b)])
         else
           i_outbox s1 = i_outbox s @ [(update_acceptance_key uid, reply_payload e ''accepted'' (ReplyResult JNull))] \<and>
           i_inflight s1 = dict_set (i_next_task s)
             \<lparr>hr_kind = ''update'', hr_name = handler_label d name, hr_id = Some uid, hr_policy = h_policy d\<rparr>
             (i_inflight s)
     | None \<Rightarrow> i_inflight s1 = i_inflight s \<and>
         (\<exists>b. i_outbox s1 = i_outbox s @
            [(update_acceptance_key uid, reply_payload e ''rejected'' b),
             (update_result_key uid, reply_payload e ''rejected'' b)]))"
proof -
  have res: "resolve_update (s\<lparr>i_seen_updates := u\<rparr>) name = resolve_update s name" for u
    by (simp add: resolve_update_def)
  show ?thesis
    using assms res
    by (auto simp: apply_update_def Let_def spawn_handler_def split: option.splits if_splits)
qed

theorem update_acceptance_witness:
  "length (i_inflight (fst (apply_update plain_env update_envelope_demo (new_interp ''W'' update_defn None None None)))) = 1"
proof -
  let ?s = "new_interp ''W'' update_defn None None None"
  obtain s1 r where a: "apply_update plain_env update_envelope_demo ?s = (s1, r)" by fastforce
  have res: "resolve_update ?s ''set'' = Some \<lparr>h_name = Some ''set'', h_fn = 0, h_policy = 1, h_validator = False\<rparr>"
    by (simp add: new_interp_def update_defn_def plain_defn_def resolve_update_def resolve_handler_def dict_get_def)
  have "i_inflight s1 = dict_set 0 \<lparr>hr_kind = ''update'', hr_name = ''set'', hr_id = Some ''u1'', hr_policy = 1\<rparr> []"
    using update_acceptance [OF _ _ _ a, of "''u1''" "''set''"] res
    by (simp add: update_envelope_demo_def str_field_def jindex_def handler_label_def) (simp add: new_interp_def)
  with a show ?thesis by simp
qed

text \<open>
  A cancel request is delivered once: the first one marks the run and schedules the
  cancellation of the primary coroutine if it still runs; every later one leaves the state as it
  is, so clean-up code is not interrupted again.
\<close>

theorem cancel_once:
  "i_cancel_requested (apply_cancel m s) \<and> apply_cancel m' (apply_cancel m s) = apply_cancel m s \<and>
   i_ready (apply_cancel m s) =
     i_ready s @ (if i_cancel_requested s \<or> i_primary_done s then [] else [CancelPrimary])"
  by (simp add: apply_cancel_def Let_def)

end
