(* ===== verification/Interp_Deliver.thy ===== *)
theory Interp_Deliver
  imports Interp_Messages
begin

text \<open>
  Event delivery: checkpointed results of the waiters are turned into virtual-loop progress
  (\<open>_deliver\<close> and the \<open>_deliver_*\<close>, \<open>_apply_activity_*\<close>, \<open>_fail_async_attempt\<close>,
  \<open>_retire_parked_timers\<close>, \<open>_async_*\<close>, \<open>_retry_decision\<close> operations of
  \<open>dbosify/_internal/interpreter.py\<close>). The result of a done task is a JSON value; decoding a
  result against its type hint is \<open>env_dec\<close>.
\<close>

subsection \<open>Reading envelopes\<close>

text \<open>Timestamps are numbers wherever they are present: every writer is modelled.\<close>

definition num_field :: "json \<Rightarrow> string \<Rightarrow> rat option" where
  "num_field m k =
     (case obj_get m k of
        Some j \<Rightarrow> (case to_float j of Inr q \<Rightarrow> Some q | Inl _ \<Rightarrow> None)
      | None \<Rightarrow> None)"

definition num_default :: "json \<Rightarrow> string \<Rightarrow> rat \<Rightarrow> rat" where
  "num_default m k d = (case num_field m k of Some q \<Rightarrow> q | None \<Rightarrow> d)"

subsection \<open>Failing activities\<close>

definition local_retry_decision :: "interp \<Rightarrow> activity_exec \<Rightarrow> json \<Rightarrow> (rat option \<times> retry_state) result" where
  "local_retry_decision s a fl =
     retry_decision (ae_retry_policy a) (ae_attempt a) fl
       (map_option (\<lambda>_. i_time s - ae_scheduled_at a) (ae_schedule_to_close a)) (ae_schedule_to_close a)"

definition is_TimeoutError :: "'v exc_kind \<Rightarrow> bool" where
  "is_TimeoutError k = (case k of TimeoutError _ _ _ \<Rightarrow> True | _ \<Rightarrow> False)"

definition activity_failure_cause :: "env \<Rightarrow> json \<Rightarrow> retry_state option \<Rightarrow> json exc result" where
  "activity_failure_cause e fl rs =
     bind_result (deserialize_failure (env_dec e) fl) (\<lambda>c.
       if rs = Some TIMEOUT \<and> \<not> is_TimeoutError (exc_kind c)
       then Inr (raise_from (TimeoutError ''activity Schedule-To-Close timeout'' (Some SCHEDULE_TO_CLOSE) []) c)
       else Inr c)"

definition activity_error :: "activity_exec \<Rightarrow> retry_state option \<Rightarrow> json exc \<Rightarrow> json exc" where
  "activity_error a rs c =
     raise_from (ActivityError ''Activity task failed'' 0 0 '''' (ae_name a) (ae_activity_id a) rs) c"

text \<open>Giving up: the awaiter gets an \<open>ActivityError\<close> caused by the last failure.\<close>

definition reject_activity ::
  "env \<Rightarrow> activity_exec \<Rightarrow> json \<Rightarrow> retry_state option \<Rightarrow> interp \<Rightarrow> interp \<times> unit result" where
  "reject_activity e a fl rs s =
     (case activity_failure_cause e fl rs of
        Inl err \<Rightarrow> (s, Inl err)
      | Inr c \<Rightarrow> settle (ae_future a) (Rejected (activity_error a rs c)) s)"

text \<open>The common tail of a failed attempt: back off and run again, or give up.\<close>

definition retry_or_reject :: "env \<Rightarrow> nat \<Rightarrow> activity_exec \<Rightarrow> json \<Rightarrow> interp \<Rightarrow> interp \<times> unit result" where
  "retry_or_reject e sq a fl s =
     (case local_retry_decision s a fl of
        Inl err \<Rightarrow> (s, Inl err)
      | Inr (Some delay, _) \<Rightarrow>
          (launch_waiter WActivity sq (TSleep delay)
             (update_activity sq (\<lambda>a. a\<lparr>ae_in_backoff := True, ae_pending_wait := delay\<rparr>) s), Inr ())
      | Inr (None, rs) \<Rightarrow> reject_activity e a fl (Some rs) (emit (ForgetAttempt sq) (drop_activity sq s)))"

definition is_cancelled_failure :: "env \<Rightarrow> json \<Rightarrow> bool result" where
  "is_cancelled_failure e fl =
     bind_result (deserialize_failure (env_dec e) fl) (\<lambda>c. Inr (is_CancelledError (exc_kind c)))"

text \<open>\<open>cancel_requested and isinstance(deserialize_failure(failure), CancelledError)\<close>.\<close>

definition confirms_cancel :: "env \<Rightarrow> activity_exec \<Rightarrow> json \<Rightarrow> bool result" where
  "confirms_cancel e a fl = (if ae_cancel_requested a then is_cancelled_failure e fl else Inr False)"

subsection \<open>Activity events\<close>

definition park_async :: "nat \<Rightarrow> activity_exec \<Rightarrow> json \<Rightarrow> interp \<Rightarrow> interp" where
  "park_async sq a envelope s =
     (let s1 = update_activity sq (ae_async_pending_update (\<lambda>_. True)) s;
          elapsed = num_default envelope ''ended_at'' 0
            - num_default envelope ''started_at'' (num_default envelope ''ended_at'' 0);
          s2c = map_option (\<lambda>t. t - max elapsed 0) (ae_start_to_close a);
          (parked, pt) = effective_deadline s2c (remaining_schedule_to_close s1 a);
          s2 = (case parked of
                  None \<Rightarrow> s1
                | Some p \<Rightarrow>
                    let secs = max (1 / 20) p
                    in launch_waiter WActS2C sq (TSleep secs)
                         (update_activity sq (\<lambda>a. a\<lparr>ae_park_type :=
                              (if pt = Schedule_To_Close then SCHEDULE_TO_CLOSE else START_TO_CLOSE),
                            ae_pending_wait := secs\<rparr>) s1))
      in case ae_heartbeat_timeout a of
           None \<Rightarrow> s2
         | Some hb \<Rightarrow> launch_waiter WActHB sq (TSleep hb) (update_activity sq (ae_hb_seen_update (\<lambda>_. False)) s2))"

definition deliver_activity_event :: "env \<Rightarrow> nat \<Rightarrow> json \<Rightarrow> interp \<Rightarrow> interp \<times> unit result" where
  "deliver_activity_event e sq envelope s =
     (case dict_get (i_activities s) sq of
        None \<Rightarrow> (s, Inr ())
      | Some a \<Rightarrow>
          if i_futs s (ae_future a) = FutCancelled then (drop_activity sq s, Inr ())
          else if ae_in_backoff a then
            launch_attempt e sq
              (update_activity sq (\<lambda>a. a\<lparr>ae_pending_wait := 0, ae_attempt := ae_attempt a + 1\<rparr>)
                (advance_time (Some (i_time s + ae_pending_wait a)) s))
          else
            let s1 = advance_time (num_field envelope ''ended_at'') s
            in if truthy (jget envelope ''async_pending'') then (park_async sq a envelope s1, Inr ())
               else case jindex envelope ''ok'' of
                 Inl err \<Rightarrow> (s1, Inl err)
               | Inr ok \<Rightarrow>
                   if truthy ok then
                     (case jindex envelope ''result'' of
                        Inl err \<Rightarrow> (s1, Inl err)
                      | Inr v \<Rightarrow> settle (ae_future a) (Resolved (env_dec e v))
                                  (emit (ForgetAttempt sq) (drop_activity sq s1)))
                   else
                     (case jindex envelope ''failure'' of
                        Inl err \<Rightarrow> (s1, Inl err)
                      | Inr fl \<Rightarrow>
                          let s2 = update_activity sq (ae_last_failure_update (\<lambda>_. Some fl)) s1
                          in case confirms_cancel e a fl of
                               Inl err \<Rightarrow> (s2, Inl err)
                             | Inr True \<Rightarrow>
                                 (cancel_future (ae_future a) (emit (ForgetAttempt sq) (drop_activity sq s2)), Inr ())
                             | Inr False \<Rightarrow> retry_or_reject e sq a fl s2))"

definition deliver_queued_activity_event :: "env \<Rightarrow> nat \<Rightarrow> json \<Rightarrow> interp \<Rightarrow> interp \<times> unit result" where
  "deliver_queued_activity_event e sq envelope s =
     (case dict_get (i_activities s) sq of
        None \<Rightarrow> (s, Inr ())
      | Some a \<Rightarrow>
          if i_futs s (ae_future a) = FutCancelled then (drop_activity sq s, Inr ())
          else
            let s1 = drop_activity sq (advance_time (num_field envelope ''ended_at'') s)
            in case jindex envelope ''ok'' of
                 Inl err \<Rightarrow> (s1, Inl err)
               | Inr ok \<Rightarrow>
                   if truthy ok then
                     (case jindex envelope ''result'' of
                        Inl err \<Rightarrow> (s1, Inl err)
                      | Inr v \<Rightarrow> settle (ae_future a) (Resolved (env_dec e v)) s1)
                   else
                     (case jindex envelope ''failure'' of
                        Inl err \<Rightarrow> (s1, Inl err)
                      | Inr fl \<Rightarrow>
                          (case confirms_cancel e a fl of
                             Inl err \<Rightarrow> (s1, Inl err)
                           | Inr True \<Rightarrow> (cancel_future (ae_future a) s1, Inr ())
                           | Inr False \<Rightarrow>
                               (case optional retry_state_of (jget envelope ''retry_state'') of
                                  Inl err \<Rightarrow> (s1, Inl err)
                                | Inr rs \<Rightarrow> reject_activity e a fl rs s1))))"

subsection \<open>Async activities\<close>

definition parked_timer :: "nat \<Rightarrow> waiter \<Rightarrow> bool" where
  "parked_timer sq w \<longleftrightarrow> w_kind w \<in> {WActS2C, WActHB} \<and> w_seq w = sq"

text \<open>\<open>_retire_parked_timers\<close> cancels the tasks and keeps them among the abandoned ones.\<close>

definition retire_parked_timers :: "nat \<Rightarrow> interp \<Rightarrow> interp" where
  "retire_parked_timers sq s =
     (let ws = filter (parked_timer sq) (i_waiters s);
          s1 = cancel_waiters (parked_timer sq) s
      in s1\<lparr>i_abandoned := i_abandoned s1 @ map w_task ws\<rparr>)"

definition fail_async_attempt :: "env \<Rightarrow> nat \<Rightarrow> json \<Rightarrow> interp \<Rightarrow> interp \<times> unit result" where
  "fail_async_attempt e sq fl s =
     (case dict_get (i_activities s) sq of
        None \<Rightarrow> (s, Inr ())
      | Some a \<Rightarrow>
          retry_or_reject e sq a fl
            (update_activity sq (\<lambda>a. a\<lparr>ae_async_pending := False, ae_last_failure := Some fl\<rparr>) s))"

definition timeout_message :: "timeout_type \<Rightarrow> string" where
  "timeout_message t =
     (case t of
        SCHEDULE_TO_CLOSE \<Rightarrow> ''activity Schedule-To-Close timeout''
      | START_TO_CLOSE \<Rightarrow> ''activity Start-To-Close timeout''
      | _ \<Rightarrow> ''activity Heartbeat timeout'')"

definition async_parked_timeout :: "env \<Rightarrow> nat \<Rightarrow> timeout_type \<Rightarrow> interp \<Rightarrow> interp \<times> unit result" where
  "async_parked_timeout e sq t s =
     (case dict_get (i_activities s) sq of
        None \<Rightarrow> (s, Inr ())
      | Some a \<Rightarrow>
          if \<not> ae_async_pending a then (s, Inr ())
          else fail_async_attempt e sq
                 (serialize_failure (map (env_enc e)) (new_exc (TimeoutError (timeout_message t) (Some t) [])))
                 (retire_parked_timers sq s))"

definition async_heartbeat_check :: "env \<Rightarrow> nat \<Rightarrow> interp \<Rightarrow> interp \<times> unit result" where
  "async_heartbeat_check e sq s =
     (case dict_get (i_activities s) sq of
        None \<Rightarrow> (s, Inr ())
      | Some a \<Rightarrow>
          if \<not> ae_async_pending a then (s, Inr ())
          else if \<not> ae_hb_seen a then async_parked_timeout e sq HEARTBEAT s
          else let s1 = update_activity sq (ae_hb_seen_update (\<lambda>_. False)) s
               in case ae_heartbeat_timeout a of
                    None \<Rightarrow> (s1, Inl AssertionError)
                  | Some hb \<Rightarrow> (launch_waiter WActHB sq (TSleep hb) s1, Inr ()))"

definition deliver_act_s2c :: "env \<Rightarrow> nat \<Rightarrow> interp \<Rightarrow> interp \<times> unit result" where
  "deliver_act_s2c e sq s =
     (case dict_get (i_activities s) sq of
        None \<Rightarrow> async_parked_timeout e sq START_TO_CLOSE s
      | Some a \<Rightarrow>
          async_parked_timeout e sq (ae_park_type a)
            (update_activity sq (ae_pending_wait_update (\<lambda>_. 0))
              (advance_time (Some (i_time s + ae_pending_wait a)) s)))"

definition async_pending_by_id :: "string \<Rightarrow> interp \<Rightarrow> (nat \<times> activity_exec) option" where
  "async_pending_by_id aid s =
     find (\<lambda>(_, a). ae_activity_id a = aid \<and> ae_async_pending a) (i_activities s)"

text \<open>\<open>str(envelope.get("activity_id", ""))\<close>, for the string ids every sender writes.\<close>

definition activity_id_of :: "json \<Rightarrow> string" where
  "activity_id_of m = (case jget m ''activity_id'' of JStr aid \<Rightarrow> aid | _ \<Rightarrow> [])"

definition apply_activity_result :: "env \<Rightarrow> json \<Rightarrow> interp \<Rightarrow> interp \<times> unit result" where
  "apply_activity_result e envelope s =
     (case async_pending_by_id (activity_id_of envelope) s of
        None \<Rightarrow> (s, Inr ())
      | Some (sq, a) \<Rightarrow>
          let s1 = retire_parked_timers sq s;
              gone = emit (ForgetAttempt sq) (drop_activity sq s1)
          in if truthy (jget envelope ''cancelled'') then (cancel_future (ae_future a) gone, Inr ())
             else case jindex envelope ''ok'' of
               Inl err \<Rightarrow> (s1, Inl err)
             | Inr ok \<Rightarrow>
                 if truthy ok then settle (ae_future a) (Resolved (env_dec e (jget envelope ''result''))) gone
                 else (case jindex envelope ''failure'' of
                         Inl err \<Rightarrow> (s1, Inl err)
                       | Inr fl \<Rightarrow> fail_async_attempt e sq fl s1))"

definition apply_activity_heartbeat :: "env \<Rightarrow> json \<Rightarrow> interp \<Rightarrow> interp" where
  "apply_activity_heartbeat e envelope s =
     (case async_pending_by_id (activity_id_of envelope) s of
        None \<Rightarrow> s
      | Some (sq, _) \<Rightarrow>
          emit (StoreHeartbeat sq (map (env_dec e)
                  (case jget_default envelope ''details'' (JList []) of JList xs \<Rightarrow> xs | _ \<Rightarrow> [])))
            (update_activity sq (ae_hb_seen_update (\<lambda>_. True)) s))"

subsection \<open>Timers and children\<close>

definition deliver_timer :: "nat \<Rightarrow> interp \<Rightarrow> interp" where
  "deliver_timer sq s =
     (case dict_get (i_timers s) sq of
        None \<Rightarrow> s
      | Some when_due \<Rightarrow>
          (let s1 = advance_time (Some when_due) (s\<lparr>i_timers := dict_del sq (i_timers s)\<rparr>)
           in s1\<lparr>i_ready := i_ready s1 @ [TimerFire sq]\<rparr>))"

definition deliver_child_event :: "env \<Rightarrow> nat \<Rightarrow> json \<Rightarrow> interp \<Rightarrow> interp \<times> unit result" where
  "deliver_child_event e sq envelope s =
     (case dict_get (i_children s) sq of
        None \<Rightarrow> (s, Inr ())
      | Some c \<Rightarrow>
          let s0 = s\<lparr>i_children := dict_del sq (i_children s)\<rparr>
          in if i_futs s (ce_result_future c) = FutCancelled then (s0, Inr ())
             else
               let s1 = advance_time (num_field envelope ''ended_at'') s0
               in case jindex envelope ''ok'' of
                    Inl err \<Rightarrow> (s1, Inl err)
                  | Inr ok \<Rightarrow>
                      if truthy ok then
                        (case jindex envelope ''result'' of
                           Inl err \<Rightarrow> (s1, Inl err)
                         | Inr v \<Rightarrow> settle (ce_result_future c) (Resolved (env_dec e v)) s1)
                      else
                        (case bind_result (jindex envelope ''failure'') (deserialize_failure (env_dec e)) of
                           Inl err \<Rightarrow> (s1, Inl err)
                         | Inr why \<Rightarrow>
                             settle (ce_result_future c)
                               (Rejected (raise_from (ChildWorkflowError ''Child workflow execution failed''
                                  (i_namespace s) (ce_id c) (ce_id c) (ce_type c) 0 0 None) why)) s1))"

subsection \<open>The inbox\<close>

definition deliver_inbox :: "env \<Rightarrow> json \<Rightarrow> interp \<Rightarrow> interp \<times> unit result" where
  "deliver_inbox e message s =
     (if message = JNull then (s, Inr ())
      else case obj_get message ''kind'' of
        None \<Rightarrow> (s, Inr ())
      | Some kind \<Rightarrow>
          let s1 = advance_time (num_field message ''sent_at'') s
          in if kind = JStr ''signal'' then apply_signal e message s1
             else if kind = JStr ''update'' then
               (case decode_message_args e (resolve_update s1) message of
                  Inl err \<Rightarrow> (s1, Inl err) | Inr m \<Rightarrow> apply_update e m s1)
             else if kind = JStr ''query'' then
               (case decode_message_args e (resolve_query s1) message of
                  Inl err \<Rightarrow> (s1, Inl err) | Inr m \<Rightarrow> apply_query e m s1)
             else if kind = JStr ''activity_result'' then apply_activity_result e message s1
             else if kind = JStr ''activity_heartbeat'' then (apply_activity_heartbeat e message s1, Inr ())
             else if kind = JStr ''cancel'' then (apply_cancel message s1, Inr ())
             else if kind = JStr ''rehydrate_stop'' then (s1\<lparr>i_rehydrate_stop := True\<rparr>, Inr ())
             else (s1, Inr ()))"

subsection \<open>Delivering a round\<close>

definition deliver_waiter :: "env \<Rightarrow> waiter \<Rightarrow> json \<Rightarrow> interp \<Rightarrow> interp \<times> unit result" where
  "deliver_waiter e w outcome s =
     (case w_kind w of
        WInbox \<Rightarrow> deliver_inbox e outcome s
      | WTimer \<Rightarrow> (deliver_timer (w_seq w) s, Inr ())
      | WActivity \<Rightarrow> deliver_activity_event e (w_seq w) outcome s
      | WQActivity \<Rightarrow> deliver_queued_activity_event e (w_seq w) outcome s
      | WActS2C \<Rightarrow> deliver_act_s2c e (w_seq w) s
      | WActHB \<Rightarrow> async_heartbeat_check e (w_seq w) s
      | WChild \<Rightarrow> deliver_child_event e (w_seq w) outcome s)"

text \<open>
  \<open>_deliver\<close> walks a copy of the waiter list and removes each done waiter from the list itself:
  \<open>list.remove\<close> raises ValueError when an earlier delivery of the same round has already removed it.
  \<open>results\<close> are the results of the tasks that are done.
\<close>

fun deliver_each :: "env \<Rightarrow> (nat \<Rightarrow> json option) \<Rightarrow> waiter list \<Rightarrow> interp \<Rightarrow> interp \<times> unit result" where
  "deliver_each e results [] s = (s, Inr ())"
| "deliver_each e results (w # ws) s =
     (case results (w_task w) of
        None \<Rightarrow> deliver_each e results ws s
      | Some outcome \<Rightarrow>
          if w \<notin> set (i_waiters s) then (s, Inl ValueError)
          else (case deliver_waiter e w outcome (s\<lparr>i_waiters := remove1 w (i_waiters s)\<rparr>) of
                  (s1, Inl err) \<Rightarrow> (s1, Inl err)
                | (s1, Inr _) \<Rightarrow> deliver_each e results ws s1))"

definition deliver :: "env \<Rightarrow> (nat \<Rightarrow> json option) \<Rightarrow> interp \<Rightarrow> interp \<times> unit result" where
  "deliver e results s = deliver_each e results (i_waiters s) s"

end
