(* ===== verification/Ledger.thy ===== *)
theory Ledger
  imports Failures
begin

text \<open>
  How a run's outcome is recorded: the ledger exceptions of \<open>payloads.py\<close>, the JSON transport of
  values and exceptions (\<open>dbosify/_internal/serializer.py\<close>) and the Temporal status read back from
  a DBOS status row (\<open>dbosify/_internal/status.py\<close>). \<open>json.dumps\<close> and \<open>json.loads\<close> are the
  identity on the JSON values of the model.
\<close>

subsection \<open>Ledger exceptions and the serializer\<close>

datatype ledger_error =
    SerializedWorkflowFailure json
  | SerializedWorkflowCancellation json
  | SerializedContinueAsNew json
  | OtherError string string

definition exc_to_dict :: "ledger_error \<Rightarrow> json" where
  "exc_to_dict e = (case e of
     SerializedContinueAsNew env \<Rightarrow> JObj [(''marker'', JStr ''continue_as_new''), (''envelope'', env)]
   | SerializedWorkflowCancellation env \<Rightarrow> JObj [(''marker'', JStr ''cancellation''), (''envelope'', env)]
   | SerializedWorkflowFailure env \<Rightarrow> JObj [(''marker'', JStr ''failure''), (''envelope'', env)]
   | OtherError typ msg \<Rightarrow>
       JObj [(''marker'', JStr ''other''), (''type'', JStr typ), (''message'', JStr msg)])"

definition dict_to_exc :: "json \<Rightarrow> ledger_error result" where
  "dict_to_exc d =
     (let marker = jget d ''marker''
      in if marker = JStr ''continue_as_new'' then
           bind_result (jindex d ''envelope'') (\<lambda>env. Inr (SerializedContinueAsNew env))
         else if marker = JStr ''cancellation'' then
           bind_result (jindex d ''envelope'') (\<lambda>env. Inr (SerializedWorkflowCancellation env))
         else if marker = JStr ''failure'' then
           bind_result (jindex d ''envelope'') (\<lambda>env. Inr (SerializedWorkflowFailure env))
         else bind_result (as_str (jget_default d ''message'' (JStr ''unknown error'')))
                (\<lambda>msg. Inr (OtherError ''Exception'' msg)))"

text \<open>What DBOS hands the serializer: a value or an exception, in one column.\<close>

datatype stored = Value json | Raised ledger_error

definition serialize :: "stored \<Rightarrow> json" where
  "serialize data = (case data of
     Raised e \<Rightarrow> JObj [(''e'', exc_to_dict e)]
   | Value v \<Rightarrow> JObj [(''v'', v)])"

definition deserialize :: "json option \<Rightarrow> stored result" where
  "deserialize serialized = (case serialized of
     None \<Rightarrow> Inr (Value JNull)
   | Some obj \<Rightarrow>
       (case obj_get obj ''e'' of
          Some d \<Rightarrow> bind_result (dict_to_exc d) (\<lambda>e. Inr (Raised e))
        | None \<Rightarrow> bind_result (jindex obj ''v'') (\<lambda>v. Inr (Value v))))"

subsection \<open>Execution status\<close>

datatype execution_status =
    RUNNING | COMPLETED | FAILED | CANCELED | TERMINATED | CONTINUED_AS_NEW | TIMED_OUT

definition OPEN_DBOS_STATUSES :: "string list" where
  "OPEN_DBOS_STATUSES = [''PENDING'', ''ENQUEUED'', ''DELAYED'']"

definition is_open :: "string option \<Rightarrow> bool" where
  "is_open dbos_status \<longleftrightarrow> (\<exists>s\<in>set OPEN_DBOS_STATUSES. dbos_status = Some s)"

definition to_execution_status :: "string option \<Rightarrow> ledger_error option \<Rightarrow> execution_status result" where
  "to_execution_status dbos_status error =
     (if is_open dbos_status then Inr RUNNING
      else if dbos_status = Some ''SUCCESS'' then Inr COMPLETED
      else if dbos_status = Some ''ERROR'' then
        (case error of
           Some (SerializedContinueAsNew _) \<Rightarrow> Inr CONTINUED_AS_NEW
         | Some (SerializedWorkflowCancellation _) \<Rightarrow> Inr CANCELED
         | _ \<Rightarrow> Inr FAILED)
      else if dbos_status = Some ''CANCELLED'' then Inr TERMINATED
      else if dbos_status = Some ''MAX_RECOVERY_ATTEMPTS_EXCEEDED'' then Inr RUNNING
      else Inl ValueError)"

text \<open>The exception a reader gets back: foreign exceptions keep only their message.\<close>

fun recorded_error :: "ledger_error \<Rightarrow> ledger_error" where
  "recorded_error (OtherError typ msg) = OtherError ''Exception'' msg"
| "recorded_error e = e"

lemma deserialize_serialize_error:
  "deserialize (Some (serialize (Raised e))) = Inr (Raised (recorded_error e))"
  by (cases e)
     (simp_all add: serialize_def deserialize_def exc_to_dict_def dict_to_exc_def jget_def jindex_def
       jget_default_def)

lemma status_recorded: "to_execution_status s (Some (recorded_error e)) = to_execution_status s (Some e)"
  by (cases e) (simp_all add: to_execution_status_def)

text \<open>
  The status a client reads does not depend on the ledger crossing: values come back
  unchanged, and an exception comes back as one that classifies the run identically, so a
  cancelled or continued run is never read as failed.
\<close>

theorem serializer_preserves_status:
  "deserialize (Some (serialize (Value v))) = Inr (Value v) \<and>
   (\<exists>e'. deserialize (Some (serialize (Raised e))) = Inr (Raised e') \<and>
         (\<forall>s. to_execution_status s (Some e') = to_execution_status s (Some e)) \<and>
         (case e of OtherError _ _ \<Rightarrow> True | _ \<Rightarrow> e' = e))"
  using deserialize_serialize_error [of e] status_recorded [where e = e]
  by (cases e) (simp_all add: serialize_def deserialize_def jindex_def)

text \<open>The statuses \<open>to_execution_status\<close> knows; any other raises.\<close>

definition DBOS_STATUSES :: "string list" where
  "DBOS_STATUSES = OPEN_DBOS_STATUSES @ [''SUCCESS'', ''ERROR'', ''CANCELLED'',
     ''MAX_RECOVERY_ATTEMPTS_EXCEEDED'']"

lemma to_execution_status_total:
  "to_execution_status (Some s) e = Inl ValueError \<longleftrightarrow> s \<notin> set DBOS_STATUSES"
  by (cases e; cases "the e")
     (auto simp: to_execution_status_def DBOS_STATUSES_def is_open_def OPEN_DBOS_STATUSES_def)

lemma open_is_running: "is_open s \<Longrightarrow> to_execution_status s e = Inr RUNNING"
  by (simp add: to_execution_status_def)

end
