(* ===== verification/Interp_Close.thy ===== *)
theory Interp_Close
  imports Interp_Deliver Ledger
begin

text \<open>
  Closing a run (the \<open>finally\<close> part of \<open>execute\<close>, \<open>_sweep_children_on_close\<close>,
  \<open>_terminate_child_tree\<close>, \<open>_begin_continue_as_new\<close>, \<open>_forward_inbox_to\<close> of
  \<open>dbosify/_internal/interpreter.py\<close>, \<open>enqueue_run\<close> of \<open>dbosify/_internal/enqueue.py\<close> as the
  logged \<open>EnqueueRun\<close>).
\<close>

subsection \<open>Parent close policies\<close>

definition POLICY_ABANDON :: int where "POLICY_ABANDON = 2"
definition POLICY_REQUEST_CANCEL :: int where "POLICY_REQUEST_CANCEL = 3"

text \<open>
  The recursion of \<open>_terminate_child_tree\<close> as a stack of pending actions: the grandchildren of a
  terminated child are handled, in order, before the actions already waiting.
\<close>

datatype tree_action = Terminate string | RequestCancelOf string

text \<open>The recorded children of a terminated run: \<open>{"id", "policy"}\<close>, policy 1 when absent.\<close>

definition grandchild_action :: "json \<Rightarrow> tree_action option result" where
  "grandchild_action g =
     (let policy = jget_default g ''policy'' (JInt 1)
      in if policy = JInt POLICY_ABANDON then Inr None
         else bind_result (str_field g ''id'') (\<lambda>gid.
                Inr (Some (if policy = JInt POLICY_REQUEST_CANCEL then RequestCancelOf gid else Terminate gid))))"

definition grandchild_actions :: "json \<Rightarrow> tree_action list result" where
  "grandchild_actions event =
     (if truthy event
      then bind_result (to_list event) (\<lambda>gs.
             bind_result (map_result grandchild_action gs) (\<lambda>as. Inr (List.map_filter (\<lambda>a. a) as)))
      else Inr [])"

definition open_status :: "env \<Rightarrow> string \<Rightarrow> bool" where
  "open_status e wid =
     (case env_status e wid of
        Some f \<Rightarrow> sf_status f \<in> set OPEN_DBOS_STATUSES
      | None \<Rightarrow> False)"

partial_function (option) terminate_tree ::
  "env \<Rightarrow> tree_action list \<Rightarrow> string list \<Rightarrow> interp \<Rightarrow> (interp \<times> unit result) option" where
  "terminate_tree e actions visited s =
     (case actions of
        [] \<Rightarrow> Some (s, Inr ())
      | RequestCancelOf cid # rest \<Rightarrow>
          terminate_tree e rest visited (emit (Send cid (cancel_envelope (env_now e) '''') INBOX_TOPIC) s)
      | Terminate cid # rest \<Rightarrow>
          if cid \<in> set visited then terminate_tree e rest visited s
          else (case resolve_current_run e cid of
                  Inl err \<Rightarrow> Some (s, Inl err)
                | Inr current \<Rightarrow>
                    if \<not> open_status e current then terminate_tree e rest (cid # visited) s
                    else (case grandchild_actions (env_children_event e current) of
                            Inl err \<Rightarrow> Some (emit (CancelWorkflow current) s, Inl err)
                          | Inr nested \<Rightarrow>
                              terminate_tree e (nested @ rest) (cid # visited) (emit (CancelWorkflow current) s))))"

definition close_child :: "env \<Rightarrow> child_exec \<Rightarrow> interp \<Rightarrow> (interp \<times> unit result) option" where
  "close_child e c s =
     (if \<not> ce_started c \<or> ce_policy c = POLICY_ABANDON then Some (s, Inr ())
      else if ce_policy c = POLICY_REQUEST_CANCEL then
        (case resolve_current_run e (ce_id c) of
           Inl err \<Rightarrow> Some (s, Inl err)
         | Inr current \<Rightarrow> Some (emit (Send current (cancel_envelope (env_now e) '''') INBOX_TOPIC) s, Inr ()))
      else terminate_tree e [Terminate (ce_id c)] [] s)"

fun close_children :: "env \<Rightarrow> child_exec list \<Rightarrow> interp \<Rightarrow> (interp \<times> unit result) option" where
  "close_children e [] s = Some (s, Inr ())"
| "close_children e (c # cs) s =
     (case close_child e c s of
        None \<Rightarrow> None
      | Some (s1, Inl err) \<Rightarrow> Some (s1, Inl err)
      | Some (s1, Inr _) \<Rightarrow> close_children e cs s1)"

definition sweep_children_on_close :: "env \<Rightarrow> interp \<Rightarrow> (interp \<times> unit result) option" where
  "sweep_children_on_close e s = close_children e (map snd (i_children s)) s"

subsection \<open>Continue-as-new\<close>

definition non_empty :: "'a list option \<Rightarrow> 'a list option" where
  "non_empty x = (case x of Some [] \<Rightarrow> None | _ \<Rightarrow> x)"

text \<open>The metadata the next run starts with.\<close>

definition continued_meta :: "env \<Rightarrow> can_request \<Rightarrow> interp \<Rightarrow> run_meta result" where
  "continued_meta e can s =
     (let carried = carried_forward (i_meta s);
          memo = (case can_memo can of Some m \<Rightarrow> Some m
                  | None \<Rightarrow> if i_memo s = [] then None else Some (i_memo s));
          sa = (case can_sa can of Some t \<Rightarrow> t | None \<Rightarrow> i_sa s)
      in bind_result (encode_attributes (env_enc e) memo (Some sa)) (\<lambda>attrs.
           Inr (carried\<lparr>
             m_headers := (let h = env_enc_headers e (can_headers can) in if h = [] then None else Some h),
             m_run_timeout := (case can_run_timeout can of
                Some t \<Rightarrow> Some (total_seconds t) | None \<Rightarrow> m_run_timeout carried),
             m_retry_policy := (case can_retry_policy can of
                Some p \<Rightarrow> Some (jdict_of (serialize_retry_policy p)) | None \<Rightarrow> m_retry_policy carried),
             m_attributes := attrs\<rparr>)))"

definition next_run_id :: "string \<Rightarrow> string" where
  "next_run_id workflow_id = (let (base, index) = parse_run workflow_id in run_dbos_id base (index + 1))"

definition begin_continue_as_new :: "env \<Rightarrow> can_request \<Rightarrow> interp \<Rightarrow> interp \<times> string result" where
  "begin_continue_as_new e can s =
     (let type_name = (case can_workflow can of Some t \<Rightarrow> if t \<noteq> [] then t else wd_name (i_defn s)
                       | None \<Rightarrow> wd_name (i_defn s));
          new_run = next_run_id (i_workflow_id s)
      in case env_workflow_type e type_name of
           Some _ \<Rightarrow> (s, Inl KeyError)
         | None \<Rightarrow>
             let s1 = resolve_own_queue e s;
                 queue = (case (case can_task_queue can of Some q \<Rightarrow> if q \<noteq> [] then Some q else i_own_queue s1
                                | None \<Rightarrow> i_own_queue s1) of
                            Some q \<Rightarrow> if env_queue e q then Some q else None | None \<Rightarrow> None)
             in case continued_meta e can s1 of
                  Inl err \<Rightarrow> (s1, Inl err)
                | Inr meta \<Rightarrow>
                    (emit (EnqueueRun type_name new_run
                             (wrap_input (map (env_enc e) (can_args can)) (Some meta)) queue
                             (m_run_timeout meta) (m_attributes meta)) s1, Inr new_run))"

text \<open>
  \<open>_forward_inbox_to\<close>. \<open>unconsumed\<close> are the messages the remaining \<open>recv(0)\<close> calls return, up to
  the first one that returns nothing.
\<close>

definition forward_message :: "string \<Rightarrow> json \<Rightarrow> interp \<Rightarrow> interp" where
  "forward_message new_run m s =
     (let s1 = emit (Recv INBOX_TOPIC 0) s
      in if run_scoped m then s1 else emit (Send new_run m INBOX_TOPIC) s1)"

definition forward_inbox_to :: "env \<Rightarrow> string \<Rightarrow> json list \<Rightarrow> interp \<Rightarrow> interp" where
  "forward_inbox_to e new_run unconsumed s =
     (let s1 = (fold (\<lambda>m. emit (Send new_run m INBOX_TOPIC)) (concat (map snd (i_buffered s))) s)\<lparr>i_buffered := []\<rparr>;
          s2 = (if i_cancel_requested s1
                then emit (Send new_run (cancel_envelope (env_now e)
                       (case i_cancel_reason s1 of Some r \<Rightarrow> r | None \<Rightarrow> '''')) INBOX_TOPIC) s1
                else s1)
      in emit (Recv INBOX_TOPIC 0) (fold (forward_message new_run) unconsumed s2))"

subsection \<open>The end of execute\<close>

definition terminal :: "interp \<Rightarrow> bool" where
  "terminal s = (case i_outcome s of None \<Rightarrow> False | Some (TaskFailure _) \<Rightarrow> False | Some _ \<Rightarrow> True)"

definition cancel_open_activity :: "env \<Rightarrow> activity_exec \<Rightarrow> interp \<Rightarrow> interp" where
  "cancel_open_activity e a s =
     (if ae_queued_id a \<noteq> None then signal_queued_activity_cancel e a s else emit (RequestCancel (ae_seq a)) s)"

definition release_activity :: "activity_exec \<Rightarrow> interp \<Rightarrow> interp" where
  "release_activity a s =
     emit (ForgetAttempt (ae_seq a))
       (if ae_async_pending a
        then emit (SetEvent (async_activity_gone_key (ae_activity_id a)) (JBool True)) s else s)"

text \<open>The first part of the \<open>finally\<close> block: cancel activities, apply the close policies, hop.\<close>

definition close_effects :: "env \<Rightarrow> interp \<Rightarrow> (interp \<times> unit result) option" where
  "close_effects e s =
     (if i_replay_mode s = None \<and> terminal s then
        (case sweep_children_on_close e (fold (cancel_open_activity e) (map snd (i_activities s)) s) of
           None \<Rightarrow> None
         | Some (s1, Inl err) \<Rightarrow> Some (s1, Inl err)
         | Some (s1, Inr _) \<Rightarrow>
             (case i_outcome s1 of
                Some (ContinuedAsNew can) \<Rightarrow>
                  (case begin_continue_as_new e can s1 of
                     (s2, Inl err) \<Rightarrow> Some (s2, Inl err)
                   | (s2, Inr run) \<Rightarrow> Some (s2\<lparr>i_can_new_run := Some run\<rparr>, Inr ()))
              | _ \<Rightarrow> Some (s1, Inr ())))
      else Some (s, Inr ()))"

definition close_run :: "env \<Rightarrow> json list \<Rightarrow> interp \<Rightarrow> (interp \<times> unit result) option" where
  "close_run e unconsumed s =
     (case close_effects e s of
        None \<Rightarrow> None
      | Some (s1, Inl err) \<Rightarrow> Some (s1, Inl err)
      | Some (s1, Inr _) \<Rightarrow>
          let s2 = cancel_waiters (\<lambda>_. True) s1;
              s3 = (case i_can_new_run s2 of
                      Some run \<Rightarrow> forward_inbox_to e run unconsumed s2 | None \<Rightarrow> s2);
              s4 = (if i_replay_mode s3 = None \<and> terminal s3
                    then fold release_activity (map snd (i_activities s3)) (fail_abandoned_updates e s3)
                    else s3)
          in Some (s4, Inr ()))"

text \<open>What \<open>execute\<close> returns or raises after the close.\<close>

datatype execution =
    ExecResult json
  | ExecCancelled "json exc"
  | ExecContinuedAsNew string
  | ExecFailed "json exc"
  | ExecTaskFailure "json exc"
  | ExecNondeterminism
  | ExecError py_error

definition execution_of :: "env \<Rightarrow> interp \<Rightarrow> execution" where
  "execution_of e s =
     (case i_outcome s of
        Some (OkOutcome v) \<Rightarrow>
          if i_replay_mode s = Some Verify \<and> history_length e s < i_replay_horizon s
          then ExecNondeterminism else ExecResult v
      | Some (Cancelled c) \<Rightarrow> ExecCancelled c
      | Some (ContinuedAsNew _) \<Rightarrow>
          (case i_can_new_run s of Some run \<Rightarrow> ExecContinuedAsNew run | None \<Rightarrow> ExecError AssertionError)
      | Some (Failure err) \<Rightarrow> ExecFailed err
      | Some (TaskFailure err) \<Rightarrow> ExecTaskFailure err
      | None \<Rightarrow> ExecError TypeError)"

subsection \<open>One turn of the outer loop\<close>

text \<open>
  A turn of \<open>execute\<close>'s loop after the virtual loop has been drained, up to the race of the waiters:
  it starts over, fails the task, closes the run, or waits for the race.
  \<open>deadline_passed\<close> is the rehydrate serve window.
\<close>

datatype turn = Again | FailTask "json exc" | Close | Await | Raised py_error

definition outer_turn :: "env \<Rightarrow> bool \<Rightarrow> interp \<Rightarrow> interp \<times> turn" where
  "outer_turn e deadline_passed s =
     (case sweep_cancellations e s of
        (s1, Inl err) \<Rightarrow> (s1, Raised err)
      | (s1, Inr _) \<Rightarrow>
          (case flush_pending_handler_signals e s1 of
             (s2, Inl err) \<Rightarrow> (s2, Raised err)
           | (s2, Inr flushed) \<Rightarrow>
               (case process_commands e s2 of
                  (s3, Inl err) \<Rightarrow> (s3, Raised err)
                | (s3, Inr progress) \<Rightarrow>
                    if progress \<or> flushed then (s3, Again)
                    else case i_outcome s3 of
                      Some (TaskFailure err) \<Rightarrow> (s3, FailTask err)
                    | out \<Rightarrow>
                        let s4 = flush_outbox e s3
                        in if out \<noteq> None \<and>
                              (i_replay_mode s4 \<noteq> Some Rehydrate \<or> i_rehydrate_stop s4 \<or> deadline_passed)
                           then (s4, Close)
                           else (ensure_inbox_waiter s4, Await))))"

end
