(* ===== verification/Visibility_Tokens.thy ===== *)
theory Visibility_Tokens
  imports Ledger
begin

text \<open>
  The tokens of a visibility query (\<open>_TOKEN_RE\<close> and \<open>_tokenize\<close> of
  \<open>dbosify/_internal/visibility.py\<close>). A character is a code point below 256.
\<close>

subsection \<open>Character classes\<close>

definition is_ws :: "char \<Rightarrow> bool" where
  "is_ws c \<longleftrightarrow> (of_char c :: nat) \<in> {9, 10, 11, 12, 13, 28, 29, 30, 31, 32, 133, 160}"

definition is_alpha :: "char \<Rightarrow> bool" where
  "is_alpha c \<longleftrightarrow> (let n = (of_char c :: nat) in 65 \<le> n \<and> n \<le> 90 \<or> 97 \<le> n \<and> n \<le> 122)"

definition ident_start :: "char \<Rightarrow> bool" where
  "ident_start c \<longleftrightarrow> is_alpha c \<or> c = CHR ''_''"

definition ident_char :: "char \<Rightarrow> bool" where
  "ident_char c \<longleftrightarrow> is_alpha c \<or> is_digit c \<or> c = CHR ''_'' \<or> c = CHR ''.''"

text \<open>\<open>str.lower\<close> and \<open>str.upper\<close>, on the ASCII letters.\<close>

definition lower_char :: "char \<Rightarrow> char" where
  "lower_char c = (let n = (of_char c :: nat) in if 65 \<le> n \<and> n \<le> 90 then char_of (n + 32) else c)"

definition upper_char :: "char \<Rightarrow> char" where
  "upper_char c = (let n = (of_char c :: nat) in if 97 \<le> n \<and> n \<le> 122 then char_of (n - 32) else c)"

definition lower :: "string \<Rightarrow> string" where "lower s = map lower_char s"
definition upper :: "string \<Rightarrow> string" where "upper s = map upper_char s"

subsection \<open>The token expressions\<close>

text \<open>
  A token with its parsed value; a number without a decimal point is an integer. Names for
  \<open>VisibilityQueryError\<close> messages are not modelled.
\<close>

datatype token =
    TokOp string
  | TokLParen
  | TokRParen
  | TokComma
  | TokInt int
  | TokFloat rat
  | TokIdent string
  | TokStr string

text \<open>
  A quoted literal after its opening quote: the longest text made of other characters and doubled
  quotes that is followed by a closing quote, with the doubled quotes undoubled.
\<close>

fun quoted :: "char \<Rightarrow> string \<Rightarrow> (string \<times> string) option" where
  "quoted q [] = None"
| "quoted q [c] = (if c = q then Some ([], []) else None)"
| "quoted q (c # d # cs) =
     (if c = q then
        (if d = q then (case quoted q cs of
             Some (body, rest) \<Rightarrow> Some (q # body, rest)
           | None \<Rightarrow> Some ([], d # cs))
         else Some ([], d # cs))
      else (case quoted q (d # cs) of
              Some (body, rest) \<Rightarrow> Some (c # body, rest)
            | None \<Rightarrow> None))"

text \<open>\<open><=|>=|!=|=|<|>\<close>.\<close>

definition op_token :: "string \<Rightarrow> (string \<times> string) option" where
  "op_token s =
     (case s of
        c # d # cs \<Rightarrow>
          if [c, d] \<in> {''<='', ''>='', ''!=''} then Some ([c, d], cs)
          else if c \<in> set ''=<>'' then Some ([c], d # cs) else None
      | [c] \<Rightarrow> if c \<in> set ''=<>'' then Some ([c], []) else None
      | [] \<Rightarrow> None)"

text \<open>The value of a decimal fraction.\<close>

definition decimal :: "string \<Rightarrow> string \<Rightarrow> rat" where
  "decimal ip fp = of_nat (int_of_digits (ip @ fp)) / 10 ^ length fp"

text \<open>\<open>-?\d+(?:\.\d+)?\<close>.\<close>

definition num_token :: "string \<Rightarrow> (token \<times> string) option" where
  "num_token s =
     (let neg = (case s of c # _ \<Rightarrow> c = CHR ''-'' | [] \<Rightarrow> False);
          s1 = (if neg then tl s else s);
          ip = takeWhile is_digit s1;
          s2 = dropWhile is_digit s1
      in if ip = [] then None
         else case s2 of
           CHR ''.'' # s3 \<Rightarrow>
             (let fp = takeWhile is_digit s3
              in if fp = [] then Some (TokInt (if neg then - int (int_of_digits ip) else int (int_of_digits ip)), s2)
                 else Some (TokFloat (if neg then - decimal ip fp else decimal ip fp), dropWhile is_digit s3))
         | _ \<Rightarrow> Some (TokInt (if neg then - int (int_of_digits ip) else int (int_of_digits ip)), s2))"

text \<open>
  One match at the head of a non-empty text: the alternatives in the order of the expression. White
  space gives no token; \<open>None\<close> is no match.
\<close>

definition next_token :: "string \<Rightarrow> (token option \<times> string) option" where
  "next_token s =
     (case s of
        [] \<Rightarrow> None
      | c # cs \<Rightarrow>
          if is_ws c then Some (None, dropWhile is_ws cs)
          else case (if c = CHR 0x27 then quoted (CHR 0x27) cs else None) of
            Some (body, rest) \<Rightarrow> Some (Some (TokStr body), rest)
          | None \<Rightarrow>
          (case (if c = CHR 0x22 then quoted (CHR 0x22) cs else None) of
            Some (body, rest) \<Rightarrow> Some (Some (TokStr body), rest)
          | None \<Rightarrow>
          (case op_token s of
            Some (op, rest) \<Rightarrow> Some (Some (TokOp op), rest)
          | None \<Rightarrow>
          if c = CHR ''('' then Some (Some TokLParen, cs)
          else if c = CHR '')'' then Some (Some TokRParen, cs)
          else if c = CHR '','' then Some (Some TokComma, cs)
          else case num_token s of
            Some (t, rest) \<Rightarrow> Some (Some t, rest)
          | None \<Rightarrow>
              if ident_start c then Some (Some (TokIdent (c # takeWhile ident_char cs)), dropWhile ident_char cs)
              else None)))"

lemma quoted_shorter: "quoted q s = Some (body, rest) \<Longrightarrow> length rest < length s"
  by (induction q s arbitrary: body rule: quoted.induct)
     (auto split: if_splits option.splits)

lemma op_token_shorter: "op_token s = Some (x, rest) \<Longrightarrow> length rest < length s"
  by (auto simp: op_token_def split: list.splits if_splits)

lemma num_token_shorter: "num_token s = Some (t, rest) \<Longrightarrow> length rest < length s"
proof -
  have drop: "takeWhile P xs \<noteq> [] \<Longrightarrow> length (dropWhile P xs) < length xs" for P and xs :: string
    by (cases xs) (auto simp: le_imp_less_Suc length_dropWhile_le split: if_splits)
  have le: "length (dropWhile P xs) \<le> length xs" for P and xs :: string by (rule length_dropWhile_le)
  assume num: "num_token s = Some (t, rest)"
  define s1 where "s1 = (if (case s of c # _ \<Rightarrow> c = CHR ''-'' | [] \<Rightarrow> False) then tl s else s)"
  have "length s1 \<le> length s" by (simp add: s1_def)
  moreover have ip: "takeWhile is_digit s1 \<noteq> []"
    using num unfolding num_token_def Let_def s1_def by (auto split: if_splits)
  have "length rest \<le> length (dropWhile is_digit s1)"
  proof -
    have "rest = dropWhile is_digit s1 \<or>
      (\<exists>s3. dropWhile is_digit s1 = CHR ''.'' # s3 \<and> rest = dropWhile is_digit s3)"
      using num ip unfolding num_token_def Let_def s1_def [symmetric]
      by (auto split: list.splits if_splits char.splits bool.splits)
    then show ?thesis
    proof (elim disjE exE conjE)
      fix s3 assume "dropWhile is_digit s1 = CHR ''.'' # s3" "rest = dropWhile is_digit s3"
      then show ?thesis using le [of is_digit s3] by simp
    qed simp
  qed
  ultimately show ?thesis using drop [OF ip] by linarith
qed

lemma next_token_shorter: "next_token s = Some (t, rest) \<Longrightarrow> length rest < length s"
  using length_dropWhile_le [of is_ws "tl s"] length_dropWhile_le [of ident_char "tl s"]
  by (cases s) (auto simp: next_token_def le_imp_less_Suc split: if_splits option.splits
      dest: quoted_shorter op_token_shorter num_token_shorter)

function tokenize :: "string \<Rightarrow> token list result" where
  "tokenize s =
     (if s = [] then Inr []
      else case next_token s of
             None \<Rightarrow> Inl VisibilityQueryError
           | Some (t, rest) \<Rightarrow>
               bind_result (tokenize rest) (\<lambda>ts. Inr (case t of Some x \<Rightarrow> x # ts | None \<Rightarrow> ts)))"
  by pat_completeness auto

termination
  by (relation "measure length") (auto dest: next_token_shorter)

declare tokenize.simps [simp del]

subsection \<open>Writing tokens\<close>

text \<open>How a query is written: a string literal in single quotes with its quotes doubled.\<close>

fun escape :: "string \<Rightarrow> string" where
  "escape [] = []"
| "escape (c # cs) = (if c = CHR 0x27 then [c, c] else [c]) @ escape cs"

fun show_token :: "token \<Rightarrow> string" where
  "show_token (TokOp op) = op"
| "show_token TokLParen = ''(''"
| "show_token TokRParen = '')''"
| "show_token TokComma = '',''"
| "show_token (TokInt i) = dec_int i"
| "show_token (TokFloat _) = ''0.0''"
| "show_token (TokIdent s) = s"
| "show_token (TokStr s) = CHR 0x27 # escape s @ [CHR 0x27]"

fun writable :: "token \<Rightarrow> bool" where
  "writable (TokOp op) \<longleftrightarrow> op \<in> {''<='', ''>='', ''!='', ''='', ''<'', ''>''}"
| "writable (TokFloat _) \<longleftrightarrow> False"
| "writable (TokIdent s) \<longleftrightarrow> s \<noteq> [] \<and> ident_start (hd s) \<and> list_all ident_char (tl s)"
| "writable _ \<longleftrightarrow> True"

definition write_tokens :: "token list \<Rightarrow> string" where
  "write_tokens ts = concat (map (\<lambda>t. show_token t @ '' '') ts)"

lemma quoted_escape:
  "(case r of [] \<Rightarrow> True | c # _ \<Rightarrow> c \<noteq> CHR 0x27) \<Longrightarrow>
   quoted (CHR 0x27) (escape s @ CHR 0x27 # r) = Some (s, r)"
proof (induction s)
  case Nil
  then show ?case by (cases r) auto
next
  case (Cons c s)
  obtain d ds where d: "escape s @ CHR 0x27 # r = d # ds" by (cases "escape s @ CHR 0x27 # r") auto
  with Cons show ?case by auto
qed

lemma span_digits:
  "list_all is_digit ds \<Longrightarrow> takeWhile is_digit (ds @ CHR '' '' # r) = ds"
  "list_all is_digit ds \<Longrightarrow> dropWhile is_digit (ds @ CHR '' '' # r) = CHR '' '' # r"
  by (induction ds) (auto simp: is_digit_def)

lemma num_token_dec: "num_token (dec_int i @ CHR '' '' # r) = Some (TokInt i, CHR '' '' # r)"
proof (cases "i < 0")
  case True
  then show ?thesis
    by (simp add: num_token_def dec_int_def Let_def span_digits [OF dec_digits])
next
  case False
  obtain c cs where c: "dec (nat i) = c # cs" by (cases "dec (nat i)") auto
  then have "c \<noteq> CHR ''-''" using is_digit_set_dec [of c "nat i"] by (auto simp: is_digit_def)
  with False c show ?thesis
    using span_digits [OF dec_digits, of "nat i" r] int_of_digits_dec [of "nat i"]
    by (simp add: num_token_def dec_int_def Let_def)
qed

lemma ident_start_class:
  "ident_start c \<Longrightarrow> \<not> is_ws c \<and> \<not> is_digit c \<and> c \<notin> {CHR 0x27, CHR 0x22, CHR ''('', CHR '')'', CHR '','', CHR ''-''} \<and>
     c \<notin> set ''=<>!''"
  by (auto simp: ident_start_def is_alpha_def is_ws_def is_digit_def Let_def)

lemma digit_class:
  "is_digit c \<or> c = CHR ''-'' \<Longrightarrow> \<not> is_ws c \<and> c \<notin> {CHR 0x27, CHR 0x22, CHR ''('', CHR '')'', CHR '',''} \<and>
     c \<notin> set ''=<>!''"
  by (auto simp: is_ws_def is_digit_def)

lemma op_token_None: "c \<notin> set ''=<>!'' \<Longrightarrow> op_token (c # cs) = None"
  by (auto simp: op_token_def split: list.split)

lemma num_token_None: "\<not> is_digit c \<Longrightarrow> c \<noteq> CHR ''-'' \<Longrightarrow> num_token (c # cs) = None"
  by (simp add: num_token_def Let_def)

lemma span_ident:
  "list_all ident_char cs \<Longrightarrow> takeWhile ident_char (cs @ CHR '' '' # r) = cs"
  "list_all ident_char cs \<Longrightarrow> dropWhile ident_char (cs @ CHR '' '' # r) = CHR '' '' # r"
  by (induction cs) (auto simp: ident_char_def is_alpha_def is_digit_def)

lemma next_token_show:
  "writable t \<Longrightarrow> next_token (show_token t @ CHR '' '' # r) = Some (Some t, CHR '' '' # r)"
proof (induction t rule: show_token.induct)
  case (1 op)
  then show ?case by (auto simp: next_token_def op_token_def is_ws_def)
next
  case (5 i)
  obtain c cs where c: "dec_int i = c # cs" by (cases "dec_int i") (auto simp: dec_int_def split: if_splits)
  have "is_digit c \<or> c = CHR ''-''"
    using c is_digit_set_dec [of c "nat i"] by (auto simp: dec_int_def split: if_splits)
  from digit_class [OF this] num_token_dec [of i r] show ?case
    by (simp add: next_token_def c op_token_None)
next
  case (7 x)
  then obtain c cs where x: "x = c # cs" "ident_start c" "list_all ident_char cs" by (cases x) auto
  from ident_start_class [OF x(2)] x show ?case
    by (simp add: next_token_def op_token_None num_token_None span_ident)
next
  case (8 x)
  then show ?case using quoted_escape [of "CHR '' '' # r" x] by (simp add: next_token_def is_ws_def)
qed (simp_all add: next_token_def is_ws_def op_token_None)

lemma show_token_start: "writable t \<Longrightarrow> \<exists>c cs. show_token t = c # cs \<and> \<not> is_ws c"
proof (induction t rule: show_token.induct)
  case (5 i)
  obtain c cs where c: "dec_int i = c # cs" by (cases "dec_int i") (auto simp: dec_int_def split: if_splits)
  have "is_digit c \<or> c = CHR ''-''"
    using c is_digit_set_dec [of c "nat i"] by (auto simp: dec_int_def split: if_splits)
  with c digit_class [of c] show ?case by simp
next
  case (7 x)
  then show ?case using ident_start_class by (cases x) auto
next
  case (1 op)
  then have "op = ''<='' \<or> op = ''>='' \<or> op = ''!='' \<or> op = ''='' \<or> op = ''<'' \<or> op = ''>''" by simp
  then show ?case by (elim disjE) (simp_all add: is_ws_def)
qed (simp_all add: is_ws_def)

lemma tokenize_space: "tokenize (CHR '' '' # s) = tokenize (dropWhile is_ws s)"
proof -
  have id: "bind_result x Inr = x" for x :: "token list result" by (cases x) simp_all
  show ?thesis by (subst tokenize.simps) (simp add: next_token_def is_ws_def id)
qed

lemma write_tokens_start: "list_all writable ts \<Longrightarrow> dropWhile is_ws (write_tokens ts) = write_tokens ts"
  using show_token_start by (cases ts) (fastforce simp: write_tokens_def)+

lemma tokenize_written:
  assumes "list_all writable ts" shows "tokenize (write_tokens ts) = Inr ts"
  using assms
proof (induction ts)
  case Nil
  then show ?case by (simp add: write_tokens_def tokenize.simps)
next
  case (Cons t ts)
  have eq: "write_tokens (t # ts) = show_token t @ CHR '' '' # write_tokens ts" by (simp add: write_tokens_def)
  have "tokenize (CHR '' '' # write_tokens ts) = Inr ts"
    using Cons write_tokens_start [of ts] by (simp add: tokenize_space)
  then show ?case
    using Cons.prems next_token_show [of t "write_tokens ts"] show_token_start [of t]
    by (subst tokenize.simps) (auto simp: eq)
qed

lemma write_tokens_nonblank:
  "list_all writable ts \<Longrightarrow> ts \<noteq> [] \<Longrightarrow> \<exists>c r. write_tokens ts = c # r \<and> \<not> is_ws c"
  using show_token_start by (cases ts) (fastforce simp: write_tokens_def)+

end
