(* ===== verification/Schedules.thy ===== *)
theory Schedules
  imports Visibility_Tokens
begin

text \<open>
  Cron helpers (\<open>dbosify/_internal/schedules.py\<close>): the time zone prefix of an expression, the delay
  to its next occurrence, and the compilation of intervals and calendars to cron expressions.
  The cron evaluator and the time zone database are parameters; what an expression matches is stated
  by \<open>cron_fires\<close>, the documented meaning of the tokens the compilers emit. Log lines are not
  modelled, and so is the interval offset, which is only logged.
\<close>

subsection \<open>Expressions\<close>

record cron_lib =
  cron_zone :: "string \<Rightarrow> bool"
  cron_valid :: "string \<Rightarrow> bool"
  cron_next :: "string \<Rightarrow> string \<Rightarrow> rat \<Rightarrow> rat"

definition strip :: "string \<Rightarrow> string" where
  "strip s = rev (dropWhile is_ws (rev (dropWhile is_ws s)))"

text \<open>\<open>s.partition(" ")\<close> without the separator.\<close>

definition partition_space :: "string \<Rightarrow> string \<times> string" where
  "partition_space s = (takeWhile (\<lambda>c. c \<noteq> CHR '' '') s, drop 1 (dropWhile (\<lambda>c. c \<noteq> CHR '' '') s))"

definition split_zone :: "cron_lib \<Rightarrow> string \<Rightarrow> (string \<times> string) result" where
  "split_zone lib expr =
     (case find (\<lambda>p. prefix p expr) [''CRON_TZ='', ''TZ=''] of
        None \<Rightarrow> Inr (expr, ''UTC'')
      | Some p \<Rightarrow>
          let (zone, rest) = partition_space (drop (length p) expr)
          in if cron_zone lib zone then Inr (strip rest, zone) else Inl ValueError)"

definition parse_cron :: "cron_lib \<Rightarrow> string \<Rightarrow> (string \<times> string) result" where
  "parse_cron lib expr =
     bind_result (split_zone lib (strip expr)) (\<lambda>(fields, zone).
       if cron_valid lib fields then Inr (fields, zone) else Inl ValueError)"

definition validate_cron :: "cron_lib \<Rightarrow> string \<Rightarrow> unit result" where
  "validate_cron lib expr = bind_result (parse_cron lib expr) (\<lambda>_. Inr ())"

text \<open>Instants are seconds; a naive one is read as UTC.\<close>

definition next_fire_delay :: "cron_lib \<Rightarrow> string \<Rightarrow> rat \<Rightarrow> rat result" where
  "next_fire_delay lib expr now =
     bind_result (parse_cron lib expr) (\<lambda>(fields, zone).
       Inr (max 0 (cron_next lib fields zone now - now)))"

subsection \<open>Intervals and calendars\<close>

definition interval_to_cron :: "timedelta \<Rightarrow> string result" where
  "interval_to_cron every =
     (let total = total_seconds every; secs = round_half_even total; mins = secs div 60;
          hours = secs div 3600; days = secs div 86400;
          near = max 1 (round_half_even (of_int secs / 60))
      in if total \<le> 0 then Inl ValueError
         else if secs = 0 then Inl ZeroDivisionErr
         else if secs < 60 then Inr (''*/'' @ dec_int secs @ '' * * * * *'')
         else if secs mod 60 = 0 \<and> mins = 60 then Inr ''0 * * * *''
         else if secs mod 60 = 0 \<and> mins < 60 \<and> 60 mod mins = 0 then Inr (''*/'' @ dec_int mins @ '' * * * *'')
         else if secs mod 3600 = 0 \<and> hours = 24 then Inr ''0 0 * * *''
         else if secs mod 3600 = 0 \<and> hours < 24 \<and> 24 mod hours = 0
           then Inr (''0 */'' @ dec_int hours @ '' * * *'')
         else if secs mod 86400 = 0 then Inr (''0 0 */'' @ dec_int (min days 31) @ '' * *'')
         else if near < 60 then Inr (''*/'' @ dec_int near @ '' * * * *'')
         else Inr ''0 * * * *'')"

type_synonym cal_range = "int \<times> int \<times> int"

definition range_token :: "int \<Rightarrow> int \<Rightarrow> cal_range \<Rightarrow> string" where
  "range_token domain_lo domain_hi = (\<lambda>(start, stop, step).
     let stop = (if start \<le> stop then stop else start); step = (if step > 0 then step else 1)
     in if start \<le> domain_lo \<and> domain_hi \<le> stop \<and> step = 1 then ''*''
        else if start = stop then dec_int start
        else if step = 1 then dec_int start @ ''-'' @ dec_int stop
        else dec_int start @ ''-'' @ dec_int stop @ ''/'' @ dec_int step)"

fun join :: "char \<Rightarrow> string list \<Rightarrow> string" where
  "join c [] = []"
| "join c [t] = t"
| "join c (t # u # ts) = t @ c # join c (u # ts)"

definition ranges_to_field :: "cal_range list \<Rightarrow> int \<Rightarrow> int \<Rightarrow> string" where
  "ranges_to_field ranges domain_lo domain_hi =
     (let tokens = map (range_token domain_lo domain_hi) ranges
      in if ranges = [] \<or> ''*'' \<in> set tokens then ''*'' else join (CHR '','') tokens)"

record calendar =
  cal_second :: "cal_range list"
  cal_minute :: "cal_range list"
  cal_hour :: "cal_range list"
  cal_day_of_month :: "cal_range list"
  cal_month :: "cal_range list"
  cal_day_of_week :: "cal_range list"
  cal_year :: "cal_range list"

definition calendar_to_cron :: "calendar \<Rightarrow> string" where
  "calendar_to_cron c =
     (let sec = ranges_to_field (cal_second c) 0 59;
          fields = [ranges_to_field (cal_minute c) 0 59, ranges_to_field (cal_hour c) 0 23,
            ranges_to_field (cal_day_of_month c) 1 31, ranges_to_field (cal_month c) 1 12,
            ranges_to_field (cal_day_of_week c) 0 6]
      in if sec \<noteq> ''0'' then join (CHR '' '') (sec # fields) else join (CHR '' '') fields)"

subsection \<open>What an expression matches\<close>

fun split_at :: "char \<Rightarrow> string \<Rightarrow> string list" where
  "split_at c [] = [[]]"
| "split_at c (x # xs) =
     (if x = c then [] # split_at c xs
      else (case split_at c xs of [] \<Rightarrow> [[x]] | w # ws \<Rightarrow> (x # w) # ws))"

definition num :: "string \<Rightarrow> int" where "num s = int (int_of_digits s)"

definition token_matches :: "int \<Rightarrow> int \<Rightarrow> string \<Rightarrow> int \<Rightarrow> bool" where
  "token_matches lo hi tok v =
     (let (base, step) = (case split_at (CHR ''/'') tok of
                            [b, n] \<Rightarrow> (b, num n) | b # _ \<Rightarrow> (b, 1) | [] \<Rightarrow> ([], 1));
          (a, b) = (if base = ''*'' then (lo, hi)
                    else (case split_at (CHR ''-'') base of
                            [x, y] \<Rightarrow> (num x, num y) | x # _ \<Rightarrow> (num x, num x) | [] \<Rightarrow> (0, 0)))
      in a \<le> v \<and> v \<le> b \<and> (v - a) mod step = 0)"

definition field_matches :: "int \<Rightarrow> int \<Rightarrow> string \<Rightarrow> int \<Rightarrow> bool" where
  "field_matches lo hi field v \<longleftrightarrow> (\<exists>tok\<in>set (split_at (CHR '','') field). token_matches lo hi tok v)"

record wall_time =
  at_second :: int
  at_minute :: int
  at_hour :: int
  at_day :: int
  at_month :: int
  at_weekday :: int

text \<open>Six fields start with the seconds; with five, the second is 0.\<close>

definition cron_fires :: "string \<Rightarrow> wall_time \<Rightarrow> bool" where
  "cron_fires expr t =
     (let fields = split_at (CHR '' '') expr;
          six = (if length fields = 5 then ''0'' # fields else fields)
      in list_all2 (\<lambda>(lo, hi, v) f. field_matches lo hi f v)
           [(0, 59, at_second t), (0, 59, at_minute t), (0, 23, at_hour t), (1, 31, at_day t),
            (1, 12, at_month t), (0, 6, at_weekday t)] six)"

definition proper_time :: "wall_time \<Rightarrow> bool" where
  "proper_time t \<longleftrightarrow> at_second t \<in> {0..59} \<and> at_minute t \<in> {0..59} \<and> at_hour t \<in> {0..23} \<and>
     at_day t \<in> {1..31} \<and> at_month t \<in> {1..12} \<and> at_weekday t \<in> {0..6}"

definition seconds_of_day :: "wall_time \<Rightarrow> int" where
  "seconds_of_day t = 3600 * at_hour t + 60 * at_minute t + at_second t"

lemma split_at_nonempty [simp]: "split_at c s \<noteq> []"
  by (induction s) (auto split: list.split)

lemma split_at_absent: "c \<notin> set a \<Longrightarrow> split_at c a = [a]"
  by (induction a) auto

lemma split_at_append: "c \<notin> set a \<Longrightarrow> split_at c (a @ c # r) = a # split_at c r"
  by (induction a) auto

lemma split_at_join:
  "ts \<noteq> [] \<Longrightarrow> \<forall>t\<in>set ts. c \<notin> set t \<Longrightarrow> split_at c (join c ts) = ts"
  by (induction c ts rule: join.induct) (auto simp: split_at_absent split_at_append)

lemma not_in_dec_int: "0 \<le> i \<Longrightarrow> \<not> is_digit c \<Longrightarrow> c \<notin> set (dec_int i)"
  by (simp add: dec_int_def not_in_dec)

lemma num_dec_int: "0 \<le> i \<Longrightarrow> num (dec_int i) = i"
  by (simp add: num_def dec_int_def)

lemma dec_int_not_star: "0 \<le> i \<Longrightarrow> dec_int i \<noteq> ''*''"
  using not_in_dec_int [of i "CHR ''*''"] by (auto simp: is_digit_def)

lemma token_star: "token_matches lo hi ''*'' v \<longleftrightarrow> lo \<le> v \<and> v \<le> hi"
  by (simp add: token_matches_def)

lemma token_step:
  "0 \<le> n \<Longrightarrow> token_matches lo hi (''*/'' @ dec_int n) v \<longleftrightarrow> lo \<le> v \<and> v \<le> hi \<and> (v - lo) mod n = 0"
  using not_in_dec_int [of n "CHR ''/''"]
  by (simp add: token_matches_def split_at_absent num_dec_int is_digit_def)

lemma token_single: "0 \<le> a \<Longrightarrow> token_matches lo hi (dec_int a) v \<longleftrightarrow> v = a"
  using not_in_dec_int [of a "CHR ''/''"] not_in_dec_int [of a "CHR ''-''"] dec_int_not_star [of a]
  by (auto simp: token_matches_def split_at_absent num_dec_int is_digit_def)

lemma token_range:
  assumes "0 \<le> a" "0 \<le> b" "0 \<le> n"
  shows "token_matches lo hi (dec_int a @ ''-'' @ dec_int b) v \<longleftrightarrow> a \<le> v \<and> v \<le> b"
    and "token_matches lo hi (dec_int a @ ''-'' @ dec_int b @ ''/'' @ dec_int n) v \<longleftrightarrow>
      a \<le> v \<and> v \<le> b \<and> (v - a) mod n = 0"
proof -
  have digits: "CHR ''/'' \<notin> set (dec_int i)" "CHR ''-'' \<notin> set (dec_int i)" if "0 \<le> i" for i
    using not_in_dec_int [OF that] by (auto simp: is_digit_def)
  let ?base = "dec_int a @ ''-'' @ dec_int b"
  have base: "?base \<noteq> ''*''" "split_at (CHR ''-'') ?base = [dec_int a, dec_int b]"
    "split_at (CHR ''/'') ?base = [?base]"
    using assms digits split_at_append [of "CHR ''-''" "dec_int a" "dec_int b"]
    by (auto simp: split_at_absent append_eq_Cons_conv)
  have step: "split_at (CHR ''/'') (?base @ ''/'' @ dec_int n) = [?base, dec_int n]"
    using assms digits split_at_append [of "CHR ''/''" ?base "dec_int n"] by (simp add: split_at_absent)
  show "token_matches lo hi ?base v \<longleftrightarrow> a \<le> v \<and> v \<le> b"
    using assms base by (simp add: token_matches_def num_dec_int)
  show "token_matches lo hi (dec_int a @ ''-'' @ dec_int b @ ''/'' @ dec_int n) v \<longleftrightarrow>
      a \<le> v \<and> v \<le> b \<and> (v - a) mod n = 0"
    using assms base step by (simp add: token_matches_def num_dec_int)
qed

subsection \<open>Calendars\<close>

definition range_values :: "cal_range \<Rightarrow> int set" where
  "range_values = (\<lambda>(start, stop, step).
     {v. start \<le> v \<and> v \<le> max start stop \<and> (v - start) mod (if step > 0 then step else 1) = 0})"

lemma range_token_cases:
  obtains (star) "start \<le> lo" "hi \<le> max start stop" "\<not> 1 < step" "range_token lo hi (start, stop, step) = ''*''"
  | (single) "max start stop = start" "range_token lo hi (start, stop, step) = dec_int start"
  | (range) "\<not> 1 < step" "range_token lo hi (start, stop, step) = dec_int start @ ''-'' @ dec_int (max start stop)"
  | (steps) "1 < step"
      "range_token lo hi (start, stop, step) = dec_int start @ ''-'' @ dec_int (max start stop) @ ''/'' @ dec_int step"
proof -
  have m: "(if start \<le> stop then stop else start) = max start stop" by simp
  have tok: "range_token lo hi (start, stop, step) =
     (let step' = if step > 0 then step else 1
      in if start \<le> lo \<and> hi \<le> max start stop \<and> step' = 1 then ''*''
         else if start = max start stop then dec_int start
         else if step' = 1 then dec_int start @ ''-'' @ dec_int (max start stop)
         else dec_int start @ ''-'' @ dec_int (max start stop) @ ''/'' @ dec_int step')"
    unfolding range_token_def prod.case m by (simp only: Let_def)
  define m n where mn: "m = max start stop" "n = (if step > 0 then step else 1)"
  have tok': "range_token lo hi (start, stop, step) =
     (if start \<le> lo \<and> hi \<le> m \<and> n = 1 then ''*'' else if start = m then dec_int start
      else if n = 1 then dec_int start @ ''-'' @ dec_int m else dec_int start @ ''-'' @ dec_int m @ ''/'' @ dec_int n)"
    using tok unfolding mn Let_def .
  have one: "n = 1 \<longleftrightarrow> \<not> 1 < step" and more: "1 < step \<Longrightarrow> n = step" by (auto simp: mn)
  show ?thesis
    using tok' one more star [folded mn] single [folded mn] range [folded mn] steps [folded mn]
    by (cases "start \<le> lo \<and> hi \<le> m \<and> n = 1"; cases "start = m"; cases "n = 1") auto
qed

lemma range_token_matches:
  assumes "0 \<le> fst r" "lo \<le> v" "v \<le> hi"
  shows "token_matches lo hi (range_token lo hi r) v \<longleftrightarrow> v \<in> range_values r"
proof -
  obtain start stop step where r: "r = (start, stop, step)" by (cases r) auto
  then have pos: "0 \<le> start" "0 \<le> max start stop" using assms(1) by auto
  have one: "(v - start) mod (if step > 0 then step else 1) = 0" if "\<not> 1 < step"
    using that by (cases "step = 1") auto
  from range_token_cases [of start lo hi stop step] show ?thesis
  proof cases
    case star
    then show ?thesis using assms one unfolding r by (simp add: token_star range_values_def)
  next
    case single
    then show ?thesis using token_single [OF pos(1), of lo hi v] unfolding r by (auto simp: range_values_def)
  next
    case range
    then show ?thesis using token_range(1) [OF pos, of 1 lo hi v] one unfolding r by (simp add: range_values_def)
  next
    case steps
    then show ?thesis using token_range(2) [OF pos, of step lo hi v] unfolding r by (simp add: range_values_def)
  qed
qed

lemma range_token_separators:
  assumes "0 \<le> fst r" "c = CHR '' '' \<or> c = CHR '',''"
  shows "c \<notin> set (range_token lo hi r)"
proof -
  obtain start stop step where r: "r = (start, stop, step)" by (cases r) auto
  have digits: "c \<notin> set (dec_int i)" if "0 \<le> i" for i
    by (rule not_in_dec_int [OF that]) (use assms(2) in \<open>auto simp: is_digit_def\<close>)
  have pos: "c \<notin> set (dec_int start)" "c \<notin> set (dec_int (max start stop))" "1 < step \<Longrightarrow> c \<notin> set (dec_int step)"
    using digits assms(1) r by simp_all
  have other: "c \<noteq> CHR ''-''" "c \<noteq> CHR ''/''" "c \<noteq> CHR ''*''" using assms(2) by auto
  from range_token_cases [of start lo hi stop step] show ?thesis
    unfolding r by cases (use pos other in \<open>simp_all del: max_less_iff_conj\<close>)
qed

definition nonneg :: "cal_range list \<Rightarrow> bool" where
  "nonneg ranges \<longleftrightarrow> (\<forall>r\<in>set ranges. 0 \<le> fst r)"

lemma ranges_field_matches:
  assumes "nonneg ranges" "lo \<le> v" "v \<le> hi"
  shows "field_matches lo hi (ranges_to_field ranges lo hi) v \<longleftrightarrow> ranges = [] \<or> v \<in> (\<Union>r\<in>set ranges. range_values r)"
proof -
  let ?toks = "map (range_token lo hi) ranges"
  have each: "token_matches lo hi (range_token lo hi r) v \<longleftrightarrow> v \<in> range_values r" if "r \<in> set ranges" for r
    using range_token_matches assms that by (auto simp: nonneg_def)
  have any: "field_matches lo hi ''*'' v" using assms(2,3) by (simp add: field_matches_def token_star)
  show ?thesis
  proof (cases "ranges = [] \<or> ''*'' \<in> set ?toks")
    case True
    then have "ranges = [] \<or> v \<in> (\<Union>r\<in>set ranges. range_values r)"
      using each assms(2,3) token_star [of lo hi v] by (metis (no_types, lifting) UN_iff imageE set_map)
    then show ?thesis using True any by (auto simp: ranges_to_field_def)
  next
    case False
    then have "ranges \<noteq> []" "ranges_to_field ranges lo hi = join (CHR '','') ?toks"
      by (auto simp: ranges_to_field_def)
    moreover have "split_at (CHR '','') (join (CHR '','') ?toks) = ?toks"
      using range_token_separators assms(1) False by (intro split_at_join) (auto simp: nonneg_def)
    ultimately show ?thesis using each by (auto simp: field_matches_def)
  qed
qed

lemma ranges_field_spaces: "nonneg ranges \<Longrightarrow> CHR '' '' \<notin> set (ranges_to_field ranges lo hi)"
proof -
  assume "nonneg ranges"
  then have "\<forall>t\<in>set (map (range_token lo hi) ranges). CHR '' '' \<notin> set t"
    using range_token_separators by (auto simp: nonneg_def)
  moreover have "\<forall>t\<in>set ts. CHR '' '' \<notin> set t \<Longrightarrow> CHR '' '' \<notin> set (join (CHR '','') ts)" for ts
    by (induction "CHR '',''" ts rule: join.induct) auto
  ultimately show ?thesis by (auto simp: ranges_to_field_def Let_def)
qed

definition calendar_fires :: "calendar \<Rightarrow> wall_time \<Rightarrow> bool" where
  "calendar_fires c t \<longleftrightarrow>
     list_all (\<lambda>(ranges, v). ranges = [] \<or> v \<in> (\<Union>r\<in>set ranges. range_values r))
       [(cal_second c, at_second t), (cal_minute c, at_minute t), (cal_hour c, at_hour t),
        (cal_day_of_month c, at_day t), (cal_month c, at_month t), (cal_day_of_week c, at_weekday t)]"

definition proper_calendar :: "calendar \<Rightarrow> bool" where
  "proper_calendar c \<longleftrightarrow>
     list_all nonneg [cal_second c, cal_minute c, cal_hour c, cal_day_of_month c, cal_month c, cal_day_of_week c]"

lemma field_zero: "field_matches 0 59 ''0'' v \<longleftrightarrow> v = 0"
  using token_single [of 0 0 59 v] by (simp add: field_matches_def dec_int_def dec.simps digit_char_def)


subsection \<open>Intervals\<close>

lemma field_any: "lo \<le> v \<Longrightarrow> v \<le> hi \<Longrightarrow> field_matches lo hi ''*'' v"
  by (simp add: field_matches_def token_star)

lemma field_step:
  assumes "0 \<le> n" "lo \<le> v" "v \<le> hi"
  shows "field_matches lo hi (''*/'' @ dec_int n) v \<longleftrightarrow> (v - lo) mod n = 0"
proof -
  have "CHR '','' \<notin> set (''*/'' @ dec_int n)" using not_in_dec_int [OF assms(1)] by (simp add: is_digit_def)
  then have "split_at (CHR '','') (''*/'' @ dec_int n) = [''*/'' @ dec_int n]" by (rule split_at_absent)
  then show ?thesis using token_step [OF assms(1), of lo hi v] assms(2,3) by (simp add: field_matches_def)
qed

lemma split_step: "0 \<le> n \<Longrightarrow> split_at (CHR '' '') (''*/'' @ dec_int n @ CHR '' '' # r) = (''*/'' @ dec_int n) # split_at (CHR '' '') r"
  using split_at_append [of "CHR '' ''" "''*/'' @ dec_int n" r] not_in_dec_int [of n "CHR '' ''"]
  by (simp add: is_digit_def)

text \<open>The four shapes of exact expressions and when they fire.\<close>

lemma fires_seconds:
  "proper_time t \<Longrightarrow> 0 \<le> n \<Longrightarrow> cron_fires (''*/'' @ dec_int n @ '' * * * * *'') t \<longleftrightarrow> at_second t mod n = 0"
  by (simp add: cron_fires_def split_step field_any field_step proper_time_def del: append_Cons)

lemma fires_minutes:
  "proper_time t \<Longrightarrow> 0 \<le> n \<Longrightarrow>
   cron_fires (''*/'' @ dec_int n @ '' * * * *'') t \<longleftrightarrow> at_second t = 0 \<and> at_minute t mod n = 0"
  by (simp add: cron_fires_def split_step field_any field_step field_zero proper_time_def del: append_Cons)

lemma field_zero_at: "0 \<le> v \<Longrightarrow> field_matches 0 hi ''0'' v \<longleftrightarrow> v = 0"
  using token_single [of 0 0 hi v] by (simp add: field_matches_def dec_int_def dec.simps digit_char_def)

lemma fires_hours:
  "proper_time t \<Longrightarrow> 0 \<le> n \<Longrightarrow>
   cron_fires (''0 */'' @ dec_int n @ '' * * *'') t \<longleftrightarrow> at_second t = 0 \<and> at_minute t = 0 \<and> at_hour t mod n = 0"
  using split_step [of n "''* * *''"]
  by (simp add: cron_fires_def field_any field_zero_at proper_time_def field_step [of n 0, simplified])

lemma fires_hourly: "proper_time t \<Longrightarrow> cron_fires ''0 * * * *'' t \<longleftrightarrow> at_second t = 0 \<and> at_minute t = 0"
  by (simp add: cron_fires_def field_any field_zero_at proper_time_def)

lemma fires_daily:
  "proper_time t \<Longrightarrow> cron_fires ''0 0 * * *'' t \<longleftrightarrow> at_second t = 0 \<and> at_minute t = 0 \<and> at_hour t = 0"
  by (simp add: cron_fires_def field_any field_zero_at proper_time_def)

definition exact_period :: "int \<Rightarrow> bool" where
  "exact_period n \<longleftrightarrow> n dvd 60 \<or> 60 dvd n \<and> n dvd 3600 \<or> 3600 dvd n \<and> n dvd 86400"

lemma dvd_step: "0 \<le> s \<Longrightarrow> s < (a::int) \<Longrightarrow> a * k dvd a * x + s \<longleftrightarrow> s = 0 \<and> k dvd x"
proof -
  assume s: "0 \<le> s" "s < a"
  have "a * k dvd a * x + s \<Longrightarrow> a dvd s" by (metis dvd_add_right_iff dvd_mult_left dvd_triv_left)
  with s have "a * k dvd a * x + s \<Longrightarrow> s = 0" using zdvd_imp_le by fastforce
  then show ?thesis using s by auto
qed

lemma interval_secs: "0 < n \<Longrightarrow> round_half_even (total_seconds (n * 1000000)) = n"
  by (simp add: total_seconds_def)

lemma exact_seconds:
  assumes "proper_time t" "0 < n" "n dvd 60"
  shows "n dvd seconds_of_day t \<longleftrightarrow> at_second t mod n = 0"
proof -
  have "n dvd 60 * (60 * at_hour t + at_minute t)" using assms(3) by (rule dvd_mult2)
  then show ?thesis
    using dvd_add_right_iff [of n "60 * (60 * at_hour t + at_minute t)" "at_second t"]
    by (simp add: seconds_of_day_def dvd_eq_mod_eq_0 algebra_simps)
qed

lemma exact_minutes:
  assumes "proper_time t" "0 < k" "k dvd 60"
  shows "60 * k dvd seconds_of_day t \<longleftrightarrow> at_second t = 0 \<and> at_minute t mod k = 0"
proof -
  have "seconds_of_day t = 60 * (60 * at_hour t + at_minute t) + at_second t"
    by (simp add: seconds_of_day_def)
  moreover have "k dvd 60 * at_hour t + at_minute t \<longleftrightarrow> k dvd at_minute t"
    using assms(3) by (simp add: dvd_add_right_iff)
  ultimately show ?thesis
    using assms(1) dvd_step [of "at_second t" 60 k "60 * at_hour t + at_minute t"]
    by (simp add: proper_time_def dvd_eq_mod_eq_0)
qed

lemma exact_hours:
  assumes "proper_time t" "0 < k"
  shows "3600 * k dvd seconds_of_day t \<longleftrightarrow> at_second t = 0 \<and> at_minute t = 0 \<and> at_hour t mod k = 0"
proof -
  have "seconds_of_day t = 3600 * at_hour t + (60 * at_minute t + at_second t)"
    by (simp add: seconds_of_day_def)
  moreover have "0 \<le> at_minute t" "at_minute t \<le> 59" "0 \<le> at_second t" "at_second t \<le> 59"
    using assms(1) by (simp_all add: proper_time_def)
  moreover from this have "60 * at_minute t + at_second t = 0 \<longleftrightarrow> at_second t = 0 \<and> at_minute t = 0" by linarith
  ultimately show ?thesis
    using dvd_step [of "60 * at_minute t + at_second t" 3600 k "at_hour t"]
    by (simp only: dvd_eq_mod_eq_0) linarith
qed

lemma interval_eval:
  assumes "0 < n"
  shows "interval_to_cron (n * 1000000) =
     (let mins = n div 60; hours = n div 3600; near = max 1 (round_half_even (of_int n / 60)) in
      if n < 60 then Inr (''*/'' @ dec_int n @ '' * * * * *'')
      else if n mod 60 = 0 \<and> mins = 60 then Inr ''0 * * * *''
      else if n mod 60 = 0 \<and> mins < 60 \<and> 60 mod mins = 0 then Inr (''*/'' @ dec_int mins @ '' * * * *'')
      else if n mod 3600 = 0 \<and> hours = 24 then Inr ''0 0 * * *''
      else if n mod 3600 = 0 \<and> hours < 24 \<and> 24 mod hours = 0 then Inr (''0 */'' @ dec_int hours @ '' * * *'')
      else if n mod 86400 = 0 then Inr (''0 0 */'' @ dec_int (min (n div 86400) 31) @ '' * *'')
      else if near < 60 then Inr (''*/'' @ dec_int near @ '' * * * *'')
      else Inr ''0 * * * *'')"
proof -
  have "\<not> total_seconds (n * 1000000) \<le> 0" "n \<noteq> 0" using assms by (simp_all add: total_seconds_def)
  then show ?thesis unfolding interval_to_cron_def interval_secs [OF assms] Let_def by (simp only: if_False)
qed

lemma interval_minutes:
  assumes "0 < k" "k < 60" "60 mod k = 0"
  shows "interval_to_cron (60 * k * 1000000) = Inr (''*/'' @ dec_int k @ '' * * * *'')"
proof -
  have "0 < 60 * k" "\<not> 60 * k < 60" "60 * k mod 60 = 0" "60 * k div 60 = k" "k \<noteq> 60" using assms by simp_all
  then show ?thesis unfolding interval_eval [OF \<open>0 < 60 * k\<close>] Let_def using assms by (simp only: if_False if_True HOL.simp_thms)
qed

lemma interval_hours:
  assumes "1 < k" "k < 24" "24 mod k = 0"
  shows "interval_to_cron (3600 * k * 1000000) = Inr (''0 */'' @ dec_int k @ '' * * *'')"
proof -
  have "0 < 3600 * k" "\<not> 3600 * k < 60" "3600 * k mod 3600 = 0" "3600 * k div 3600 = k" "k \<noteq> 24"
    "3600 * k div 60 \<noteq> 60" "\<not> 3600 * k div 60 < 60" using assms by simp_all
  then show ?thesis unfolding interval_eval [OF \<open>0 < 3600 * k\<close>] Let_def using assms by (simp only: if_False if_True HOL.simp_thms)
qed

lemma interval_boundaries:
  "interval_to_cron (3600 * 1000000) = Inr ''0 * * * *''" "interval_to_cron (86400 * 1000000) = Inr ''0 0 * * *''"
  using interval_eval [of 3600] interval_eval [of 86400] by (simp_all only: Let_def) simp_all

lemma exact_period_cases:
  assumes "0 < n" "exact_period n"
  obtains (s) "n < 60" "n dvd 60" | (m) k where "n = 60 * k" "k dvd 60" | (h) k where "n = 3600 * k" "k dvd 24" "k \<noteq> 1"
proof -
  from assms(2) consider "n dvd 60" | "60 dvd n" "n dvd 3600" | "3600 dvd n" "n dvd 86400"
    unfolding exact_period_def by blast
  then show thesis
  proof cases
    case 1
    then have "n \<le> 60" using zdvd_imp_le by simp
    with 1 show thesis using s m [of 1] by (cases "n = 60") auto
  next
    case 2
    then obtain k where k: "n = 60 * k" by (auto elim: dvdE)
    with 2 have "60 * k dvd 60 * 60" by simp
    then show thesis using m [OF k] by (simp only: dvd_mult_cancel_left) simp
  next
    case 3
    then obtain k where k: "n = 3600 * k" by (auto elim: dvdE)
    with 3 have "3600 * k dvd 3600 * 24" by simp
    then have "k dvd 24" by (simp only: dvd_mult_cancel_left) simp
    then show thesis using h [OF k] m [of 60] k by (cases "k = 1") auto
  qed
qed

lemma minute_period_exact:
  assumes "0 < k" "k dvd 60" "proper_time t"
  shows "\<exists>expr. interval_to_cron (60 * k * 1000000) = Inr expr \<and> (cron_fires expr t \<longleftrightarrow> 60 * k dvd seconds_of_day t)"
proof (cases "k = 60")
  case True
  then have "interval_to_cron (60 * k * 1000000) = Inr ''0 * * * *''" using interval_boundaries by simp
  then show ?thesis using fires_hourly [OF assms(3)] exact_hours [OF assms(3), of 1] True by simp
next
  case False
  from assms(2) have "k \<le> 60" using zdvd_imp_le by simp
  with False have "interval_to_cron (60 * k * 1000000) = Inr (''*/'' @ dec_int k @ '' * * * *'')"
    using assms interval_minutes [of k] by (simp add: dvd_eq_mod_eq_0)
  then show ?thesis
    using fires_minutes [OF assms(3), of k] exact_minutes [OF assms(3,1,2)] \<open>k \<le> 60\<close> assms(1) by simp
qed

lemma hour_period_exact:
  assumes "0 < k" "k dvd 24" "k \<noteq> 1" "proper_time t"
  shows "\<exists>expr. interval_to_cron (3600 * k * 1000000) = Inr expr \<and> (cron_fires expr t \<longleftrightarrow> 3600 * k dvd seconds_of_day t)"
proof (cases "k = 24")
  case True
  then have "interval_to_cron (3600 * k * 1000000) = Inr ''0 0 * * *''" using interval_boundaries by simp
  moreover have "at_hour t mod 24 = at_hour t" using assms(4) by (simp add: proper_time_def)
  ultimately show ?thesis using fires_daily [OF assms(4)] exact_hours [OF assms(4), of 24] True by simp
next
  case False
  from assms(2) have "k \<le> 24" using zdvd_imp_le by simp
  with False have "interval_to_cron (3600 * k * 1000000) = Inr (''0 */'' @ dec_int k @ '' * * *'')"
    using assms interval_hours [of k] by (simp add: dvd_eq_mod_eq_0)
  then show ?thesis
    using fires_hours [OF assms(4), of k] exact_hours [OF assms(4,1)] \<open>k \<le> 24\<close> assms(1) by simp
qed

text \<open>
  An interval that divides a cron boundary is compiled exactly. If the period is a whole
  number of seconds that divides a minute, or of minutes that divides an hour, or of hours that
  divides a day, then the cron expression fires at exactly the times of day that are multiples of
  the period.
\<close>

theorem interval_to_cron_exact:
  assumes "0 < n" "exact_period n" "proper_time t"
  shows "\<exists>expr. interval_to_cron (n * 1000000) = Inr expr \<and> (cron_fires expr t \<longleftrightarrow> n dvd seconds_of_day t)"
proof -
  consider (s) "n < 60" "n dvd 60" | (m) k where "n = 60 * k" "k dvd 60" | (h) k where "n = 3600 * k" "k dvd 24" "k \<noteq> 1"
    by (rule exact_period_cases [OF assms(1,2)])
  then show ?thesis
  proof cases
    case s
    then have "interval_to_cron (n * 1000000) = Inr (''*/'' @ dec_int n @ '' * * * * *'')"
      using interval_eval [OF assms(1)] by (simp only: Let_def if_True)
    then show ?thesis using fires_seconds [OF assms(3), of n] exact_seconds [OF assms(3,1) s(2)] s assms(1) by simp
  next
    case (m k)
    with minute_period_exact [of k t] assms show ?thesis by simp
  next
    case (h k)
    with hour_period_exact [of k t] assms show ?thesis by simp
  qed
qed

definition noon :: wall_time where
  "noon = \<lparr>at_second = 0, at_minute = 0, at_hour = 12, at_day = 1, at_month = 6, at_weekday = 3\<rparr>"

theorem interval_to_cron_exact_witness:
  "\<exists>expr. interval_to_cron (14400 * 1000000) = Inr expr \<and> (cron_fires expr noon \<longleftrightarrow> 14400 dvd seconds_of_day noon)"
  by (rule interval_to_cron_exact) (simp_all add: exact_period_def proper_time_def noon_def)


text \<open>
  Approximated intervals can be far off. Every period of an hour or more that is neither
  exact nor a whole number of days compiles to an hourly expression, so a five hour interval fires
  five times too often, and a positive period of at most half a second raises ZeroDivisionError.
\<close>

theorem inexact_intervals:
  "(3600 \<le> n \<and> \<not> exact_period n \<and> \<not> 86400 dvd n \<longrightarrow> interval_to_cron (n * 1000000) = Inr ''0 * * * *'') \<and>
   (0 < us \<and> us \<le> 500000 \<longrightarrow> interval_to_cron us = Inl ZeroDivisionErr)"
proof (intro conjI impI; elim conjE)
  assume n: "3600 \<le> n" "\<not> exact_period n" "\<not> 86400 dvd n"
  have "60 \<le> round_half_even (of_int n / 60)"
    using round_half_even_mono [of 60 "of_int n / 60"] round_half_even_of_int [of 60] n(1) by simp
  then have near: "\<not> max 1 (round_half_even (of_int n / 60)) < 60" by simp
  have minutes: "\<not> (n mod 60 = 0 \<and> n div 60 < 60 \<and> 60 mod (n div 60) = 0)" using n(1) by auto
  have hours: "\<not> (n mod 3600 = 0 \<and> n div 3600 < 24 \<and> 24 mod (n div 3600) = 0)" "\<not> (n mod 3600 = 0 \<and> n div 3600 = 24)"
  proof -
    have "exact_period n" if "n mod 3600 = 0" "24 mod (n div 3600) = 0"
    proof -
      have "n = 3600 * (n div 3600)" using that(1) mult_div_mod_eq [of 3600 n] by linarith
      moreover have "3600 * (n div 3600) dvd 3600 * 24" using that(2) by (intro mult_dvd_mono) auto
      ultimately show ?thesis using that(1) by (auto simp: exact_period_def)
    qed
    then show "\<not> (n mod 3600 = 0 \<and> n div 3600 < 24 \<and> 24 mod (n div 3600) = 0)" "\<not> (n mod 3600 = 0 \<and> n div 3600 = 24)"
      using n(2) by auto
  qed
  have days: "n mod 86400 \<noteq> 0" using n(3) by auto
  have pos: "0 < n" "\<not> n < 60" using n(1) by simp_all
  show "interval_to_cron (n * 1000000) = Inr ''0 * * * *''"
    unfolding interval_eval [OF pos(1)] Let_def using pos(2) near minutes hours days
    by (simp only: if_False if_cancel)
next
  assume us: "0 < us" "us \<le> 500000"
  have "\<lfloor>total_seconds us\<rfloor> = 0" using us by (simp add: total_seconds_def floor_eq_iff)
  then have "round_half_even (total_seconds us) = 0"
    using us by (auto simp: round_half_even_def total_seconds_def Let_def)
  moreover have "\<not> total_seconds us \<le> 0" using us by (simp add: total_seconds_def)
  ultimately show "interval_to_cron us = Inl ZeroDivisionErr" unfolding interval_to_cron_def Let_def by (simp only: if_False if_True HOL.simp_thms)
qed

theorem inexact_intervals_witness:
  "interval_to_cron (18000 * 1000000) = Inr ''0 * * * *'' \<and> interval_to_cron 400000 = Inl ZeroDivisionErr"
  using inexact_intervals [of 18000 400000] by (simp add: exact_period_def)

end
