(* ===== verification/Dispatcher.thy ===== *)
theory Dispatcher
  imports Interp_Close Schedules
begin

text \<open>
  The per-type dispatcher (\<open>dispatch\<close>, \<open>_run_workflow_task_loop\<close>, \<open>_continue_chain_after_failure\<close>,
  \<open>_enqueue_next_run\<close>, \<open>_drain_unconsumed_inbox\<close>, \<open>_contains_cancel\<close>, \<open>_forward_carryover\<close> of
  \<open>dbosify/_internal/dispatcher.py\<close>; \<open>enqueue_run\<close> of \<open>dbosify/_internal/enqueue.py\<close>): the retry
  loop around the interpreter and the chain of runs. What an interpreter execution ends with is a
  parameter, since it depends on user code: a function of the attempt and of the checkpoint cursor it
  starts at. The environment variables and the DBOS reads are fields of \<open>disp_env\<close>.
\<close>

subsection \<open>Effects\<close>

record run_start =
  st_type :: string
  st_run :: string
  st_payload :: json
  st_queue :: "string option"
  st_timeout :: "rat option"
  st_attributes :: "jdict option"
  st_delay :: "rat option"

datatype hop_op =
    HopRecv string
  | HopSend string json string
  | HopStart run_start
  | HopSleep rat
  | HopCancel string bool

text \<open>A step of the dispatcher: the DBOS calls it makes in order, and its value or the error it raises.\<close>

type_synonym 'a hop = "hop_op list \<times> 'a result"

definition hop_return :: "'a \<Rightarrow> 'a hop" where "hop_return x = ([], Inr x)"
definition hop_lift :: "'a result \<Rightarrow> 'a hop" where "hop_lift r = ([], r)"
definition hop_tell :: "hop_op list \<Rightarrow> unit hop" where "hop_tell ops = (ops, Inr ())"

definition hop_bind :: "'a hop \<Rightarrow> ('a \<Rightarrow> 'b hop) \<Rightarrow> 'b hop" where
  "hop_bind m f =
     (case m of
        (ops, Inl err) \<Rightarrow> (ops, Inl err)
      | (ops, Inr x) \<Rightarrow> (ops @ fst (f x), snd (f x)))"

record disp_env =
  de_workflow_id :: string
  de_fail_fast :: bool
  de_retry_initial :: rat
  de_registered :: "string \<Rightarrow> bool"
  de_status :: "string \<Rightarrow> status_fields option"
  de_queue :: "string \<Rightarrow> bool"
  de_cron :: cron_lib
  de_now :: rat
  de_enc :: "json \<Rightarrow> json"
  de_divergence :: string

definition TASK_RETRY_MAX_SECONDS :: rat where "TASK_RETRY_MAX_SECONDS = 60"

subsection \<open>The workflow-task loop\<close>

text \<open>
  One attempt: how \<open>execute\<close> ended, whether it had observed a cancel request, and the checkpoint
  cursor (\<open>ctx.function_id\<close>) it left behind.
\<close>

record attempt =
  at_exec :: execution
  at_cancel :: bool
  at_cursor :: nat

text \<open>How the loop leaves: with a value, or with one of the exceptions \<open>dispatch\<close> distinguishes.\<close>

datatype loop_end =
    LoopValue json
  | LoopContinued string
  | LoopCancelled "json exc"
  | LoopDiverged string
  | LoopExc "json exc"
  | LoopPy py_error

fun loop_end_of :: "disp_env \<Rightarrow> execution \<Rightarrow> loop_end" where
  "loop_end_of e (ExecResult v) = LoopValue v"
| "loop_end_of e (ExecContinuedAsNew run) = LoopContinued run"
| "loop_end_of e (ExecCancelled c) = LoopCancelled c"
| "loop_end_of e ExecNondeterminism = LoopDiverged (de_divergence e)"
| "loop_end_of e (ExecFailed err) = LoopExc err"
| "loop_end_of e (ExecTaskFailure err) = LoopExc err"
| "loop_end_of e (ExecError err) = LoopPy err"

definition is_task_failure :: "execution \<Rightarrow> bool" where
  "is_task_failure x = (case x of ExecTaskFailure _ \<Rightarrow> True | _ \<Rightarrow> False)"

text \<open>The cursor the attempts started at, and the seconds slept between them, in order.\<close>

record loop_trace =
  lt_starts :: "nat list"
  lt_sleeps :: "rat list"

partial_function (option) task_loop ::
  "disp_env \<Rightarrow> (nat \<Rightarrow> nat \<Rightarrow> attempt) \<Rightarrow> nat \<Rightarrow> nat \<Rightarrow> nat \<Rightarrow> rat \<Rightarrow> loop_trace \<Rightarrow>
     (loop_end \<times> bool \<times> loop_trace) option" where
  "task_loop e runs start k cursor backoff tr =
     (let a = runs k cursor; tr1 = tr\<lparr>lt_starts := lt_starts tr @ [cursor]\<rparr>
      in if is_task_failure (at_exec a) \<and> \<not> de_fail_fast e
         then task_loop e runs start (Suc k) start (min (backoff * 2) TASK_RETRY_MAX_SECONDS)
                (tr1\<lparr>lt_sleeps := lt_sleeps tr1 @ [backoff]\<rparr>)
         else Some (loop_end_of e (at_exec a), at_cancel a, tr1))"

definition run_workflow_task_loop ::
  "disp_env \<Rightarrow> (nat \<Rightarrow> nat \<Rightarrow> attempt) \<Rightarrow> nat \<Rightarrow> (loop_end \<times> bool \<times> loop_trace) option" where
  "run_workflow_task_loop e runs start =
     task_loop e runs start 0 start (de_retry_initial e) \<lparr>lt_starts = [], lt_sleeps = []\<rparr>"

subsection \<open>The chain\<close>

text \<open>
  \<open>_drain_unconsumed_inbox\<close>: \<open>unconsumed\<close> are the messages the inbox still holds; a null message
  reads like an empty inbox.
\<close>

definition drain_unconsumed :: "json list \<Rightarrow> json list hop" where
  "drain_unconsumed unconsumed =
     (let ms = takeWhile (\<lambda>m. m \<noteq> JNull) unconsumed
      in (replicate (Suc (length ms)) (HopRecv INBOX_TOPIC), Inr ms))"

definition contains_cancel :: "json list \<Rightarrow> bool" where
  "contains_cancel messages \<longleftrightarrow> (\<exists>m\<in>set messages. is_cancel_message m)"

definition forward_carryover :: "string \<Rightarrow> json list \<Rightarrow> unit hop" where
  "forward_carryover new_run messages =
     hop_tell (map (\<lambda>m. HopSend new_run m INBOX_TOPIC) (filter (\<lambda>m. \<not> run_scoped m) messages))"

definition enqueue_run ::
  "string \<Rightarrow> json \<Rightarrow> string \<Rightarrow> string option \<Rightarrow> rat option \<Rightarrow> jdict option \<Rightarrow> rat \<Rightarrow> unit hop" where
  "enqueue_run type_name payload run queue run_timeout attributes delay =
     hop_tell [HopStart \<lparr>st_type = type_name, st_run = run, st_payload = payload, st_queue = queue,
       st_timeout = run_timeout, st_attributes = attributes,
       st_delay = (if delay > 0 \<and> queue \<noteq> None then Some delay else None)\<rparr>]"

definition own_queue :: "disp_env \<Rightarrow> string option" where
  "own_queue e =
     (case de_status e (de_workflow_id e) of
        None \<Rightarrow> None
      | Some f \<Rightarrow> (case sf_queue f of Some q \<Rightarrow> if de_queue e q then Some q else None | None \<Rightarrow> None))"

definition enqueue_next_run :: "disp_env \<Rightarrow> string \<Rightarrow> json list \<Rightarrow> run_meta \<Rightarrow> rat \<Rightarrow> string hop" where
  "enqueue_next_run e type_name args meta delay =
     (let new_run = next_run_id (de_workflow_id e)
      in if \<not> de_registered e type_name then hop_lift (Inl KeyError)
         else hop_bind (enqueue_run type_name (wrap_input args (Some meta)) new_run (own_queue e)
                          (m_run_timeout meta) (m_attributes meta) delay)
                (\<lambda>_. hop_return new_run))"

definition retry_hop :: "disp_env \<Rightarrow> string \<Rightarrow> json list \<Rightarrow> run_meta \<Rightarrow> jdict \<Rightarrow> string option hop" where
  "retry_hop e type_name args meta envelope =
     (case m_retry_policy meta of
        None \<Rightarrow> hop_return None
      | Some policy \<Rightarrow>
          hop_bind (hop_lift (workflow_retry_delay (JObj policy) (m_attempt meta) (JObj envelope))) (\<lambda>delay.
            case delay of
              None \<Rightarrow> hop_return None
            | Some d \<Rightarrow>
                hop_bind (enqueue_next_run e type_name args
                    ((carried_forward meta)\<lparr>m_attempt := m_attempt meta + 1, m_last_failure := Some envelope\<rparr>) d)
                  (\<lambda>run. hop_return (Some run))))"

definition cron_hop :: "disp_env \<Rightarrow> string \<Rightarrow> json list \<Rightarrow> string \<Rightarrow> run_meta \<Rightarrow> string hop" where
  "cron_hop e type_name args cron next_meta =
     hop_bind (hop_lift (next_fire_delay (de_cron e) cron (de_now e))) (\<lambda>d.
       enqueue_next_run e type_name args next_meta d)"

definition continue_chain_after_failure ::
  "disp_env \<Rightarrow> string \<Rightarrow> json list option \<Rightarrow> run_meta \<Rightarrow> jdict \<Rightarrow> bool \<Rightarrow> json list \<Rightarrow> string option hop" where
  "continue_chain_after_failure e type_name hop_args meta envelope cancel_observed unconsumed =
     (case hop_args of
        None \<Rightarrow> hop_return None
      | Some args \<Rightarrow>
          hop_bind (drain_unconsumed unconsumed) (\<lambda>carryover.
          if cancel_observed \<or> contains_cancel carryover then hop_return None
          else
            hop_bind (retry_hop e type_name args meta envelope) (\<lambda>retried.
            hop_bind (case (retried, m_cron meta) of
                (None, Some cron) \<Rightarrow>
                  hop_bind (cron_hop e type_name args cron
                      ((carried_forward meta)\<lparr>m_last_failure := Some envelope\<rparr>)) (\<lambda>r. hop_return (Some r))
              | _ \<Rightarrow> hop_return retried) (\<lambda>new_run.
              case new_run of
                None \<Rightarrow> hop_return None
              | Some run \<Rightarrow> hop_bind (forward_carryover run carryover) (\<lambda>_. hop_return (Some run))))))"

definition continue_after_success ::
  "disp_env \<Rightarrow> string \<Rightarrow> json list \<Rightarrow> run_meta \<Rightarrow> string \<Rightarrow> json \<Rightarrow> bool \<Rightarrow> json list \<Rightarrow> unit hop" where
  "continue_after_success e type_name args meta cron result cancel_observed unconsumed =
     hop_bind (drain_unconsumed unconsumed) (\<lambda>carryover.
       if cancel_observed \<or> contains_cancel carryover then hop_return ()
       else hop_bind (cron_hop e type_name args cron
              ((carried_forward meta)\<lparr>m_last_completion := Some [(''value'', de_enc e result)],
                 m_last_failure := None\<rparr>)) (\<lambda>run. forward_carryover run carryover))"

subsection \<open>The dispatcher\<close>

definition NONDETERMINISM_MARKER :: string where
  "NONDETERMINISM_MARKER = ''__dbosify_nondeterminism__''"

text \<open>An exception that is neither a marker nor a Temporal failure reaches DBOS as it is.\<close>

definition raw_error :: "json exc \<Rightarrow> ledger_error" where
  "raw_error err =
     (case exc_kind err of
        OtherException name msg \<Rightarrow> OtherError name msg
      | AsyncioCancelled \<Rightarrow> OtherError ''CancelledError'' ''''
      | _ \<Rightarrow> OtherError '''' '''')"

definition record_divergence :: "disp_env \<Rightarrow> ledger_error \<Rightarrow> string \<Rightarrow> stored" where
  "record_divergence e original msg =
     stored.Raised
       (if replay_scratch_mode (de_workflow_id e) = None then original
        else SerializedWorkflowFailure (JObj
          [(''cls'', JStr ''ApplicationError''), (''type'', JStr NONDETERMINISM_MARKER), (''message'', JStr msg),
           (''details'', JList []), (''non_retryable'', JBool True), (''next_retry_delay'', JNull)]))"

definition exc_str :: "json exc \<Rightarrow> string" where
  "exc_str err = (case exc_kind err of OtherException _ msg \<Rightarrow> msg | _ \<Rightarrow> '''')"

definition failure_envelope :: "disp_env \<Rightarrow> json exc \<Rightarrow> jdict" where
  "failure_envelope e err = (case serialize_failure (map (de_enc e)) err of JObj kvs \<Rightarrow> kvs | _ \<Rightarrow> [])"

definition with_new_run :: "jdict \<Rightarrow> string option \<Rightarrow> jdict" where
  "with_new_run envelope run =
     (case run of None \<Rightarrow> envelope | Some r \<Rightarrow> dict_set ''new_run_id'' (JStr r) envelope)"

text \<open>The arguments kept for a later hop; \<open>None\<close> when no hop can follow.\<close>

definition hop_args :: "run_meta \<Rightarrow> json list \<Rightarrow> json list option" where
  "hop_args meta args = (if m_cron meta \<noteq> None \<or> m_retry_policy meta \<noteq> None then Some args else None)"

definition dispatch_end ::
  "disp_env \<Rightarrow> string \<Rightarrow> json list \<Rightarrow> run_meta \<Rightarrow> json list \<Rightarrow> loop_end \<Rightarrow> bool \<Rightarrow> stored hop" where
  "dispatch_end e type_name args meta unconsumed end cancel_observed =
     (let snapshot = hop_args meta args
      in case end of
        LoopContinued run \<Rightarrow>
          hop_return (stored.Raised (SerializedContinueAsNew (JObj [(''new_run_id'', JStr run)])))
      | LoopCancelled cause \<Rightarrow>
          hop_return (stored.Raised (SerializedWorkflowCancellation (serialize_failure (map (de_enc e)) cause)))
      | LoopDiverged msg \<Rightarrow>
          hop_return (record_divergence e (OtherError ''NondeterminismError'' msg) msg)
      | LoopPy err \<Rightarrow> hop_lift (Inl err)
      | LoopExc err \<Rightarrow>
          if is_divergence err then hop_return (record_divergence e (raw_error err) (exc_str err))
          else if \<not> is_FailureError (exc_kind err) then hop_return (stored.Raised (raw_error err))
          else
            (let envelope = failure_envelope e err
             in hop_bind (continue_chain_after_failure e type_name snapshot meta envelope cancel_observed unconsumed)
                  (\<lambda>run. hop_return (stored.Raised (SerializedWorkflowFailure (JObj (with_new_run envelope run))))))
      | LoopValue v \<Rightarrow>
          hop_bind (case m_cron meta of
              Some cron \<Rightarrow> continue_after_success e type_name args meta cron v cancel_observed unconsumed
            | None \<Rightarrow> hop_return ()) (\<lambda>_. hop_return (Value (de_enc e v))))"

text \<open>
  The whole workflow function. The interpreter is built from the unwrapped input; the result is
  \<open>None\<close> exactly when the task loop never leaves.
\<close>

definition dispatch ::
  "disp_env \<Rightarrow> string \<Rightarrow> json \<Rightarrow> (json list \<Rightarrow> run_meta \<Rightarrow> nat \<Rightarrow> nat \<Rightarrow> attempt) \<Rightarrow> nat \<Rightarrow> json list \<Rightarrow> stored hop option" where
  "dispatch e type_name payload runs start unconsumed =
     (case unwrap_input payload of
        Inl err \<Rightarrow> Some (hop_lift (Inl err))
      | Inr (args, meta) \<Rightarrow>
          (case run_workflow_task_loop e (runs args meta) start of
             None \<Rightarrow> None
           | Some (end, cancelled, _) \<Rightarrow> Some (dispatch_end e type_name args meta unconsumed end cancelled)))"

subsection \<open>In-process helpers\<close>

text \<open>
  The helpers that talk to a run in this process. \<open>enc\<close> and \<open>decv\<close> convert values; \<open>request\<close> is the
  fresh id of the request; \<open>answer\<close> is what waiting for the reply event gives.
\<close>

definition signal_workflow :: "rat \<Rightarrow> (json \<Rightarrow> json) \<Rightarrow> string \<Rightarrow> string \<Rightarrow> json list \<Rightarrow> unit hop" where
  "signal_workflow now enc workflow_id name args =
     hop_tell [HopSend workflow_id (signal_envelope now name (map enc args) None) INBOX_TOPIC]"

definition unwrap_reply :: "(json \<Rightarrow> json) \<Rightarrow> json option \<Rightarrow> (json exc + json) result" where
  "unwrap_reply decv answer =
     (case answer of
        None \<Rightarrow> Inl TimeoutErr
      | Some r \<Rightarrow>
          bind_result (jindex r ''status'') (\<lambda>st.
            if st = JStr ''completed'' then bind_result (jindex r ''result'') (\<lambda>v. Inr (Inr (decv v)))
            else bind_result (bind_result (jindex r ''failure'') (deserialize_failure decv)) (\<lambda>err. Inr (Inl err))))"

definition execute_update ::
  "rat \<Rightarrow> (json \<Rightarrow> json) \<Rightarrow> (json \<Rightarrow> json) \<Rightarrow> string \<Rightarrow> string \<Rightarrow> json list \<Rightarrow> string \<Rightarrow> json option \<Rightarrow> (json exc + json) hop" where
  "execute_update now enc decv workflow_id name args update_id answer =
     hop_bind (hop_tell [HopSend workflow_id (update_envelope now name (map enc args) update_id None) INBOX_TOPIC])
       (\<lambda>_. hop_lift (unwrap_reply decv answer))"

definition query_workflow ::
  "rat \<Rightarrow> (json \<Rightarrow> json) \<Rightarrow> (json \<Rightarrow> json) \<Rightarrow> string \<Rightarrow> string \<Rightarrow> json list \<Rightarrow> string \<Rightarrow> json option \<Rightarrow> (json exc + json) hop" where
  "query_workflow now enc decv workflow_id name args request answer =
     hop_bind (hop_tell [HopSend workflow_id (query_envelope now name (map enc args) request None) INBOX_TOPIC])
       (\<lambda>_. hop_lift (unwrap_reply decv answer))"

subsection \<open>The loop returns\<close>

text \<open>The sleep before the retry of attempt \<open>k\<close>: the first one is not capped.\<close>

definition retry_sleep :: "rat \<Rightarrow> nat \<Rightarrow> rat" where
  "retry_sleep b k = (if k = 0 then b else min (b * 2 ^ k) TASK_RETRY_MAX_SECONDS)"

lemma retry_sleep_Suc: "retry_sleep b (Suc k) = min (retry_sleep b k * 2) TASK_RETRY_MAX_SECONDS"
proof (cases "k = 0 \<or> b * 2 ^ k \<le> 60")
  case False
  then have "60 < b * 2 ^ k" "60 < b * (2 * 2 ^ k)" by simp_all
  with False show ?thesis by (simp add: retry_sleep_def TASK_RETRY_MAX_SECONDS_def min_def)
qed (auto simp: retry_sleep_def TASK_RETRY_MAX_SECONDS_def min_def)

lemma task_loop_settles:
  assumes "\<not> de_fail_fast e" "\<forall>j<n. is_task_failure (at_exec (runs (k + j) start))"
    and "\<not> is_task_failure (at_exec (runs (k + n) start))"
  shows "task_loop e runs start k start (retry_sleep b k) tr =
     Some (loop_end_of e (at_exec (runs (k + n) start)), at_cancel (runs (k + n) start),
       tr\<lparr>lt_starts := lt_starts tr @ replicate (Suc n) start,
          lt_sleeps := lt_sleeps tr @ map (retry_sleep b) [k..<k + n]\<rparr>)"
  using assms
proof (induction n arbitrary: k tr)
  case 0
  then show ?case by (subst task_loop.simps) (simp add: Let_def)
next
  case (Suc n)
  then have "is_task_failure (at_exec (runs k start))" by fastforce
  moreover have "\<forall>j<n. is_task_failure (at_exec (runs (Suc k + j) start))" using Suc.prems(2) by fastforce
  moreover have "map (retry_sleep b) [k..<k + Suc n] = retry_sleep b k # map (retry_sleep b) [Suc k..<Suc k + n]"
    by (simp add: upt_conv_Cons del: upt_Suc)
  ultimately show ?case
    using Suc.IH [of "Suc k"] Suc.prems(1,3) by (subst task_loop.simps) (simp add: Let_def retry_sleep_Suc [symmetric] del: upt_Suc)
qed

lemma task_loop_stuck:
  assumes "task_loop e runs start k start b tr = Some y" "\<not> de_fail_fast e"
  shows "\<exists>j\<ge>k. \<not> is_task_failure (at_exec (runs j start))"
proof -
  let ?P = "\<lambda>e' (runs' :: nat \<Rightarrow> nat \<Rightarrow> attempt) st k c (b' :: rat) (tr' :: loop_trace) (y' :: loop_end \<times> bool \<times> loop_trace). e' = e \<longrightarrow> c = st \<longrightarrow> (\<exists>j\<ge>k. \<not> is_task_failure (at_exec (runs' j st)))"
  have "?P e runs start k start b tr y"
  proof (rule task_loop.raw_induct [where P = ?P, OF _ assms(1)])
    fix loop :: "disp_env \<Rightarrow> (nat \<Rightarrow> nat \<Rightarrow> attempt) \<Rightarrow> nat \<Rightarrow> nat \<Rightarrow> nat \<Rightarrow> rat \<Rightarrow> loop_trace \<Rightarrow> (loop_end \<times> bool \<times> loop_trace) option"
    fix e' runs' st k c b' tr' y'
    assume IH: "\<And>e' runs' st k c b' tr' y'. loop e' runs' st k c b' tr' = Some y' \<Longrightarrow> ?P e' runs' st k c b' tr' y'"
    assume step: "(let a = runs' k c; tr1 = tr'\<lparr>lt_starts := lt_starts tr' @ [c]\<rparr>
      in if is_task_failure (at_exec a) \<and> \<not> de_fail_fast e'
         then loop e' runs' st (Suc k) st (min (b' * 2) TASK_RETRY_MAX_SECONDS)
                (tr1\<lparr>lt_sleeps := lt_sleeps tr1 @ [b']\<rparr>)
         else Some (loop_end_of e' (at_exec a), at_cancel a, tr1)) = Some y'"
    show "?P e' runs' st k c b' tr' y'"
    proof (intro impI)
      assume eq: "e' = e" "c = st"
      show "\<exists>j\<ge>k. \<not> is_task_failure (at_exec (runs' j st))"
      proof (cases "is_task_failure (at_exec (runs' k st))")
        case True
        with step eq assms(2) have "\<exists>j\<ge>Suc k. \<not> is_task_failure (at_exec (runs' j st))"
          using IH [of e runs' st "Suc k" st] by (auto simp: Let_def)
        then show ?thesis by (metis Suc_leD)
      qed auto
    qed
  qed
  then show ?thesis using assms(1) by blast
qed

text \<open>
  Claim C24. A failing workflow task keeps the workflow running until the code is fixed. Without
  fail-fast, if attempt \<open>n\<close> is the first one that is not a task failure, the loop returns what that
  attempt ended with, after \<open>n\<close> sleeps of the initial backoff and then its doublings capped at sixty
  seconds, every attempt having started at the checkpoint cursor of the first, so that it replays the
  recorded steps; and the loop returns at all only if some attempt is not a task failure.
\<close>

theorem task_loop_returns:
  assumes "\<not> de_fail_fast e"
  shows "((\<forall>k<n. is_task_failure (at_exec (runs k start))) \<and> \<not> is_task_failure (at_exec (runs n start)) \<longrightarrow>
      run_workflow_task_loop e runs start =
        Some (loop_end_of e (at_exec (runs n start)), at_cancel (runs n start),
          \<lparr>lt_starts = replicate (Suc n) start, lt_sleeps = map (retry_sleep (de_retry_initial e)) [0..<n]\<rparr>)) \<and>
    ((\<forall>k. is_task_failure (at_exec (runs k start))) \<longrightarrow> run_workflow_task_loop e runs start = None)"
proof (intro conjI impI)
  assume "(\<forall>k<n. is_task_failure (at_exec (runs k start))) \<and> \<not> is_task_failure (at_exec (runs n start))"
  then show "run_workflow_task_loop e runs start =
        Some (loop_end_of e (at_exec (runs n start)), at_cancel (runs n start),
          \<lparr>lt_starts = replicate (Suc n) start, lt_sleeps = map (retry_sleep (de_retry_initial e)) [0..<n]\<rparr>)"
    using task_loop_settles [OF assms, of n runs 0 start "de_retry_initial e"]
    by (simp add: run_workflow_task_loop_def retry_sleep_def [of _ 0])
next
  assume stuck: "\<forall>k. is_task_failure (at_exec (runs k start))"
  show "run_workflow_task_loop e runs start = None"
  proof (cases "run_workflow_task_loop e runs start")
    case (Some y)
    then show ?thesis using task_loop_stuck [OF _ assms] stuck unfolding run_workflow_task_loop_def by blast
  qed
qed

definition local_disp :: disp_env where
  "local_disp = \<lparr>de_workflow_id = ''w'', de_fail_fast = False, de_retry_initial = 25, de_registered = (\<lambda>_. True),
     de_status = (\<lambda>_. Some \<lparr>sf_status = ''PENDING'', sf_queue = Some ''q''\<rparr>), de_queue = (\<lambda>_. True),
     de_cron = \<lparr>cron_zone = (\<lambda>_. True), cron_valid = (\<lambda>_. True), cron_next = (\<lambda>_ _ now. now + 30)\<rparr>,
     de_now = 0, de_enc = id, de_divergence = ''replay''\<rparr>"

definition flaky :: "nat \<Rightarrow> nat \<Rightarrow> attempt" where
  "flaky k start =
     \<lparr>at_exec = (if k < 3 then ExecTaskFailure (new_exc (OtherException ''TypeError'' ''boom'')) else ExecResult (JInt 1)),
      at_cancel = False, at_cursor = start + 7\<rparr>"

theorem task_loop_returns_witness:
  "run_workflow_task_loop local_disp flaky 4 =
     Some (LoopValue (JInt 1), False, \<lparr>lt_starts = [4, 4, 4, 4], lt_sleeps = [25, 50, 60]\<rparr>)"
proof -
  have s: "map (retry_sleep 25) [0..<3] = [25, 50, 60]" "replicate (Suc 3) (4::nat) = [4, 4, 4, 4]"
    by (simp_all add: retry_sleep_def TASK_RETRY_MAX_SECONDS_def upt_rec numeral_eq_Suc)
  show ?thesis
    using task_loop_returns [of local_disp 3 flaky 4]
    by (simp only: s) (simp add: local_disp_def flaky_def is_task_failure_def s)
qed

subsection \<open>The shape of a hop\<close>

text \<open>The calls of a close that starts the next run \<open>s\<close>, given the messages drained.\<close>

definition hop_calls :: "json list \<Rightarrow> run_start \<Rightarrow> hop_op list" where
  "hop_calls messages s =
     replicate (Suc (length messages)) (HopRecv INBOX_TOPIC) @ [HopStart s] @
     map (\<lambda>m. HopSend (st_run s) m INBOX_TOPIC) (filter (\<lambda>m. \<not> run_scoped m) messages)"

definition receivable :: "json list \<Rightarrow> json list" where
  "receivable unconsumed = takeWhile (\<lambda>m. m \<noteq> JNull) unconsumed"

fun starts :: "hop_op list \<Rightarrow> run_start list" where
  "starts [] = []"
| "starts (HopStart s # ops) = s # starts ops"
| "starts (_ # ops) = starts ops"

lemma starts_append: "starts (a @ b) = starts a @ starts b"
  by (induction a rule: starts.induct) simp_all

lemma starts_hop_calls: "starts (hop_calls ms s) = [s]" "starts (replicate n (HopRecv p)) = []"
proof -
  show recv: "starts (replicate n (HopRecv p)) = []" for n p by (induction n) simp_all
  have "starts (map (\<lambda>m. HopSend r m p) xs) = []" for r p and xs :: "json list" by (induction xs) simp_all
  then show "starts (hop_calls ms s) = [s]" by (simp add: hop_calls_def starts_append recv del: replicate.simps)
qed

lemma hop_bind_simps [simp]:
  "hop_bind (ops, Inl err) f = (ops, Inl err)"
  "hop_bind (ops, Inr x) f = (ops @ fst (f x), snd (f x))"
  by (simp_all add: hop_bind_def)

text \<open>The start of a next run with metadata \<open>m\<close>.\<close>

definition next_start :: "disp_env \<Rightarrow> string \<Rightarrow> json list \<Rightarrow> run_meta \<Rightarrow> rat \<Rightarrow> run_start" where
  "next_start e t args m d =
     \<lparr>st_type = t, st_run = next_run_id (de_workflow_id e), st_payload = wrap_input args (Some m),
      st_queue = own_queue e, st_timeout = m_run_timeout m, st_attributes = m_attributes m,
      st_delay = (if d > 0 \<and> own_queue e \<noteq> None then Some d else None)\<rparr>"

lemma st_run_next: "st_run (next_start e t args m d) = next_run_id (de_workflow_id e)"
  by (simp add: next_start_def)

lemma enqueue_next_run_result:
  "enqueue_next_run e t args m d =
     (if de_registered e t then ([HopStart (next_start e t args m d)], Inr (next_run_id (de_workflow_id e)))
      else ([], Inl KeyError))"
  by (simp add: enqueue_next_run_def Let_def enqueue_run_def hop_tell_def hop_return_def hop_lift_def next_start_def)

text \<open>What the chain does after a run that failed with \<open>envelope\<close>: the next run's metadata and delay.\<close>

definition next_after_failure :: "disp_env \<Rightarrow> run_meta \<Rightarrow> jdict \<Rightarrow> (run_meta \<times> rat) option result" where
  "next_after_failure e meta envelope =
     bind_result (case m_retry_policy meta of
         None \<Rightarrow> Inr None
       | Some p \<Rightarrow> workflow_retry_delay (JObj p) (m_attempt meta) (JObj envelope)) (\<lambda>delay.
     case (delay, m_cron meta) of
       (Some d, _) \<Rightarrow>
         Inr (Some ((carried_forward meta)\<lparr>m_attempt := m_attempt meta + 1, m_last_failure := Some envelope\<rparr>, d))
     | (None, Some cron) \<Rightarrow>
         bind_result (next_fire_delay (de_cron e) cron (de_now e)) (\<lambda>d.
           Inr (Some ((carried_forward meta)\<lparr>m_last_failure := Some envelope\<rparr>, d)))
     | (None, None) \<Rightarrow> Inr None)"

lemma continue_chain_eq:
  "continue_chain_after_failure e t (hop_args meta args) meta envelope cancelled unconsumed =
     (let ms = receivable unconsumed; drain = replicate (Suc (length ms)) (HopRecv INBOX_TOPIC) in
      if hop_args meta args = None then ([], Inr None)
      else if cancelled \<or> contains_cancel ms then (drain, Inr None)
      else (case next_after_failure e meta envelope of
          Inl err \<Rightarrow> (drain, Inl err)
        | Inr None \<Rightarrow> (drain, Inr None)
        | Inr (Some (m, d)) \<Rightarrow>
            if de_registered e t
            then (hop_calls ms (next_start e t args m d), Inr (Some (next_run_id (de_workflow_id e))))
            else (drain, Inl KeyError)))"
proof (cases "hop_args meta args")
  case None
  then show ?thesis by (simp add: continue_chain_after_failure_def hop_return_def)
next
  case (Some as)
  then have as: "as = args" by (auto simp: hop_args_def split: if_splits)
  show ?thesis
    unfolding Some as continue_chain_after_failure_def drain_unconsumed_def receivable_def [symmetric] Let_def
    by (cases "m_retry_policy meta"; cases "m_cron meta";
        cases "workflow_retry_delay (JObj (the (m_retry_policy meta))) (m_attempt meta) (JObj envelope)";
        cases "projr (workflow_retry_delay (JObj (the (m_retry_policy meta))) (m_attempt meta) (JObj envelope))";
        cases "next_fire_delay (de_cron e) (the (m_cron meta)) (de_now e)")
      (simp_all add: hop_return_def retry_hop_def cron_hop_def hop_lift_def enqueue_next_run_result
        next_after_failure_def forward_carryover_def hop_tell_def hop_calls_def next_start_def bind_result_def)
qed

lemma continue_success_eq:
  "continue_after_success e t args meta cron result cancelled unconsumed =
     (let ms = receivable unconsumed; drain = replicate (Suc (length ms)) (HopRecv INBOX_TOPIC) in
      if cancelled \<or> contains_cancel ms then (drain, Inr ())
      else (case next_fire_delay (de_cron e) cron (de_now e) of
          Inl err \<Rightarrow> (drain, Inl err)
        | Inr d \<Rightarrow>
            if de_registered e t
            then (hop_calls ms (next_start e t args ((carried_forward meta)\<lparr>m_last_completion := Some [(''value'', de_enc e result)],
                    m_last_failure := None\<rparr>) d), Inr ())
            else (drain, Inl KeyError)))"
  unfolding continue_after_success_def drain_unconsumed_def receivable_def [symmetric] Let_def
  by (cases "next_fire_delay (de_cron e) cron (de_now e)")
     (simp_all add: hop_return_def cron_hop_def hop_lift_def enqueue_next_run_result forward_carryover_def
        hop_tell_def hop_calls_def next_start_def)

text \<open>A next run: the successor index of the same chain, the same type, arguments, cron and retry policy.\<close>

definition successor_run :: "disp_env \<Rightarrow> string \<Rightarrow> json list \<Rightarrow> run_meta \<Rightarrow> run_start \<Rightarrow> bool" where
  "successor_run e t args meta s \<longleftrightarrow>
     st_run s = next_run_id (de_workflow_id e) \<and> st_type s = t \<and> st_queue s = own_queue e \<and>
     st_timeout s = m_run_timeout meta \<and>
     (\<exists>m. unwrap_input (st_payload s) = Inr (args, m) \<and> m_cron m = m_cron meta \<and>
          m_retry_policy m = m_retry_policy meta \<and> (m_attempt m = 1 \<or> m_attempt m = m_attempt meta + 1))"

lemma next_start_successor:
  assumes "m_cron m = m_cron meta" "m_retry_policy m = m_retry_policy meta" "m_run_timeout m = m_run_timeout meta"
    "m_attempt m = 1 \<or> m_attempt m = m_attempt meta + 1" "m_cron meta \<noteq> None \<or> m_retry_policy meta \<noteq> None"
  shows "successor_run e t args meta (next_start e t args m d)"
proof -
  have "\<not> is_empty_meta m" using assms(1,2,5) by (auto simp: is_empty_meta_def)
  then have "unwrap_input (wrap_input args (Some m)) = Inr (args, m)" using unwrap_wrapped [of args m] by simp
  then show ?thesis using assms by (simp add: successor_run_def next_start_def)
qed

lemma next_after_failure_cases:
  assumes "next_after_failure e meta envelope = Inr (Some (m, d))"
  shows "m_retry_policy meta \<noteq> None \<and>
      m = (carried_forward meta)\<lparr>m_attempt := m_attempt meta + 1, m_last_failure := Some envelope\<rparr> \<or>
    m_cron meta \<noteq> None \<and> m = (carried_forward meta)\<lparr>m_last_failure := Some envelope\<rparr>"
proof -
  obtain delay where delay: "(case m_retry_policy meta of None \<Rightarrow> Inr None
       | Some p \<Rightarrow> workflow_retry_delay (JObj p) (m_attempt meta) (JObj envelope)) = Inr delay"
    and rest: "(case (delay, m_cron meta) of
       (Some d, _) \<Rightarrow>
         Inr (Some ((carried_forward meta)\<lparr>m_attempt := m_attempt meta + 1, m_last_failure := Some envelope\<rparr>, d))
     | (None, Some cron) \<Rightarrow>
         bind_result (next_fire_delay (de_cron e) cron (de_now e)) (\<lambda>d.
           Inr (Some ((carried_forward meta)\<lparr>m_last_failure := Some envelope\<rparr>, d)))
     | (None, None) \<Rightarrow> Inr None) = Inr (Some (m, d))"
    using assms unfolding next_after_failure_def by (auto simp only: bind_result_Inr_iff)
  show ?thesis
  proof (cases delay)
    case None
    then show ?thesis using rest by (cases "m_cron meta") (simp_all add: bind_result_Inr_iff)
  next
    case (Some d')
    then show ?thesis using rest delay by (cases "m_retry_policy meta") simp_all
  qed
qed

lemma next_after_failure_successor:
  "next_after_failure e meta envelope = Inr (Some (m, d)) \<Longrightarrow> successor_run e t args meta (next_start e t args m d)"
  by (drule next_after_failure_cases, rule next_start_successor) (auto simp: carried_forward_def)

lemma fst_hop_bind: "(\<And>x. fst (f x) = []) \<Longrightarrow> fst (hop_bind m f) = fst m"
  by (cases m; cases "snd m") (auto simp: hop_bind_def)

text \<open>
  Claim C25. However a run ends, closing it starts at most one next run, and the chain loses nothing.
  Either the close only drains the inbox, or it drains it to the first empty read, then starts the
  successor run of this chain with the same type, arguments, cron and retry policy, and then forwards
  to it, in order, every drained message that is not a completion or heartbeat of this run's own
  activities. The second happens only if no cancel was observed and none is among the drained messages.
\<close>

theorem close_starts_at_most_one_run:
  "let (ops, _) = dispatch_end e t args meta unconsumed end cancelled; ms = receivable unconsumed in
     set ops \<subseteq> {HopRecv INBOX_TOPIC} \<or>
     (\<exists>s. ops = hop_calls ms s \<and> successor_run e t args meta s \<and> \<not> cancelled \<and> \<not> contains_cancel ms)"
proof -
  let ?ok = "\<lambda>ops. set ops \<subseteq> {HopRecv INBOX_TOPIC} \<or>
     (\<exists>s. ops = hop_calls (receivable unconsumed) s \<and> successor_run e t args meta s \<and> \<not> cancelled \<and>
          \<not> contains_cancel (receivable unconsumed))"
  have failed: "?ok (fst (continue_chain_after_failure e t (hop_args meta args) meta env cancelled unconsumed))" for env
    unfolding continue_chain_eq Let_def
    by (auto split: sum.split option.split dest: next_after_failure_successor)
  have success: "?ok (fst (continue_after_success e t args meta cron v cancelled unconsumed))"
    if "m_cron meta = Some cron" for cron v
    unfolding continue_success_eq Let_def
    using that by (auto split: sum.split option.split intro!: next_start_successor simp: carried_forward_def)
  have "?ok (fst (dispatch_end e t args meta unconsumed end cancelled))"
  proof (cases "end")
    case (LoopValue v)
    then show ?thesis
      using success by (cases "m_cron meta") (simp_all add: dispatch_end_def hop_return_def fst_hop_bind)
  next
    case (LoopExc err)
    then show ?thesis
      using failed by (simp add: dispatch_end_def hop_return_def Let_def fst_hop_bind)
  qed (simp_all add: dispatch_end_def hop_return_def hop_lift_def)
  then show ?thesis by (cases "dispatch_end e t args meta unconsumed end cancelled") simp
qed

subsection \<open>What a close records\<close>

text \<open>The status row DBOS keeps of a finished run.\<close>

fun status_row :: "stored \<Rightarrow> string \<times> ledger_error option" where
  "status_row (Value v) = (''SUCCESS'', None)"
| "status_row (stored.Raised err) = (''ERROR'', Some err)"

definition recorded_status :: "stored \<Rightarrow> execution_status result" where
  "recorded_status st = to_execution_status (Some (fst (status_row st))) (snd (status_row st))"

fun expected_status :: "loop_end \<Rightarrow> execution_status" where
  "expected_status (LoopValue v) = COMPLETED"
| "expected_status (LoopContinued run) = CONTINUED_AS_NEW"
| "expected_status (LoopCancelled err) = CANCELED"
| "expected_status _ = FAILED"

text \<open>The run a reader of the recorded outcome follows to.\<close>

definition followed_run :: "stored \<Rightarrow> json option" where
  "followed_run st =
     (case st of
        stored.Raised (SerializedContinueAsNew env) \<Rightarrow> obj_get env ''new_run_id''
      | stored.Raised (SerializedWorkflowFailure env) \<Rightarrow> obj_get env ''new_run_id''
      | _ \<Rightarrow> None)"

lemma failure_envelope_no_run: "map_of (failure_envelope e err) ''new_run_id'' = None"
proof (cases err)
  case (Exc k c ctx suppress trace fl)
  have "map_of (kind_env (map (de_enc e)) k) ''new_run_id'' = None" by (cases k) simp_all
  then show ?thesis
    unfolding failure_envelope_def Exc by (cases trace) (simp_all add: trace_env_def map_add_def)
qed

lemma map_of_dict_set: "map_of (dict_set k v d) k' = (if k' = k then Some v else map_of d k')"
  by (induction d) auto

lemma follow_failure:
  "followed_run (stored.Raised (SerializedWorkflowFailure (JObj (with_new_run (failure_envelope e err) run)))) =
   map_option JStr run"
  by (cases run) (simp_all add: followed_run_def with_new_run_def failure_envelope_no_run map_of_dict_set)

lemma status_of_raised:
  "to_execution_status (Some ''SUCCESS'') err = Inr COMPLETED"
  "to_execution_status (Some ''ERROR'') (Some (SerializedContinueAsNew j)) = Inr CONTINUED_AS_NEW"
  "to_execution_status (Some ''ERROR'') (Some (SerializedWorkflowCancellation j)) = Inr CANCELED"
  "to_execution_status (Some ''ERROR'') (Some (SerializedWorkflowFailure j)) = Inr FAILED"
  "to_execution_status (Some ''ERROR'') (Some (OtherError a b)) = Inr FAILED"
  by (simp_all add: to_execution_status_def is_open_def OPEN_DBOS_STATUSES_def)

lemma raw_error_other: "\<exists>a b. raw_error err = OtherError a b"
  by (auto simp: raw_error_def split: exc_kind.splits)

lemma record_divergence_failed: "recorded_status (record_divergence e (OtherError a b) msg) = Inr FAILED"
  by (simp add: recorded_status_def record_divergence_def status_of_raised)

lemma snd_hop_bind: "snd (hop_bind m f) = bind_result (snd m) (\<lambda>x. snd (f x))"
  by (cases m; cases "snd m") (simp_all add: hop_bind_def)

lemma continue_chain_run:
  assumes "continue_chain_after_failure e t (hop_args meta args) meta env cancelled unconsumed = (ops, Inr run)"
  shows "map_option st_run (if starts ops = [] then None else Some (hd (starts ops))) = run"
proof -
  show ?thesis
    using assms unfolding continue_chain_eq Let_def
    by (auto simp: starts_hop_calls next_start_def simp del: replicate.simps split: if_splits sum.splits option.splits)
qed

text \<open>
  A run's recorded outcome tells how it ended. When a close succeeds, the status read from
  the recorded row is COMPLETED for a returned value, CONTINUED_AS_NEW for a continue-as-new, CANCELED
  for an observed cancellation and FAILED for any other exception; and a reader following the outcome
  of a failed run is sent to exactly the run that the close started, if it started one.
\<close>

theorem close_records_outcome:
  assumes "dispatch_end e t args meta unconsumed end cancelled = (ops, Inr st)"
  shows "recorded_status st = Inr (expected_status end) \<and>
    (case end of
       LoopExc err \<Rightarrow> is_FailureError (exc_kind err) \<and> \<not> is_divergence err \<longrightarrow>
         followed_run st = (if starts ops = [] then None else Some (JStr (st_run (hd (starts ops)))))
     | LoopContinued run \<Rightarrow> followed_run st = Some (JStr run) \<and> ops = []
     | _ \<Rightarrow> True)"
proof (cases "end")
  case (LoopExc err)
  consider (div) "is_divergence err" | (raw) "\<not> is_divergence err" "\<not> is_FailureError (exc_kind err)"
    | (failed) "\<not> is_divergence err" "is_FailureError (exc_kind err)" by blast
  then show ?thesis
  proof cases
    case failed
    let ?env = "failure_envelope e err"
    obtain run where run: "continue_chain_after_failure e t (hop_args meta args) meta ?env cancelled unconsumed = (ops, Inr run)"
      and st: "st = stored.Raised (SerializedWorkflowFailure (JObj (with_new_run ?env run)))"
      using assms failed LoopExc
      by (cases "continue_chain_after_failure e t (hop_args meta args) meta ?env cancelled unconsumed";
          cases "snd (continue_chain_after_failure e t (hop_args meta args) meta ?env cancelled unconsumed)")
         (auto simp: dispatch_end_def hop_return_def)
    from continue_chain_run [OF run] show ?thesis
      using LoopExc unfolding st by (auto simp: recorded_status_def status_of_raised follow_failure)
  qed (use assms LoopExc raw_error_other [of err] in \<open>auto simp: dispatch_end_def hop_return_def
        record_divergence_def recorded_status_def status_of_raised\<close>)
next
  case (LoopValue v)
  then have "st = Value (de_enc e v)"
    using arg_cong [OF assms, of snd]
    by (simp add: dispatch_end_def hop_return_def snd_hop_bind) (auto simp: bind_result_Inr_iff)
  then show ?thesis using LoopValue by (simp add: recorded_status_def status_of_raised)
qed (use assms in \<open>auto simp: dispatch_end_def hop_return_def hop_lift_def record_divergence_def
       recorded_status_def status_of_raised followed_run_def\<close>)

text \<open>A run that fails with attempts left, under a cron schedule.\<close>

definition retried_meta :: run_meta where
  "retried_meta = default_meta\<lparr>m_cron := Some ''hourly'',
     m_retry_policy := Some [(''initial_interval'', JInt 2), (''backoff_coefficient'', JInt 3), (''maximum_attempts'', JInt 2)]\<rparr>"

theorem close_records_outcome_witness:
  "\<exists>ops st. dispatch_end local_disp ''T'' [] retried_meta [] (LoopExc (new_exc (ServerError ''down'' False))) False = (ops, Inr st) \<and>
     recorded_status st = Inr FAILED \<and> followed_run st = Some (JStr ''w--r1'')"
proof -
  let ?err = "new_exc (ServerError ''down'' False) :: json exc"
  let ?d = "dispatch_end local_disp ''T'' [] retried_meta [] (LoopExc ?err) False"
  have run: "next_run_id ''w'' = ''w--r1''" by code_simp
  have facts: "de_registered local_disp ''T''" "de_workflow_id local_disp = ''w''" "hop_args retried_meta [] = Some []"
    by (simp_all add: local_disp_def hop_args_def retried_meta_def)
  have "next_after_failure local_disp retried_meta (failure_envelope local_disp ?err) = Inr (Some
      ((carried_forward retried_meta)\<lparr>m_attempt := 2, m_last_failure := Some (failure_envelope local_disp ?err)\<rparr>, 2))"
    by (simp add: next_after_failure_def retried_meta_def default_meta_def workflow_retry_delay_def failure_envelope_def
        new_exc_def jindex_def jget_def local_disp_def trace_env_def wire_attempts_def float_pow_def exact_pow_def float_limit_def)
  then obtain m where nxt: "next_after_failure local_disp retried_meta (failure_envelope local_disp ?err) = Inr (Some (m, 2))"
    by blast
  define s where "s = next_start local_disp ''T'' [] m 2"
  have "continue_chain_after_failure local_disp ''T'' (hop_args retried_meta []) retried_meta
      (failure_envelope local_disp ?err) False [] = (hop_calls [] s, Inr (Some ''w--r1''))"
    and s: "st_run s = ''w--r1''"
    unfolding continue_chain_eq using facts nxt
    by (simp_all add: receivable_def contains_cancel_def s_def run Let_def st_run_next)
  then have "?d = (hop_calls [] s, Inr (stored.Raised (SerializedWorkflowFailure (JObj
      (with_new_run (failure_envelope local_disp ?err) (Some ''w--r1''))))))"
    by (simp add: dispatch_end_def is_divergence_def hop_return_def) (simp add: new_exc_def)
  then show ?thesis
    using close_records_outcome [of local_disp "''T''" "[]" retried_meta "[]" "LoopExc ?err" False] s
    by (auto simp: is_divergence_def new_exc_def starts_hop_calls)
qed

subsection \<open>Retries end\<close>

text \<open>\<open>n\<close> hops of a chain whose runs all fail, from one run's metadata to another's.\<close>

inductive hops :: "run_meta \<Rightarrow> nat \<Rightarrow> run_meta \<Rightarrow> bool" where
  none: "hops m 0 m"
| hop: "hops m n m' \<Longrightarrow> next_after_failure e m' envelope = Inr (Some (m'', d)) \<Longrightarrow> hops m (Suc n) m''"

lemma retry_delay_attempts:
  assumes "workflow_retry_delay policy att failure = Inr (Some d)" "jget policy ''maximum_attempts'' = JInt ma" "ma > 0"
  shows "att < ma"
  using assms
  by (auto simp: workflow_retry_delay_def wire_attempts_def bind_result_Inr_iff not_le [symmetric] split: if_splits)

text \<open>
  Workflow retries terminate. In a chain without a cron schedule whose retry policy allows
  \<open>M > 0\<close> attempts, the first run (attempt 1) is followed by fewer than \<open>M\<close> retries, whatever the runs
  fail with, and the run after \<open>n\<close> retries has attempt number \<open>n + 1\<close>.
\<close>

theorem retries_bounded:
  assumes "hops m n m'" "m_attempt m = 1" "m_cron m = None"
    and "m_retry_policy m = Some policy" "jget (JObj policy) ''maximum_attempts'' = JInt ma" "ma > 0"
  shows "int n < ma \<and> m_attempt m' = int n + 1"
proof -
  have "int n < ma \<and> m_attempt m' = int n + 1 \<and> m_cron m' = None \<and> m_retry_policy m' = Some policy"
    using assms
  proof (induction rule: hops.induct)
    case (hop m n m' e envelope m'' d)
    then have m': "m_attempt m' = int n + 1" "m_cron m' = None" "m_retry_policy m' = Some policy" by auto
    from next_after_failure_cases [OF hop.hyps(2)] m'
    have m'': "m'' = (carried_forward m')\<lparr>m_attempt := m_attempt m' + 1, m_last_failure := Some envelope\<rparr>" by simp
    have "\<exists>d. workflow_retry_delay (JObj policy) (m_attempt m') (JObj envelope) = Inr (Some d)"
      using hop.hyps(2) m' by (auto simp: next_after_failure_def bind_result_Inr_iff split: option.splits)
    then have "m_attempt m' < ma" using retry_delay_attempts hop.prems(4,5) by blast
    then show ?case using m' by (simp add: m'' carried_forward_def)
  qed auto
  then show ?thesis by simp
qed

definition two_attempts :: run_meta where
  "two_attempts = default_meta\<lparr>
     m_retry_policy := Some [(''initial_interval'', JInt 2), (''backoff_coefficient'', JInt 3), (''maximum_attempts'', JInt 2)]\<rparr>"

lemma two_attempts_hop:
  "next_after_failure local_disp two_attempts [(''cls'', JStr ''ServerError'')] = Inr (Some
     ((carried_forward two_attempts)\<lparr>m_attempt := 2, m_last_failure := Some [(''cls'', JStr ''ServerError'')]\<rparr>, 2))"
  by (simp add: next_after_failure_def two_attempts_def default_meta_def workflow_retry_delay_def jindex_def
      jget_def wire_attempts_def float_pow_def exact_pow_def float_limit_def)

theorem retries_bounded_witness:
  "\<exists>m'. hops two_attempts 1 m' \<and> int 1 < 2 \<and> m_attempt m' = int 1 + 1"
proof -
  have "hops two_attempts 1 ((carried_forward two_attempts)\<lparr>m_attempt := 2, m_last_failure := Some [(''cls'', JStr ''ServerError'')]\<rparr>)"
    using hops.hop [OF hops.none two_attempts_hop] by simp
  from this retries_bounded [OF this, of _ 2] show ?thesis
    by (auto simp: two_attempts_def default_meta_def jget_def)
qed

end
