(* ===== verification/Schedule_Fire.thy ===== *)
theory Schedule_Fire
  imports Dispatcher
begin

text \<open>
  One firing of a schedule (\<open>_schedule_fire\<close>, \<open>_apply_overlap_policy\<close>, \<open>_running_prior_occurrence\<close>,
  \<open>_start_scheduled_action\<close> of \<open>dbosify/_internal/dispatcher.py\<close>, \<open>_schedule_occurrences\<close> of
  \<open>dbosify/_internal/interpreter.py\<close>). Instants are seconds since the epoch. Parameters: the ISO-8601
  reader, the seeded random draw of the jitter, the listing of the schedule's past firings (their
  inputs, newest first) and the status table.
\<close>

record fire_env =
  fe_iso :: "string \<Rightarrow> rat option"
  fe_random :: "int \<Rightarrow> rat"
  fe_firings :: "string \<Rightarrow> nat \<Rightarrow> json list"
  fe_statuses :: "string lookup"
  fe_registered :: "string \<Rightarrow> bool"
  fe_queue :: "string \<Rightarrow> bool"
  fe_now :: rat

definition OVERLAP_SKIP :: int where "OVERLAP_SKIP = 1"
definition OVERLAP_CANCEL_OTHER :: int where "OVERLAP_CANCEL_OTHER = 4"
definition OVERLAP_TERMINATE_OTHER :: int where "OVERLAP_TERMINATE_OTHER = 5"
definition OVERLAP_ALLOW_ALL :: int where "OVERLAP_ALLOW_ALL = 6"
definition OVERLAP_LOOKBACK_LIMIT :: nat where "OVERLAP_LOOKBACK_LIMIT = 60"

text \<open>\<open>int(x)\<close> of a float truncates.\<close>

definition trunc :: "rat \<Rightarrow> int" where
  "trunc q = (if q < 0 then - \<lfloor>- q\<rfloor> else \<lfloor>q\<rfloor>)"

subsection \<open>Earlier firings\<close>

text \<open>The fire time of a past firing, read from its input; \<open>None\<close> for an input of another form.\<close>

definition firing_time :: "fire_env \<Rightarrow> json \<Rightarrow> int option" where
  "firing_time e input =
     (case jget input ''args'' of
        JList (JStr s # _) \<Rightarrow> map_option trunc (fe_iso e s)
      | _ \<Rightarrow> None)"

definition schedule_occurrences :: "fire_env \<Rightarrow> string \<Rightarrow> int \<Rightarrow> nat \<Rightarrow> int list" where
  "schedule_occurrences e schedule_name before_epoch limit =
     rev (sort (filter (\<lambda>ts. ts < before_epoch)
       (List.map_filter (firing_time e) (fe_firings e schedule_name limit))))"

definition occurrence_id :: "string \<Rightarrow> int \<Rightarrow> string" where
  "occurrence_id base ts = base @ ''-'' @ dec_int ts"

text \<open>\<open>max(d, key = ...)\<close>: the first key of a maximal value.\<close>

definition latest_by :: "('k \<Rightarrow> int) \<Rightarrow> 'k list \<Rightarrow> 'k option" where
  "latest_by f ks =
     (case ks of [] \<Rightarrow> None | k # r \<Rightarrow> Some (fold (\<lambda>x best. if f best < f x then x else best) r k))"

definition running_prior_occurrence :: "fire_env \<Rightarrow> json \<Rightarrow> json \<Rightarrow> rat \<Rightarrow> string option result" where
  "running_prior_occurrence e action context fired_at =
     bind_result (str_field action ''id'') (\<lambda>base.
     bind_result (str_field context ''schedule_id'') (\<lambda>schedule_name.
       let occurrences = schedule_occurrences e schedule_name (trunc fired_at) OVERLAP_LOOKBACK_LIMIT;
           by_id = fold (\<lambda>ts. dict_set (occurrence_id base ts) ts) occurrences [];
           statuses = fe_statuses e (map fst by_id)
       in if occurrences = [] \<or> statuses = [] then Inr None
          else bind_result
            (map_result (\<lambda>(wid, _). case dict_get by_id wid of Some ts \<Rightarrow> Inr (wid, ts) | None \<Rightarrow> Inl KeyError) statuses)
            (\<lambda>dated.
               case latest_by snd dated of
                 Some (wid, _) \<Rightarrow> Inr (if is_open (dict_get statuses wid) then Some wid else None)
               | None \<Rightarrow> Inr None)))"

subsection \<open>Overlap\<close>

text \<open>Whether this fire starts the action.\<close>

definition apply_overlap_policy :: "fire_env \<Rightarrow> json \<Rightarrow> json \<Rightarrow> rat \<Rightarrow> bool hop" where
  "apply_overlap_policy e action context fired_at =
     hop_bind (hop_lift (to_int (jget_default (jget_default context ''policy'' (JObj [])) ''overlap'' (JInt OVERLAP_SKIP))))
       (\<lambda>overlap.
        if overlap = OVERLAP_ALLOW_ALL \<or> \<not> truthy (jget context ''cron'') then hop_return True
        else hop_bind (hop_lift (running_prior_occurrence e action context fired_at)) (\<lambda>prior.
          case prior of
            None \<Rightarrow> hop_return True
          | Some p \<Rightarrow>
              if overlap = OVERLAP_SKIP then hop_return False
              else if overlap = OVERLAP_TERMINATE_OTHER then
                hop_bind (hop_tell [HopCancel p True]) (\<lambda>_. hop_return True)
              else if overlap = OVERLAP_CANCEL_OTHER then
                hop_bind (hop_tell [HopSend p (cancel_envelope (fe_now e) ''schedule overlap'') INBOX_TOPIC])
                  (\<lambda>_. hop_return True)
              else hop_return True))"

subsection \<open>The action\<close>

definition action_meta :: "json \<Rightarrow> run_meta result" where
  "action_meta action =
     bind_result (optional as_obj (jget action ''retry_policy'')) (\<lambda>rp.
     bind_result (optional to_float (jget action ''run_timeout'')) (\<lambda>rt.
     bind_result (if truthy (jget action ''attributes'') then optional as_obj (jget action ''attributes'') else Inr None)
       (\<lambda>attrs. Inr (default_meta\<lparr>m_retry_policy := rp, m_run_timeout := rt, m_attributes := attrs\<rparr>))))"

definition start_scheduled_action :: "fire_env \<Rightarrow> json \<Rightarrow> rat \<Rightarrow> unit hop" where
  "start_scheduled_action e action fired_at =
     hop_bind (hop_lift (str_field action ''workflow'')) (\<lambda>type_name.
     if \<not> fe_registered e type_name then hop_lift (Inl KeyError)
     else
       hop_bind (hop_lift (action_meta action)) (\<lambda>meta.
       hop_bind (hop_lift (str_field action ''id'')) (\<lambda>base.
       hop_bind (hop_lift (to_list (jget_default action ''args'' (JList [])))) (\<lambda>args.
       hop_bind (hop_lift (str_field action ''task_queue'')) (\<lambda>queue.
       if \<not> fe_queue e queue then hop_lift (Inl AssertionError)
       else enqueue_run type_name (wrap_input args (Some meta)) (occurrence_id base (trunc fired_at)) (Some queue)
              (m_run_timeout meta) (m_attributes meta) 0)))))"

subsection \<open>A firing\<close>

definition bound_of :: "fire_env \<Rightarrow> json \<Rightarrow> rat option result" where
  "bound_of e j = optional (\<lambda>x. bind_result (as_str x) (\<lambda>s. case fe_iso e s of Some t \<Rightarrow> Inr t | None \<Rightarrow> Inl ValueError)) j"

definition schedule_fire :: "fire_env \<Rightarrow> rat \<Rightarrow> json \<Rightarrow> unit hop" where
  "schedule_fire e fired_at context =
     (let spec = jget_default context ''spec'' (JObj [])
      in hop_bind (hop_lift (bound_of e (jget spec ''start_at''))) (\<lambda>start_at.
         if (case start_at of Some t \<Rightarrow> fired_at < t | None \<Rightarrow> False) then hop_return ()
         else hop_bind (hop_lift (bound_of e (jget spec ''end_at''))) (\<lambda>end_at.
         if (case end_at of Some t \<Rightarrow> t < fired_at | None \<Rightarrow> False) then hop_return ()
         else
           hop_bind (if truthy (jget spec ''jitter'')
                     then hop_bind (hop_lift (to_float (jget spec ''jitter''))) (\<lambda>j.
                            hop_tell [HopSleep (fe_random e (trunc fired_at) * j)])
                     else hop_return ()) (\<lambda>_.
           hop_bind (hop_lift (jindex context ''action'')) (\<lambda>action.
           hop_bind (apply_overlap_policy e action context fired_at) (\<lambda>go.
             if go then start_scheduled_action e action fired_at else hop_return ()))))))"

subsection \<open>The prior occurrence\<close>

lemma dec_int_inject: "dec_int a = dec_int b \<longleftrightarrow> a = b"
proof
  have minus: "CHR ''-'' \<notin> set (dec n)" for n by (rule not_in_dec) (simp add: is_digit_def)
  then have neq: "CHR ''-'' # s \<noteq> dec n" for s n by (metis list.set_intros(1))
  assume "dec_int a = dec_int b"
  then show "a = b" using neq [symmetric] neq by (auto simp: dec_int_def split: if_splits)
qed simp

lemma occurrence_id_inject: "occurrence_id b x = occurrence_id b y \<longleftrightarrow> x = y"
  by (simp add: occurrence_id_def dec_int_inject)

lemma dict_get_by_id:
  "dict_get (fold (\<lambda>ts. dict_set (occurrence_id b ts) ts) occ m) (occurrence_id b x) =
   (if x \<in> set occ then Some x else dict_get m (occurrence_id b x))"
  by (induction occ arbitrary: m) (auto simp: dict_get_set occurrence_id_inject)

lemma keys_by_id:
  "fst ` set (fold (\<lambda>ts. dict_set (occurrence_id b ts) ts) occ m) = fst ` set m \<union> occurrence_id b ` set occ"
  by (induction occ arbitrary: m) (auto simp: keys_dict_set)

lemma map_result_set: "map_result f xs = Inr ys \<Longrightarrow> y \<in> set ys \<longleftrightarrow> (\<exists>x\<in>set xs. f x = Inr y)"
  by (induction xs arbitrary: ys) (auto simp: bind_result_Inr_iff)

lemma latest_by_max:
  "latest_by f ks = Some x \<Longrightarrow> x \<in> set ks \<and> (\<forall>y\<in>set ks. f y \<le> f x)"
proof -
  have fold_max: "fold (\<lambda>x best. if f best < f x then x else best) r k \<in> insert k (set r) \<and>
      (\<forall>y\<in>insert k (set r). f y \<le> f (fold (\<lambda>x best. if f best < f x then x else best) r k))" for r k
  proof (induction r arbitrary: k)
    case (Cons a r)
    from Cons.IH [of "if f k < f a then a else k"] show ?case by (cases "f k < f a") force+
  qed simp
  assume "latest_by f ks = Some x"
  then show ?thesis using fold_max by (cases ks) (auto simp: latest_by_def)
qed

lemma latest_by_None: "latest_by f ks = None \<longleftrightarrow> ks = []"
  by (simp add: latest_by_def split: list.split)

text \<open>The occurrences of a schedule before a fire that left an action row.\<close>

definition started_before :: "fire_env \<Rightarrow> (string \<Rightarrow> string option) \<Rightarrow> string \<Rightarrow> string \<Rightarrow> rat \<Rightarrow> int set" where
  "started_before e row base schedule_name fired_at =
     {ts \<in> set (schedule_occurrences e schedule_name (trunc fired_at) OVERLAP_LOOKBACK_LIMIT).
        row (occurrence_id base ts) \<noteq> None}"

lemma status_entry:
  assumes "dict_wf statuses" and "\<And>w. dict_get statuses w = (if w \<in> occurrence_id base ` set occ then row w else None)"
  shows "(w, st) \<in> set statuses \<longleftrightarrow>
    (\<exists>ts\<in>{ts \<in> set occ. row (occurrence_id base ts) \<noteq> None}. w = occurrence_id base ts \<and> row w = Some st)"
  unfolding dict_get_iff [OF assms(1), symmetric] assms(2) by auto

text \<open>The occurrences with a status, dated by the id they were listed under.\<close>

lemma dated_entries:
  assumes dated: "map_result (\<lambda>(wid, _). case dict_get by_id wid of Some ts \<Rightarrow> Inr (wid, ts) | None \<Rightarrow> Inl KeyError) statuses = Inr dated"
    and entry: "\<And>w st. (w, st) \<in> set statuses \<longleftrightarrow> (\<exists>ts\<in>S. w = occurrence_id base ts \<and> row w = Some st)"
    and date: "\<And>ts. ts \<in> S \<Longrightarrow> dict_get by_id (occurrence_id base ts) = Some ts \<and> row (occurrence_id base ts) \<noteq> None"
  shows "set dated = (\<lambda>ts. (occurrence_id base ts, ts)) ` S"
proof -
  have "y \<in> set dated \<longleftrightarrow> (\<exists>ts\<in>S. y = (occurrence_id base ts, ts))" (is "_ \<longleftrightarrow> ?R") for y
  proof -
    have "y \<in> set dated \<longleftrightarrow> (\<exists>x\<in>set statuses. (case x of (wid, _) \<Rightarrow>
        case dict_get by_id wid of Some ts \<Rightarrow> Inr (wid, ts) | None \<Rightarrow> Inl KeyError) = Inr y)" (is "_ \<longleftrightarrow> ?L")
      using map_result_set [OF dated] .
    also have "?L \<longleftrightarrow> ?R"
    proof
      assume ?L
      then obtain w st where "(w, st) \<in> set statuses"
        and y: "(case dict_get by_id w of Some ts \<Rightarrow> Inr (w, ts) | None \<Rightarrow> Inl KeyError) = Inr y" by auto
      then obtain ts where "ts \<in> S" "w = occurrence_id base ts" using entry by blast
      with y date show ?R by auto
    next
      assume ?R
      then obtain ts where ts: "ts \<in> S" "y = (occurrence_id base ts, ts)" by blast
      then obtain st where "(occurrence_id base ts, st) \<in> set statuses" using entry date by blast
      then show ?L using date [OF ts(1)] ts(2) by force
    qed
    finally show ?thesis .
  qed
  then show ?thesis by blast
qed

lemma latest_dated:
  assumes "set dated = (\<lambda>ts. (occurrence_id base ts, ts)) ` S" and "S \<noteq> {}" and "finite S"
  shows "latest_by snd dated = Some (occurrence_id base (Max S), Max S)"
proof -
  have "dated \<noteq> []" using assms(1,2) by auto
  then obtain w ts where latest: "latest_by snd dated = Some (w, ts)"
    using latest_by_None [of snd dated] by (cases "latest_by snd dated") auto
  from latest_by_max [OF this] have "(w, ts) \<in> set dated" and top: "\<forall>y\<in>set dated. snd y \<le> ts" by simp_all
  then have "ts \<in> S" "w = occurrence_id base ts" "\<forall>t\<in>S. t \<le> ts" using assms(1) by auto
  with latest assms(3) show ?thesis by (metis Max_eqI)
qed

lemma running_prior_iff:
  assumes store: "chain_store (fe_statuses e) row"
    and ids: "str_field action ''id'' = Inr base" "str_field context ''schedule_id'' = Inr name"
    and prior: "running_prior_occurrence e action context fired_at = Inr p"
  shows "p = (if started_before e row base name fired_at = {} then None
              else let w = occurrence_id base (Max (started_before e row base name fired_at))
                   in if is_open (row w) then Some w else None)"
proof -
  let ?occ = "schedule_occurrences e name (trunc fired_at) OVERLAP_LOOKBACK_LIMIT"
  define by_id where "by_id = fold (\<lambda>ts. dict_set (occurrence_id base ts) ts) ?occ []"
  define statuses where "statuses = fe_statuses e (map fst by_id)"
  define S where "S = started_before e row base name fired_at"
  have S: "S = {ts \<in> set ?occ. row (occurrence_id base ts) \<noteq> None}" by (simp add: S_def started_before_def)
  have keys: "set (map fst by_id) = occurrence_id base ` set ?occ"
    using keys_by_id [of base ?occ "[]"] by (simp add: by_id_def)
  have status: "dict_get statuses w = (if w \<in> occurrence_id base ` set ?occ then row w else None)" for w
    unfolding statuses_def using chain_store.lookup_exact [OF store, of "map fst by_id" w] by (simp only: keys)
  have "dict_wf statuses" unfolding statuses_def by (rule chain_store.lookup_wf [OF store])
  note entry = status_entry [OF this status, folded S]
  have date: "dict_get by_id (occurrence_id base ts) = Some ts \<and> row (occurrence_id base ts) \<noteq> None" if "ts \<in> S" for ts
    using that dict_get_by_id [of base ?occ "[]" ts] by (simp add: by_id_def S)
  have none: "S = {} \<longleftrightarrow> statuses = []"
  proof -
    have "statuses = [] \<longleftrightarrow> (\<forall>w st. (w, st) \<notin> set statuses)" by (cases statuses) force+
    then show ?thesis using entry date by blast
  qed
  show ?thesis unfolding S_def [symmetric]
  proof (cases "S = {}")
    case True
    with none have "p = None"
      using prior ids by (auto simp: running_prior_occurrence_def by_id_def statuses_def Let_def)
    with True show "p = (if S = {} then None else let w = occurrence_id base (Max S) in if is_open (row w) then Some w else None)"
      by simp
  next
    case False
    then have "?occ \<noteq> []" "statuses \<noteq> []" using none by (auto simp: S)
    then obtain dated where dated: "map_result (\<lambda>(wid, _). case dict_get by_id wid of Some ts \<Rightarrow> Inr (wid, ts) | None \<Rightarrow> Inl KeyError) statuses = Inr dated"
      and p: "(case latest_by snd dated of Some (wid, _) \<Rightarrow> Inr (if is_open (dict_get statuses wid) then Some wid else None)
               | None \<Rightarrow> Inr None) = (Inr p :: string option result)"
      using prior ids
      unfolding running_prior_occurrence_def statuses_def by_id_def by (auto simp: Let_def bind_result_Inr_iff)
    have "finite S" by (simp add: S)
    moreover from this False have "Max S \<in> S" by simp
    then have "dict_get statuses (occurrence_id base (Max S)) = row (occurrence_id base (Max S))" by (simp add: status S)
    ultimately show "p = (if S = {} then None else let w = occurrence_id base (Max S) in if is_open (row w) then Some w else None)"
      using p False latest_dated [OF dated_entries [OF dated entry date]] by (simp add: Let_def)
  qed
qed

subsection \<open>What a firing starts\<close>

lemma hop_bind_Inr_iff:
  "hop_bind m f = (ops, Inr y) \<longleftrightarrow> (\<exists>o1 x o2. m = (o1, Inr x) \<and> f x = (o2, Inr y) \<and> ops = o1 @ o2)"
proof (cases m)
  case (Pair a r)
  then show ?thesis by (cases r; cases "f (projr r)") auto
qed

lemmas hop_simps = hop_lift_def hop_return_def hop_tell_def

lemma start_scheduled_action_start:
  assumes "start_scheduled_action e action t = (ops, Inr u)" "str_field action ''id'' = Inr base"
  shows "\<exists>s. ops = [HopStart s] \<and> st_run s = occurrence_id base (trunc t)"
  using assms
  by (auto simp: start_scheduled_action_def enqueue_run_def hop_bind_Inr_iff hop_simps split: if_splits)

definition overlap_of :: "json \<Rightarrow> int result" where
  "overlap_of context = to_int (jget_default (jget_default context ''policy'' (JObj [])) ''overlap'' (JInt OVERLAP_SKIP))"

definition skips :: "json \<Rightarrow> bool" where
  "skips context \<longleftrightarrow> overlap_of context = Inr OVERLAP_SKIP \<and> truthy (jget context ''cron'')"

lemma overlap_policy_starts:
  assumes store: "chain_store (fe_statuses e) row"
    and ids: "str_field action ''id'' = Inr base" "str_field context ''schedule_id'' = Inr name"
    and policy: "apply_overlap_policy e action context t = (ops, Inr go)"
  shows "starts ops = [] \<and>
    (go \<longleftrightarrow> \<not> skips context \<or> started_before e row base name t = {} \<or>
       \<not> is_open (row (occurrence_id base (Max (started_before e row base name t)))))"
proof -
  obtain overlap where overlap: "overlap_of context = Inr overlap"
    using policy by (auto simp: apply_overlap_policy_def overlap_of_def hop_bind_Inr_iff hop_simps)
  show ?thesis
  proof (cases "overlap = OVERLAP_ALLOW_ALL \<or> \<not> truthy (jget context ''cron'')")
    case True
    then have "ops = []" "go" using policy overlap
      by (auto simp: apply_overlap_policy_def overlap_of_def hop_bind_Inr_iff hop_simps)
    moreover have "\<not> skips context"
      using True overlap by (auto simp: skips_def OVERLAP_ALLOW_ALL_def OVERLAP_SKIP_def)
    ultimately show ?thesis by simp
  next
    case False
    then obtain p where prior: "running_prior_occurrence e action context t = Inr p"
      and rest: "(case p of None \<Rightarrow> hop_return True
          | Some p \<Rightarrow>
              if overlap = OVERLAP_SKIP then hop_return False
              else if overlap = OVERLAP_TERMINATE_OTHER then hop_bind (hop_tell [HopCancel p True]) (\<lambda>_. hop_return True)
              else if overlap = OVERLAP_CANCEL_OTHER then
                hop_bind (hop_tell [HopSend p (cancel_envelope (fe_now e) ''schedule overlap'') INBOX_TOPIC]) (\<lambda>_. hop_return True)
              else hop_return True) = (ops, Inr go)"
      using policy overlap unfolding apply_overlap_policy_def overlap_of_def [symmetric]
      by (auto simp: hop_bind_Inr_iff hop_lift_def)
    have "skips context \<longleftrightarrow> overlap = OVERLAP_SKIP" using False overlap by (auto simp: skips_def)
    moreover have "starts ops = [] \<and> (go \<longleftrightarrow> overlap \<noteq> OVERLAP_SKIP \<or> p = None)"
      using rest by (auto simp: hop_simps hop_bind_Inr_iff OVERLAP_SKIP_def split: option.splits if_splits)
    ultimately show ?thesis using running_prior_iff [OF store ids prior] by (auto simp: Let_def split: if_splits)
  qed
qed

definition in_bounds :: "fire_env \<Rightarrow> json \<Rightarrow> rat \<Rightarrow> bool" where
  "in_bounds e context t \<longleftrightarrow>
     (let spec = jget_default context ''spec'' (JObj []) in
      (\<forall>lo. bound_of e (jget spec ''start_at'') = Inr (Some lo) \<longrightarrow> lo \<le> t) \<and>
      (\<forall>hi. bound_of e (jget spec ''end_at'') = Inr (Some hi) \<longrightarrow> t \<le> hi))"

lemma fire_starts_iff:
  assumes store: "chain_store (fe_statuses e) row"
    and action: "jindex context ''action'' = Inr action"
    and ids: "str_field action ''id'' = Inr base" "str_field context ''schedule_id'' = Inr name"
    and fire: "schedule_fire e t context = (ops, Inr u)"
  shows "(starts ops = [] \<or> map st_run (starts ops) = [occurrence_id base (trunc t)]) \<and>
    (starts ops \<noteq> [] \<longleftrightarrow> in_bounds e context t \<and>
       (\<not> skips context \<or> started_before e row base name t = {} \<or>
        \<not> is_open (row (occurrence_id base (Max (started_before e row base name t))))))"
proof -
  let ?spec = "jget_default context ''spec'' (JObj [])"
  obtain lo where lo: "bound_of e (jget ?spec ''start_at'') = Inr lo"
    using fire by (auto simp: schedule_fire_def Let_def hop_bind_Inr_iff hop_simps)
  show ?thesis
  proof (cases "case lo of Some b \<Rightarrow> t < b | None \<Rightarrow> False")
    case True
    then have "ops = []" using fire lo by (auto simp: schedule_fire_def Let_def hop_bind_Inr_iff hop_simps)
    moreover have "\<not> in_bounds e context t" using True lo by (auto simp: in_bounds_def Let_def split: option.splits)
    ultimately show ?thesis by simp
  next
    case after: False
    then obtain hi where hi: "bound_of e (jget ?spec ''end_at'') = Inr hi"
      using fire lo by (auto simp: schedule_fire_def Let_def hop_bind_Inr_iff hop_simps)
    show ?thesis
    proof (cases "case hi of Some b \<Rightarrow> b < t | None \<Rightarrow> False")
      case True
      then have "ops = []" using fire lo hi after by (auto simp: schedule_fire_def Let_def hop_bind_Inr_iff hop_simps)
      moreover have "\<not> in_bounds e context t" using True hi by (auto simp: in_bounds_def Let_def split: option.splits)
      ultimately show ?thesis by simp
    next
      case before: False
      have bounds: "in_bounds e context t" using after before lo hi by (auto simp: in_bounds_def Let_def split: option.splits)
      obtain o1 o2 o3 go where ops: "ops = o1 @ o2 @ o3" "starts o1 = []"
        and policy: "apply_overlap_policy e action context t = (o2, Inr go)"
        and run: "(if go then start_scheduled_action e action t else hop_return ()) = (o3, Inr u)"
        using fire lo hi after before action
        by (auto simp: schedule_fire_def Let_def hop_bind_Inr_iff hop_simps split: if_splits)
      note gone = overlap_policy_starts [OF store ids policy]
      show ?thesis
      proof (cases go)
        case True
        then have "start_scheduled_action e action t = (o3, Inr u)" using run by simp
        from start_scheduled_action_start [OF this ids(1)]
        obtain s where "o3 = [HopStart s]" "st_run s = occurrence_id base (trunc t)" by blast
        with True gone bounds show ?thesis by (simp add: ops starts_append)
      next
        case False
        then have "o3 = []" using run by (simp add: hop_return_def)
        with False gone bounds show ?thesis by (simp add: ops starts_append)
      qed
    qed
  qed
qed


subsection \<open>A schedule at work\<close>

definition job_action :: json where
  "job_action = JObj [(''id'', JStr ''job''), (''workflow'', JStr ''Job''), (''task_queue'', JStr ''q'')]"

definition job_context :: json where
  "job_context = JObj [(''schedule_id'', JStr ''nightly''), (''cron'', JStr ''* * * * *''), (''action'', job_action)]"

text \<open>The schedule fired at 10 and now at 20; the status table is a list of rows.\<close>

definition job_env :: "(string, string) dict \<Rightarrow> fire_env" where
  "job_env rows = \<lparr>fe_iso = (\<lambda>s. Some 10), fe_random = (\<lambda>_. 0),
     fe_firings = (\<lambda>_ _. [JObj [(''args'', JList [JStr ''t10''])]]),
     fe_statuses = safe_status_list (list_rows rows) fst snd,
     fe_registered = (\<lambda>_. True), fe_queue = (\<lambda>_. True), fe_now = 20\<rparr>"

lemma job_store: "chain_store (fe_statuses (job_env rows)) (map_option snd \<circ> table_row rows)"
  by (simp add: job_env_def table.safe_status_list_store)

lemma job_fields:
  "jindex job_context ''action'' = Inr job_action" "str_field job_action ''id'' = Inr ''job''"
  "str_field job_context ''schedule_id'' = Inr ''nightly''" "skips job_context" "in_bounds (job_env rows) job_context t"
  by (simp_all add: job_context_def job_action_def jindex_def str_field_def skips_def overlap_of_def jget_def
      jget_default_def in_bounds_def bound_of_def)

lemma job_started: "started_before (job_env rows) row ''job'' ''nightly'' 20 = (if row ''job-10'' = None then {} else {10})"
proof -
  have "schedule_occurrences (job_env rows) ''nightly'' (trunc 20) OVERLAP_LOOKBACK_LIMIT = [10]"
    by (simp add: schedule_occurrences_def job_env_def firing_time_def jget_def trunc_def map_filter_def)
  moreover have "occurrence_id ''job'' 10 = ''job-10''" by code_simp
  ultimately show ?thesis by (auto simp: started_before_def)
qed

lemma job_prior: "\<exists>p. running_prior_occurrence (job_env rows) job_action job_context 20 = Inr p"
proof -
  have occ: "schedule_occurrences (job_env rows) ''nightly'' (trunc 20) OVERLAP_LOOKBACK_LIMIT = [10]"
    by (simp add: schedule_occurrences_def job_env_def firing_time_def jget_def trunc_def map_filter_def)
  have statuses: "fe_statuses (job_env rows) [occurrence_id ''job'' 10] =
      (case dict_get rows (occurrence_id ''job'' 10) of None \<Rightarrow> [] | Some st \<Rightarrow> [(occurrence_id ''job'' 10, st)])"
    by (simp add: job_env_def safe_status_list_def list_rows_def table_row_def split: option.split)
  show ?thesis
    using job_fields(2,3) occ statuses
    by (cases "dict_get rows (occurrence_id ''job'' 10)")
      (simp_all add: running_prior_occurrence_def Let_def dict_get_Cons latest_by_def)
qed

lemma job_start: "\<exists>ops. start_scheduled_action (job_env rows) job_action 20 = (ops, Inr ())"
  by (simp add: start_scheduled_action_def job_action_def str_field_def jindex_def hop_simps job_env_def
      action_meta_def jget_def jget_default_def enqueue_run_def)

lemma job_defaults:
  "jget_default job_context ''policy'' (JObj []) = JObj []" "jget_default job_context ''spec'' (JObj []) = JObj []"
  "truthy (jget job_context ''cron'')" "jget_default (JObj []) ''overlap'' j = j" "jget (JObj []) k = JNull"
  by (simp_all add: job_context_def jget_default_def jget_def)

lemma job_ids: "occurrence_id ''job'' 10 = ''job-10''" "occurrence_id ''job'' (trunc 20) = ''job-20''"
  by code_simp+

lemma job_fire_ends: "\<exists>ops. schedule_fire (job_env rows) 20 job_context = (ops, Inr ())"
proof -
  obtain p where prior: "running_prior_occurrence (job_env rows) job_action job_context 20 = Inr p" using job_prior by blast
  have "apply_overlap_policy (job_env rows) job_action job_context 20 = ([], Inr (p = None))"
    by (simp add: apply_overlap_policy_def hop_simps job_defaults prior OVERLAP_SKIP_def OVERLAP_ALLOW_ALL_def split: option.split)
  moreover obtain ops where "start_scheduled_action (job_env rows) job_action 20 = (ops, Inr ())" using job_start by blast
  ultimately show ?thesis
    by (simp add: schedule_fire_def job_defaults Let_def hop_simps bound_of_def job_fields(1))
qed


text \<open>
  The overlap policy does not see a run chain. Under SKIP, a fire asks only for the status
  of the earlier occurrence's own id: once that occurrence has continued as new its row is ERROR,
  and the next fire starts another action although the continued run \<open>job-10--r1\<close> is still pending.
\<close>

theorem continued_action_overlaps:
  "\<exists>ops. schedule_fire (job_env [(''job-10'', ''ERROR''), (run_dbos_id ''job-10'' 1, ''PENDING'')]) 20 job_context = (ops, Inr ()) \<and>
     map st_run (starts ops) = [''job-20'']"
proof -
  let ?rows = "[(''job-10'', ''ERROR''), (run_dbos_id ''job-10'' 1, ''PENDING'')]"
  obtain ops where ops: "schedule_fire (job_env ?rows) 20 job_context = (ops, Inr ())" using job_fire_ends by blast
  let ?R = "map_option snd \<circ> table_row ?rows" and ?S = "\<lambda>row. started_before (job_env ?rows) row ''job'' ''nightly'' 20"
  have "\<not> is_open (?R ''job-10'')"
    by (simp add: table_row_def dict_get_def is_open_def OPEN_DBOS_STATUSES_def)
  then have "?S ?R = {} \<or> \<not> is_open (?R (occurrence_id ''job'' (Max (?S ?R))))"
    unfolding job_started by (cases "?R ''job-10'' = None") (simp_all only: if_True if_False Max_singleton job_ids HOL.simp_thms)
  then have nonempty: "starts ops \<noteq> []"
    using fire_starts_iff [OF job_store job_fields(1,2,3) ops] job_fields(5) [of ?rows 20] by blast
  have "starts ops = [] \<or> map st_run (starts ops) = [''job-20'']"
    using conjunct1 [OF fire_starts_iff [OF job_store job_fields(1,2,3) ops]] unfolding job_ids .
  then have "map st_run (starts ops) = [''job-20'']" by (rule disjE) (rule notE [OF nonempty])
  with ops show ?thesis by (intro exI [of _ ops] conjI)
qed

end
