(* ===== verification/Visibility.thy ===== *)
theory Visibility
  imports Visibility_Tokens Ids
begin

text \<open>
  The visibility queries of \<open>dbosify/_internal/visibility.py\<close>: the parser (\<open>parse_query\<close>,
  \<open>_apply_clause\<close>, \<open>_parse_datetime\<close>, \<open>_ident_literal\<close>) and the translation of a parsed query
  (\<open>VisibilityQuery.to_dbos_filters\<close>, \<open>post_filter\<close>, \<open>aggregate_eligible\<close>,
  \<open>aggregate_filter_kwargs\<close>). Parameters: the ISO-8601 reader (\<open>datetime.fromisoformat\<close> and
  \<open>dateutil\<close>) and \<open>str\<close> of a float.
\<close>

subsection \<open>Values\<close>

datatype scalar = SStr string | SInt int | SFloat rat | SBool bool

datatype qvalue = One scalar | Many "scalar list"

text \<open>A datetime: its instant, and whether it carries a time zone.\<close>

datatype instant = Instant (inst_at: rat) (inst_aware: bool)

record vis_env =
  ve_iso :: "string \<Rightarrow> instant option"
  ve_float_str :: "rat \<Rightarrow> string"

text \<open>\<open>str(v)\<close>.\<close>

fun py_str :: "vis_env \<Rightarrow> scalar \<Rightarrow> string" where
  "py_str e (SStr s) = s"
| "py_str e (SInt i) = dec_int i"
| "py_str e (SFloat q) = ve_float_str e q"
| "py_str e (SBool b) = (if b then ''True'' else ''False'')"

definition values_of :: "qvalue \<Rightarrow> scalar list" where
  "values_of v = (case v of One x \<Rightarrow> [x] | Many xs \<Rightarrow> xs)"

text \<open>\<open>max(cur, dt)\<close> and \<open>min(cur, dt)\<close>: comparing a naive with an aware datetime raises TypeError.\<close>

definition instant_less :: "instant \<Rightarrow> instant \<Rightarrow> bool result" where
  "instant_less a b = (if inst_aware a \<noteq> inst_aware b then Inl TypeError else Inr (inst_at a < inst_at b))"

definition tighten_lo :: "instant option \<Rightarrow> instant \<Rightarrow> instant option result" where
  "tighten_lo cur dt =
     (case cur of
        None \<Rightarrow> Inr (Some dt)
      | Some c \<Rightarrow> bind_result (instant_less c dt) (\<lambda>b. Inr (Some (if b then dt else c))))"

definition tighten_hi :: "instant option \<Rightarrow> instant \<Rightarrow> instant option result" where
  "tighten_hi cur dt =
     (case cur of
        None \<Rightarrow> Inr (Some dt)
      | Some c \<Rightarrow> bind_result (instant_less dt c) (\<lambda>b. Inr (Some (if b then dt else c))))"

subsection \<open>The parsed query\<close>

record vis_query =
  q_type_in :: "string list option"
  q_type_not_in :: "string list"
  q_workflow_ids :: "string list option"
  q_prefix :: "string option"
  q_chain :: "string option"
  q_statuses :: "execution_status list option"
  q_start_lo :: "instant option"
  q_start_hi :: "instant option"
  q_close_lo :: "instant option"
  q_close_hi :: "instant option"
  q_search :: "(string, scalar) dict"
  q_group_by :: "string option"

definition all_workflows :: vis_query where
  "all_workflows = \<lparr>q_type_in = None, q_type_not_in = [], q_workflow_ids = None, q_prefix = None,
     q_chain = None, q_statuses = None, q_start_lo = None, q_start_hi = None, q_close_lo = None,
     q_close_hi = None, q_search = [], q_group_by = None\<rparr>"

datatype sys_field = WorkflowType | WorkflowId | ExecutionStatus | StartTime | CloseTime

definition system_field :: "string \<Rightarrow> sys_field option" where
  "system_field name =
     map_of [(''workflowtype'', WorkflowType), (''workflowid'', WorkflowId),
       (''executionstatus'', ExecutionStatus), (''starttime'', StartTime), (''closetime'', CloseTime)]
       (lower name)"

definition status_by_name :: "string \<Rightarrow> execution_status option" where
  "status_by_name =
     map_of [(''running'', RUNNING), (''completed'', COMPLETED), (''failed'', FAILED),
       (''canceled'', CANCELED), (''cancelled'', CANCELED), (''terminated'', TERMINATED),
       (''continuedasnew'', CONTINUED_AS_NEW), (''continued_as_new'', CONTINUED_AS_NEW),
       (''timedout'', TIMED_OUT), (''timed_out'', TIMED_OUT)]"

definition status_value :: "vis_env \<Rightarrow> scalar \<Rightarrow> execution_status result" where
  "status_value e v =
     (case status_by_name (lower (py_str e v)) of
        Some s \<Rightarrow> Inr s | None \<Rightarrow> Inl VisibilityQueryError)"

definition parse_datetime :: "vis_env \<Rightarrow> qvalue \<Rightarrow> instant result" where
  "parse_datetime e v =
     (case v of
        One (SStr s) \<Rightarrow> (case ve_iso e s of Some dt \<Rightarrow> Inr dt | None \<Rightarrow> Inl VisibilityQueryError)
      | _ \<Rightarrow> Inl VisibilityQueryError)"

subsection \<open>Clauses\<close>

definition apply_type :: "vis_env \<Rightarrow> string \<Rightarrow> qvalue \<Rightarrow> vis_query \<Rightarrow> vis_query result" where
  "apply_type e op v q =
     (let names = map (py_str e) (values_of v)
      in if op = ''='' \<or> op = ''IN'' then
           Inr (q\<lparr>q_type_in := Some (case q_type_in q of
                  None \<Rightarrow> names | Some ts \<Rightarrow> filter (\<lambda>t. t \<in> set names) ts)\<rparr>)
         else if op = ''!='' then Inr (q\<lparr>q_type_not_in := q_type_not_in q @ names\<rparr>)
         else Inl VisibilityQueryError)"

definition apply_id :: "vis_env \<Rightarrow> string \<Rightarrow> qvalue \<Rightarrow> vis_query \<Rightarrow> vis_query result" where
  "apply_id e op v q =
     (case v of
        Many _ \<Rightarrow> Inl VisibilityQueryError
      | One x \<Rightarrow>
          if op = ''='' then Inr (q\<lparr>q_chain := Some (py_str e x)\<rparr>)
          else if op = ''STARTS_WITH'' then Inr (q\<lparr>q_prefix := Some (py_str e x)\<rparr>)
          else Inl VisibilityQueryError)"

definition apply_status :: "vis_env \<Rightarrow> string \<Rightarrow> qvalue \<Rightarrow> vis_query \<Rightarrow> vis_query result" where
  "apply_status e op v q =
     (if op \<notin> {''='', ''IN''} then Inl VisibilityQueryError
      else bind_result (map_result (status_value e) (values_of v)) (\<lambda>parsed.
             Inr (q\<lparr>q_statuses := Some (case q_statuses q of
                    None \<Rightarrow> remdups parsed | Some ss \<Rightarrow> filter (\<lambda>s. s \<in> set parsed) ss)\<rparr>)))"

text \<open>The bounds of one of the two time fields: \<open>>\<close> and \<open>>=\<close> are treated alike, as are \<open><\<close> and \<open><=\<close>.\<close>

definition apply_bounds ::
  "string \<Rightarrow> instant \<Rightarrow> instant option \<times> instant option \<Rightarrow> (instant option \<times> instant option) result" where
  "apply_bounds op dt = (\<lambda>(lo, hi).
     if op \<in> {''>'', ''>=''} then bind_result (tighten_lo lo dt) (\<lambda>lo'. Inr (lo', hi))
     else if op \<in> {''<'', ''<=''} then bind_result (tighten_hi hi dt) (\<lambda>hi'. Inr (lo, hi'))
     else if op = ''='' then
       bind_result (tighten_lo lo dt) (\<lambda>lo'. bind_result (tighten_hi hi dt) (\<lambda>hi'. Inr (lo', hi')))
     else Inl VisibilityQueryError)"

definition apply_time :: "vis_env \<Rightarrow> bool \<Rightarrow> string \<Rightarrow> qvalue \<Rightarrow> vis_query \<Rightarrow> vis_query result" where
  "apply_time e start op v q =
     bind_result (parse_datetime e v) (\<lambda>dt.
       if start then
         bind_result (apply_bounds op dt (q_start_lo q, q_start_hi q)) (\<lambda>(lo, hi).
           Inr (q\<lparr>q_start_lo := lo, q_start_hi := hi\<rparr>))
       else
         bind_result (apply_bounds op dt (q_close_lo q, q_close_hi q)) (\<lambda>(lo, hi).
           Inr (q\<lparr>q_close_lo := lo, q_close_hi := hi\<rparr>)))"

definition apply_search :: "string \<Rightarrow> string \<Rightarrow> qvalue \<Rightarrow> vis_query \<Rightarrow> vis_query result" where
  "apply_search name op v q =
     (if op \<noteq> ''='' then Inl VisibilityQueryError
      else case v of
        Many _ \<Rightarrow> Inl VisibilityQueryError
      | One x \<Rightarrow> Inr (q\<lparr>q_search := dict_set name x (q_search q)\<rparr>))"

definition apply_clause :: "vis_env \<Rightarrow> string \<Rightarrow> string \<Rightarrow> qvalue \<Rightarrow> vis_query \<Rightarrow> vis_query result" where
  "apply_clause e name op v q =
     (case system_field name of
        Some WorkflowType \<Rightarrow> apply_type e op v q
      | Some WorkflowId \<Rightarrow> apply_id e op v q
      | Some ExecutionStatus \<Rightarrow> apply_status e op v q
      | Some StartTime \<Rightarrow> apply_time e True op v q
      | Some CloseTime \<Rightarrow> apply_time e False op v q
      | None \<Rightarrow> apply_search name op v q)"

subsection \<open>The parser\<close>

definition ident_literal :: "string \<Rightarrow> scalar" where
  "ident_literal s =
     (if lower s = ''true'' then SBool True else if lower s = ''false'' then SBool False else SStr s)"

fun literal :: "token \<Rightarrow> scalar option" where
  "literal (TokStr s) = Some (SStr s)"
| "literal (TokInt i) = Some (SInt i)"
| "literal (TokFloat q) = Some (SFloat q)"
| "literal _ = None"

text \<open>The tokens of an \<open>IN\<close> list after its opening parenthesis.\<close>

fun read_list :: "token list \<Rightarrow> (scalar list \<times> token list) result" where
  "read_list [] = Inl VisibilityQueryError"
| "read_list (t # ts) =
     (if t = TokRParen then Inr ([], ts)
      else case literal t of
        None \<Rightarrow> Inl VisibilityQueryError
      | Some x \<Rightarrow>
          (case ts of
             [] \<Rightarrow> Inl VisibilityQueryError
           | u # us \<Rightarrow>
               if u = TokComma then bind_result (read_list us) (\<lambda>(xs, r). Inr (x # xs, r))
               else if u = TokRParen then bind_result (read_list (u # us)) (\<lambda>(xs, r). Inr (x # xs, r))
               else Inl VisibilityQueryError))"

definition read_op :: "token list \<Rightarrow> (string \<times> token list) result" where
  "read_op ts =
     (case ts of
        TokOp op # r \<Rightarrow> Inr (op, r)
      | TokIdent w # r \<Rightarrow>
          if upper w = ''IN'' then Inr (''IN'', r)
          else if upper w = ''STARTS_WITH'' then Inr (''STARTS_WITH'', r)
          else Inl VisibilityQueryError
      | _ \<Rightarrow> Inl VisibilityQueryError)"

definition read_value :: "string \<Rightarrow> token list \<Rightarrow> (qvalue \<times> token list) result" where
  "read_value op ts =
     (case ts of
        [] \<Rightarrow> Inl VisibilityQueryError
      | t # r \<Rightarrow>
          if op = ''IN'' then
            (if t = TokLParen then bind_result (read_list r) (\<lambda>(xs, r'). Inr (Many xs, r'))
             else Inl VisibilityQueryError)
          else (case t of
                  TokIdent w \<Rightarrow> Inr (One (ident_literal w), r)
                | _ \<Rightarrow> (case literal t of
                          Some x \<Rightarrow> Inr (One x, r) | None \<Rightarrow> Inl VisibilityQueryError)))"

text \<open>The tokens after \<open>GROUP\<close>.\<close>

definition read_group :: "token list \<Rightarrow> vis_query \<Rightarrow> vis_query result" where
  "read_group ts q =
     (case ts of
        [TokIdent b, TokIdent f] \<Rightarrow>
          if upper b \<noteq> ''BY'' then Inl VisibilityQueryError
          else (case system_field f of
                  Some ExecutionStatus \<Rightarrow> Inr (q\<lparr>q_group_by := Some ''ExecutionStatus''\<rparr>)
                | Some WorkflowType \<Rightarrow> Inr (q\<lparr>q_group_by := Some ''WorkflowType''\<rparr>)
                | _ \<Rightarrow> Inl VisibilityQueryError)
      | _ \<Rightarrow> Inl VisibilityQueryError)"

definition KEYWORDS :: "string list" where
  "KEYWORDS = [''AND'', ''OR'', ''ORDER'', ''GROUP'', ''IN'', ''STARTS_WITH'']"

lemma read_list_shorter: "read_list ts = Inr (xs, r) \<Longrightarrow> length r < length ts"
  by (induction ts arbitrary: xs rule: read_list.induct)
     (fastforce simp: bind_result_Inr_iff split: if_splits option.splits list.splits)+

lemma read_op_shorter: "read_op ts = Inr (op, r) \<Longrightarrow> length r < length ts"
  by (auto simp: read_op_def split: list.splits token.splits if_splits)

lemma read_value_shorter: "read_value op ts = Inr (v, r) \<Longrightarrow> length r < length ts"
  by (auto simp: read_value_def bind_result_Inr_iff split: list.splits token.splits if_splits option.splits
      dest: read_list_shorter)

function parse_clauses :: "vis_env \<Rightarrow> token list \<Rightarrow> vis_query \<Rightarrow> vis_query result" where
  "parse_clauses e ts q =
     (case ts of
        [] \<Rightarrow> Inr q
      | TokIdent name # ts0 \<Rightarrow>
          if upper name = ''GROUP'' then read_group ts0 q
          else if upper name \<in> set KEYWORDS then Inl VisibilityQueryError
          else (case read_op ts0 of
            Inl err \<Rightarrow> Inl err
          | Inr (op, ts1) \<Rightarrow>
              (case read_value op ts1 of
                 Inl err \<Rightarrow> Inl err
               | Inr (v, ts2) \<Rightarrow>
                   (case apply_clause e name op v q of
                      Inl err \<Rightarrow> Inl err
                    | Inr q' \<Rightarrow>
                        (case ts2 of
                           [] \<Rightarrow> Inr q'
                         | TokIdent w # ts3 \<Rightarrow>
                             if upper w = ''AND''
                             then (if ts3 = [] then Inl VisibilityQueryError else parse_clauses e ts3 q')
                             else if upper w = ''GROUP'' then parse_clauses e ts2 q'
                             else Inl VisibilityQueryError
                         | _ \<Rightarrow> Inl VisibilityQueryError))))
      | _ \<Rightarrow> Inl VisibilityQueryError)"
  by pat_completeness auto

termination
  by (relation "measure (\<lambda>(e, ts, q). length ts)") (auto dest!: read_op_shorter read_value_shorter)

declare parse_clauses.simps [simp del]

definition parse_query :: "vis_env \<Rightarrow> string option \<Rightarrow> vis_query result" where
  "parse_query e query =
     (case query of
        None \<Rightarrow> Inr all_workflows
      | Some s \<Rightarrow>
          if list_all is_ws s then Inr all_workflows
          else bind_result (tokenize s) (\<lambda>ts. parse_clauses e ts all_workflows))"

end
