(* ===== verification/Visibility_Filters.thy ===== *)
theory Visibility_Filters
  imports Visibility
begin

text \<open>
  What a parsed visibility query selects (\<open>to_dbos_filters\<close>, \<open>post_filter\<close>, \<open>aggregate_eligible\<close>,
  \<open>aggregate_filter_kwargs\<close> of \<open>dbosify/_internal/visibility.py\<close>), and that together they select
  the rows every clause of the query holds of. The listing of DBOS is a parameter: a function that
  tells whether a row passes a set of filters, assumed to do what the documentation of
  \<open>list_workflows\<close> says (\<open>documented_listing\<close>).
\<close>

subsection \<open>Filters\<close>

fun temporal_to_dbos :: "execution_status \<Rightarrow> string list" where
  "temporal_to_dbos RUNNING = [''PENDING'', ''ENQUEUED'', ''DELAYED'', ''MAX_RECOVERY_ATTEMPTS_EXCEEDED'']"
| "temporal_to_dbos COMPLETED = [''SUCCESS'']"
| "temporal_to_dbos TERMINATED = [''CANCELLED'']"
| "temporal_to_dbos FAILED = [''ERROR'']"
| "temporal_to_dbos CANCELED = [''ERROR'']"
| "temporal_to_dbos TIMED_OUT = [''ERROR'']"
| "temporal_to_dbos CONTINUED_AS_NEW = [''ERROR'']"

text \<open>The keyword filters; an absent one is \<open>None\<close>.\<close>

record dbos_filters =
  f_name :: "string list option"
  f_workflow_ids :: "string list option"
  f_prefix :: "string list option"
  f_status :: "string list option"
  f_start :: "instant option"
  f_end :: "instant option"
  f_completed_after :: "instant option"
  f_completed_before :: "instant option"
  f_search :: "(string, scalar) dict option"

definition type_name :: "string \<Rightarrow> string" where "type_name t = ''wf:'' @ t"

definition to_dbos_filters :: "vis_query \<Rightarrow> dbos_filters" where
  "to_dbos_filters q = \<lparr>
     f_name = map_option (map type_name) (q_type_in q),
     f_workflow_ids = q_workflow_ids q,
     f_prefix = (case q_prefix q of
        Some p \<Rightarrow> Some [p]
      | None \<Rightarrow> (case q_chain q of Some c \<Rightarrow> Some [c] | None \<Rightarrow> None)),
     f_status = map_option (\<lambda>ss. remdups (concat (map temporal_to_dbos ss))) (q_statuses q),
     f_start = q_start_lo q, f_end = q_start_hi q,
     f_completed_after = q_close_lo q, f_completed_before = q_close_hi q,
     f_search = (if q_search q = [] then None else Some (q_search q))\<rparr>"

text \<open>A row of the listing. \<open>row_search\<close> tells which values the stored attribute of a name contains.\<close>

record vis_row =
  row_id :: string
  row_name :: "string option"
  row_status :: "string option"
  row_error :: "ledger_error option"
  row_created :: instant
  row_closed :: "instant option"
  row_search :: "string \<Rightarrow> scalar \<Rightarrow> bool"

definition row_type :: "vis_row \<Rightarrow> string" where
  "row_type row =
     (let n = (case row_name row of Some n \<Rightarrow> n | None \<Rightarrow> []) in if prefix ''wf:'' n then drop 3 n else n)"

definition in_chain :: "string \<Rightarrow> vis_row \<Rightarrow> bool" where
  "in_chain chain row \<longleftrightarrow> row_id row = chain \<or> prefix (chain @ RUN_SEPARATOR) (row_id row)"

definition post_predicate :: "vis_query \<Rightarrow> vis_row \<Rightarrow> bool result" where
  "post_predicate q row =
     (if (case q_chain q of Some c \<Rightarrow> \<not> in_chain c row | None \<Rightarrow> False) then Inr False
      else bind_result
        (case q_statuses q of
           None \<Rightarrow> Inr True
         | Some ss \<Rightarrow> bind_result (to_execution_status (row_status row) (row_error row)) (\<lambda>s. Inr (s \<in> set ss)))
        (\<lambda>ok. Inr (ok \<and> row_type row \<notin> set (q_type_not_in q))))"

definition needs_status :: "vis_query \<Rightarrow> bool" where
  "needs_status q \<longleftrightarrow>
     (case q_statuses q of Some ss \<Rightarrow> \<exists>s\<in>set ss. temporal_to_dbos s = [''ERROR''] | None \<Rightarrow> False)"

definition post_filter :: "vis_query \<Rightarrow> (vis_row \<Rightarrow> bool result) option" where
  "post_filter q =
     (if \<not> needs_status q \<and> q_type_not_in q = [] \<and> q_chain q = None then None else Some (post_predicate q))"

text \<open>The rows of a listing that a query keeps.\<close>

definition keeps :: "vis_query \<Rightarrow> vis_row \<Rightarrow> bool result" where
  "keeps q row = (case post_filter q of Some p \<Rightarrow> p row | None \<Rightarrow> Inr True)"

definition aggregate_eligible :: "vis_query \<Rightarrow> bool" where
  "aggregate_eligible q \<longleftrightarrow>
     q_search q = [] \<and> q_workflow_ids q = None \<and> q_chain q = None \<and> q_type_not_in q = []"

definition aggregate_filter_kwargs :: "vis_query \<Rightarrow> dbos_filters" where
  "aggregate_filter_kwargs q = (to_dbos_filters q)\<lparr>f_workflow_ids := None, f_search := None\<rparr>"

subsection \<open>What DBOS documents\<close>

definition at_least :: "instant option \<Rightarrow> instant option \<Rightarrow> bool" where
  "at_least lo t = (case lo of None \<Rightarrow> True | Some b \<Rightarrow> (case t of Some x \<Rightarrow> inst_at b \<le> inst_at x | None \<Rightarrow> False))"

definition at_most :: "instant option \<Rightarrow> instant option \<Rightarrow> bool" where
  "at_most hi t = (case hi of None \<Rightarrow> True | Some b \<Rightarrow> (case t of Some x \<Rightarrow> inst_at x \<le> inst_at b | None \<Rightarrow> False))"

definition documented_listing :: "dbos_filters \<Rightarrow> vis_row \<Rightarrow> bool" where
  "documented_listing f row \<longleftrightarrow>
     (case f_name f of None \<Rightarrow> True | Some ns \<Rightarrow> row_name row \<in> Some ` set ns) \<and>
     (case f_workflow_ids f of None \<Rightarrow> True | Some ids \<Rightarrow> row_id row \<in> set ids) \<and>
     (case f_prefix f of None \<Rightarrow> True | Some ps \<Rightarrow> \<exists>p\<in>set ps. prefix p (row_id row)) \<and>
     (case f_status f of None \<Rightarrow> True | Some ss \<Rightarrow> row_status row \<in> Some ` set ss) \<and>
     at_least (f_start f) (Some (row_created row)) \<and> at_most (f_end f) (Some (row_created row)) \<and>
     at_least (f_completed_after f) (row_closed row) \<and> at_most (f_completed_before f) (row_closed row) \<and>
     (case f_search f of None \<Rightarrow> True | Some d \<Rightarrow> \<forall>(n, v)\<in>set d. row_search row n v)"

subsection \<open>What a clause means\<close>

text \<open>
  The meaning of a clause, independent of how it is evaluated. The bounds of a time are inclusive
  whatever the operator.
\<close>

datatype vclause = VClause (cl_field: string) (cl_op: string) (cl_value: qvalue)

definition bound_holds :: "string \<Rightarrow> instant \<Rightarrow> instant option \<Rightarrow> bool" where
  "bound_holds op dt t \<longleftrightarrow>
     (op \<in> {''>'', ''>='', ''=''} \<longrightarrow> at_least (Some dt) t) \<and> (op \<in> {''<'', ''<='', ''=''} \<longrightarrow> at_most (Some dt) t)"

definition clause_holds :: "vis_env \<Rightarrow> vclause \<Rightarrow> vis_row \<Rightarrow> bool" where
  "clause_holds e c row \<longleftrightarrow>
     (let v = cl_value c; names = map (py_str e) (values_of v); op = cl_op c
      in case system_field (cl_field c) of
           Some WorkflowType \<Rightarrow>
             if op = ''!='' then row_type row \<notin> set names else row_type row \<in> set names
         | Some WorkflowId \<Rightarrow>
             (if op = ''='' then \<exists>n\<in>set names. in_chain n row else \<exists>n\<in>set names. prefix n (row_id row))
         | Some ExecutionStatus \<Rightarrow>
             (\<exists>n\<in>set names. \<exists>s. status_by_name (lower n) = Some s \<and>
                to_execution_status (row_status row) (row_error row) = Inr s)
         | Some StartTime \<Rightarrow> (\<exists>dt. parse_datetime e v = Inr dt \<and> bound_holds op dt (Some (row_created row)))
         | Some CloseTime \<Rightarrow> (\<exists>dt. parse_datetime e v = Inr dt \<and> bound_holds op dt (row_closed row))
         | None \<Rightarrow> (\<exists>x. v = One x \<and> row_search row (cl_field c) x))"

fun apply_clauses :: "vis_env \<Rightarrow> vclause list \<Rightarrow> vis_query \<Rightarrow> vis_query result" where
  "apply_clauses e [] q = Inr q"
| "apply_clauses e (c # cs) q =
     bind_result (apply_clause e (cl_field c) (cl_op c) (cl_value c) q) (apply_clauses e cs)"

text \<open>The meaning of a parsed query.\<close>

definition query_holds :: "vis_query \<Rightarrow> vis_row \<Rightarrow> bool" where
  "query_holds q row \<longleftrightarrow>
     (case q_type_in q of None \<Rightarrow> True | Some ts \<Rightarrow> row_type row \<in> set ts) \<and>
     row_type row \<notin> set (q_type_not_in q) \<and>
     (case q_prefix q of None \<Rightarrow> True | Some p \<Rightarrow> prefix p (row_id row)) \<and>
     (case q_chain q of None \<Rightarrow> True | Some c \<Rightarrow> in_chain c row) \<and>
     (case q_statuses q of None \<Rightarrow> True
      | Some ss \<Rightarrow> \<exists>s\<in>set ss. to_execution_status (row_status row) (row_error row) = Inr s) \<and>
     at_least (q_start_lo q) (Some (row_created row)) \<and> at_most (q_start_hi q) (Some (row_created row)) \<and>
     at_least (q_close_lo q) (row_closed row) \<and> at_most (q_close_hi q) (row_closed row) \<and>
     (\<forall>(n, v)\<in>set (q_search q). row_search row n v)"

text \<open>
  Rows DBOS lists for this program: a registered workflow function has the name \<open>wf:T\<close>, and the
  status is one that \<open>to_execution_status\<close> knows.
\<close>

definition proper_row :: "vis_row \<Rightarrow> bool" where
  "proper_row row \<longleftrightarrow> (\<exists>t. row_name row = Some (type_name t)) \<and> row_status row \<in> Some ` set DBOS_STATUSES"

lemma proper_row_type: "proper_row row \<Longrightarrow> row_name row = Some (type_name (row_type row))"
  by (auto simp: proper_row_def row_type_def type_name_def)

lemma status_native:
  assumes "to_execution_status (row_status row) (row_error row) = Inr s" "row_status row = Some d"
  shows "d \<in> set (temporal_to_dbos s)"
  using assms
  by (auto simp: to_execution_status_def is_open_def OPEN_DBOS_STATUSES_def split: if_splits option.splits ledger_error.splits)

lemma native_status:
  assumes "row_status row = Some d" "d \<in> set (temporal_to_dbos s)" "temporal_to_dbos s \<noteq> [''ERROR'']"
  shows "to_execution_status (row_status row) (row_error row) = Inr s"
  using assms
  by (cases s) (auto simp: to_execution_status_def is_open_def OPEN_DBOS_STATUSES_def)

lemma proper_row_status:
  assumes "proper_row row"
  obtains d s where "row_status row = Some d" "to_execution_status (row_status row) (row_error row) = Inr s"
proof -
  from assms obtain d where d: "row_status row = Some d" "d \<in> set DBOS_STATUSES" by (auto simp: proper_row_def)
  have "to_execution_status (Some d) (row_error row) \<noteq> Inl err" for err
    using to_execution_status_total [of d "row_error row"] d(2)
    by (auto simp: to_execution_status_def split: if_splits option.splits ledger_error.splits)
  then obtain s where "to_execution_status (Some d) (row_error row) = Inr s"
    by (cases "to_execution_status (Some d) (row_error row)") auto
  with d that show ?thesis by simp
qed

lemma type_name_inject: "type_name a = type_name b \<longleftrightarrow> a = b"
  by (simp add: type_name_def)

lemma name_filter:
  "proper_row row \<Longrightarrow> row_name row \<in> Some ` set (map type_name ts) \<longleftrightarrow> row_type row \<in> set ts"
  using proper_row_type [of row] by (auto simp: type_name_inject)

lemma in_chain_prefix: "in_chain c row \<Longrightarrow> prefix c (row_id row)"
  by (auto simp: in_chain_def prefix_def)

lemma status_filter:
  assumes "row_status row = Some d" "to_execution_status (row_status row) (row_error row) = Inr s"
  shows "s \<in> set ss \<Longrightarrow> \<exists>x\<in>set ss. d \<in> set (temporal_to_dbos x)"
    and "\<forall>x\<in>set ss. temporal_to_dbos x \<noteq> [''ERROR''] \<Longrightarrow> x \<in> set ss \<Longrightarrow> d \<in> set (temporal_to_dbos x) \<Longrightarrow> s \<in> set ss"
proof -
  show "s \<in> set ss \<Longrightarrow> \<exists>x\<in>set ss. d \<in> set (temporal_to_dbos x)" using status_native [OF assms(2,1)] by blast
  assume "\<forall>x\<in>set ss. temporal_to_dbos x \<noteq> [''ERROR'']" "x \<in> set ss" "d \<in> set (temporal_to_dbos x)"
  then have "to_execution_status (row_status row) (row_error row) = Inr x" using native_status [OF assms(1)] by blast
  with assms(2) \<open>x \<in> set ss\<close> show "s \<in> set ss" by simp
qed

text \<open>The listing and the post-filter together compute the meaning of the parsed query.\<close>

lemma keeps_iff:
  assumes "to_execution_status (row_status row) (row_error row) = Inr s"
  shows "keeps q row = Inr True \<longleftrightarrow>
    post_filter q = None \<or>
    ((case q_chain q of Some c \<Rightarrow> in_chain c row | None \<Rightarrow> True) \<and>
     (case q_statuses q of Some ss \<Rightarrow> s \<in> set ss | None \<Rightarrow> True) \<and> row_type row \<notin> set (q_type_not_in q))"
  using assms by (auto simp: keeps_def post_filter_def post_predicate_def split: option.splits if_splits)

lemma filters_sound:
  assumes proper: "proper_row row" and ids: "q_workflow_ids q = None"
  shows "documented_listing (to_dbos_filters q) row \<and> keeps q row = Inr True \<longleftrightarrow> query_holds q row"
proof -
  obtain d s where d: "row_status row = Some d" and s: "to_execution_status (row_status row) (row_error row) = Inr s"
    using proper_row_status [OF proper] .
  have search: "(case f_search (to_dbos_filters q) of None \<Rightarrow> True | Some d \<Rightarrow> \<forall>(n, v)\<in>set d. row_search row n v) \<longleftrightarrow>
      (\<forall>(n, v)\<in>set (q_search q). row_search row n v)" by (simp add: to_dbos_filters_def)
  have name: "(case f_name (to_dbos_filters q) of None \<Rightarrow> True | Some ns \<Rightarrow> row_name row \<in> Some ` set ns) \<longleftrightarrow>
      (case q_type_in q of None \<Rightarrow> True | Some ts \<Rightarrow> row_type row \<in> set ts)"
    using name_filter [OF proper] by (cases "q_type_in q") (simp_all add: to_dbos_filters_def)
  have pre: "(case f_prefix (to_dbos_filters q) of None \<Rightarrow> True | Some ps \<Rightarrow> \<exists>p\<in>set ps. prefix p (row_id row)) \<longleftrightarrow>
      (case q_prefix q of Some p \<Rightarrow> prefix p (row_id row)
       | None \<Rightarrow> (case q_chain q of Some c \<Rightarrow> prefix c (row_id row) | None \<Rightarrow> True))"
    by (simp add: to_dbos_filters_def split: option.split)
  have st: "(case f_status (to_dbos_filters q) of None \<Rightarrow> True | Some ss \<Rightarrow> row_status row \<in> Some ` set ss) \<longleftrightarrow>
      (case q_statuses q of None \<Rightarrow> True | Some ss \<Rightarrow> \<exists>x\<in>set ss. d \<in> set (temporal_to_dbos x))"
    using d by (cases "q_statuses q") (auto simp: to_dbos_filters_def)
  have rest: "f_workflow_ids (to_dbos_filters q) = None" "f_start (to_dbos_filters q) = q_start_lo q"
    "f_end (to_dbos_filters q) = q_start_hi q" "f_completed_after (to_dbos_filters q) = q_close_lo q"
    "f_completed_before (to_dbos_filters q) = q_close_hi q" using ids by (simp_all add: to_dbos_filters_def)
  have status: "(\<exists>x\<in>set ss. to_execution_status (row_status row) (row_error row) = Inr x) \<longleftrightarrow> s \<in> set ss" for ss
    using s by auto
  show ?thesis
  proof (cases "post_filter q = None")
    case True
    then have none: "\<not> needs_status q" "q_type_not_in q = []" "q_chain q = None"
      by (auto simp: post_filter_def split: if_splits)
    have "(case q_statuses q of None \<Rightarrow> True | Some ss \<Rightarrow> \<exists>x\<in>set ss. d \<in> set (temporal_to_dbos x)) \<longleftrightarrow>
       (case q_statuses q of None \<Rightarrow> True | Some ss \<Rightarrow> s \<in> set ss)"
      using none(1) status_filter(1) [OF d s] status_filter(2) [OF d s]
      unfolding needs_status_def by (cases "q_statuses q"; simp) blast
    then show ?thesis
      unfolding documented_listing_def query_holds_def search name pre st rest keeps_iff [OF s] status
      using True none by (cases "q_prefix q") simp_all
  next
    case False
    have 1: "(case q_chain q of Some c \<Rightarrow> in_chain c row | None \<Rightarrow> True) \<Longrightarrow>
      (case q_chain q of Some c \<Rightarrow> prefix c (row_id row) | None \<Rightarrow> True)"
      using in_chain_prefix by (auto split: option.splits)
    have 2: "(case q_statuses q of Some ss \<Rightarrow> s \<in> set ss | None \<Rightarrow> True) \<Longrightarrow>
      (case q_statuses q of None \<Rightarrow> True | Some ss \<Rightarrow> \<exists>x\<in>set ss. d \<in> set (temporal_to_dbos x))"
      using status_filter(1) [OF d s] by (auto split: option.splits)
    show ?thesis
      unfolding documented_listing_def query_holds_def search name pre st rest keeps_iff [OF s] status
      using False 1 2 by (auto split: option.split)
  qed
qed

subsection \<open>Clauses narrow the query\<close>

text \<open>
  A query keeps one chain, one id prefix and one value per search attribute: a second such clause
  replaces the first, so its meaning is only right when there was none.
\<close>

definition fresh_clause :: "vclause \<Rightarrow> vis_query \<Rightarrow> bool" where
  "fresh_clause c q \<longleftrightarrow>
     (case system_field (cl_field c) of
        Some WorkflowId \<Rightarrow> if cl_op c = ''='' then q_chain q = None else q_prefix q = None
      | None \<Rightarrow> dict_get (q_search q) (cl_field c) = None
      | _ \<Rightarrow> True)"

lemma tighten_lo_holds:
  assumes "tighten_lo l dt = Inr l'"
  shows "at_least l' t \<longleftrightarrow> at_least l t \<and> at_least (Some dt) t"
proof (cases l)
  case None
  with assms show ?thesis by (simp add: tighten_lo_def at_least_def)
next
  case (Some c)
  with assms have "l' = Some (if inst_at c < inst_at dt then dt else c)"
    by (auto simp: tighten_lo_def instant_less_def split: if_splits)
  with Some show ?thesis by (cases t) (auto simp: at_least_def)
qed

lemma tighten_hi_holds:
  assumes "tighten_hi l dt = Inr l'"
  shows "at_most l' t \<longleftrightarrow> at_most l t \<and> at_most (Some dt) t"
proof (cases l)
  case None
  with assms show ?thesis by (simp add: tighten_hi_def at_most_def)
next
  case (Some c)
  with assms have "l' = Some (if inst_at dt < inst_at c then dt else c)"
    by (auto simp: tighten_hi_def instant_less_def split: if_splits)
  with Some show ?thesis by (cases t) (auto simp: at_most_def)
qed

lemma bound_parts:
  assumes "apply_bounds op dt (lo, hi) = Inr (lo', hi')"
  shows "at_least lo' t \<and> at_most hi' t \<longleftrightarrow> at_least lo t \<and> at_most hi t \<and> bound_holds op dt t"
proof -
  have "op \<in> {''>'', ''>='', ''<'', ''<='', ''=''}" using assms by (auto simp: apply_bounds_def split: if_splits)
  then consider "op \<in> {''>'', ''>=''}" "tighten_lo lo dt = Inr lo'" "hi' = hi"
    | "op \<in> {''<'', ''<=''}" "tighten_hi hi dt = Inr hi'" "lo' = lo"
    | "op = ''=''" "tighten_lo lo dt = Inr lo'" "tighten_hi hi dt = Inr hi'"
    using assms by (auto simp: apply_bounds_def bind_result_Inr_iff)
  then show ?thesis
  proof cases
    case 1
    then show ?thesis using tighten_lo_holds [OF 1(2), of t] by (auto simp: bound_holds_def)
  next
    case 2
    then show ?thesis using tighten_hi_holds [OF 2(2), of t] by (auto simp: bound_holds_def)
  next
    case 3
    then show ?thesis using tighten_lo_holds [OF 3(2), of t] tighten_hi_holds [OF 3(3), of t]
      by (auto simp: bound_holds_def)
  qed
qed

lemma set_dict_set_new: "dict_get d k = None \<Longrightarrow> set (dict_set k v d) = insert (k, v) (set d)"
  by (induction d) (auto simp: dict_get_def split: if_splits)

lemma apply_type_holds:
  assumes "apply_type e op v q = Inr q'"
  shows "query_holds q' row \<longleftrightarrow> query_holds q row \<and>
     (if op = ''!='' then row_type row \<notin> set (map (py_str e) (values_of v))
      else row_type row \<in> set (map (py_str e) (values_of v)))"
proof -
  let ?ns = "map (py_str e) (values_of v)"
  consider "op = ''!=''" "q' = q\<lparr>q_type_not_in := q_type_not_in q @ ?ns\<rparr>"
    | "op \<noteq> ''!=''" "q_type_in q = None" "q' = q\<lparr>q_type_in := Some ?ns\<rparr>"
    | ts where "op \<noteq> ''!=''" "q_type_in q = Some ts" "q' = q\<lparr>q_type_in := Some (filter (\<lambda>t. t \<in> set ?ns) ts)\<rparr>"
    using assms by (cases "q_type_in q") (fastforce simp: apply_type_def Let_def split: if_splits)+
  then show ?thesis
    by cases (simp_all add: query_holds_def conj_ac del: set_map)
qed

lemma apply_id_holds:
  assumes "apply_id e op v q = Inr q'" and "if op = ''='' then q_chain q = None else q_prefix q = None"
  shows "query_holds q' row \<longleftrightarrow> query_holds q row \<and>
     (if op = ''='' then \<exists>n\<in>set (map (py_str e) (values_of v)). in_chain n row
      else \<exists>n\<in>set (map (py_str e) (values_of v)). prefix n (row_id row))"
proof -
  obtain x where x: "v = One x" using assms(1) by (auto simp: apply_id_def split: qvalue.splits)
  show ?thesis
    using assms x by (cases "op = ''=''") (auto simp: apply_id_def query_holds_def values_of_def split: if_splits)
qed

lemma map_result_Inr_set: "map_result f xs = Inr ys \<Longrightarrow> y \<in> set ys \<longleftrightarrow> (\<exists>x\<in>set xs. f x = Inr y)"
  by (induction xs arbitrary: ys) (auto simp: bind_result_Inr_iff)

lemma apply_status_holds:
  assumes "apply_status e op v q = Inr q'"
  shows "query_holds q' row \<longleftrightarrow> query_holds q row \<and>
     (\<exists>n\<in>set (map (py_str e) (values_of v)). \<exists>s. status_by_name (lower n) = Some s \<and>
        to_execution_status (row_status row) (row_error row) = Inr s)"
proof -
  obtain parsed where p: "map_result (status_value e) (values_of v) = Inr parsed"
    and q': "q' = q\<lparr>q_statuses := Some (case q_statuses q of
        None \<Rightarrow> remdups parsed | Some ss \<Rightarrow> filter (\<lambda>s. s \<in> set parsed) ss)\<rparr>"
    using assms by (auto simp: apply_status_def bind_result_Inr_iff split: if_splits)
  have "s \<in> set parsed \<longleftrightarrow> (\<exists>n\<in>set (map (py_str e) (values_of v)). status_by_name (lower n) = Some s)" for s
    using map_result_Inr_set [OF p] by (auto simp: status_value_def split: option.splits)
  then show ?thesis unfolding q' by (cases "q_statuses q") (auto simp: query_holds_def)
qed

lemma apply_time_holds:
  assumes "apply_time e start op v q = Inr q'"
  shows "query_holds q' row \<longleftrightarrow> query_holds q row \<and>
     (\<exists>dt. parse_datetime e v = Inr dt \<and>
        bound_holds op dt (if start then Some (row_created row) else row_closed row))"
proof (cases start)
  case True
  with assms obtain dt lo hi where d: "parse_datetime e v = Inr dt"
    and b: "apply_bounds op dt (q_start_lo q, q_start_hi q) = Inr (lo, hi)"
    and q': "q' = q\<lparr>q_start_lo := lo, q_start_hi := hi\<rparr>"
    by (auto simp: apply_time_def bind_result_Inr_iff)
  show ?thesis
    unfolding q' using d bound_parts [OF b, of "Some (row_created row)"] True by (auto simp: query_holds_def)
next
  case False
  with assms obtain dt lo hi where d: "parse_datetime e v = Inr dt"
    and b: "apply_bounds op dt (q_close_lo q, q_close_hi q) = Inr (lo, hi)"
    and q': "q' = q\<lparr>q_close_lo := lo, q_close_hi := hi\<rparr>"
    by (auto simp: apply_time_def bind_result_Inr_iff)
  show ?thesis
    unfolding q' using d bound_parts [OF b, of "row_closed row"] False by (auto simp: query_holds_def)
qed

lemma apply_search_holds:
  assumes "apply_search name op v q = Inr q'" and "dict_get (q_search q) name = None"
  shows "query_holds q' row \<longleftrightarrow> query_holds q row \<and> (\<exists>x. v = One x \<and> row_search row name x)"
  using assms
  by (auto simp: apply_search_def query_holds_def set_dict_set_new split: if_splits qvalue.splits)

lemma apply_clause_holds:
  assumes "apply_clause e (cl_field c) (cl_op c) (cl_value c) q = Inr q'" and "fresh_clause c q"
  shows "query_holds q' row \<longleftrightarrow> query_holds q row \<and> clause_holds e c row"
proof (cases "system_field (cl_field c)")
  case None
  then show ?thesis
    using assms apply_search_holds [of "cl_field c" "cl_op c" "cl_value c" q q' row]
    by (simp add: apply_clause_def clause_holds_def fresh_clause_def Let_def)
next
  case (Some f)
  then show ?thesis
    using assms apply_type_holds [of e "cl_op c" "cl_value c" q q' row]
      apply_id_holds [of e "cl_op c" "cl_value c" q q' row]
      apply_status_holds [of e "cl_op c" "cl_value c" q q' row]
      apply_time_holds [of e True "cl_op c" "cl_value c" q q' row]
      apply_time_holds [of e False "cl_op c" "cl_value c" q q' row]
    by (cases f) (simp_all add: apply_clause_def clause_holds_def fresh_clause_def Let_def)
qed

end
