(* ===== verification/Visibility_Queries.thy ===== *)
theory Visibility_Queries
  imports Visibility_Filters
begin

text \<open>
  Visibility queries from text to rows: the text of a conjunction of clauses parses to exactly these
  clauses, and the filters handed to DBOS together with the post-filter select exactly the rows all
  the clauses hold of.
\<close>

subsection \<open>Conjunctions\<close>

text \<open>The single-valued places of a parsed query that a clause fills.\<close>

datatype place = ChainPlace | PrefixPlace | AttributePlace string

definition places :: "vclause \<Rightarrow> place list" where
  "places c =
     (case system_field (cl_field c) of
        Some WorkflowId \<Rightarrow> if cl_op c = ''='' then [ChainPlace] else [PrefixPlace]
      | None \<Rightarrow> [AttributePlace (cl_field c)]
      | _ \<Rightarrow> [])"

fun place_free :: "vis_query \<Rightarrow> place \<Rightarrow> bool" where
  "place_free q ChainPlace \<longleftrightarrow> q_chain q = None"
| "place_free q PrefixPlace \<longleftrightarrow> q_prefix q = None"
| "place_free q (AttributePlace n) \<longleftrightarrow> dict_get (q_search q) n = None"

lemma fresh_clause_places: "fresh_clause c q \<longleftrightarrow> list_all (place_free q) (places c)"
  by (auto simp: fresh_clause_def places_def split: option.splits sys_field.splits)

lemma all_workflows_free: "place_free all_workflows p"
  by (cases p) (simp_all add: all_workflows_def dict_get_def)

text \<open>What each kind of clause leaves alone: the chain, the prefix, the attributes and the id list.\<close>

definition single_valued :: "vis_query \<Rightarrow> string option \<times> string option \<times> (string, scalar) dict \<times> string list option" where
  "single_valued q = (q_chain q, q_prefix q, q_search q, q_workflow_ids q)"

lemma apply_type_frame: "apply_type e op v q = Inr q' \<Longrightarrow> single_valued q' = single_valued q"
  by (auto simp: apply_type_def single_valued_def Let_def split: if_splits)

lemma apply_status_frame: "apply_status e op v q = Inr q' \<Longrightarrow> single_valued q' = single_valued q"
  by (auto simp: apply_status_def single_valued_def bind_result_Inr_iff split: if_splits)

lemma apply_time_frame: "apply_time e b op v q = Inr q' \<Longrightarrow> single_valued q' = single_valued q"
  by (auto simp: apply_time_def single_valued_def bind_result_Inr_iff split: if_splits)

lemma apply_id_frame:
  "apply_id e op v q = Inr q' \<Longrightarrow>
   \<exists>x. single_valued q' = (if op = ''='' then (Some x, q_prefix q, q_search q, q_workflow_ids q)
                         else (q_chain q, Some x, q_search q, q_workflow_ids q))"
  by (auto simp: apply_id_def single_valued_def split: if_splits qvalue.splits)

lemma apply_search_frame:
  "apply_search n op v q = Inr q' \<Longrightarrow>
   \<exists>x. single_valued q' = (q_chain q, q_prefix q, dict_set n x (q_search q), q_workflow_ids q)"
  by (auto simp: apply_search_def single_valued_def split: if_splits qvalue.splits)

lemma apply_clause_frame:
  assumes "apply_clause e (cl_field c) (cl_op c) (cl_value c) q = Inr q'"
  shows "q_workflow_ids q' = q_workflow_ids q \<and> (p \<notin> set (places c) \<longrightarrow> place_free q p \<longrightarrow> place_free q' p)"
proof -
  have same: ?thesis if "single_valued q' = single_valued q"
    using that by (cases p) (simp_all add: single_valued_def)
  show ?thesis
  proof (cases "system_field (cl_field c)")
    case None
    then have "apply_search (cl_field c) (cl_op c) (cl_value c) q = Inr q'" using assms by (simp add: apply_clause_def)
    from apply_search_frame [OF this] None show ?thesis
      by (cases p) (auto simp: places_def single_valued_def dict_get_set)
  next
    case (Some f)
    show ?thesis
    proof (cases f)
      case WorkflowId
      then have "apply_id e (cl_op c) (cl_value c) q = Inr q'" using assms Some by (simp add: apply_clause_def)
      from apply_id_frame [OF this] WorkflowId Some show ?thesis
        by (cases p) (auto simp: places_def single_valued_def split: if_splits)
    next
      case WorkflowType
      with assms Some show ?thesis by (intro same) (auto simp: apply_clause_def dest: apply_type_frame)
    next
      case ExecutionStatus
      with assms Some show ?thesis by (intro same) (auto simp: apply_clause_def dest: apply_status_frame)
    next
      case StartTime
      with assms Some show ?thesis by (intro same) (auto simp: apply_clause_def dest: apply_time_frame)
    next
      case CloseTime
      with assms Some show ?thesis by (intro same) (auto simp: apply_clause_def dest: apply_time_frame)
    qed
  qed
qed

lemma apply_clauses_holds:
  assumes "apply_clauses e cs q = Inr q'" "distinct (concat (map places cs))"
    and "list_all (place_free q) (concat (map places cs))"
  shows "(query_holds q' row \<longleftrightarrow> query_holds q row \<and> list_all (\<lambda>c. clause_holds e c row) cs) \<and>
    q_workflow_ids q' = q_workflow_ids q"
  using assms
proof (induction cs arbitrary: q)
  case Nil
  then show ?case by simp
next
  case (Cons c cs)
  then obtain q1 where q1: "apply_clause e (cl_field c) (cl_op c) (cl_value c) q = Inr q1"
    and rest: "apply_clauses e cs q1 = Inr q'" by (auto simp: bind_result_Inr_iff)
  have fresh: "fresh_clause c q" using Cons.prems(3) by (simp add: fresh_clause_places)
  have "list_all (place_free q1) (concat (map places cs))"
    using Cons.prems(2,3) apply_clause_frame [OF q1] by (fastforce simp: list_all_iff)
  then show ?case
    using Cons.IH [OF rest] Cons.prems(2) apply_clause_holds [OF q1 fresh, of row] apply_clause_frame [OF q1]
    by simp
qed

lemma query_holds_all: "query_holds all_workflows row"
  by (simp add: query_holds_def all_workflows_def at_least_def at_most_def)

subsection \<open>What a query asks for\<close>

text \<open>
  The meaning a clause has for its writer, by the documentation of the query language: \<open>WorkflowId = X\<close> asks for the runs
  of \<open>X\<close>, a type is the name a workflow was registered under, which is stored as \<open>wf:T\<close>, and \<open>>\<close> and \<open><\<close> are strict.
\<close>

fun status_names :: "execution_status \<Rightarrow> string list" where
  "status_names RUNNING = [''running'']"
| "status_names COMPLETED = [''completed'']"
| "status_names FAILED = [''failed'']"
| "status_names CANCELED = [''canceled'', ''cancelled'']"
| "status_names TERMINATED = [''terminated'']"
| "status_names CONTINUED_AS_NEW = [''continuedasnew'', ''continued_as_new'']"
| "status_names TIMED_OUT = [''timedout'', ''timed_out'']"

fun time_relation :: "string \<Rightarrow> rat \<Rightarrow> rat \<Rightarrow> bool" where
  "time_relation op t b \<longleftrightarrow> op = ''>'' \<and> b < t \<or> op = ''>='' \<and> b \<le> t \<or> op = ''<'' \<and> t < b \<or> op = ''<='' \<and> t \<le> b \<or> op = ''='' \<and> t = b"

definition time_means :: "vis_env \<Rightarrow> string \<Rightarrow> qvalue \<Rightarrow> instant option \<Rightarrow> bool" where
  "time_means e op v t \<longleftrightarrow>
     (\<exists>s b x. v = One (SStr s) \<and> ve_iso e s = Some b \<and> t = Some x \<and> time_relation op (inst_at x) (inst_at b))"

definition clause_means :: "vis_env \<Rightarrow> vclause \<Rightarrow> vis_row \<Rightarrow> bool" where
  "clause_means e c row \<longleftrightarrow>
     (let field = lower (cl_field c); op = cl_op c; v = cl_value c;
          named = (\<lambda>n. case v of One x \<Rightarrow> n = py_str e x | Many xs \<Rightarrow> \<exists>x\<in>set xs. n = py_str e x)
      in if field = ''workflowtype''
         then (\<exists>t. row_name row = Some (''wf:'' @ t) \<and> (if op = ''!='' then \<not> named t else named t))
         else if field = ''workflowid''
         then (\<exists>w. named w \<and> (if op = ''='' then \<exists>n. row_id row = run_dbos_id w n else prefix w (row_id row)))
         else if field = ''executionstatus''
         then (\<exists>s n. to_execution_status (row_status row) (row_error row) = Inr s \<and> named n \<and> lower n \<in> set (status_names s))
         else if field = ''starttime'' then time_means e op v (Some (row_created row))
         else if field = ''closetime'' then time_means e op v (row_closed row)
         else (\<exists>x. v = One x \<and> row_search row (cl_field c) x))"

text \<open>
  Where the code keeps more than the clause asks for: a \<open>WorkflowId\<close> clause also keeps the ids that extend a successor run,
  such as those of its children, and a strict bound also keeps the bound itself.
\<close>

definition overreach :: "vis_env \<Rightarrow> vclause \<Rightarrow> vis_row \<Rightarrow> bool" where
  "overreach e c row \<longleftrightarrow>
     (lower (cl_field c) = ''workflowid'' \<and> cl_op c = ''='' \<and>
        (\<exists>x. cl_value c = One x \<and> prefix (py_str e x @ ''--r'') (row_id row) \<and> (\<forall>n. row_id row \<noteq> run_dbos_id (py_str e x) n))) \<or>
     (lower (cl_field c) \<in> {''starttime'', ''closetime''} \<and> cl_op c \<in> {''>'', ''<''} \<and>
        time_means e ''='' (cl_value c) (if lower (cl_field c) = ''starttime'' then Some (row_created row) else row_closed row))"

lemma status_by_name_iff: "status_by_name n = Some s \<longleftrightarrow> n \<in> set (status_names s)"
  by (cases s) (auto simp: status_by_name_def)

lemma in_chain_iff:
  "in_chain w row \<longleftrightarrow> (\<exists>n. row_id row = run_dbos_id w n) \<or> (prefix (w @ ''--r'') (row_id row) \<and> (\<forall>n. row_id row \<noteq> run_dbos_id w n))"
proof -
  have "in_chain w row" if "row_id row = run_dbos_id w n" for n
    using that by (auto simp: in_chain_def run_dbos_id_def)
  moreover have "row_id row = run_dbos_id w 0 \<longleftrightarrow> row_id row = w" by (simp add: run_dbos_id_def)
  ultimately show ?thesis unfolding in_chain_def RUN_SEPARATOR_def by blast
qed

lemma time_holds_iff:
  assumes "op \<in> {''>'', ''>='', ''<'', ''<='', ''=''}"
  shows "(\<exists>dt. parse_datetime e v = Inr dt \<and> bound_holds op dt t) \<longleftrightarrow>
     time_means e op v t \<or> (op \<in> {''>'', ''<''} \<and> time_means e ''='' v t)"
proof (cases "\<exists>s b. v = One (SStr s) \<and> ve_iso e s = Some b")
  case True
  then obtain s b where v: "v = One (SStr s)" "ve_iso e s = Some b" by blast
  then have code: "(\<exists>dt. parse_datetime e v = Inr dt \<and> bound_holds op dt t) \<longleftrightarrow> bound_holds op b t" for op
    by (simp add: parse_datetime_def)
  have meant: "time_means e op v t \<longleftrightarrow> (case t of Some x \<Rightarrow> time_relation op (inst_at x) (inst_at b) | None \<Rightarrow> False)" for op
    using v by (simp add: time_means_def split: option.split)
  consider "op = ''>''" | "op = ''>=''" | "op = ''<''" | "op = ''<=''" | "op = ''=''" using assms by blast
  then show ?thesis unfolding code meant
    by cases (cases t; simp add: bound_holds_def at_least_def at_most_def; linarith?)+
next
  case False
  then have "parse_datetime e v \<noteq> Inr dt" for dt
    by (auto simp: parse_datetime_def split: qvalue.splits scalar.splits option.splits)
  with False show ?thesis by (auto simp: time_means_def)
qed

lemma system_fields:
  "system_field n = Some WorkflowType \<longleftrightarrow> lower n = ''workflowtype''" "system_field n = Some WorkflowId \<longleftrightarrow> lower n = ''workflowid''"
  "system_field n = Some ExecutionStatus \<longleftrightarrow> lower n = ''executionstatus''"
  "system_field n = Some StartTime \<longleftrightarrow> lower n = ''starttime''" "system_field n = Some CloseTime \<longleftrightarrow> lower n = ''closetime''"
  "system_field n = None \<longleftrightarrow> lower n \<notin> {''workflowtype'', ''workflowid'', ''executionstatus'', ''starttime'', ''closetime''}"
  by (auto simp: system_field_def)

lemma names_iff:
  "n \<in> set (map (py_str e) (values_of v)) \<longleftrightarrow> (case v of One x \<Rightarrow> n = py_str e x | Many xs \<Rightarrow> \<exists>x\<in>set xs. n = py_str e x)"
  by (auto simp: values_of_def split: qvalue.splits)

text \<open>A clause the parser accepts holds by the code's reading exactly when it is meant, or the code overreaches.\<close>

lemma clause_holds_means:
  assumes "apply_clause e (cl_field c) (cl_op c) (cl_value c) q = Inr q'" "proper_row row"
  shows "clause_holds e c row \<longleftrightarrow> clause_means e c row \<or> overreach e c row"
proof (cases "system_field (cl_field c)")
  case None
  then show ?thesis
    using system_fields(6) [of "cl_field c"] by (simp add: clause_holds_def clause_means_def overreach_def Let_def)
next
  case (Some f)
  have type: "row_name row = Some (''wf:'' @ row_type row)" using proper_row_type [OF assms(2)] by (simp add: type_name_def)
  show ?thesis
  proof (cases f)
    case WorkflowType
    with Some have lower: "lower (cl_field c) = ''workflowtype''" using system_fields by simp
    show ?thesis using Some WorkflowType type
      by (simp add: clause_holds_def clause_means_def overreach_def Let_def lower names_iff [symmetric] del: set_map)
  next
    case WorkflowId
    with Some have lower: "lower (cl_field c) = ''workflowid''" using system_fields by simp
    from assms(1) Some WorkflowId obtain x where x: "cl_value c = One x"
      by (auto simp: apply_clause_def apply_id_def split: qvalue.splits)
    show ?thesis using Some WorkflowId in_chain_iff [of "py_str e x" row]
      by (simp add: clause_holds_def clause_means_def overreach_def Let_def lower x values_of_def)
  next
    case ExecutionStatus
    with Some have lower: "lower (cl_field c) = ''executionstatus''" using system_fields by simp
    show ?thesis using Some ExecutionStatus
      by (simp add: clause_holds_def clause_means_def overreach_def Let_def lower names_iff [symmetric] status_by_name_iff del: set_map) blast
  next
    case StartTime
    with Some have lower: "lower (cl_field c) = ''starttime''" using system_fields by simp
    from assms(1) Some StartTime have op: "cl_op c \<in> {''>'', ''>='', ''<'', ''<='', ''=''}"
      by (auto simp: apply_clause_def apply_time_def apply_bounds_def bind_result_Inr_iff split: if_splits)
    show ?thesis using Some StartTime time_holds_iff [OF op]
      by (simp add: clause_holds_def clause_means_def overreach_def Let_def lower)
  next
    case CloseTime
    with Some have lower: "lower (cl_field c) = ''closetime''" using system_fields by simp
    from assms(1) Some CloseTime have op: "cl_op c \<in> {''>'', ''>='', ''<'', ''<='', ''=''}"
      by (auto simp: apply_clause_def apply_time_def apply_bounds_def bind_result_Inr_iff split: if_splits)
    show ?thesis using Some CloseTime time_holds_iff [OF op]
      by (simp add: clause_holds_def clause_means_def overreach_def Let_def lower)
  qed
qed

lemma clauses_hold_mean:
  "apply_clauses e cs q = Inr q' \<Longrightarrow> proper_row row \<Longrightarrow>
   list_all (\<lambda>c. clause_holds e c row) cs \<longleftrightarrow> list_all (\<lambda>c. clause_means e c row \<or> overreach e c row) cs"
  by (induction cs arbitrary: q) (auto simp: bind_result_Inr_iff clause_holds_means)


subsection \<open>Reading a written query\<close>

fun scalar_token :: "scalar \<Rightarrow> token" where
  "scalar_token (SStr s) = TokStr s"
| "scalar_token (SInt i) = TokInt i"
| "scalar_token (SFloat q) = TokFloat q"
| "scalar_token (SBool b) = TokIdent (if b then ''true'' else ''false'')"

fun list_tokens :: "scalar list \<Rightarrow> token list" where
  "list_tokens [] = [TokRParen]"
| "list_tokens [x] = [scalar_token x, TokRParen]"
| "list_tokens (x # xs) = scalar_token x # TokComma # list_tokens xs"

definition value_tokens :: "qvalue \<Rightarrow> token list" where
  "value_tokens v = (case v of One x \<Rightarrow> [scalar_token x] | Many xs \<Rightarrow> TokLParen # list_tokens xs)"

definition clause_tokens :: "vclause \<Rightarrow> token list" where
  "clause_tokens c =
     TokIdent (cl_field c) #
     (if cl_op c \<in> {''IN'', ''STARTS_WITH''} then TokIdent (cl_op c) else TokOp (cl_op c)) #
     value_tokens (cl_value c)"

fun query_tokens :: "vclause list \<Rightarrow> string option \<Rightarrow> token list" where
  "query_tokens [] g = (case g of None \<Rightarrow> [] | Some f \<Rightarrow> [TokIdent ''GROUP'', TokIdent ''BY'', TokIdent f])"
| "query_tokens (c # cs) g =
     clause_tokens c @ (if cs = [] then [] else [TokIdent ''AND'']) @ query_tokens cs g"

definition writable_clause :: "vclause \<Rightarrow> bool" where
  "writable_clause c \<longleftrightarrow>
     writable (TokIdent (cl_field c)) \<and> upper (cl_field c) \<notin> set KEYWORDS \<and>
     (case cl_value c of
        One x \<Rightarrow> (writable (TokOp (cl_op c)) \<or> cl_op c = ''STARTS_WITH'') \<and> writable (scalar_token x)
      | Many xs \<Rightarrow> cl_op c = ''IN'' \<and> list_all (\<lambda>x. (\<exists>s. x = SStr s) \<or> (\<exists>i. x = SInt i)) xs)"

definition group_clause :: "string option \<Rightarrow> vis_query \<Rightarrow> vis_query result" where
  "group_clause g q = (case g of None \<Rightarrow> Inr q | Some f \<Rightarrow> read_group [TokIdent ''BY'', TokIdent f] q)"

lemma read_list_tokens:
  "list_all (\<lambda>x. (\<exists>s. x = SStr s) \<or> (\<exists>i. x = SInt i)) xs \<Longrightarrow> read_list (list_tokens xs @ r) = Inr (xs, r)"
proof (induction xs rule: list_tokens.induct)
  case (3 x y ys)
  then obtain t ts where "list_tokens (y # ys) = t # ts" by (cases ys) auto
  with 3 show ?case by (auto simp: bind_result_def)
qed (auto simp: bind_result_def)

lemma ident_literal_bool [simp]:
  "ident_literal ''true'' = SBool True" "ident_literal ''false'' = SBool False"
  by (simp_all add: ident_literal_def lower_def lower_char_def Let_def)

lemma read_value_tokens:
  "writable_clause c \<Longrightarrow> read_value (cl_op c) (value_tokens (cl_value c) @ r) = Inr (cl_value c, r)"
proof (cases "cl_value c")
  case (One x)
  assume w: "writable_clause c"
  then have "cl_op c \<noteq> ''IN''" "writable (scalar_token x)" using One by (auto simp: writable_clause_def)
  then show ?thesis using One by (cases x) (auto simp: read_value_def value_tokens_def)
next
  case (Many xs)
  assume "writable_clause c"
  then show ?thesis using Many read_list_tokens [of xs r]
    by (simp add: read_value_def value_tokens_def writable_clause_def bind_result_def)
qed

lemma upper_words [simp]:
  "upper ''IN'' = ''IN''" "upper ''STARTS_WITH'' = ''STARTS_WITH''" "upper ''AND'' = ''AND''"
  "upper ''GROUP'' = ''GROUP''" "upper ''BY'' = ''BY''"
  by (simp_all add: upper_def upper_char_def Let_def)

lemma read_op_tokens:
  "read_op ((if cl_op c \<in> {''IN'', ''STARTS_WITH''} then TokIdent (cl_op c) else TokOp (cl_op c)) # r) =
   Inr (cl_op c, r)"
  by (auto simp: read_op_def)

text \<open>One clause, with whatever follows it.\<close>

lemma parse_one_clause:
  assumes "writable_clause c"
  shows "parse_clauses e (clause_tokens c @ r) q =
     bind_result (apply_clause e (cl_field c) (cl_op c) (cl_value c) q) (\<lambda>q'.
       (case r of
          [] \<Rightarrow> Inr q'
        | TokIdent w # ts3 \<Rightarrow>
            if upper w = ''AND'' then (if ts3 = [] then Inl VisibilityQueryError else parse_clauses e ts3 q')
            else if upper w = ''GROUP'' then parse_clauses e r q'
            else Inl VisibilityQueryError
        | _ \<Rightarrow> Inl VisibilityQueryError))"
proof -
  obtain t where t: "clause_tokens c = TokIdent (cl_field c) # t # value_tokens (cl_value c)"
    "\<And>r. read_op (t # r) = Inr (cl_op c, r)"
    using read_op_tokens [of c] unfolding clause_tokens_def by blast
  have field: "upper (cl_field c) \<noteq> ''GROUP''" "upper (cl_field c) \<notin> set KEYWORDS"
    using assms by (auto simp: writable_clause_def KEYWORDS_def)
  show ?thesis
    unfolding parse_clauses.simps [of e "clause_tokens c @ r"] bind_result_def
    using field by (simp only: t append_Cons list.case token.case if_False read_value_tokens [OF assms]
        sum.case prod.case HOL.simp_thms)
qed

lemma parse_query_tokens:
  assumes "list_all writable_clause cs"
  shows "parse_clauses e (query_tokens cs g) q = bind_result (apply_clauses e cs q) (group_clause g)"
  using assms
proof (induction cs arbitrary: q)
  case Nil
  then show ?case
    by (subst parse_clauses.simps, cases g, simp_all add: group_clause_def bind_result_def)
next
  case (Cons c cs)
  then have writable: "writable_clause c" by simp
  show ?case
  proof (cases cs)
    case Nil
    have "parse_clauses e (query_tokens [] g) q' = group_clause g q'" for q'
      using Cons.IH Nil by (simp add: bind_result_def)
    then have "parse_clauses e (clause_tokens c @ query_tokens [] g) q =
        bind_result (apply_clause e (cl_field c) (cl_op c) (cl_value c) q) (group_clause g)"
      unfolding parse_one_clause [OF writable]
      by (cases g) (simp_all add: group_clause_def bind_result_def split: sum.split)
    then show ?thesis using Nil by (simp add: bind_result_def split: sum.split)
  next
    case (Cons d ds)
    have split: "query_tokens (c # cs) g = clause_tokens c @ TokIdent ''AND'' # query_tokens cs g"
      and rest: "query_tokens cs g \<noteq> []" using Cons by (simp_all add: clause_tokens_def)
    have later: "parse_clauses e (query_tokens cs g) q' = bind_result (apply_clauses e cs q') (group_clause g)" for q'
      using Cons.IH Cons.prems by simp
    show ?thesis
      unfolding split parse_one_clause [OF writable]
      using rest by (simp add: later bind_result_def split: sum.split)
  qed
qed

lemma list_tokens_writable:
  "list_all (\<lambda>x. (\<exists>s. x = SStr s) \<or> (\<exists>i. x = SInt i)) xs \<Longrightarrow> list_all writable (list_tokens xs)"
  by (induction xs rule: list_tokens.induct) auto

lemma words_writable [simp]:
  "writable (TokIdent ''IN'')" "writable (TokIdent ''STARTS_WITH'')" "writable (TokIdent ''AND'')"
  "writable (TokIdent ''GROUP'')" "writable (TokIdent ''BY'')"
  by (simp_all add: ident_start_def ident_char_def is_alpha_def)

lemma clause_tokens_writable: "writable_clause c \<Longrightarrow> list_all writable (clause_tokens c)"
  using list_tokens_writable
  by (auto simp: writable_clause_def clause_tokens_def value_tokens_def simp del: writable.simps(1,3)
      split: qvalue.splits)

lemma query_tokens_writable:
  "list_all writable_clause cs \<Longrightarrow> pred_option (\<lambda>f. writable (TokIdent f)) g \<Longrightarrow> list_all writable (query_tokens cs g)"
  by (induction cs) (auto simp: clause_tokens_writable simp del: writable.simps(3) split: option.splits)

text \<open>
  A written query is read back. For every conjunction of clauses whose fields are
  identifiers that are not keywords and whose values are strings, integers or booleans, with an
  optional trailing \<open>GROUP BY\<close>, parsing the text applies exactly these clauses in their order and
  then the grouping, errors included: a clause with an unsupported operator, an unknown status or a
  bad time is an error of the whole query, and no string value can add or drop a clause.
\<close>

theorem parse_written_query:
  assumes "list_all writable_clause cs" and "pred_option (\<lambda>f. writable (TokIdent f)) g" and "cs \<noteq> [] \<or> g \<noteq> None"
  shows "parse_query e (Some (write_tokens (query_tokens cs g))) =
     bind_result (apply_clauses e cs all_workflows) (group_clause g)"
proof -
  let ?ts = "query_tokens cs g"
  have w: "list_all writable ?ts" using query_tokens_writable assms(1,2) .
  have "?ts \<noteq> []" using assms(3) by (cases cs) (auto simp: clause_tokens_def)
  then obtain c r where "write_tokens ?ts = c # r" "\<not> is_ws c" using write_tokens_nonblank [OF w] by blast
  then have "parse_query e (Some (write_tokens ?ts)) = bind_result (tokenize (write_tokens ?ts)) (\<lambda>ts. parse_clauses e ts all_workflows)"
    by (simp add: parse_query_def)
  then show ?thesis using tokenize_written [OF w] parse_query_tokens [OF assms(1)] by (simp add: bind_result_def)
qed

subsection \<open>Concrete queries and the edges of the language\<close>

text \<open>An environment whose times are written as one digit, or as two characters with a zone.\<close>

definition digit_times :: vis_env where
  "digit_times = \<lparr>
     ve_iso = (\<lambda>s. case s of
        [c] \<Rightarrow> Some (Instant (of_nat (of_char c)) False)
      | [c, d] \<Rightarrow> Some (Instant (of_nat (of_char c)) True)
      | _ \<Rightarrow> None),
     ve_float_str = (\<lambda>_. ''0.0'')\<rparr>"

definition order_row :: "string \<Rightarrow> vis_row" where
  "order_row w = \<lparr>row_id = w, row_name = Some ''wf:Order'', row_status = Some ''ERROR'',
     row_error = None, row_created = Instant 5 False, row_closed = Some (Instant 9 False),
     row_search = (\<lambda>n v. n = ''City'' \<and> v = SStr ''Oslo'')\<rparr>"

definition sample_clauses :: "vclause list" where
  "sample_clauses = [VClause ''WorkflowId'' ''='' (One (SStr ''w'')),
     VClause ''WorkflowType'' ''IN'' (Many [SStr ''Order'', SStr ''Pay'']),
     VClause ''City'' ''='' (One (SStr ''Oslo''))]"

lemma known_fields [simp]:
  "system_field ''WorkflowId'' = Some WorkflowId" "system_field ''WorkflowType'' = Some WorkflowType"
  "system_field ''City'' = None" "system_field ''StartTime'' = Some StartTime"
  by code_simp+

lemma lower_fields [simp]:
  "lower ''WorkflowId'' = ''workflowid''" "lower ''WorkflowType'' = ''workflowtype''" "lower ''City'' = ''city''"
  by code_simp+

lemma sample_writable: "list_all writable_clause sample_clauses"
  by (simp add: sample_clauses_def writable_clause_def; code_simp)

theorem parse_written_query_witness:
  "parse_query digit_times (Some (write_tokens (query_tokens sample_clauses (Some ''ExecutionStatus'')))) =
   bind_result (apply_clauses digit_times sample_clauses all_workflows) (group_clause (Some ''ExecutionStatus''))"
proof -
  have "writable (TokIdent ''ExecutionStatus'')" by code_simp
  then show ?thesis by (intro parse_written_query [OF sample_writable]) simp_all
qed


text \<open>
  A \<open>WorkflowId\<close> query reaches past the run chain: the post-filter accepts every id that
  starts with the run separator, so it also keeps the child workflows of continued runs, whose ids
  extend the ids of these runs, while it drops the children of the first run.
\<close>

theorem chain_filter_keeps_children:
  assumes "q_chain q = Some w" "q_statuses q = None" "q_type_not_in q = []" "n > 0"
  shows "keeps q (row\<lparr>row_id := child_dbos_id (run_dbos_id w n) k\<rparr>) = Inr True \<and>
    keeps q (row\<lparr>row_id := child_dbos_id (run_dbos_id w 0) k\<rparr>) = Inr False"
proof -
  have "keeps q r = Inr (in_chain w r)" for r
    using assms by (auto simp: keeps_def post_filter_def post_predicate_def bind_result_def)
  then show ?thesis
    using \<open>n > 0\<close> by (auto simp: in_chain_def child_dbos_id_def run_dbos_id_def RUN_SEPARATOR_def)
qed

theorem chain_filter_keeps_children_witness:
  "keeps (all_workflows\<lparr>q_chain := Some ''w''\<rparr>)
     ((order_row ''w'')\<lparr>row_id := child_dbos_id (run_dbos_id ''w'' 2) 3\<rparr>) = Inr True"
  using chain_filter_keeps_children [where q = "all_workflows\<lparr>q_chain := Some ''w''\<rparr>" and w = "''w''" and n = 2
      and row = "order_row ''w''" and k = 3]
  by (simp add: all_workflows_def)

text \<open>A second clause on a single-valued place replaces the first instead of narrowing it.\<close>

lemma repeated_clause_replaces:
  "apply_clauses e [VClause ''WorkflowId'' ''='' (One (SStr a)), VClause ''WorkflowId'' ''='' (One (SStr b))] q =
   apply_clauses e [VClause ''WorkflowId'' ''='' (One (SStr b))] q"
  by (simp add: apply_clause_def apply_id_def)

text \<open>No row has the status \<open>TimedOut\<close>, and bounds with and without a time zone cannot be mixed.\<close>

lemma timed_out_never: "to_execution_status s err \<noteq> Inr TIMED_OUT"
  by (auto simp: to_execution_status_def split: option.splits ledger_error.splits)

lemma mixed_bounds_crash:
  "apply_clauses digit_times [VClause ''StartTime'' ''>'' (One (SStr ''1'')),
     VClause ''StartTime'' ''>'' (One (SStr ''2Z''))] all_workflows = Inl TypeError"
  by (simp add: apply_clause_def apply_time_def parse_datetime_def digit_times_def apply_bounds_def tighten_lo_def
      instant_less_def all_workflows_def)

end
