(* ===== verification/Namespaces.thy ===== *)
theory Namespaces
  imports Prelude
begin

text \<open>
  Temporal namespaces and the DBOS system schemas backing them
  (\<open>dbosify/_internal/namespaces.py\<close>).
\<close>

definition SCHEMA_PREFIX :: string where "SCHEMA_PREFIX = ''dbosify_''"
definition MAX_NAMESPACE_LEN :: nat where "MAX_NAMESPACE_LEN = 63 - length SCHEMA_PREFIX"

text \<open>
  The pattern \<open>^[a-z_][a-z0-9_]*$\<close> under \<open>re.match\<close>: \<open>$\<close> also matches just before a newline that
  ends the string.
\<close>

definition ident_start :: "char \<Rightarrow> bool" where
  "ident_start c \<longleftrightarrow> c = CHR ''_'' \<or> (97 \<le> (of_char c :: nat) \<and> (of_char c :: nat) \<le> 122)"

definition ident_char :: "char \<Rightarrow> bool" where
  "ident_char c \<longleftrightarrow> ident_start c \<or> is_digit c"

fun is_ident :: "string \<Rightarrow> bool" where
  "is_ident [] = False"
| "is_ident (c # cs) = (ident_start c \<and> list_all ident_char cs)"

definition namespace_re_match :: "string \<Rightarrow> bool" where
  "namespace_re_match s \<longleftrightarrow>
     is_ident s \<or> (s \<noteq> [] \<and> last s = CHR 0x0A \<and> is_ident (butlast s))"

definition namespace_schema :: "string \<Rightarrow> string result" where
  "namespace_schema namespace =
     (if \<not> namespace_re_match namespace \<or> length namespace > MAX_NAMESPACE_LEN
      then Inl ValueError else Inr (SCHEMA_PREFIX @ namespace))"

definition namespace_from_schema :: "string option \<Rightarrow> string result" where
  "namespace_from_schema schema =
     (case schema of
        Some s \<Rightarrow>
          if prefix SCHEMA_PREFIX s
          then let namespace = drop (length SCHEMA_PREFIX) s
               in if namespace_re_match namespace \<and> length namespace \<le> MAX_NAMESPACE_LEN
                  then Inr namespace else Inl ValueError
          else Inl ValueError
      | None \<Rightarrow> Inl ValueError)"

text \<open>
  Namespaces and their schemas are in bijection: \<open>namespace_from_schema\<close> accepts a schema
  exactly when \<open>namespace_schema\<close> produces it, and gives back the namespace it was produced from.
  A produced schema fits the 63 byte limit of a Postgres identifier.
\<close>

theorem namespace_schema_inverse:
  "(namespace_from_schema schema = Inr ns \<longleftrightarrow> (\<exists>s. schema = Some s \<and> namespace_schema ns = Inr s)) \<and>
   (case namespace_schema ns of Inl e \<Rightarrow> e = ValueError | Inr s \<Rightarrow> length s \<le> 63)"
  by (auto simp: namespace_from_schema_def namespace_schema_def MAX_NAMESPACE_LEN_def
      SCHEMA_PREFIX_def prefix_def split: option.splits if_splits)

text \<open>
  The accepted namespaces are wider than \<open>[a-z_][a-z0-9_]*\<close>: since \<open>$\<close> also matches before
  a final newline, an identifier followed by a newline is accepted as well, and nothing else is.
\<close>

theorem namespace_trailing_newline:
  "namespace_schema ns = Inr s \<longleftrightarrow>
     s = ''dbosify_'' @ ns \<and> length ns \<le> 55 \<and>
     (\<exists>base. is_ident base \<and> (ns = base \<or> ns = base @ [CHR 0x0A]))"
proof -
  have "namespace_re_match ns \<longleftrightarrow> (\<exists>base. is_ident base \<and> (ns = base \<or> ns = base @ [CHR 0x0A]))"
    by (auto simp: namespace_re_match_def) (metis append_butlast_last_id)
  then show ?thesis
    by (auto simp: namespace_schema_def MAX_NAMESPACE_LEN_def SCHEMA_PREFIX_def)
qed

end
