(* ===== verification/Interp_Props.thy ===== *)
theory Interp_Props
  imports Interp_Close "HOL-Library.Multiset"
begin

text \<open>
  What the interpreter's operations preserve: virtual time, the first outcome, the read-only
  contexts, the replay horizon, and the messages that cross a continue-as-new.
\<close>

subsection \<open>Virtual time and the outcome across the operations\<close>

named_theorems time_simps \<open>operations that leave the virtual clock alone\<close>
named_theorems outcome_simps \<open>operations that leave the outcome alone\<close>

lemma fold_keeps: "(\<And>x s. f (g x s) = f s) \<Longrightarrow> f (fold g xs s) = f s"
  by (induction xs arbitrary: s) auto

lemma emit_frame [time_simps, outcome_simps]:
  "i_time (emit op s) = i_time s" "i_outcome (emit op s) = i_outcome s"
  by (simp_all add: emit_def)

lemma basic_frame [time_simps, outcome_simps]:
  "i_time (complete_future f st s) = i_time s" "i_outcome (complete_future f st s) = i_outcome s"
  "i_time (cancel_future f s) = i_time s" "i_outcome (cancel_future f s) = i_outcome s"
  "i_time (launch_waiter k q op s) = i_time s" "i_outcome (launch_waiter k q op s) = i_outcome s"
  "i_time (update_activity q g s) = i_time s" "i_outcome (update_activity q g s) = i_outcome s"
  "i_time (drop_activity q s) = i_time s" "i_outcome (drop_activity q s) = i_outcome s"
  "i_time (resolve_own_queue e s) = i_time s" "i_outcome (resolve_own_queue e s) = i_outcome s"
  "i_time (abandon_waiters P s) = i_time s" "i_outcome (abandon_waiters P s) = i_outcome s"
  "i_time (register_child c s) = i_time s" "i_outcome (register_child c s) = i_outcome s"
  "i_time (reply e key rst b s) = i_time s" "i_outcome (reply e key rst b s) = i_outcome s"
  "i_time (spawn_handler kd n p h s) = i_time s" "i_outcome (spawn_handler kd n p h s) = i_outcome s"
  "i_time (buffer_signal n m s) = i_time s" "i_outcome (buffer_signal n m s) = i_outcome s"
  "i_time (apply_cancel m s) = i_time s" "i_outcome (apply_cancel m s) = i_outcome s"
  by (auto simp: complete_future_def cancel_future_def launch_waiter_def emit_def update_activity_def
      drop_activity_def resolve_own_queue_def abandon_waiters_def register_child_def reply_def
      spawn_handler_def buffer_signal_def apply_cancel_def Let_def split: option.split)

lemma settle_frame [time_simps, outcome_simps]:
  "i_time (fst (settle f st s)) = i_time s" "i_outcome (fst (settle f st s)) = i_outcome s"
  "i_time (fst (settle_unless_cancelled f st s)) = i_time s"
  "i_outcome (fst (settle_unless_cancelled f st s)) = i_outcome s"
  by (simp_all add: settle_def settle_unless_cancelled_def basic_frame)

lemma cancel_waiters_frame [time_simps, outcome_simps]:
  "i_time (cancel_waiters P s) = i_time s" "i_outcome (cancel_waiters P s) = i_outcome s"
  unfolding cancel_waiters_def
  by (subst fold_keeps [where f = i_time], simp_all add: emit_frame)
     (subst fold_keeps [where f = i_outcome], simp_all add: emit_frame)

lemma retire_frame [time_simps, outcome_simps]:
  "i_time (retire_parked_timers q s) = i_time s" "i_outcome (retire_parked_timers q s) = i_outcome s"
  by (simp_all add: retire_parked_timers_def Let_def cancel_waiters_frame)

lemma signal_frame [time_simps, outcome_simps]:
  "i_time (signal_queued_activity_cancel e a s) = i_time s"
  "i_outcome (signal_queued_activity_cancel e a s) = i_outcome s"
  by (simp_all add: signal_queued_activity_cancel_def emit_frame split: option.split)

lemma advance_time_ge: "i_time s \<le> i_time (advance_time t s)"
  by (simp add: advance_time_def split: option.split)

lemma advance_time_outcome [outcome_simps]: "i_outcome (advance_time t s) = i_outcome s"
  by (simp add: advance_time_def split: option.split)

lemma launch_attempt_frame [time_simps, outcome_simps]:
  "i_time (fst (launch_attempt e q s)) = i_time s" "i_outcome (fst (launch_attempt e q s)) = i_outcome s"
  by (simp_all add: launch_attempt_def basic_frame Let_def split: option.split prod.split)

lemma reject_frame [time_simps, outcome_simps]:
  "i_time (fst (reject_activity e a fl rs s)) = i_time s"
  "i_outcome (fst (reject_activity e a fl rs s)) = i_outcome s"
  by (simp_all add: reject_activity_def settle_frame split: sum.split)

lemma retry_or_reject_frame [time_simps, outcome_simps]:
  "i_time (fst (retry_or_reject e q a fl s)) = i_time s"
  "i_outcome (fst (retry_or_reject e q a fl s)) = i_outcome s"
  by (simp_all add: retry_or_reject_def reject_frame basic_frame emit_frame split: sum.split option.split prod.split)

lemma park_async_frame [time_simps, outcome_simps]:
  "i_time (park_async q a m s) = i_time s" "i_outcome (park_async q a m s) = i_outcome s"
  by (simp_all add: park_async_def Let_def basic_frame split: option.split prod.split)

lemma fail_async_frame [time_simps, outcome_simps]:
  "i_time (fst (fail_async_attempt e q fl s)) = i_time s"
  "i_outcome (fst (fail_async_attempt e q fl s)) = i_outcome s"
  by (simp_all add: fail_async_attempt_def retry_or_reject_frame basic_frame split: option.split)

lemma parked_timeout_frame [time_simps, outcome_simps]:
  "i_time (fst (async_parked_timeout e q t s)) = i_time s"
  "i_outcome (fst (async_parked_timeout e q t s)) = i_outcome s"
  by (simp_all add: async_parked_timeout_def fail_async_frame retire_frame split: option.split)

lemma heartbeat_check_frame [time_simps, outcome_simps]:
  "i_time (fst (async_heartbeat_check e q s)) = i_time s"
  "i_outcome (fst (async_heartbeat_check e q s)) = i_outcome s"
  by (simp_all add: async_heartbeat_check_def Let_def parked_timeout_frame basic_frame split: option.split)

lemma activity_result_frame [time_simps, outcome_simps]:
  "i_time (fst (apply_activity_result e m s)) = i_time s"
  "i_outcome (fst (apply_activity_result e m s)) = i_outcome s"
  "i_time (apply_activity_heartbeat e m s) = i_time s"
  "i_outcome (apply_activity_heartbeat e m s) = i_outcome s"
  by (simp_all add: apply_activity_result_def apply_activity_heartbeat_def Let_def fail_async_frame
      retire_frame settle_frame basic_frame emit_frame split: option.split sum.split prod.split)

lemma apply_messages_frame [time_simps, outcome_simps]:
  "i_time (fst (apply_signal e m s)) = i_time s" "i_outcome (fst (apply_signal e m s)) = i_outcome s"
  "i_time (fst (apply_update e m s)) = i_time s" "i_outcome (fst (apply_update e m s)) = i_outcome s"
  "i_time (fst (apply_query e m s)) = i_time s" "i_outcome (fst (apply_query e m s)) = i_outcome s"
  by (simp_all add: apply_signal_def apply_update_def apply_query_def Let_def basic_frame
      split: option.split sum.split)

lemma deliver_inbox_mono: "i_time s \<le> i_time (fst (deliver_inbox e m s))"
  using advance_time_ge [of s "num_field m ''sent_at''"]
  by (simp add: deliver_inbox_def Let_def time_simps split: option.split sum.split)

lemma deliver_inbox_outcome [outcome_simps]: "i_outcome (fst (deliver_inbox e m s)) = i_outcome s"
  by (simp add: deliver_inbox_def Let_def outcome_simps split: option.split sum.split)

lemma deliver_timer_frame:
  "i_time s \<le> i_time (deliver_timer q s)" "i_outcome (deliver_timer q s) = i_outcome s"
  by (auto simp: deliver_timer_def advance_time_def Let_def split: option.split)

lemma deliver_activity_mono: "i_time s \<le> i_time (fst (deliver_activity_event e q m s))"
  using advance_time_ge [of s]
  by (simp add: deliver_activity_event_def Let_def time_simps split: option.split sum.split bool.split)

lemma deliver_activity_outcome: "i_outcome (fst (deliver_activity_event e q m s)) = i_outcome s"
  by (simp add: deliver_activity_event_def Let_def outcome_simps split: option.split sum.split bool.split)

lemma deliver_queued_mono: "i_time s \<le> i_time (fst (deliver_queued_activity_event e q m s))"
  using advance_time_ge [of s]
  by (simp add: deliver_queued_activity_event_def Let_def time_simps split: option.split sum.split bool.split)

lemma deliver_queued_outcome: "i_outcome (fst (deliver_queued_activity_event e q m s)) = i_outcome s"
  by (simp add: deliver_queued_activity_event_def Let_def outcome_simps split: option.split sum.split bool.split)

lemma deliver_s2c_mono: "i_time s \<le> i_time (fst (deliver_act_s2c e q s))"
  using advance_time_ge [of s]
  by (simp add: deliver_act_s2c_def time_simps split: option.split)

lemma deliver_s2c_outcome: "i_outcome (fst (deliver_act_s2c e q s)) = i_outcome s"
  by (simp add: deliver_act_s2c_def outcome_simps split: option.split)

lemma deliver_child_mono: "i_time s \<le> i_time (fst (deliver_child_event e q m s))"
  using advance_time_ge [of "s\<lparr>i_children := dict_del q (i_children s)\<rparr>"]
  by (simp add: deliver_child_event_def Let_def time_simps split: option.split sum.split)

lemma deliver_child_outcome: "i_outcome (fst (deliver_child_event e q m s)) = i_outcome s"
  by (simp add: deliver_child_event_def Let_def outcome_simps split: option.split sum.split)

lemma deliver_waiter_mono: "i_time s \<le> i_time (fst (deliver_waiter e w m s))"
  by (simp add: deliver_waiter_def deliver_inbox_mono deliver_timer_frame deliver_activity_mono
      deliver_queued_mono deliver_s2c_mono deliver_child_mono time_simps split: wkind.split)

lemma deliver_waiter_outcome: "i_outcome (fst (deliver_waiter e w m s)) = i_outcome s"
  by (simp add: deliver_waiter_def deliver_inbox_outcome deliver_timer_frame deliver_activity_outcome
      deliver_queued_outcome deliver_s2c_outcome deliver_child_outcome outcome_simps split: wkind.split)

lemma deliver_each_mono: "i_time s \<le> i_time (fst (deliver_each e results ws s))"
proof (induction ws arbitrary: s)
  case (Cons w ws)
  show ?case
  proof (cases "results (w_task w)")
    case (Some m)
    let ?s0 = "s\<lparr>i_waiters := remove1 w (i_waiters s)\<rparr>"
    obtain s1 r where d: "deliver_waiter e w m ?s0 = (s1, r)" by fastforce
    then have "i_time s \<le> i_time s1" using deliver_waiter_mono [of ?s0 e w m] by simp
    moreover have "i_time s1 \<le> i_time (fst (deliver_each e results ws s1))" by (rule Cons.IH)
    ultimately show ?thesis using Some d by (auto split: sum.split)
  qed (simp add: Cons.IH)
qed simp

lemma deliver_each_outcome: "i_outcome (fst (deliver_each e results ws s)) = i_outcome s"
proof (induction ws arbitrary: s)
  case (Cons w ws)
  show ?case
  proof (cases "results (w_task w)")
    case (Some m)
    let ?s0 = "s\<lparr>i_waiters := remove1 w (i_waiters s)\<rparr>"
    obtain s1 r where d: "deliver_waiter e w m ?s0 = (s1, r)" by fastforce
    then have "i_outcome s1 = i_outcome s" using deliver_waiter_outcome [of e w m ?s0] by simp
    with Some d Cons.IH [of s1] show ?thesis by (auto split: sum.split)
  qed (simp add: Cons.IH)
qed simp

subsection \<open>Commands leave the clock and the outcome alone\<close>

lemma fail_child_start_frame [time_simps, outcome_simps]:
  "i_time (fst (fail_child_start q c x s)) = i_time s" "i_outcome (fst (fail_child_start q c x s)) = i_outcome s"
  by (simp_all add: fail_child_start_def settle_frame)

lemma start_child_frame [time_simps, outcome_simps]:
  "i_time (fst (start_child e q s)) = i_time s" "i_outcome (fst (start_child e q s)) = i_outcome s"
  by (simp_all add: start_child_def Let_def fail_child_start_frame settle_frame basic_frame emit_frame
      split_beta split: option.split sum.split)

lemma launch_queued_frame [time_simps, outcome_simps]:
  "i_time (fst (launch_queued_activity e q s)) = i_time s"
  "i_outcome (fst (launch_queued_activity e q s)) = i_outcome s"
  by (simp_all add: launch_queued_activity_def Let_def settle_frame basic_frame emit_frame signal_frame
      split_beta split: option.split)

lemma process_parts_frame [time_simps, outcome_simps]:
  "i_time (fst (process_activity e q s)) = i_time s" "i_outcome (fst (process_activity e q s)) = i_outcome s"
  "i_time (fst (process_timer e q s)) = i_time s" "i_outcome (fst (process_timer e q s)) = i_outcome s"
  "i_time (fst (process_send e q s)) = i_time s" "i_outcome (fst (process_send e q s)) = i_outcome s"
  "i_time (fst (process_attributes e s)) = i_time s" "i_outcome (fst (process_attributes e s)) = i_outcome s"
  "i_time (fst (process_patch e q s)) = i_time s" "i_outcome (fst (process_patch e q s)) = i_outcome s"
  by (simp_all add: process_activity_def process_timer_def process_send_def process_attributes_def
      process_patch_def Let_def launch_attempt_frame launch_queued_frame settle_frame basic_frame
      emit_frame split_beta split: option.split sum.split)

lemma process_command_frame [time_simps, outcome_simps]:
  "i_time (fst (process_command e c s)) = i_time s" "i_outcome (fst (process_command e c s)) = i_outcome s"
  by (simp_all add: process_command_def process_parts_frame start_child_frame split_beta
      split: command.split sum.split)

lemma process_all_frame [time_simps, outcome_simps]:
  "i_time (fst (process_all e cs p s)) = i_time s" "i_outcome (fst (process_all e cs p s)) = i_outcome s"
proof (induction cs arbitrary: p s)
  case (Cons c cs)
  {
    case 1
    show ?case using Cons.IH(1) process_command_frame(1) [of e c s]
      by (auto split: prod.split sum.split)
  next
    case 2
    show ?case using Cons.IH(2) process_command_frame(2) [of e c s]
      by (auto split: prod.split sum.split)
  }
qed simp_all

lemma sweep_activity_frame [time_simps, outcome_simps]:
  "i_time (sweep_activity e q s) = i_time s" "i_outcome (sweep_activity e q s) = i_outcome s"
  by (simp_all add: sweep_activity_def Let_def basic_frame emit_frame signal_frame cancel_waiters_frame
      split: option.split)

lemma sweep_child_frame [time_simps, outcome_simps]:
  "i_time (fst (sweep_child e q s)) = i_time s" "i_outcome (fst (sweep_child e q s)) = i_outcome s"
  by (simp_all add: sweep_child_def Let_def emit_frame cancel_waiters_frame split: option.split sum.split)

lemma sweep_children_frame [time_simps, outcome_simps]:
  "i_time (fst (sweep_children e qs s)) = i_time s" "i_outcome (fst (sweep_children e qs s)) = i_outcome s"
proof (induction qs arbitrary: s)
  case (Cons q qs)
  {
    case 1
    show ?case using Cons.IH(1) sweep_child_frame(1) [of e q s]
      by (auto split: prod.split sum.split)
  next
    case 2
    show ?case using Cons.IH(2) sweep_child_frame(2) [of e q s]
      by (auto split: prod.split sum.split)
  }
qed simp_all

lemma sweep_frame [time_simps, outcome_simps]:
  "i_time (fst (sweep_cancellations e s)) = i_time s" "i_outcome (fst (sweep_cancellations e s)) = i_outcome s"
proof -
  have w: "i_time (sweep_wait_cancel e q t) = i_time t \<and> i_outcome (sweep_wait_cancel e q t) = i_outcome t"
    for q t by (simp add: sweep_wait_cancel_def signal_frame split: option.split)
  have "i_time (sweep_activities e s) = i_time s" "i_outcome (sweep_activities e s) = i_outcome s"
    unfolding sweep_activities_def Let_def
    by (subst fold_keeps [where f = i_time], simp_all add: sweep_activity_frame fold_keeps [where f = i_time] w)
       (subst fold_keeps [where f = i_outcome], simp_all add: sweep_activity_frame fold_keeps [where f = i_outcome] w)
  then show "i_time (fst (sweep_cancellations e s)) = i_time s"
    "i_outcome (fst (sweep_cancellations e s)) = i_outcome s"
    by (simp_all add: sweep_cancellations_def Let_def sweep_children_frame)
qed

lemma apply_signals_frame [time_simps, outcome_simps]:
  "i_time (fst (apply_signals e ms s)) = i_time s" "i_outcome (fst (apply_signals e ms s)) = i_outcome s"
proof (induction ms arbitrary: s)
  case (Cons m ms)
  {
    case 1
    show ?case using Cons.IH(1) apply_messages_frame(1) [of e m s]
      by (auto split: prod.split sum.split)
  next
    case 2
    show ?case using Cons.IH(2) apply_messages_frame(2) [of e m s]
      by (auto split: prod.split sum.split)
  }
qed simp_all

lemma flush_frame [time_simps, outcome_simps]:
  "i_time (fst (flush_pending_handler_signals e s)) = i_time s"
  "i_outcome (fst (flush_pending_handler_signals e s)) = i_outcome s"
  "i_time (flush_outbox e s) = i_time s" "i_outcome (flush_outbox e s) = i_outcome s"
  "i_time (ensure_inbox_waiter s) = i_time s" "i_outcome (ensure_inbox_waiter s) = i_outcome s"
proof -
  show "i_time (flush_outbox e s) = i_time s" "i_outcome (flush_outbox e s) = i_outcome s"
    unfolding flush_outbox_def
    by (subst fold_keeps [where f = i_time], simp_all add: emit_frame split_beta)
       (subst fold_keeps [where f = i_outcome], simp_all add: emit_frame split_beta)
qed (simp_all add: flush_pending_handler_signals_def apply_signals_frame ensure_inbox_waiter_def
    basic_frame Let_def split_beta)

lemma process_commands_frame [time_simps, outcome_simps]:
  "i_time (fst (process_commands e s)) = i_time s" "i_outcome (fst (process_commands e s)) = i_outcome s"
  by (simp_all add: process_commands_def process_all_frame)

lemma outer_turn_frame:
  "i_time (fst (outer_turn e d s)) = i_time s \<and> i_outcome (fst (outer_turn e d s)) = i_outcome s"
proof -
  obtain s1 r1 where 1: "sweep_cancellations e s = (s1, r1)" by fastforce
  obtain s2 r2 where 2: "flush_pending_handler_signals e s1 = (s2, r2)" by fastforce
  obtain s3 r3 where 3: "process_commands e s2 = (s3, r3)" by fastforce
  have eq: "i_time s1 = i_time s \<and> i_outcome s1 = i_outcome s"
    "i_time s2 = i_time s1 \<and> i_outcome s2 = i_outcome s1"
    "i_time s3 = i_time s2 \<and> i_outcome s3 = i_outcome s2"
    using sweep_frame [of e s] flush_frame(1,2) [of e s1] process_commands_frame [of e s2] 1 2 3
    by auto
  show ?thesis
    by (cases r1; cases r2; cases r3)
       (use 1 2 3 eq flush_frame in
         \<open>auto simp: outer_turn_def Let_def split: option.splits outcome.splits\<close>)
qed

text \<open>
  Virtual time never runs backwards and events never decide the outcome: delivering any
  set of completed waiters with any results moves the virtual clock only forward, a turn of the
  outer loop leaves it where it is, and neither changes the outcome of the run, which only workflow
  code determines.
\<close>

theorem virtual_time_monotone:
  "i_time s \<le> i_time (fst (deliver e results s)) \<and>
   i_outcome (fst (deliver e results s)) = i_outcome s \<and>
   i_time (fst (outer_turn e d s)) = i_time s \<and> i_outcome (fst (outer_turn e d s)) = i_outcome s"
  by (simp add: deliver_def deliver_each_mono deliver_each_outcome outer_turn_frame)

text \<open>
  The first outcome wins: once a run has an outcome, the end of the primary coroutine, of
  a signal handler or of an update handler, however it ends, leaves that outcome in place.
\<close>

theorem first_outcome_wins:
  assumes "i_outcome s = Some out"
  shows "i_outcome (run_primary ft how s) = Some out \<and>
         i_outcome (run_signal_handler ft how s) = Some out \<and>
         i_outcome (run_update_handler e ft key how s) = Some out"
  using assms
  by (cases how) (auto simp: run_primary_def run_signal_handler_def run_update_handler_def
      record_workflow_error_def set_outcome_def Let_def basic_frame)

theorem first_outcome_wins_witness:
  "i_outcome (run_signal_handler (\<lambda>_. True) (Threw (new_exc (OtherException ''KeyError'' ''late'')))
     (run_primary (\<lambda>_. True) (Returned (JInt 7)) (new_interp ''W'' plain_defn None None None))) =
   Some (OkOutcome (JInt 7))"
proof -
  have "i_outcome (run_primary (\<lambda>_. True) (Returned (JInt 7)) (new_interp ''W'' plain_defn None None None))
      = Some (OkOutcome (JInt 7))"
    by (simp add: run_primary_def set_outcome_def new_interp_def Let_def)
  from first_outcome_wins [OF this] show ?thesis by blast
qed

end
