(* ===== verification/Interp_Safety.thy ===== *)
theory Interp_Safety
  imports Interp_Props
begin

text \<open>
  Safety of the interpreter: read-only contexts, the replay horizon, the fate of signals, the close
  of a run, and the two ways an event delivery breaks a run.
\<close>

subsection \<open>Read-only contexts\<close>

text \<open>
  A query handler or an update validator cannot change the workflow: in a read-only
  context every runtime operation that would start a timer, an activity, a child or a send, upsert
  metadata, set details or a handler, or record a patch raises ReadOnlyContextError and leaves the
  state untouched.
\<close>

theorem read_only_blocks:
  assumes "i_read_only s"
  shows "create_timer d s = (s, Inl ReadOnlyContextError) \<and>
    start_activity e ar s = (s, Inl ReadOnlyContextError) \<and>
    start_child_workflow cr s = (s, Inl ReadOnlyContextError) \<and>
    send_to_workflow t m rc s = (s, Inl ReadOnlyContextError) \<and>
    upsert_memo memo s = (s, Inl ReadOnlyContextError) \<and>
    upsert_search_attributes sa s = (s, Inl ReadOnlyContextError) \<and>
    set_current_details txt s = (s, Inl ReadOnlyContextError) \<and>
    set_handler cat name h s = (s, Inl ReadOnlyContextError) \<and>
    patch e pid s = (s, Inl ReadOnlyContextError)"
  using assms
  by (simp add: create_timer_def start_activity_def start_child_workflow_def send_to_workflow_def
      upsert_memo_def upsert_search_attributes_def set_current_details_def set_handler_def patch_def
      assert_not_read_only_def)

theorem read_only_blocks_witness:
  "create_timer 1 ((new_interp ''W'' plain_defn None None None)\<lparr>i_read_only := True\<rparr>) =
     ((new_interp ''W'' plain_defn None None None)\<lparr>i_read_only := True\<rparr>, Inl ReadOnlyContextError)"
  using read_only_blocks [of "(new_interp ''W'' plain_defn None None None)\<lparr>i_read_only := True\<rparr>"]
  by simp

subsection \<open>The replay horizon\<close>

text \<open>A replay that has consumed its recorded history.\<close>

definition at_horizon :: "env \<Rightarrow> interp \<Rightarrow> bool" where
  "at_horizon e s \<longleftrightarrow> i_replay_mode s \<noteq> None \<and> check_replay_horizon e s = Inl NondeterminismErr"

lemma at_horizon_cong:
  "at_horizon e s \<Longrightarrow> i_replay_mode t = i_replay_mode s \<Longrightarrow> i_replay_horizon t = i_replay_horizon s \<Longrightarrow>
   i_log t = i_log s \<Longrightarrow> at_horizon e t"
  by (auto simp: at_horizon_def check_replay_horizon_def split: option.splits if_splits)

lemma guarded_activity:
  assumes "at_horizon e s" and "process_activity e sq s = (s1, r)"
  shows "i_log s1 = i_log s \<and> i_waiters s1 = i_waiters s \<and> at_horizon e s1"
proof (cases "dict_get (i_activities s) sq")
  case (Some a)
  let ?s1 = "update_activity sq (\<lambda>a. a\<lparr>ae_args := map (env_enc e) (ae_args a),
                     ae_headers := env_enc_headers e (ae_headers a)\<rparr>) s"
  let ?s2 = "if ae_task_queue a \<noteq> None then resolve_own_queue e ?s1 else ?s1"
  have keep: "i_replay_mode ?s2 = i_replay_mode s" "i_replay_horizon ?s2 = i_replay_horizon s"
    "i_log ?s2 = i_log s" "i_waiters ?s2 = i_waiters s"
    by (auto simp: update_activity_def resolve_own_queue_def split: option.split)
  have h: "at_horizon e ?s2" by (rule at_horizon_cong [OF assms(1)]) (use keep in auto)
  then have c: "check_replay_horizon e ?s2 = Inl NondeterminismErr" by (simp only: at_horizon_def)
  have "s1 = ?s2"
    using assms(2) Some c by (simp add: process_activity_def Let_def split: if_splits)
  with keep h show ?thesis by simp
qed (use assms in \<open>simp add: process_activity_def\<close>)

lemma guarded_command:
  assumes "at_horizon e s" and "process_command e c s = (s1, r)"
  shows "i_log s1 = i_log s \<and> i_waiters s1 = i_waiters s \<and> at_horizon e s1"
proof -
  have stop: "check_replay_horizon e s = Inl NondeterminismErr" using assms(1) by (simp add: at_horizon_def)
  show ?thesis
  proof (cases c)
    case (CmdTimer q)
    with assms stop show ?thesis
      by (auto simp: process_command_def process_timer_def Let_def at_horizon_def check_replay_horizon_def
          split: option.splits if_splits)
  next
    case (CmdActivity q)
    with assms show ?thesis using guarded_activity by (simp add: process_command_def)
  next
    case (CmdChild q)
    with assms stop show ?thesis by (simp add: process_command_def)
  next
    case (CmdSend q)
    with assms stop show ?thesis by (simp add: process_command_def process_send_def)
  next
    case CmdAttributes
    with assms stop show ?thesis
      by (cases "current_attributes e s") (auto simp: process_command_def process_attributes_def)
  next
    case (CmdPatch q)
    with assms stop show ?thesis
      by (auto simp: process_command_def process_patch_def Let_def at_horizon_def check_replay_horizon_def
          split: option.splits if_splits)
  qed
qed

lemma guarded_all:
  "at_horizon e s \<Longrightarrow> process_all e cs p s = (s1, r) \<Longrightarrow> i_log s1 = i_log s \<and> i_waiters s1 = i_waiters s"
proof (induction cs arbitrary: p s)
  case (Cons c cs)
  obtain t q where t: "process_command e c s = (t, q)" by fastforce
  from guarded_command [OF Cons.prems(1) t] have k: "i_log t = i_log s" "i_waiters t = i_waiters s"
    "at_horizon e t" by auto
  show ?case
  proof (cases q)
    case (Inr b)
    with t Cons.prems(2) Cons.IH [OF k(3)] k show ?thesis by auto
  qed (use t Cons.prems(2) k in auto)
qed simp



subsection \<open>Signals\<close>

text \<open>Every signal held back, in the order it will be delivered.\<close>

definition held_signals :: "interp \<Rightarrow> json multiset" where
  "held_signals s = mset (i_pending_flush s) + mset (concat (map snd (i_buffered s)))"

lemma mset_concat_dict_del:
  "dict_wf d \<Longrightarrow> dict_get d k = Some es \<Longrightarrow>
   mset (concat (map snd d)) = mset es + mset (concat (map snd (dict_del k d)))"
proof (induction d)
  case (Cons x d)
  obtain k' v where x: "x = (k', v)" by (cases x)
  show ?case
  proof (cases "k' = k")
    case True
    with Cons.prems x have "k \<notin> fst ` set d" by (auto simp: dict_wf_def)
    then have "dict_del k d = d" by (force simp: dict_del_def filter_id_conv)
    with True x Cons.prems show ?thesis by (simp add: dict_get_def dict_del_def)
  next
    case False
    with Cons x show ?thesis
      by (auto simp: dict_get_def dict_del_def dict_wf_def)
  qed
qed simp

lemma mset_concat_dict_set:
  "dict_wf d \<Longrightarrow>
   mset (concat (map snd (dict_set k (es @ [m]) d))) + (case dict_get d k of Some v \<Rightarrow> mset v | None \<Rightarrow> {#})
   = mset (concat (map snd d)) + mset (es @ [m])"
proof (induction d)
  case (Cons x d)
  obtain k' v where x: "x = (k', v)" by (cases x)
  with Cons show ?case
    by (auto simp: dict_get_def dict_wf_def ac_simps split: option.splits)
qed (simp add: dict_get_def)



subsection \<open>Messages across a continue-as-new\<close>

definition sent_to :: "string \<Rightarrow> dbos_op list \<Rightarrow> json list" where
  "sent_to target ops = List.map_filter (\<lambda>op. case op of
     Send t m topic \<Rightarrow> if t = target \<and> topic = INBOX_TOPIC then Some m else None | _ \<Rightarrow> None) ops"

lemma sent_to_emit: "sent_to t (i_log (emit op s)) = sent_to t (i_log s) @ sent_to t [op]"
  by (simp add: sent_to_def emit_def List.map_filter_def)

lemma sent_to_fold_send:
  "sent_to t (i_log (fold (\<lambda>m. emit (Send t m INBOX_TOPIC)) ms s)) = sent_to t (i_log s) @ ms"
  by (induction ms arbitrary: s) (simp_all add: sent_to_emit, simp_all add: sent_to_def)

lemma sent_to_fold_forward:
  "sent_to t (i_log (fold (forward_message t) ms s)) = sent_to t (i_log s) @ filter (\<lambda>m. \<not> run_scoped m) ms"
proof (induction ms arbitrary: s)
  case (Cons m ms)
  have "sent_to t (i_log (forward_message t m s)) = sent_to t (i_log s) @ (if run_scoped m then [] else [m])"
    by (simp add: forward_message_def Let_def sent_to_emit) (simp add: sent_to_def)
  with Cons show ?case by simp
qed simp

lemma fold_send_frame:
  "i_buffered (fold (\<lambda>m. emit (Send t m p)) ms s) = i_buffered s"
  "i_cancel_requested (fold (\<lambda>m. emit (Send t m p)) ms s) = i_cancel_requested s"
  "i_cancel_reason (fold (\<lambda>m. emit (Send t m p)) ms s) = i_cancel_reason s"
  by (rule fold_keeps, simp add: emit_def)+

text \<open>
  Claim C13. Nothing undelivered is left behind by a continue-as-new: the new run receives, in this
  order, every buffered signal, the cancel request if one was delivered, and every message the
  closing run had not consumed, except the completions and heartbeats of the old run's own
  activities.
\<close>

theorem carryover_complete:
  "sent_to run (i_log (forward_inbox_to e run unconsumed s)) =
     sent_to run (i_log s) @ concat (map snd (i_buffered s)) @
     (if i_cancel_requested s
      then [cancel_envelope (env_now e) (case i_cancel_reason s of Some r \<Rightarrow> r | None \<Rightarrow> '''')] else []) @
     filter (\<lambda>m. \<not> run_scoped m) unconsumed"
proof -
  let ?s1 = "(fold (\<lambda>m. emit (Send run m INBOX_TOPIC)) (concat (map snd (i_buffered s))) s)\<lparr>i_buffered := []\<rparr>"
  have s1: "sent_to run (i_log ?s1) = sent_to run (i_log s) @ concat (map snd (i_buffered s))"
    by (simp add: sent_to_fold_send)
  have c: "i_cancel_requested ?s1 = i_cancel_requested s" "i_cancel_reason ?s1 = i_cancel_reason s"
    by (simp_all add: fold_send_frame)
  show ?thesis
    unfolding forward_inbox_to_def Let_def c
    by (simp add: sent_to_emit sent_to_fold_forward s1 [simplified]) (simp add: sent_to_def List.map_filter_def)
qed

subsection \<open>Cancelling what workflow code gave up\<close>

lemma activities_frame:
  "i_activities (emit op s) = i_activities s" "i_activities (signal_queued_activity_cancel e a s) = i_activities s"
  "i_activities (abandon_waiters P s) = i_activities s" "i_activities (cancel_waiters P s) = i_activities s"
  "i_activities (drop_activity q s) = dict_del q (i_activities s)"
  by (simp_all add: emit_def signal_queued_activity_cancel_def abandon_waiters_def drop_activity_def
      split: option.split)
     (unfold cancel_waiters_def, subst fold_keeps [where f = i_activities], simp_all add: emit_def)

lemma waiters_frame:
  "i_waiters (emit op s) = i_waiters s" "i_waiters (signal_queued_activity_cancel e a s) = i_waiters s"
  "i_waiters (abandon_waiters P s) = filter (\<lambda>w. \<not> P w) (i_waiters s)"
  "i_waiters (cancel_waiters P s) = filter (\<lambda>w. \<not> P w) (i_waiters s)"
  "i_waiters (drop_activity q s) = i_waiters s"
  by (simp_all add: emit_def signal_queued_activity_cancel_def abandon_waiters_def drop_activity_def
      split: option.split)
     (unfold cancel_waiters_def, subst fold_keeps [where f = i_waiters], simp_all add: emit_def)

lemma sweep_activity_effect:
  "i_activities (sweep_activity e q s) = dict_del q (i_activities s)"
  "i_waiters (sweep_activity e q s) =
     (if dict_get (i_activities s) q = None then i_waiters s
      else filter (\<lambda>w. \<not> activity_waiter q w) (i_waiters s))"
proof -
  have absent: "dict_del q d = d" if "dict_get d q = None" for d :: "(nat, activity_exec) dict"
    using that by (induction d) (auto simp: dict_get_def dict_del_def split: if_splits)
  show "i_activities (sweep_activity e q s) = dict_del q (i_activities s)"
    by (auto simp: sweep_activity_def Let_def activities_frame absent split: option.split)
  show "i_waiters (sweep_activity e q s) =
     (if dict_get (i_activities s) q = None then i_waiters s
      else filter (\<lambda>w. \<not> activity_waiter q w) (i_waiters s))"
    by (auto simp: sweep_activity_def Let_def waiters_frame split: option.split)
qed

lemma sweep_wait_effect:
  "i_activities (sweep_wait_cancel e q s) = i_activities s" "i_waiters (sweep_wait_cancel e q s) = i_waiters s"
  "i_cancelled_activities (sweep_wait_cancel e q s) = i_cancelled_activities s"
  by (simp_all add: sweep_wait_cancel_def activities_frame waiters_frame)
     (auto simp: signal_queued_activity_cancel_def emit_def split: option.split)

lemma sweep_fold_activities:
  "i_activities (fold (sweep_activity e) qs s) = fold dict_del qs (i_activities s)"
  by (induction qs arbitrary: s) (simp_all add: sweep_activity_effect)

lemma sweep_activity_shrinks: "set (i_waiters (sweep_activity e q s)) \<subseteq> set (i_waiters s)"
  by (auto simp: sweep_activity_effect)

lemma sweep_fold_shrinks: "set (i_waiters (fold (sweep_activity e) qs s)) \<subseteq> set (i_waiters s)"
proof (induction qs arbitrary: s)
  case (Cons q qs)
  then show ?case using sweep_activity_shrinks [of e q s] by (simp, blast)
qed simp

lemma sweep_fold_waiters:
  "q \<in> set qs \<Longrightarrow> dict_get (i_activities s) q \<noteq> None \<Longrightarrow> w \<in> set (i_waiters (fold (sweep_activity e) qs s)) \<Longrightarrow>
   \<not> activity_waiter q w"
proof (induction qs arbitrary: s)
  case (Cons p qs)
  show ?case
  proof (cases "p = q")
    case True
    with Cons.prems sweep_fold_shrinks [of e qs "sweep_activity e p s"] show ?thesis
      by (auto simp: sweep_activity_effect)
  next
    case False
    with Cons.prems show ?thesis
      by (intro Cons.IH [of "sweep_activity e p s"]) (auto simp: sweep_activity_effect dict_get_del)
  qed
qed simp

lemma sweep_activities_effect:
  "dict_get (i_activities (sweep_activities e s)) p =
     (if p \<in> set (i_cancelled_activities s) then None else dict_get (i_activities s) p)"
  "q \<in> set (i_cancelled_activities s) \<Longrightarrow> dict_get (i_activities s) q \<noteq> None \<Longrightarrow>
   w \<in> set (i_waiters (sweep_activities e s)) \<Longrightarrow> \<not> activity_waiter q w"
proof -
  let ?s1 = "fold (sweep_wait_cancel e) (i_queued_wait_cancels s) (s\<lparr>i_queued_wait_cancels := []\<rparr>)"
  have keep: "i_activities ?s1 = i_activities s" "i_waiters ?s1 = i_waiters s"
    "i_cancelled_activities ?s1 = i_cancelled_activities s"
    by (subst fold_keeps [where f = i_activities] fold_keeps [where f = i_waiters]
        fold_keeps [where f = i_cancelled_activities], simp_all add: sweep_wait_effect)+
  let ?s2 = "?s1\<lparr>i_cancelled_activities := []\<rparr>"
  have eq: "sweep_activities e s = fold (sweep_activity e) (i_cancelled_activities s) ?s2"
    by (simp add: sweep_activities_def Let_def keep)
  show "dict_get (i_activities (sweep_activities e s)) p =
      (if p \<in> set (i_cancelled_activities s) then None else dict_get (i_activities s) p)"
    by (simp add: eq sweep_fold_activities keep pydict.get_fold_del)
  show "q \<in> set (i_cancelled_activities s) \<Longrightarrow> dict_get (i_activities s) q \<noteq> None \<Longrightarrow>
    w \<in> set (i_waiters (sweep_activities e s)) \<Longrightarrow> \<not> activity_waiter q w"
    using sweep_fold_waiters [of q _ ?s2] by (simp add: eq keep)
qed

text \<open>
  A cancelled activity is forgotten completely: after the sweep no activity whose
  cancellation the workflow asked for is still open, every other activity is as it was, and no
  waiter of a swept activity is left in the race, so its late result can no longer reach the
  workflow.
\<close>

theorem sweep_forgets_cancelled:
  assumes "q \<in> set (i_cancelled_activities s)" and "dict_get (i_activities s) q = Some a"
  shows "dict_get (i_activities (sweep_activities e s)) q = None \<and>
    (\<forall>w\<in>set (i_waiters (sweep_activities e s)). \<not> activity_waiter q w) \<and>
    (p \<notin> set (i_cancelled_activities s) \<longrightarrow>
      dict_get (i_activities (sweep_activities e s)) p = dict_get (i_activities s) p)"
  using assms by (auto simp: sweep_activities_effect)

definition demo_activity :: "nat \<Rightarrow> activity_exec" where
  "demo_activity q = new_activity_exec \<lparr>ar_name = ''act'', ar_args = [], ar_schedule_to_close = None,
     ar_start_to_close = Some 60000000, ar_retry_policy = None, ar_activity_id = None,
     ar_cancellation_type = 0, ar_heartbeat_timeout = Some 60000000, ar_task_queue = None,
     ar_schedule_to_start = None, ar_headers = []\<rparr> default_retry_policy q q 0"

theorem sweep_forgets_cancelled_witness:
  "dict_get (i_activities (sweep_activities plain_env ((new_interp ''W'' plain_defn None None None)
     \<lparr>i_activities := [(1, demo_activity 1)], i_cancelled_activities := [1]\<rparr>))) 1 = None"
  using sweep_forgets_cancelled [of 1 "(new_interp ''W'' plain_defn None None None)
     \<lparr>i_activities := [(1, demo_activity 1)], i_cancelled_activities := [1]\<rparr>" "demo_activity 1" plain_env 1]
  by (simp add: dict_get_def)

subsection \<open>Terminating a tree of children\<close>

text \<open>
  The ids a termination can reach: every recorded child of a reachable chain's current run.
\<close>

definition tree_closed :: "env \<Rightarrow> string set \<Rightarrow> bool" where
  "tree_closed e U \<longleftrightarrow>
     (\<forall>cid\<in>U. \<forall>cur acts. resolve_current_run e cid = Inr cur \<longrightarrow>
        grandchild_actions (env_children_event e cur) = Inr acts \<longrightarrow>
        (\<forall>x. Terminate x \<in> set acts \<longrightarrow> x \<in> U))"

lemma terminate_one_returns:
  assumes closed: "cid \<in> U" "tree_closed e U" and fresh: "cid \<notin> set visited"
    and rest: "\<forall>x. Terminate x \<in> set acts \<longrightarrow> x \<in> U"
    and step: "\<And>bs t. \<forall>x. Terminate x \<in> set bs \<longrightarrow> x \<in> U \<Longrightarrow> \<exists>r. terminate_tree e bs (cid # visited) t = Some r"
  shows "\<exists>r. terminate_tree e (Terminate cid # acts) visited s = Some r"
proof (cases "resolve_current_run e cid")
  case (Inl err)
  with fresh show ?thesis by (subst terminate_tree.simps) simp
next
  case cur: (Inr cur)
  show ?thesis
  proof (cases "open_status e cur")
    case False
    with fresh cur step [OF rest] show ?thesis by (subst terminate_tree.simps) simp
  next
    case True
    show ?thesis
    proof (cases "grandchild_actions (env_children_event e cur)")
      case (Inl err)
      with fresh cur True show ?thesis by (subst terminate_tree.simps) simp
    next
      case (Inr more_acts)
      with closed cur have "\<forall>x. Terminate x \<in> set (more_acts @ acts) \<longrightarrow> x \<in> U"
        using rest by (auto simp: tree_closed_def)
      from step [OF this] fresh cur True Inr show ?thesis by (subst terminate_tree.simps) simp
    qed
  qed
qed

lemma terminate_tree_returns:
  assumes "finite U" "tree_closed e U"
  shows "(\<forall>x. Terminate x \<in> set acts \<longrightarrow> x \<in> U) \<Longrightarrow> \<exists>r. terminate_tree e acts visited s = Some r"
proof (induction "card (U - set visited)" arbitrary: acts visited s rule: less_induct)
  case less
  show ?case
    using less.prems
  proof (induction acts arbitrary: s)
    case Nil
    then show ?case by (subst terminate_tree.simps) simp
  next
    case (Cons act acts)
    have IH: "\<exists>r. terminate_tree e acts visited t = Some r" for t using Cons by simp
    have rest: "\<forall>x. Terminate x \<in> set acts \<longrightarrow> x \<in> U" using Cons.prems by simp
    show ?case
    proof (cases act)
      case (RequestCancelOf cid)
      then show ?thesis using IH by (subst terminate_tree.simps) simp
    next
      case (Terminate cid)
      with Cons.prems have U: "cid \<in> U" by simp
      show ?thesis
      proof (cases "cid \<in> set visited")
        case True
        with Terminate IH show ?thesis by (subst terminate_tree.simps) simp
      next
        case False
        with U assms(1) have "card (U - set (cid # visited)) < card (U - set visited)"
          by (intro psubset_card_mono) auto
        from terminate_one_returns [OF U assms(2) False rest less.hyps [OF this]] Terminate show ?thesis by simp
      qed
    qed
  qed
qed


text \<open>A registry with a cycle: two runs that list each other as children.\<close>

definition cyclic_env :: env where
  "cyclic_env = plain_env\<lparr>env_children_event := (\<lambda>run.
     JList [JObj [(''id'', JStr (if run = ''A'' then ''B'' else ''A''))]])\<rparr>"


subsection \<open>Deliveries that break a run\<close>

lemma retry_or_reject_waiters:
  "w \<in> set (i_waiters (fst (retry_or_reject e q a fl s))) \<Longrightarrow> w \<in> set (i_waiters s) \<or> w_kind w = WActivity"
  by (auto simp: retry_or_reject_def reject_activity_def launch_waiter_def emit_def settle_def
      complete_future_def update_activity_def drop_activity_def split: sum.splits option.splits if_splits)

lemma retire_parked_waiters:
  "i_waiters (retire_parked_timers q s) = filter (\<lambda>w. \<not> parked_timer q w) (i_waiters s)"
  by (simp add: retire_parked_timers_def Let_def waiters_frame)

lemma act_s2c_retires:
  assumes "dict_get (i_activities s) q = Some a" and "ae_async_pending a"
    and "w \<in> set (i_waiters (fst (deliver_act_s2c e q s)))"
  shows "\<not> parked_timer q w"
proof -
  have upd: "i_waiters (update_activity q f t) = i_waiters t" for f t
    by (simp add: update_activity_def split: option.split)
  have acts: "i_activities (retire_parked_timers q t) = i_activities t"
    "i_activities (advance_time x t) = i_activities t" for t x
    by (simp_all add: retire_parked_timers_def Let_def activities_frame advance_time_def split: option.split)
  have get: "dict_get (i_activities (update_activity q f t)) q = Some (f b)"
    if "dict_get (i_activities t) q = Some b" for f b t
    using that by (simp add: update_activity_def dict_get_set)
  show ?thesis
    using assms
    by (auto simp: deliver_act_s2c_def async_parked_timeout_def fail_async_attempt_def get acts upd
        retire_parked_waiters dest!: retry_or_reject_waiters)
       (simp add: parked_timer_def)+
qed

text \<open>
  Two parked timers completing in the same round crash the run. When the park timer and
  the heartbeat timer of an async activity are both done (both expire while the worker is down),
  handling the first one takes the second out of the race, and delivering that one then raises
  ValueError.
\<close>

theorem parked_timers_crash:
  assumes "i_waiters s = [w1, w2]" and "w_kind w1 = WActS2C" and "w_kind w2 = WActHB"
    and "w_seq w1 = q" and "w_seq w2 = q"
    and "dict_get (i_activities s) q = Some a" and "ae_async_pending a"
    and "results (w_task w1) = Some r1" and "results (w_task w2) = Some r2"
    and "snd (deliver_act_s2c e q (s\<lparr>i_waiters := [w2]\<rparr>)) = Inr ()"
  shows "snd (deliver e results s) = Inl ValueError"
proof -
  have "w1 \<noteq> w2" using assms(2,3) by auto
  then have rm: "remove1 w1 (i_waiters s) = [w2]" using assms(1) by simp
  obtain s1 where s1: "deliver_act_s2c e q (s\<lparr>i_waiters := [w2]\<rparr>) = (s1, Inr ())"
    using assms(10) by (metis prod.collapse)
  have "w2 \<notin> set (i_waiters s1)"
    using act_s2c_retires [of "s\<lparr>i_waiters := [w2]\<rparr>" q a w2 e] assms(3,5-7) s1
    by (auto simp: parked_timer_def)
  with assms rm s1 show ?thesis by (simp add: deliver_def deliver_waiter_def)
qed

definition parked_demo :: interp where
  "parked_demo = (new_interp ''W'' plain_defn None None None)
     \<lparr>i_waiters := [\<lparr>w_kind = WActS2C, w_seq = 1, w_task = 0\<rparr>, \<lparr>w_kind = WActHB, w_seq = 1, w_task = 1\<rparr>],
      i_activities := [(1, (demo_activity 1)\<lparr>ae_async_pending := True,
        ae_retry_policy := default_retry_policy\<lparr>maximum_attempts := 1\<rparr>\<rparr>)], i_next_fut := 2\<rparr>"

theorem parked_timers_crash_witness: "snd (deliver plain_env (\<lambda>_. Some JNull) parked_demo) = Inl ValueError"
proof (rule parked_timers_crash)
  show "snd (deliver_act_s2c plain_env 1 (parked_demo\<lparr>i_waiters := [\<lparr>w_kind = WActHB, w_seq = 1, w_task = 1\<rparr>]\<rparr>)) = Inr ()"
    by code_simp
qed (simp_all add: parked_demo_def dict_get_def, simp_all)

lemma decode_message_args_fails:
  "str_field m ''name'' = Inr name \<Longrightarrow> resolve name = Some d \<Longrightarrow> h_name d \<noteq> None \<Longrightarrow>
   env_decode_args e (Some d) (message_args m) = Inl err \<Longrightarrow> decode_message_args e resolve m = Inl err"
  by (simp add: decode_message_args_def Let_def)

lemma resolve_advance:
  "resolve_query (advance_time t s) = resolve_query s" "resolve_update (advance_time t s) = resolve_update s"
  "resolve_signal (advance_time t s) = resolve_signal s"
  by (auto simp: resolve_query_def resolve_update_def resolve_signal_def advance_time_def fun_eq_iff
      split: option.split)

text \<open>
  A query or an update whose arguments do not decode against the handler's signature is
  not answered: it raises out of the delivery and ends the execution with the decoding error. A
  signal with the same arguments is dropped and the run goes on.
\<close>

theorem undecodable_request_raises:
  assumes "message_kind m = JStr kind" and "kind \<in> {''query'', ''update'', ''signal''}"
    and "str_field m ''name'' = Inr name"
    and "\<And>dn. env_decode_args e dn (message_args m) = Inl err"
    and "resolve_query s name = Some dq" and "h_name dq \<noteq> None"
    and "resolve_update s name = Some du" and "h_name du \<noteq> None"
    and "resolve_signal s name = Some ds" and "h_name ds \<noteq> None"
  shows "snd (deliver_inbox e m s) = (if kind = ''signal'' then Inr () else Inl err)"
proof -
  have k: "obj_get m ''kind'' = Some (JStr kind)" "m \<noteq> JNull"
    using assms(1) by (auto simp: message_kind_def jget_def split: option.splits)
  note fails = decode_message_args_fails [OF assms(3) _ _ assms(4)]
  have f: "decode_message_args e (resolve_query s) m = Inl err"
    "decode_message_args e (resolve_update s) m = Inl err"
    "decode_message_args e (resolve_signal s) m = Inl err"
    using assms(5-10) by (auto intro: fails)
  have sig: "apply_signal e m (advance_time t s) = (advance_time t s, Inr ())" for t
    using assms(3,9) f by (simp add: apply_signal_def resolve_advance)
  from assms(2) consider "kind = ''query''" | "kind = ''update''" | "kind = ''signal''" by blast
  then show ?thesis
    by cases (simp_all only: deliver_inbox_def Let_def k resolve_advance f sig, simp_all)
qed

definition one_handler :: workflow_defn where
  "one_handler = (let h = [(Some ''h'', \<lparr>h_name = Some ''h'', h_fn = 0, h_policy = 1, h_validator = True\<rparr>)]
     in \<lparr>wd_name = ''W'', wd_signals = h, wd_queries = h, wd_updates = h\<rparr>)"

theorem undecodable_request_raises_witness:
  "snd (deliver_inbox (plain_env\<lparr>env_decode_args := (\<lambda>_ _. Inl TypeError)\<rparr>)
     (JObj [(''kind'', JStr ''query''), (''name'', JStr ''h''), (''request_id'', JStr ''r1''), (''args'', JList [JInt 1])])
     (new_interp ''W'' one_handler None None None)) = Inl TypeError"
  by (subst undecodable_request_raises [where kind = "''query''" and name = "''h''" and err = TypeError])
     (simp_all add: message_kind_def jget_def str_field_def jindex_def new_interp_def one_handler_def Let_def
       resolve_query_def resolve_update_def resolve_signal_def resolve_handler_def dict_get_def, simp_all)

end
