(* ===== verification/Interp_Futures.thy ===== *)
theory Interp_Futures
  imports Interp_Props
begin

text \<open>
  Who settles a future. Every future the interpreter hands to workflow code has one owner: an open
  activity, a child (one future for its start, one for its result) or a send. The lemmas show that
  the operations keep the owners apart, so that no future is settled twice and \<open>InvalidStateError\<close>
  never escapes.
\<close>

subsection \<open>Owners\<close>

datatype owner = OAct nat | OChild nat | OStart nat | OSend nat

fun owner_fut :: "interp \<Rightarrow> owner \<Rightarrow> nat option" where
  "owner_fut s (OAct q) = map_option ae_future (dict_get (i_activities s) q)"
| "owner_fut s (OChild q) = map_option ce_result_future (dict_get (i_children s) q)"
| "owner_fut s (OStart q) =
     (case dict_get (i_children s) q of
        Some c \<Rightarrow> if ce_started c then None else Some (ce_start_future c)
      | None \<Rightarrow> None)"
| "owner_fut s (OSend q) = map_option (\<lambda>(_, _, f, _). f) (dict_get (i_sends s) q)"

definition futs_ok :: "interp \<Rightarrow> bool" where
  "futs_ok s \<longleftrightarrow>
     dict_wf (i_activities s) \<and>
     (\<forall>p f. owner_fut s p = Some f \<longrightarrow> f < i_next_fut s \<and> i_futs s f \<in> {Pending, FutCancelled}) \<and>
     (\<forall>p p' f. owner_fut s p = Some f \<longrightarrow> owner_fut s p' = Some f \<longrightarrow> p = p')"

lemma futs_okD: "futs_ok s \<Longrightarrow> owner_fut s p = Some f \<Longrightarrow> f < i_next_fut s \<and> i_futs s f \<in> {Pending, FutCancelled}"
  unfolding futs_ok_def by blast

text \<open>The activities of a run that waits for events are all undecided.\<close>

definition acts_pending :: "interp \<Rightarrow> bool" where
  "acts_pending s \<longleftrightarrow> (\<forall>q f. owner_fut s (OAct q) = Some f \<longrightarrow> i_futs s f = Pending)"

text \<open>What only workflow code changes: the commands, the counters, the callbacks, the future supply.\<close>

definition loop_view :: "interp \<Rightarrow> _" where
  "loop_view s = (i_commands s, i_seqs s, i_callbacks s, i_next_fut s)"

lemma loop_view_updates [simp]:
  "loop_view (s\<lparr>i_activities := a\<rparr>) = loop_view s" "loop_view (s\<lparr>i_children := b\<rparr>) = loop_view s"
  "loop_view (s\<lparr>i_sends := c\<rparr>) = loop_view s" "loop_view (s\<lparr>i_futs := d\<rparr>) = loop_view s"
  "loop_view (s\<lparr>i_ready := r\<rparr>) = loop_view s"
  by (simp_all add: loop_view_def)

text \<open>A step that creates no owner and touches only futures whose owner it gives up.\<close>

definition releases :: "interp \<Rightarrow> interp \<Rightarrow> bool" where
  "releases s s' \<longleftrightarrow>
     (dict_wf (i_activities s) \<longrightarrow> dict_wf (i_activities s')) \<and> loop_view s' = loop_view s \<and>
     (\<forall>p f. owner_fut s' p = Some f \<longrightarrow> owner_fut s p = Some f \<and> i_futs s' f = i_futs s f)"

definition unowned :: "nat \<Rightarrow> interp \<Rightarrow> bool" where
  "unowned f s \<longleftrightarrow> (\<forall>p. owner_fut s p \<noteq> Some f)"

named_theorems releasing \<open>operations that only release futures\<close>

lemma releases_refl [simp, releasing]: "releases s s"
  by (simp add: releases_def)

lemma releases_trans: "releases s t \<Longrightarrow> releases t u \<Longrightarrow> releases s u"
  unfolding releases_def by (metis (no_types))

lemma loop_view_next: "loop_view t = loop_view s \<Longrightarrow> i_next_fut t = i_next_fut s"
  by (simp add: loop_view_def)

lemma releases_ok: "releases s t \<Longrightarrow> futs_ok s \<Longrightarrow> futs_ok t"
  unfolding releases_def futs_ok_def by (metis (no_types) loop_view_next)

lemma releases_pending: "releases s t \<Longrightarrow> acts_pending s \<Longrightarrow> acts_pending t"
  unfolding releases_def acts_pending_def by (metis (no_types))

lemma releases_unowned: "releases s t \<Longrightarrow> unowned f s \<Longrightarrow> unowned f t"
  unfolding releases_def unowned_def by (metis (no_types))

text \<open>The part of the state the ownership is read off.\<close>

definition fut_view :: "interp \<Rightarrow> _" where
  "fut_view s = (i_activities s, i_children s, i_sends s, i_futs s, loop_view s)"

lemma releases_view: "fut_view t = fut_view s \<Longrightarrow> releases s t"
proof -
  assume "fut_view t = fut_view s"
  then have "owner_fut t p = owner_fut s p" for p by (cases p) (auto simp: fut_view_def)
  with \<open>fut_view t = fut_view s\<close> show ?thesis by (simp add: releases_def fut_view_def)
qed

lemma releases_view_right: "releases s t \<Longrightarrow> fut_view u = fut_view t \<Longrightarrow> releases s u"
  using releases_trans releases_view by blast

named_theorems fut_simps \<open>operations that leave the futures and their owners alone\<close>

lemma view_updates [fut_simps, simp]:
  "fut_view (s\<lparr>i_time := x1\<rparr>) = fut_view s" "fut_view (s\<lparr>i_ready := x2\<rparr>) = fut_view s"
  "fut_view (s\<lparr>i_next_task := x3\<rparr>) = fut_view s" "fut_view (s\<lparr>i_timers := x4\<rparr>) = fut_view s"
  "fut_view (s\<lparr>i_outbox := x6\<rparr>) = fut_view s"
  "fut_view (s\<lparr>i_waiters := x7\<rparr>) = fut_view s" "fut_view (s\<lparr>i_buffered := x8\<rparr>) = fut_view s"
  "fut_view (s\<lparr>i_pending_flush := x9\<rparr>) = fut_view s" "fut_view (s\<lparr>i_seen_updates := x10\<rparr>) = fut_view s"
  "fut_view (s\<lparr>i_inflight := x11\<rparr>) = fut_view s" "fut_view (s\<lparr>i_read_only := x12\<rparr>) = fut_view s"
  "fut_view (s\<lparr>i_cancel_requested := x13\<rparr>) = fut_view s" "fut_view (s\<lparr>i_cancel_reason := x14\<rparr>) = fut_view s"
  "fut_view (s\<lparr>i_cancelled_activities := x15\<rparr>) = fut_view s"
  "fut_view (s\<lparr>i_queued_wait_cancels := x16\<rparr>) = fut_view s" "fut_view (s\<lparr>i_abandoned := x17\<rparr>) = fut_view s"
  "fut_view (s\<lparr>i_children_registry := x18\<rparr>) = fut_view s" "fut_view (s\<lparr>i_cancelled_children := x19\<rparr>) = fut_view s"
  "fut_view (s\<lparr>i_own_queue := x20, i_own_queue_resolved := x21\<rparr>) = fut_view s"
  "fut_view (s\<lparr>i_pending_patches := x22\<rparr>) = fut_view s" "fut_view (s\<lparr>i_rehydrate_stop := x23\<rparr>) = fut_view s"
  "fut_view (s\<lparr>i_outcome := x24\<rparr>) = fut_view s" "fut_view (s\<lparr>i_log := x25\<rparr>) = fut_view s"
  "fut_view (s\<lparr>i_primary_done := x26\<rparr>) = fut_view s" "fut_view (s\<lparr>i_patches_memo := x27\<rparr>) = fut_view s"
  "fut_view (s\<lparr>i_memo := x28\<rparr>) = fut_view s" "fut_view (s\<lparr>i_sa := x29\<rparr>) = fut_view s"
  "fut_view (s\<lparr>i_details := x30\<rparr>) = fut_view s"
  "fut_view (s\<lparr>i_signal_overrides := x32\<rparr>) = fut_view s" "fut_view (s\<lparr>i_query_overrides := x33\<rparr>) = fut_view s"
  "fut_view (s\<lparr>i_update_overrides := x34\<rparr>) = fut_view s"
  by (simp_all add: fut_view_def loop_view_def)

lemma view_basic [fut_simps, simp]:
  "fut_view (emit op s) = fut_view s" "fut_view (launch_waiter k q tsk s) = fut_view s"
  "fut_view (reply e key rst b s) = fut_view s" "fut_view (spawn_handler kd n p h s) = fut_view s"
  "fut_view (buffer_signal n m s) = fut_view s" "fut_view (advance_time t s) = fut_view s"
  "fut_view (abandon_waiters P s) = fut_view s" "fut_view (resolve_own_queue e s) = fut_view s"
  "fut_view (apply_cancel m s) = fut_view s" "fut_view (register_child c s) = fut_view s"
  "fut_view (signal_queued_activity_cancel e a s) = fut_view s" "fut_view (set_outcome out s) = fut_view s"
  by (simp_all add: emit_def launch_waiter_def reply_def spawn_handler_def buffer_signal_def advance_time_def
      abandon_waiters_def resolve_own_queue_def apply_cancel_def register_child_def
      signal_queued_activity_cancel_def set_outcome_def fut_view_def loop_view_def Let_def split: option.split)

lemma view_waiters [fut_simps, simp]:
  "fut_view (cancel_waiters P s) = fut_view s" "fut_view (retire_parked_timers q s) = fut_view s"
proof -
  show "fut_view (cancel_waiters P s) = fut_view s" for P s
    unfolding cancel_waiters_def by (subst fold_keeps [where f = fut_view]) simp_all
  then show "fut_view (retire_parked_timers q s) = fut_view s"
    by (simp add: retire_parked_timers_def Let_def)
qed

lemma view_proj:
  assumes "fut_view t = fut_view s"
  shows "i_activities t = i_activities s" "i_children t = i_children s" "i_sends t = i_sends s"
    "i_futs t = i_futs s" "loop_view t = loop_view s"
  using assms by (simp_all add: fut_view_def)

subsection \<open>Giving up an owner\<close>

lemma releases_update_activity [releasing]:
  "(\<And>a. ae_future (g a) = ae_future a) \<Longrightarrow> releases s (update_activity q g s)"
proof -
  assume g: "\<And>a. ae_future (g a) = ae_future a"
  have "owner_fut (update_activity q g s) p = owner_fut s p" for p
    by (cases p) (auto simp: update_activity_def dict_get_set g split: option.split)
  then show ?thesis by (auto simp: releases_def update_activity_def split: option.split)
qed

lemma releases_drop_activity [releasing]: "releases s (drop_activity q s)"
proof -
  have "owner_fut (drop_activity q s) p = (if p = OAct q then None else owner_fut s p)" for p
    by (cases p) (auto simp: drop_activity_def dict_get_del)
  then show ?thesis by (auto simp: releases_def drop_activity_def split: if_splits)
qed

lemma releases_drop_child: "releases s (s\<lparr>i_children := dict_del q (i_children s)\<rparr>)"
proof -
  let ?t = "s\<lparr>i_children := dict_del q (i_children s)\<rparr>"
  have "owner_fut ?t p = (if p = OChild q \<or> p = OStart q then None else owner_fut s p)" for p
    by (cases p) (auto simp: dict_get_del)
  then show ?thesis by (auto simp: releases_def split: if_splits)
qed

lemma releases_drop_send: "releases s (s\<lparr>i_sends := dict_del q (i_sends s)\<rparr>)"
proof -
  let ?t = "s\<lparr>i_sends := dict_del q (i_sends s)\<rparr>"
  have "owner_fut ?t p = (if p = OSend q then None else owner_fut s p)" for p
    by (cases p) (auto simp: dict_get_del)
  then show ?thesis by (auto simp: releases_def split: if_splits)
qed

lemma unowned_drop_activity:
  assumes "futs_ok s" "dict_get (i_activities s) q = Some a"
  shows "unowned (ae_future a) (drop_activity q s)"
proof -
  have own: "owner_fut s (OAct q) = Some (ae_future a)" using assms(2) by simp
  have "owner_fut (drop_activity q s) p = (if p = OAct q then None else owner_fut s p)" for p
    by (cases p) (auto simp: drop_activity_def dict_get_del)
  with own assms(1) show ?thesis by (auto simp: unowned_def futs_ok_def)
qed

lemma unowned_drop_child:
  assumes "futs_ok s" "dict_get (i_children s) q = Some c"
  shows "unowned (ce_result_future c) (s\<lparr>i_children := dict_del q (i_children s)\<rparr>)"
    and "\<not> ce_started c \<Longrightarrow> unowned (ce_start_future c) (s\<lparr>i_children := dict_del q (i_children s)\<rparr>)"
proof -
  let ?t = "s\<lparr>i_children := dict_del q (i_children s)\<rparr>"
  have own: "owner_fut s (OChild q) = Some (ce_result_future c)"
    "\<not> ce_started c \<Longrightarrow> owner_fut s (OStart q) = Some (ce_start_future c)" using assms(2) by simp_all
  have "owner_fut ?t p = (if p = OChild q \<or> p = OStart q then None else owner_fut s p)" for p
    by (cases p) (auto simp: dict_get_del)
  with own assms(1) show "unowned (ce_result_future c) ?t"
    "\<not> ce_started c \<Longrightarrow> unowned (ce_start_future c) ?t"
    unfolding unowned_def futs_ok_def by (metis option.distinct(1))+
qed

lemma releases_complete: "unowned f s \<Longrightarrow> releases s (complete_future f st s)"
proof -
  assume u: "unowned f s"
  have "owner_fut (complete_future f st s) p = owner_fut s p" for p
    by (cases p) (auto simp: complete_future_def)
  with u show ?thesis by (auto simp: releases_def unowned_def complete_future_def)
qed

lemma releases_settle [releasing]:
  "unowned f s \<Longrightarrow> releases s (fst (settle f st s))"
  "unowned f s \<Longrightarrow> releases s (cancel_future f s)"
  "unowned f s \<Longrightarrow> releases s (fst (settle_unless_cancelled f st s))"
  by (auto simp: settle_def cancel_future_def settle_unless_cancelled_def releases_complete releases_refl)

lemma unowned_view: "fut_view t = fut_view s \<Longrightarrow> unowned f t = unowned f s"
  using releases_unowned releases_view by metis

lemma settle_pending: "i_futs s f = Pending \<Longrightarrow> snd (settle f st s) = Inr ()"
  by (simp add: settle_def)

lemma settle_undecided:
  "i_futs s f \<in> {Pending, FutCancelled} \<Longrightarrow> snd (settle_unless_cancelled f st s) = Inr ()"
  by (auto simp: settle_def settle_unless_cancelled_def)

subsection \<open>Errors that are not about futures\<close>

definition calm :: "'a result \<Rightarrow> bool" where
  "calm r \<longleftrightarrow> r \<noteq> Inl InvalidStateError"

named_theorems calm_intros \<open>results that never carry InvalidStateError\<close>

lemma calm_simps [simp]: "calm (Inr x)" "calm (Inl err) \<longleftrightarrow> err \<noteq> InvalidStateError"
  by (simp_all add: calm_def)

lemma calm_bind [calm_intros]: "calm r \<Longrightarrow> (\<And>x. calm (f x)) \<Longrightarrow> calm (bind_result r f)"
  by (cases r) (auto simp: calm_def)

lemma calm_if [calm_intros]: "(b \<Longrightarrow> calm x) \<Longrightarrow> (\<not> b \<Longrightarrow> calm y) \<Longrightarrow> calm (if b then x else y)"
  by simp

lemma calm_json [calm_intros]:
  "calm (jindex j k)" "calm (to_float j)" "calm (to_list j)" "calm (as_str j)" "calm (as_obj j)"
proof -
  show "calm (jindex j k)" by (simp add: jindex_def split: option.split)
qed (cases j; simp)+

lemma calm_str_field [calm_intros]: "calm (str_field j k)"
  unfolding str_field_def by (intro calm_intros)

lemma calm_optional [calm_intros]: "(\<And>j. calm (f j)) \<Longrightarrow> calm (optional f j)"
  by (auto simp: optional_def intro: calm_intros)

lemma calm_enums [calm_intros]: "calm (category_of j)" "calm (timeout_type_of j)" "calm (retry_state_of j)"
  by (auto simp: category_of_def timeout_type_of_def retry_state_of_def enum_of_def split: json.split option.split)

lemma calm_kind_of_env [calm_intros]: "calm (kind_of_env decv env)"
  unfolding kind_of_env_def decode_details_def
  by (intro calm_intros calm_if calm_simps(1)) simp

lemma calm_deserialize_failure [calm_intros]: "calm (deserialize_failure decv env)"
proof (induction decv env rule: deserialize_failure.induct)
  case (1 decv env)
  show ?case
    by (subst deserialize_failure.simps) (auto intro!: calm_intros 1 split: option.split)
qed

lemma calm_retry [calm_intros]: "calm (local_retry_decision s a fl)"
  unfolding local_retry_decision_def retry_decision_def backoff_delay_def float_pow_def
  by (auto intro!: calm_intros split: option.split)

lemma calm_failure_parts [calm_intros]:
  "calm (activity_failure_cause e fl rs)" "calm (is_cancelled_failure e fl)" "calm (confirms_cancel e a fl)"
  unfolding activity_failure_cause_def is_cancelled_failure_def confirms_cancel_def
  by (auto intro!: calm_intros)

subsection \<open>Deliveries\<close>

text \<open>A step that only releases futures and does not fail on one.\<close>

definition safe :: "interp \<Rightarrow> interp \<times> 'a result \<Rightarrow> bool" where
  "safe s x \<longleftrightarrow> releases s (fst x) \<and> calm (snd x)"

lemma safeI: "releases s t \<Longrightarrow> calm r \<Longrightarrow> safe s (t, r)"
  by (simp add: safe_def)

lemma safe_after: "releases s t \<Longrightarrow> safe t x \<Longrightarrow> safe s x"
  unfolding safe_def using releases_trans by blast

lemma safe_pair [simp]:
  "safe s (t, Inr v) \<longleftrightarrow> releases s t" "safe s (t, Inl err) \<longleftrightarrow> releases s t \<and> err \<noteq> InvalidStateError"
  by (simp_all add: safe_def)

lemma safe_sum:
  "calm r \<Longrightarrow> (\<And>err. err \<noteq> InvalidStateError \<Longrightarrow> safe s (A err)) \<Longrightarrow> (\<And>x. r = Inr x \<Longrightarrow> safe s (B x)) \<Longrightarrow>
   safe s (case r of Inl err \<Rightarrow> A err | Inr x \<Rightarrow> B x)"
  by (cases r) (auto simp: calm_def)

lemma safe_then:
  "safe s x \<Longrightarrow> (\<And>t v. releases s t \<Longrightarrow> safe s (B t v)) \<Longrightarrow>
   safe s (case x of (t, r) \<Rightarrow> case r of Inl err \<Rightarrow> (t, Inl err) | Inr v \<Rightarrow> B t v)"
  by (auto simp: safe_def calm_def split: prod.split sum.split)

lemma safe_map: "safe s x \<Longrightarrow> safe s (case x of (t, r) \<Rightarrow> (t, bind_result r (\<lambda>_. Inr v)))"
  by (auto simp: safe_def intro!: calm_bind split: prod.split)

lemma safe_if: "(b \<Longrightarrow> safe s x) \<Longrightarrow> (\<not> b \<Longrightarrow> safe s y) \<Longrightarrow> safe s (if b then x else y)"
  by simp

lemma safe_bool: "(b \<Longrightarrow> safe s x) \<Longrightarrow> (\<not> b \<Longrightarrow> safe s y) \<Longrightarrow> safe s (case b of True \<Rightarrow> x | False \<Rightarrow> y)"
  by (cases b) simp_all

lemmas safe_splits = safe_sum safe_if safe_bool calm_intros

lemma safe_view: "fut_view t = fut_view s \<Longrightarrow> safe s (t, r) \<longleftrightarrow> calm r"
  by (simp add: safe_def releases_view)

lemma safe_settle: "unowned f s \<Longrightarrow> i_futs s f = Pending \<Longrightarrow> safe s (settle f st s)"
  by (simp add: safe_def releases_settle settle_pending)

lemma safe_reject:
  "unowned (ae_future a) s \<Longrightarrow> i_futs s (ae_future a) = Pending \<Longrightarrow> safe s (reject_activity e a fl rs s)"
  using calm_failure_parts(1) [of e fl rs]
  by (auto simp: reject_activity_def safe_settle safe_view split: sum.split)

lemma releases_strip [simp]:
  "releases s (emit op t) = releases s t" "releases s (launch_waiter k q tsk t) = releases s t"
  "releases s (reply e key rst b t) = releases s t" "releases s (spawn_handler kd n p h t) = releases s t"
  "releases s (buffer_signal n m t) = releases s t" "releases s (advance_time d t) = releases s t"
  "releases s (register_child c t) = releases s t" "releases s (resolve_own_queue e t) = releases s t"
  "releases s (signal_queued_activity_cancel e a t) = releases s t" "releases s (cancel_waiters P t) = releases s t"
  "releases s (abandon_waiters P t) = releases s t" "releases s (retire_parked_timers q t) = releases s t"
proof -
  have "releases s u = releases s t" if "fut_view u = fut_view t" for u t
    using that releases_view_right [of s t u] releases_view_right [of s u t] by auto
  note cong = this
  show "releases s (emit op t) = releases s t" "releases s (launch_waiter k q tsk t) = releases s t"
    "releases s (reply e key rst b t) = releases s t" "releases s (spawn_handler kd n p h t) = releases s t"
    "releases s (buffer_signal n m t) = releases s t" "releases s (advance_time d t) = releases s t"
    "releases s (register_child c t) = releases s t" "releases s (resolve_own_queue e t) = releases s t"
    "releases s (signal_queued_activity_cancel e a t) = releases s t" "releases s (cancel_waiters P t) = releases s t"
    "releases s (abandon_waiters P t) = releases s t" "releases s (retire_parked_timers q t) = releases s t"
    by (rule cong, simp)+
qed

lemma drop_pending:
  assumes "futs_ok s" "dict_get (i_activities s) q = Some a" "fut_view t = fut_view (drop_activity q s)"
  shows "unowned (ae_future a) t" "i_futs t (ae_future a) = i_futs s (ae_future a)" "releases s t"
proof -
  show "unowned (ae_future a) t"
    using unowned_drop_activity [OF assms(1,2)] unowned_view [OF assms(3)] by simp
  show "i_futs t (ae_future a) = i_futs s (ae_future a)"
    using view_proj(4) [OF assms(3)] by (simp add: drop_activity_def)
  show "releases s t" by (rule releases_view_right [OF releases_drop_activity assms(3)])
qed

lemma safe_settle_drop:
  assumes "futs_ok s" "dict_get (i_activities s) q = Some a" "i_futs s (ae_future a) = Pending"
    and "fut_view t = fut_view (drop_activity q s)"
  shows "safe s (settle (ae_future a) st t)" "safe s (reject_activity e a fl rs t)"
    and "releases s (cancel_future (ae_future a) t)"
proof -
  note d = drop_pending [OF assms(1,2,4)]
  have p: "i_futs t (ae_future a) = Pending" using d(2) assms(3) by simp
  show "safe s (settle (ae_future a) st t)" by (rule safe_after [OF d(3) safe_settle [OF d(1) p]])
  show "safe s (reject_activity e a fl rs t)" by (rule safe_after [OF d(3) safe_reject [OF d(1) p]])
  show "releases s (cancel_future (ae_future a) t)"
    by (rule releases_trans [OF d(3) releases_settle(2) [OF d(1)]])
qed

lemma safe_retry:
  assumes "futs_ok s" "dict_get (i_activities s) q = Some b" "ae_future b = ae_future a"
    and "i_futs s (ae_future a) = Pending"
  shows "safe s (retry_or_reject e q a fl s)"
proof -
  have upd: "releases s (update_activity q (\<lambda>a. a\<lparr>ae_in_backoff := True, ae_pending_wait := d\<rparr>) s)" for d
    by (rule releases_update_activity) simp
  have "unowned (ae_future a) (emit (ForgetAttempt q) (drop_activity q s))"
    "i_futs (emit (ForgetAttempt q) (drop_activity q s)) (ae_future a) = Pending"
    "releases s (emit (ForgetAttempt q) (drop_activity q s))"
    using drop_pending [OF assms(1,2), of "emit (ForgetAttempt q) (drop_activity q s)"] assms(3,4) by simp_all
  then have rej: "safe s (reject_activity e a fl rs (emit (ForgetAttempt q) (drop_activity q s)))" for rs
    using safe_after safe_reject by blast
  show ?thesis
    using calm_retry [of s a fl] upd rej
    by (auto simp: retry_or_reject_def safe_def releases_refl split: sum.split option.split)
qed

lemma act_pendingD:
  "acts_pending s \<Longrightarrow> dict_get (i_activities s) q = Some a \<Longrightarrow> i_futs s (ae_future a) = Pending"
  unfolding acts_pending_def by (metis owner_fut.simps(1) option.simps(9))

lemma releases_launch_attempt [releasing]: "releases s (fst (launch_attempt e q s))"
  by (auto simp: launch_attempt_def Let_def releases_refl releases_update_activity split: option.split prod.split)

lemma calm_launch_attempt [calm_intros]: "calm (snd (launch_attempt e q s))"
  by (auto simp: launch_attempt_def Let_def split: option.split prod.split)

lemma safe_launch: "releases s t \<Longrightarrow> safe s (launch_attempt e q t)"
  unfolding safe_def using releases_trans releases_launch_attempt calm_launch_attempt by blast

lemma releases_update:
  "releases s t \<Longrightarrow> (\<And>a. ae_future (g a) = ae_future a) \<Longrightarrow> releases s (update_activity q g t)"
  using releases_trans releases_update_activity by blast

lemma releases_park_async [releasing]: "releases s (park_async q a m s)"
  by (auto simp: park_async_def Let_def intro!: releases_update releases_refl split: option.split prod.split)

lemma safe_same: "fut_view s' = fut_view s \<Longrightarrow> safe s' x \<Longrightarrow> safe s x"
  using safe_after releases_view by blast

lemma ok_view: "fut_view t = fut_view s \<Longrightarrow> futs_ok t \<longleftrightarrow> futs_ok s"
  "fut_view t = fut_view s \<Longrightarrow> acts_pending t \<longleftrightarrow> acts_pending s"
  using releases_ok releases_pending releases_view by (metis, metis)

lemma view_drop_cong:
  "fut_view t = fut_view s \<Longrightarrow> fut_view (drop_activity q t) = fut_view (drop_activity q s)"
  by (simp add: fut_view_def drop_activity_def)

lemma update_activity_get:
  "dict_get (i_activities (update_activity q g s)) p =
     (if p = q then map_option g (dict_get (i_activities s) q) else dict_get (i_activities s) p)"
  "i_futs (update_activity q g s) = i_futs s"
  by (auto simp: update_activity_def dict_get_set split: option.split)

lemma safe_deliver_activity:
  assumes ok: "futs_ok s" and pend: "acts_pending s"
  shows "safe s (deliver_activity_event e q m s)"
proof (cases "dict_get (i_activities s) q")
  case (Some a)
  have p: "i_futs s (ae_future a) = Pending" using act_pendingD [OF pend Some] .
  let ?s1 = "advance_time (num_field m ''ended_at'') s"
  let ?s2 = "\<lambda>fl. update_activity q (ae_last_failure_update (\<lambda>_. Some fl)) ?s1"
  have r2: "releases s (?s2 fl)" for fl
    by (rule releases_trans [OF _ releases_update_activity]) (simp_all add: releases_refl)
  have ok2: "futs_ok (?s2 fl)" for fl using releases_ok [OF r2 ok] .
  have get2: "dict_get (i_activities (?s2 fl)) q = Some (a\<lparr>ae_last_failure := Some fl\<rparr>)" for fl
    using Some view_proj(1) [of ?s1 s] by (simp add: update_activity_get)
  have p2: "i_futs (?s2 fl) (ae_future a) = Pending" for fl
    using p view_proj(4) [of ?s1 s] by (simp add: update_activity_get)
  have retry: "safe s (retry_or_reject e q a fl (?s2 fl))" for fl
    by (rule safe_after [OF r2 safe_retry [OF ok2 get2]]) (simp_all add: p2)
  have cancel: "releases s (cancel_future (ae_future a) (emit (ForgetAttempt q) (drop_activity q (?s2 fl))))" for fl
    using releases_trans [OF r2 safe_settle_drop(3) [OF ok2 get2, of fl "emit (ForgetAttempt q) (drop_activity q (?s2 fl))"]] p2
    by simp
  have settled: "safe s (settle (ae_future a) st (emit (ForgetAttempt q) (drop_activity q ?s1)))" for st
    by (rule safe_settle_drop(1) [OF ok Some p]) (simp, rule view_drop_cong, simp)
  have launch: "safe s (launch_attempt e q (update_activity q (\<lambda>a. a\<lparr>ae_pending_wait := 0,
      ae_attempt := ae_attempt a + 1\<rparr>) (advance_time t s)))" for t
    by (intro safe_launch releases_update) (simp_all add: releases_refl)
  have park: "safe s (park_async q a m ?s1, Inr ())"
    using releases_trans [OF _ releases_park_async, of s ?s1] by (simp add: safe_def releases_refl)
  show ?thesis
    unfolding deliver_activity_event_def Some option.case Let_def
    using settled launch park retry cancel r2
    by (intro safe_splits) (simp_all add: p releases_refl)
qed (simp add: deliver_activity_event_def releases_refl)

lemma safe_deliver_queued:
  assumes ok: "futs_ok s" and pend: "acts_pending s"
  shows "safe s (deliver_queued_activity_event e q m s)"
proof (cases "dict_get (i_activities s) q")
  case (Some a)
  have p: "i_futs s (ae_future a) = Pending" using act_pendingD [OF pend Some] .
  let ?s1 = "drop_activity q (advance_time (num_field m ''ended_at'') s)"
  have v: "fut_view ?s1 = fut_view (drop_activity q s)" by (rule view_drop_cong) simp
  note d = safe_settle_drop [OF ok Some p v] drop_pending(3) [OF ok Some v]
  show ?thesis
    unfolding deliver_queued_activity_event_def Some option.case Let_def
    by (intro safe_splits) (simp_all add: p d)
qed (simp add: deliver_queued_activity_event_def)

lemma safe_fail_async:
  assumes ok: "futs_ok s" and pend: "acts_pending s"
  shows "safe s (fail_async_attempt e q fl s)"
proof (cases "dict_get (i_activities s) q")
  case (Some a)
  let ?t = "update_activity q (\<lambda>a. a\<lparr>ae_async_pending := False, ae_last_failure := Some fl\<rparr>) s"
  have r: "releases s ?t" by (intro releases_update) simp_all
  have "safe ?t (retry_or_reject e q a fl ?t)"
    by (rule safe_retry [OF releases_ok [OF r ok],
          where b = "a\<lparr>ae_async_pending := False, ae_last_failure := Some fl\<rparr>"])
       (simp_all add: update_activity_get Some act_pendingD [OF pend Some])
  then show ?thesis using safe_after [OF r] by (simp add: fail_async_attempt_def Some)
qed (simp add: fail_async_attempt_def)

lemma safe_parked_timeout:
  assumes "futs_ok s" and "acts_pending s"
  shows "safe s (async_parked_timeout e q t s)"
proof -
  let ?t = "retire_parked_timers q s"
  have r: "releases s ?t" by simp
  show ?thesis
    using safe_after [OF r safe_fail_async [OF releases_ok [OF r assms(1)] releases_pending [OF r assms(2)]]]
    by (simp add: async_parked_timeout_def split: option.split)
qed

lemma safe_heartbeat_check:
  assumes "futs_ok s" and "acts_pending s"
  shows "safe s (async_heartbeat_check e q s)"
  using safe_parked_timeout [OF assms]
  by (auto simp: async_heartbeat_check_def Let_def intro!: releases_update split: option.split)

lemma safe_s2c:
  assumes "futs_ok s" and "acts_pending s"
  shows "safe s (deliver_act_s2c e q s)"
proof (cases "dict_get (i_activities s) q")
  case (Some a)
  let ?t = "update_activity q (ae_pending_wait_update (\<lambda>_. 0)) (advance_time (Some (i_time s + ae_pending_wait a)) s)"
  have r: "releases s ?t" by (intro releases_update) simp_all
  show ?thesis
    using safe_after [OF r safe_parked_timeout [OF releases_ok [OF r assms(1)] releases_pending [OF r assms(2)]]]
    by (simp add: deliver_act_s2c_def Some)
qed (simp add: deliver_act_s2c_def safe_parked_timeout assms)

lemma async_pending_get:
  "futs_ok s \<Longrightarrow> async_pending_by_id aid s = Some (q, a) \<Longrightarrow> dict_get (i_activities s) q = Some a"
  by (auto simp: async_pending_by_id_def futs_ok_def dict_wf_def dict_get_def dest: find_SomeD)

lemma safe_activity_result:
  assumes ok: "futs_ok s" and pend: "acts_pending s"
  shows "safe s (apply_activity_result e m s)"
proof (cases "async_pending_by_id (activity_id_of m) s")
  case (Some qa)
  obtain q a where qa: "qa = (q, a)" by (cases qa)
  have get: "dict_get (i_activities s) q = Some a" using async_pending_get [OF ok] Some qa by simp
  let ?s1 = "retire_parked_timers q s"
  have r: "releases s ?s1" by simp
  have "fut_view (emit (ForgetAttempt q) (drop_activity q ?s1)) = fut_view (drop_activity q s)"
    by (simp, rule view_drop_cong, simp)
  note d = safe_settle_drop [OF ok get act_pendingD [OF pend get] this]
  have f: "safe s (fail_async_attempt e q fl ?s1)" for fl
    by (rule safe_after [OF r safe_fail_async [OF releases_ok [OF r ok] releases_pending [OF r pend]]])
  show ?thesis
    unfolding apply_activity_result_def Some qa option.case prod.case Let_def
    by (intro safe_splits) (simp_all add: d f)
qed (simp add: apply_activity_result_def)

lemma safe_messages:
  assumes "\<And>d a. calm (env_decode_args e d a)"
  shows "safe s (apply_signal e m s)" "safe s (apply_update e m s)" "safe s (apply_query e m s)"
    "calm (decode_message_args e resolve m)"
proof -
  show "calm (decode_message_args e resolve m)" for resolve m
    using assms unfolding decode_message_args_def Let_def by (intro calm_intros calm_simps(1)) simp_all
  show "safe s (apply_update e m s)"
    unfolding apply_update_def Let_def
    by (intro safe_splits) (auto simp: releases_view split: option.split)
  show "safe s (apply_query e m s)"
    unfolding apply_query_def Let_def
    by (intro safe_splits) (auto simp: releases_view split: option.split sum.split)
  show "safe s (apply_signal e m s)"
    unfolding apply_signal_def
    by (intro safe_splits) (auto split: option.split sum.split)
qed

lemma releases_deliver_timer [simp]: "releases s (deliver_timer q s)"
  by (auto simp: deliver_timer_def Let_def releases_view split: option.split)

lemma releases_heartbeat [simp]: "releases s (apply_activity_heartbeat e m s)"
  by (auto simp: apply_activity_heartbeat_def intro!: releases_update split: option.split)

lemma safe_deliver_child:
  assumes ok: "futs_ok s"
  shows "safe s (deliver_child_event e q m s)"
proof (cases "dict_get (i_children s) q")
  case (Some c)
  let ?s0 = "s\<lparr>i_children := dict_del q (i_children s)\<rparr>"
  let ?s1 = "advance_time (num_field m ''ended_at'') ?s0"
  have u: "unowned (ce_result_future c) ?s1"
    using unowned_drop_child(1) [OF ok Some] unowned_view [of ?s1 ?s0] by simp
  have own: "owner_fut s (OChild q) = Some (ce_result_future c)" using Some by simp
  have p: "i_futs s (ce_result_future c) \<noteq> FutCancelled \<Longrightarrow> i_futs ?s1 (ce_result_future c) = Pending"
    using futs_okD [OF ok own] view_proj(4) [of ?s1 ?s0] by simp
  have r: "releases s ?s1" using releases_drop_child by simp
  have st: "i_futs s (ce_result_future c) \<noteq> FutCancelled \<Longrightarrow> safe s (settle (ce_result_future c) x ?s1)" for x
    using safe_after [OF r safe_settle [OF u p]] .
  show ?thesis
    unfolding deliver_child_event_def Some option.case Let_def
    by (intro safe_splits) (simp_all add: r st releases_drop_child)
qed (simp add: deliver_child_event_def)

lemma safe_deliver_inbox:
  assumes ok: "futs_ok s" and pend: "acts_pending s" and env: "\<And>d a. calm (env_decode_args e d a)"
  shows "safe s (deliver_inbox e m s)"
proof -
  let ?s1 = "advance_time (num_field m ''sent_at'') s"
  have r: "releases s ?s1" by simp
  note after = safe_after [OF r]
  have res: "safe s (apply_activity_result e m ?s1)"
    by (rule after [OF safe_activity_result [OF releases_ok [OF r ok] releases_pending [OF r pend]]])
  have hb: "releases s (apply_activity_heartbeat e m ?s1)" by (rule releases_trans [OF r]) simp
  have cn: "releases s (apply_cancel m ?s1)" "releases s (?s1\<lparr>i_rehydrate_stop := True\<rparr>)"
    by (simp_all add: releases_view)
  note parts = res hb cn after [OF safe_messages(1) [OF env]] after [OF safe_messages(2) [OF env]]
    after [OF safe_messages(3) [OF env]] safe_messages(4) [OF env]
  show ?thesis
  proof (cases "obj_get m ''kind''")
    case (Some k)
    then show ?thesis
      unfolding deliver_inbox_def Some option.case Let_def
      by (intro safe_splits) (simp_all add: parts)
  qed (simp add: deliver_inbox_def)
qed

lemma safe_deliver_waiter:
  assumes "futs_ok s" and "acts_pending s" and "\<And>d a. calm (env_decode_args e d a)"
  shows "safe s (deliver_waiter e w m s)"
  using safe_deliver_inbox safe_deliver_activity safe_deliver_queued safe_s2c safe_heartbeat_check
    safe_deliver_child assms
  by (auto simp: deliver_waiter_def split: wkind.split)

lemma safe_deliver_each:
  assumes env: "\<And>d a. calm (env_decode_args e d a)"
  shows "futs_ok s \<Longrightarrow> acts_pending s \<Longrightarrow> safe s (deliver_each e results ws s)"
proof (induction ws arbitrary: s)
  case (Cons w ws)
  show ?case
  proof (cases "results (w_task w)")
    case None
    then show ?thesis using Cons by simp
  next
    case (Some m)
    let ?s0 = "s\<lparr>i_waiters := remove1 w (i_waiters s)\<rparr>"
    have v: "fut_view ?s0 = fut_view s" by simp
    obtain s1 r where d: "deliver_waiter e w m ?s0 = (s1, r)" by fastforce
    have "safe ?s0 (s1, r)"
      using safe_deliver_waiter [OF _ _ env, of ?s0 w m] ok_view [OF v] Cons.prems d by simp
    then have s1: "safe s (s1, r)" by (rule safe_same [OF v])
    then have "releases s s1" by (simp add: safe_def)
    then have "safe s (deliver_each e results ws s1)"
      using Cons releases_ok releases_pending safe_after by blast
    with s1 show ?thesis by (cases r) (simp_all add: Some d)
  qed
qed simp

subsection \<open>Sweeps\<close>

lemma releases_sweep_activity [simp]: "releases s (sweep_activity e q s)"
  using releases_drop_activity [of s q]
  by (auto simp: sweep_activity_def Let_def split: option.split)

lemma releases_sweep_wait [simp]: "releases s (sweep_wait_cancel e q s)"
  by (simp add: sweep_wait_cancel_def split: option.split)

lemma releases_fold: "(\<And>x s. releases s (g x s)) \<Longrightarrow> releases s (fold g xs s)"
proof (induction xs arbitrary: s)
  case (Cons x xs)
  then show ?case using releases_trans by fastforce
qed simp

lemma releases_sweep_activities [simp]: "releases s (sweep_activities e s)"
proof -
  let ?s0 = "s\<lparr>i_queued_wait_cancels := []\<rparr>"
  let ?s1 = "fold (sweep_wait_cancel e) (i_queued_wait_cancels s) ?s0"
  have "releases s ?s0" by (simp add: releases_view)
  then have "releases s ?s1" using releases_trans releases_fold releases_sweep_wait by metis
  then have "releases s (?s1\<lparr>i_cancelled_activities := []\<rparr>)"
    by (rule releases_view_right) simp
  then show ?thesis
    unfolding sweep_activities_def Let_def using releases_trans releases_fold releases_sweep_activity by metis
qed

lemma safe_sweep_child:
  assumes "\<And>w. calm (resolve_current_run e w)"
  shows "safe s (sweep_child e q s)"
  using releases_drop_child [of s q] assms
  by (auto simp: sweep_child_def Let_def intro!: safe_splits split: option.split)

lemma safe_sweep_children:
  assumes "\<And>w. calm (resolve_current_run e w)"
  shows "safe s (sweep_children e qs s)"
proof (induction qs arbitrary: s)
  case (Cons q qs)
  obtain s1 r where d: "sweep_child e q s = (s1, r)" by fastforce
  have "safe s (s1, r)" using safe_sweep_child [OF assms, of s q] d by simp
  with Cons [of s1] d show ?case by (cases r) (auto simp: safe_def intro: releases_trans)
qed simp

subsection \<open>Commands\<close>

lemma calm_probe [calm_intros]: "calm (probe w lookup is)"
proof -
  have "calm (map_result (\<lambda>(did, st). case dict_get d did of None \<Rightarrow> Inl KeyError | Some i \<Rightarrow> Inr (i, st)) xs)" for d xs
    by (induction xs) (auto intro!: calm_intros split: option.split)
  then show ?thesis unfolding probe_def Let_def by (intro calm_bind) simp_all
qed

lemma calm_refine: "calm (refine_bracket w lookup lo st hi)"
proof (induction w lookup lo st hi rule: refine_bracket.induct)
  case (1 w lookup lo st hi)
  then show ?case
    using calm_probe [of w lookup "refine_points lo hi"]
    by (subst refine_bracket.simps) (auto simp: Let_def split: sum.split option.split)
qed

lemma calm_extend:
  assumes "extend_bracket w lookup lo st = Some r" shows "calm r"
proof (rule extend_bracket.raw_induct [of "\<lambda>_ _ _ _ r. calm r", OF _ assms])
  fix eb w' lo' st' r' and lookup' :: "'b lookup"
  assume "\<And>w lookup lo st r. eb w lookup lo st = Some r \<Longrightarrow> calm r"
    and "(let extension = map (\<lambda>k. lo' * 2 ^ k) [1..<5]
      in case probe w' lookup' extension of Inl e \<Rightarrow> Some (Inl e)
         | Inr found \<Rightarrow>
             (let missing = filter (\<lambda>c. dict_get found c = None) extension;
                  best = (case newest found of Some b \<Rightarrow> b | None \<Rightarrow> (lo', st'))
              in case find (\<lambda>c. fst best < c) missing of
                   Some hi \<Rightarrow> Some (Inr (fst best, snd best, hi))
                 | None \<Rightarrow> eb w' lookup' (fst best) (snd best))) = Some r'"
  then show "calm r'"
    using calm_probe [of w' lookup' "map (\<lambda>k. lo' * 2 ^ k) [1..<5]"]
    by (auto simp: Let_def split: sum.splits option.splits)
qed

lemma extend_not_ise: "extend_bracket w lookup lo st \<noteq> Some (Inl InvalidStateError)"
  using calm_extend by fastforce

lemma calm_resolve_run [calm_intros]: "calm (resolve_current_run e w)"
proof -
  have "calm r" if "resolve_latest_run w (env_status_list e) = Some r" for r
    using that calm_probe [of w "env_status_list e" probe_ladder]
    by (auto simp: resolve_latest_run_def extend_not_ise calm_refine split: sum.splits option.splits prod.splits intro!: calm_bind)
  then show ?thesis
    by (auto simp: resolve_current_run_def split: option.split sum.split)
qed

lemma calm_encode_attributes [calm_intros]: "calm (encode_attributes enc memo sa)"
proof -
  have "calm (sa_value_to_json t v)" for t v
    by (auto simp: sa_value_to_json_def split: sa_value.split)
  then have "calm (encode_search_attributes ps out)" for ps out
    by (induction ps arbitrary: out) (auto intro!: calm_intros)
  then show ?thesis
    unfolding encode_attributes_def Let_def by (intro calm_bind) (auto split: option.split)
qed

lemma calm_horizon [calm_intros]: "calm (check_replay_horizon e s)"
  by (auto simp: check_replay_horizon_def split: option.split)

lemma safe_settle_undecided:
  "unowned f s \<Longrightarrow> i_futs s f \<in> {Pending, FutCancelled} \<Longrightarrow> safe s (settle_unless_cancelled f st s)"
  using settle_undecided [of s f st] by (simp add: safe_def releases_settle)

lemma safe_fail_child_start:
  assumes ok: "futs_ok s" and get: "dict_get (i_children s) q = Some c" and un: "\<not> ce_started c"
  shows "safe s (fail_child_start q c x s)"
proof -
  let ?t = "s\<lparr>i_children := dict_del q (i_children s)\<rparr>"
  have "owner_fut s (OStart q) = Some (ce_start_future c)" using get un by simp
  from futs_okD [OF ok this] show ?thesis
    unfolding fail_child_start_def
    by (intro safe_after [OF releases_drop_child safe_settle_undecided]) (simp_all add: unowned_drop_child(2) [OF ok get un])
qed

definition mark_started :: "nat \<Rightarrow> child_exec \<Rightarrow> interp \<Rightarrow> interp" where
  "mark_started q c s = s\<lparr>i_children := dict_set q (c\<lparr>ce_started := True\<rparr>) (i_children s)\<rparr>"

lemma owner_mark_started:
  "dict_get (i_children s) q = Some c \<Longrightarrow>
   owner_fut (mark_started q c s) p = (if p = OStart q then None else owner_fut s p)"
  by (cases p) (auto simp: dict_get_set mark_started_def)

lemma releases_mark_started: "dict_get (i_children s) q = Some c \<Longrightarrow> releases s (mark_started q c s)"
  using owner_mark_started [of s q c] by (auto simp: releases_def mark_started_def split: if_splits)

lemma unowned_mark_started:
  assumes "dict_get (i_children s) q = Some c" "futs_ok s" "\<not> ce_started c"
  shows "unowned (ce_start_future c) (mark_started q c s)"
proof -
  have "owner_fut s (OStart q) = Some (ce_start_future c)" using assms by simp
  with assms(2) owner_mark_started [OF assms(1)] show ?thesis
    unfolding unowned_def futs_ok_def by (metis option.distinct(1))
qed

lemma safe_start_child:
  assumes ok: "futs_ok s" and un: "\<And>c. dict_get (i_children s) q = Some c \<Longrightarrow> \<not> ce_started c"
  shows "safe s (start_child e q s)"
proof (cases "dict_get (i_children s) q")
  case (Some c)
  note un = un [OF Some]
  let ?s1 = "register_child c (resolve_own_queue e s)"
  have v: "fut_view ?s1 = fut_view s" "fut_view (emit x ?s1) = fut_view s" for x by simp_all
  have fail: "safe s (fail_child_start q c x s)" "safe s (fail_child_start q c x ?s1)" for x
    using safe_fail_child_start [OF ok Some un] safe_same [OF v(1) safe_fail_child_start [OF _ _ un]]
      ok_view(1) [OF v(1)] view_proj(2) [OF v(1)] ok Some by auto
  let ?s2 = "\<lambda>x. emit x ?s1"
  let ?s3 = "\<lambda>x. mark_started q c (?s2 x)"
  have ok2: "futs_ok (?s2 x)" "dict_get (i_children (?s2 x)) q = Some c" for x
    using ok_view(1) [OF v(2)] view_proj(2) [OF v(2)] ok Some by auto
  have "owner_fut s (OStart q) = Some (ce_start_future c)" using Some un by simp
  from futs_okD [OF ok this] have st: "i_futs (?s3 x) (ce_start_future c) \<in> {Pending, FutCancelled}" for x
    using view_proj(4) [OF v(2)] by (simp add: mark_started_def)
  have "safe (?s2 x) (settle_unless_cancelled (ce_start_future c) (Resolved JNull) (?s3 x))" for x
    by (rule safe_after [OF releases_mark_started [OF ok2(2)]])
       (rule safe_settle_undecided [OF unowned_mark_started [OF ok2(2) ok2(1) un] st])
  from safe_same [OF v(2) this]
  have fin: "safe s (settle_unless_cancelled (ce_start_future c) (Resolved JNull) (?s3 x))" for x .
  show ?thesis
    unfolding start_child_def Some option.case Let_def mark_started_def [symmetric]
    by (auto simp: fail releases_mark_started intro!: safe_then [OF fin] split: option.split sum.split)
qed (simp add: start_child_def)

lemma releases_send_settle:
  assumes ok: "futs_ok s" and get: "dict_get (i_sends s) q = Some (target, envelope, fut, rc)"
    and v: "fut_view t = fut_view (s\<lparr>i_sends := dict_del q (i_sends s)\<rparr>)"
  shows "safe s (settle_unless_cancelled fut st t)"
proof -
  let ?s1 = "s\<lparr>i_sends := dict_del q (i_sends s)\<rparr>"
  have own: "owner_fut s (OSend q) = Some fut" using get by simp
  have "owner_fut ?s1 p = (if p = OSend q then None else owner_fut s p)" for p
    by (cases p) (auto simp: dict_get_del)
  with own ok have "unowned fut ?s1"
    unfolding unowned_def futs_ok_def by (metis option.distinct(1))
  then have u: "unowned fut t" using unowned_view [OF v] by simp
  show ?thesis
    using futs_okD [OF ok own] view_proj(4) [OF v]
    by (intro safe_after [OF releases_view_right [OF releases_drop_send v]] safe_settle_undecided [OF u]) simp
qed

lemma safe_process_send:
  assumes ok: "futs_ok s" shows "safe s (process_send e q s)"
proof (cases "dict_get (i_sends s) q")
  case (Some x)
  obtain target envelope fut rc where x: "x = (target, envelope, fut, rc)" by (cases x) auto
  note send = releases_send_settle [OF ok Some [unfolded x]]
  have run: "calm (if rc then resolve_current_run e target else Inr target)" by (intro calm_intros calm_simps)
  show ?thesis
    unfolding process_send_def Some x option.case prod.case Let_def
    by (intro safe_splits)
       (auto intro!: safe_map send run calm_horizon calm_resolve_run split: option.split sum.split
         simp: releases_drop_send)
qed (auto simp: process_send_def intro!: safe_splits calm_horizon)

lemma safe_launch_queued:
  assumes ok: "futs_ok s" and pend: "acts_pending s"
  shows "safe s (launch_queued_activity e q s)"
proof (cases "dict_get (i_activities s) q")
  case (Some a)
  have st: "safe s (settle_unless_cancelled (ae_future a) x (drop_activity q s))" for x
    using drop_pending [OF ok Some] act_pendingD [OF pend Some]
    by (intro safe_after [OF releases_drop_activity safe_settle_undecided]) simp_all
  have up: "releases s (update_activity q (ae_queued_id_update f) (emit x s))" for f x
    by (intro releases_update) simp_all
  show ?thesis
    by (auto simp: launch_queued_activity_def Some Let_def st up split: option.split prod.split)
qed (simp add: launch_queued_activity_def)

lemma safe_process_activity:
  assumes ok: "futs_ok s" and pend: "acts_pending s"
  shows "safe s (process_activity e q s)"
proof (cases "dict_get (i_activities s) q")
  case (Some a)
  let ?s1 = "update_activity q (\<lambda>a. a\<lparr>ae_args := map (env_enc e) (ae_args a),
               ae_headers := env_enc_headers e (ae_headers a)\<rparr>) s"
  have r1: "releases s ?s1" by (intro releases_update) simp_all
  have r2: "releases s (resolve_own_queue e ?s1)" using r1 by simp
  have lq: "safe s (launch_queued_activity e q t)" if "releases s t" for t
    by (rule safe_after [OF that safe_launch_queued [OF releases_ok [OF that ok] releases_pending [OF that pend]]])
  show ?thesis
    unfolding process_activity_def Some option.case Let_def
    by (intro safe_sum calm_horizon) (auto intro!: safe_map lq safe_launch simp: r1 r2)
qed (simp add: process_activity_def)

lemma safe_process_others:
  "safe s (process_timer e q s)" "safe s (process_attributes e s)" "safe s (process_patch e q s)"
proof -
  show "safe s (process_timer e q s)"
    by (auto simp: process_timer_def Let_def releases_view intro!: safe_sum calm_horizon split: option.split)
  show "safe s (process_attributes e s)"
    unfolding process_attributes_def current_attributes_def
    by (intro safe_sum calm_intros calm_simps) simp_all
  show "safe s (process_patch e q s)"
    by (auto simp: process_patch_def Let_def releases_view intro!: safe_sum calm_horizon split: option.split)
qed

text \<open>Each queued child command is the only one of its child, which has not been started.\<close>

definition child_cmds :: "command list \<Rightarrow> nat list" where
  "child_cmds cs = List.map_filter (\<lambda>c. case c of CmdChild q \<Rightarrow> Some q | _ \<Rightarrow> None) cs"

lemma child_cmds_simps [simp]:
  "child_cmds [] = []" "child_cmds (c # cs) = (case c of CmdChild q \<Rightarrow> q # child_cmds cs | _ \<Rightarrow> child_cmds cs)"
  "child_cmds (xs @ ys) = child_cmds xs @ child_cmds ys"
  by (simp_all add: child_cmds_def map_filter_def split: command.split)

lemma set_child_cmds [simp]: "q \<in> set (child_cmds cs) \<longleftrightarrow> CmdChild q \<in> set cs"
  by (induction cs) (auto split: command.split)

definition children_unstarted :: "command list \<Rightarrow> interp \<Rightarrow> bool" where
  "children_unstarted cs s \<longleftrightarrow>
     distinct (child_cmds cs) \<and>
     (\<forall>q c. CmdChild q \<in> set cs \<longrightarrow> dict_get (i_children s) q = Some c \<longrightarrow> \<not> ce_started c)"

lemma safe_process_command:
  assumes "futs_ok s" "acts_pending s" "children_unstarted (c # cs) s"
  shows "safe s (process_command e c s)"
proof (cases c)
  case (CmdChild q)
  with assms have "\<And>c. dict_get (i_children s) q = Some c \<Longrightarrow> \<not> ce_started c"
    by (auto simp: children_unstarted_def)
  from safe_start_child [OF assms(1) this] CmdChild show ?thesis
    unfolding process_command_def by (auto intro!: safe_map safe_sum calm_horizon)
qed (use assms in \<open>simp_all add: process_command_def safe_process_activity safe_process_others safe_process_send\<close>)

named_theorems children_frame \<open>operations that leave the children alone\<close>

lemma children_basic [children_frame]:
  "i_children (emit op s) = i_children s" "i_children (launch_waiter k q tsk s) = i_children s"
  "i_children (update_activity q g s) = i_children s" "i_children (drop_activity q s) = i_children s"
  "i_children (resolve_own_queue e s) = i_children s" "i_children (register_child c s) = i_children s"
  "i_children (signal_queued_activity_cancel e a s) = i_children s"
  "i_children (fst (settle f st s)) = i_children s" "i_children (fst (settle_unless_cancelled f st s)) = i_children s"
  by (simp_all add: emit_def launch_waiter_def update_activity_def drop_activity_def resolve_own_queue_def
      register_child_def signal_queued_activity_cancel_def settle_def settle_unless_cancelled_def
      complete_future_def Let_def split: option.split)

lemma children_launch [children_frame]:
  "i_children (fst (launch_attempt e q s)) = i_children s"
  "i_children (fst (launch_queued_activity e q s)) = i_children s"
  by (simp_all add: launch_attempt_def launch_queued_activity_def Let_def children_frame
      split: option.split prod.split)

lemma children_process [children_frame]:
  "i_children (fst (process_activity e q s)) = i_children s" "i_children (fst (process_timer e q s)) = i_children s"
  "i_children (fst (process_send e q s)) = i_children s" "i_children (fst (process_attributes e s)) = i_children s"
  "i_children (fst (process_patch e q s)) = i_children s"
  by (simp_all add: process_activity_def process_timer_def process_send_def process_attributes_def
      process_patch_def Let_def children_frame split_beta split: option.split sum.split)

lemma start_child_others:
  "p \<noteq> q \<Longrightarrow> dict_get (i_children (fst (start_child e q s))) p = dict_get (i_children s) p"
  by (simp add: start_child_def fail_child_start_def Let_def children_frame dict_get_set dict_get_del split_beta
      split: option.split sum.split)

lemma process_command_children:
  "c \<noteq> CmdChild p \<Longrightarrow> dict_get (i_children (fst (process_command e c s))) p = dict_get (i_children s) p"
  by (cases c) (auto simp: process_command_def children_frame start_child_others split_beta split: sum.split)

lemma safe_process_all:
  assumes "futs_ok s" "acts_pending s" "children_unstarted cs s"
  shows "safe s (process_all e cs p s)"
  using assms
proof (induction cs arbitrary: p s)
  case (Cons c cs)
  obtain s1 r where d: "process_command e c s = (s1, r)" by fastforce
  have s1: "safe s (s1, r)" using safe_process_command [OF Cons.prems] d by metis
  then have r1: "releases s s1" by (simp add: safe_def)
  have "c \<noteq> CmdChild q" if "CmdChild q \<in> set cs" for q
    using that Cons.prems(3) by (auto simp: children_unstarted_def)
  then have "dict_get (i_children s1) q = dict_get (i_children s) q" if "CmdChild q \<in> set cs" for q
    using that process_command_children [of c q e s] d by simp
  then have "children_unstarted cs s1"
    using Cons.prems(3) unfolding children_unstarted_def by (auto split: command.splits)
  from Cons.IH [OF releases_ok [OF r1 Cons.prems(1)] releases_pending [OF r1 Cons.prems(2)] this]
  have "safe s (process_all e cs b s1)" for b by (rule safe_after [OF r1])
  with s1 d show ?case by (cases r) simp_all
qed simp

end
