(* ===== verification/Interp_Loop.thy ===== *)
theory Interp_Loop
  imports Interp_Futures Interp_Safety
begin

text \<open>
  The life of an execution as a step relation: workflow code and the ready callbacks run while the
  virtual loop drains, then a turn of the outer loop starts it over, ends the run, or waits, and an
  event delivery wakes it up. Workflow code is any sequence of the runtime operations of theory
  \<open>Interp_Runtime\<close>; a \<open>wait_condition\<close> predicate that raises, which aborts the drain, is left out.
\<close>

declare owner_fut.simps [simp del]

subsection \<open>Steps\<close>

datatype user_op =
    UTimer rat
  | UCancelTimer nat
  | UActivity activity_request
  | UCancelActivity nat
  | UChild child_request
  | USend string json bool
  | UMemo jdict
  | USearchAttributes "sa_update list"
  | UDetails string
  | UPatch string
  | USetHandler category "string option" "handler_defn option"
  | UFuture
  | USettle nat fut_state
  | UCancelFuture nat
  | UPrimaryEnds "json exc \<Rightarrow> bool" completion
  | USignalEnds "json exc \<Rightarrow> bool" completion
  | UUpdateEnds "json exc \<Rightarrow> bool" string completion
  | UHandlerDone nat

text \<open>
  The state an operation leaves behind. \<open>UFuture\<close>, \<open>USettle\<close> and \<open>UCancelFuture\<close> are workflow code
  using asyncio on the virtual loop; cancelling the task that awaits a future cancels the future.
\<close>

definition user_step :: "env \<Rightarrow> user_op \<Rightarrow> interp \<Rightarrow> interp" where
  "user_step e u s =
     (case u of
        UTimer d \<Rightarrow> fst (create_timer d s)
      | UCancelTimer q \<Rightarrow> cancel_timer q s
      | UActivity r \<Rightarrow> fst (start_activity e r s)
      | UCancelActivity q \<Rightarrow> request_activity_cancel q s
      | UChild r \<Rightarrow> fst (start_child_workflow r s)
      | USend target envelope rc \<Rightarrow> fst (send_to_workflow target envelope rc s)
      | UMemo m \<Rightarrow> fst (upsert_memo m s)
      | USearchAttributes us \<Rightarrow> fst (upsert_search_attributes us s)
      | UDetails d \<Rightarrow> fst (set_current_details d s)
      | UPatch pid \<Rightarrow> fst (patch e pid s)
      | USetHandler cat name h \<Rightarrow> fst (set_handler cat name h s)
      | UFuture \<Rightarrow> snd (create_future s)
      | USettle f st \<Rightarrow> fst (settle f st s)
      | UCancelFuture f \<Rightarrow> cancel_future f s
      | UPrimaryEnds ft how \<Rightarrow> run_primary ft how s
      | USignalEnds ft how \<Rightarrow> run_signal_handler ft how s
      | UUpdateEnds ft key how \<Rightarrow> run_update_handler e ft key how s
      | UHandlerDone t \<Rightarrow> handler_finished t s)"

text \<open>
  Workflow code has no reference to a future the interpreter settles: it can cancel the future (by
  cancelling what awaits it) but not set its result.
\<close>

definition permitted :: "user_op \<Rightarrow> interp \<Rightarrow> bool" where
  "permitted u s = (case u of USettle f _ \<Rightarrow> unowned f s | _ \<Rightarrow> True)"

text \<open>What the interpreter itself does in a ready callback; the rest of it is workflow code.\<close>

definition run_callback :: "callback \<Rightarrow> interp \<Rightarrow> interp" where
  "run_callback cb s =
     (case cb of
        ActivityDone f q \<Rightarrow> activity_done f q s
      | ChildDone f q \<Rightarrow> child_done f q s
      | _ \<Rightarrow> s)"

datatype phase = Draining | Waiting | Closing | TaskFailed | Broken py_error

fun after_turn :: "turn \<Rightarrow> phase" where
  "after_turn Again = Draining"
| "after_turn (FailTask _) = TaskFailed"
| "after_turn Close = Closing"
| "after_turn Await = Waiting"
| "after_turn (Raised err) = Broken err"

text \<open>Environments whose argument decoder does not itself raise InvalidStateError.\<close>

definition benign :: "env \<Rightarrow> bool" where
  "benign e \<longleftrightarrow> (\<forall>d args. calm (env_decode_args e d args))"

inductive run_step :: "phase \<times> interp \<Rightarrow> phase \<times> interp \<Rightarrow> bool" where
  user: "permitted u s \<Longrightarrow> run_step (Draining, s) (Draining, user_step e u s)"
| callback: "i_ready s = cb # cbs \<Longrightarrow>
    run_step (Draining, s) (Draining, run_callback cb (s\<lparr>i_ready := cbs\<rparr>))"
| turn: "benign e \<Longrightarrow> i_ready s = [] \<Longrightarrow> outer_turn e d s = (t, o') \<Longrightarrow>
    run_step (Draining, s) (after_turn o', t)"
| event: "benign e \<Longrightarrow> deliver e results s = (t, Inr ()) \<Longrightarrow> run_step (Waiting, s) (Draining, t)"
| broken_event: "benign e \<Longrightarrow> deliver e results s = (t, Inl err) \<Longrightarrow> run_step (Waiting, s) (Broken err, t)"

inductive_cases run_step_cases [elim]: "run_step (ph, s) (ph', t)"

inductive reachable :: "interp \<Rightarrow> phase \<times> interp \<Rightarrow> bool" for s0 where
  start: "reachable s0 (Draining, s0)"
| step: "reachable s0 x \<Longrightarrow> run_step x y \<Longrightarrow> reachable s0 y"

subsection \<open>The invariant\<close>

text \<open>An activity whose future is cancelled will be swept: its callback is ready or has run.\<close>

definition act_watch :: "interp \<Rightarrow> bool" where
  "act_watch s \<longleftrightarrow>
     (\<forall>q f. owner_fut s (OAct q) = Some f \<longrightarrow>
        ActivityDone f q \<in> set (i_callbacks s f) \<and>
        (i_futs s f = FutCancelled \<longrightarrow>
           ActivityDone f q \<in> set (i_ready s) \<or> q \<in> set (i_cancelled_activities s)))"

definition child_bounds :: "interp \<Rightarrow> bool" where
  "child_bounds s \<longleftrightarrow>
     (\<forall>q. dict_get (i_children s) q \<noteq> None \<longrightarrow> q \<le> i_seqs s SeqChild) \<and>
     (\<forall>q. CmdChild q \<in> set (i_commands s) \<longrightarrow> q \<le> i_seqs s SeqChild)"

definition loop_inv :: "interp \<Rightarrow> bool" where
  "loop_inv s \<longleftrightarrow> futs_ok s \<and> children_unstarted (i_commands s) s \<and> child_bounds s \<and> act_watch s"

fun phase_inv :: "phase \<times> interp \<Rightarrow> bool" where
  "phase_inv (Draining, s) = loop_inv s"
| "phase_inv (Waiting, s) \<longleftrightarrow>
     loop_inv s \<and> acts_pending s \<and> (\<exists>w\<in>set (i_waiters s). w_kind w = WInbox)"
| "phase_inv (Broken err, s) = (err \<noteq> InvalidStateError)"
| "phase_inv _ = True"

subsection \<open>Workflow code\<close>

text \<open>Operations that leave the ownership alone and only add to what is queued.\<close>

definition quiet :: "interp \<Rightarrow> interp \<Rightarrow> bool" where
  "quiet s t \<longleftrightarrow>
     i_activities t = i_activities s \<and> i_children t = i_children s \<and> i_sends t = i_sends s \<and>
     i_futs t = i_futs s \<and> i_next_fut t = i_next_fut s \<and> i_callbacks t = i_callbacks s \<and>
     i_seqs t SeqChild = i_seqs s SeqChild \<and> child_cmds (i_commands t) = child_cmds (i_commands s) \<and>
     set (i_ready s) \<subseteq> set (i_ready t) \<and> i_cancelled_activities t = i_cancelled_activities s"

lemma quiet_owner: "quiet s t \<Longrightarrow> owner_fut t p = owner_fut s p"
  by (cases p) (auto simp: quiet_def owner_fut.simps)

lemma quiet_inv:
  assumes "quiet s t" "loop_inv s" shows "loop_inv t"
proof -
  have own: "owner_fut t p = owner_fut s p" for p using quiet_owner assms(1) .
  have cmds: "CmdChild q \<in> set (i_commands t) \<longleftrightarrow> CmdChild q \<in> set (i_commands s)" for q
    using assms(1) set_child_cmds unfolding quiet_def by metis
  have "futs_ok t" using assms by (simp add: futs_ok_def loop_inv_def own quiet_def)
  moreover have "children_unstarted (i_commands t) t"
    using assms by (simp add: children_unstarted_def loop_inv_def cmds quiet_def)
  moreover have "child_bounds t" using assms by (simp add: child_bounds_def loop_inv_def cmds quiet_def)
  moreover have "act_watch t"
    using assms unfolding act_watch_def loop_inv_def own by (auto simp: quiet_def)
  ultimately show ?thesis by (simp add: loop_inv_def)
qed

lemma quiet_refl [simp]: "quiet s s"
  by (simp add: quiet_def)

lemma quiet_emit: "quiet s (fold (\<lambda>w. emit (g w)) ws t) \<longleftrightarrow> quiet s t"
  by (induction ws arbitrary: t) (simp_all add: emit_def quiet_def)

lemma quiet_outcome [simp]: "quiet s (set_outcome out t) \<longleftrightarrow> quiet s t"
  by (simp add: set_outcome_def quiet_def)

lemma quiet_record [simp]: "quiet s (record_workflow_error ft err t) \<longleftrightarrow> quiet s t"
  by (simp add: record_workflow_error_def)

lemma quiet_runtime:
  "quiet s (fst (create_timer d s))" "quiet s (cancel_timer q s)" "quiet s (fst (upsert_memo m s))"
  "quiet s (fst (upsert_search_attributes us s))" "quiet s (fst (set_current_details x s))"
  "quiet s (fst (patch e pid s))" "quiet s (fst (set_handler cat name h s))"
proof -
  show "quiet s (cancel_timer q s)"
    by (simp add: cancel_timer_def cancel_waiters_def quiet_emit split: option.split) (simp add: quiet_def)
  show "quiet s (fst (set_handler cat name h s))"
    by (auto simp: set_handler_def assert_not_read_only_def Let_def quiet_def
        split: sum.split category.split option.split if_splits)
qed (auto simp: create_timer_def upsert_memo_def upsert_search_attributes_def set_current_details_def patch_def
    assert_not_read_only_def next_seq_def push_command_def Let_def quiet_def split: sum.split option.split)

lemma quiet_endings:
  "quiet s (run_primary ft how s)" "quiet s (run_signal_handler ft how s)"
  "quiet s (run_update_handler e ft key how s)" "quiet s (handler_finished t s)"
proof -
  show "quiet s (run_primary ft how s)"
    by (auto simp: run_primary_def Let_def split: completion.split) (simp_all add: quiet_def)
qed (auto simp: run_signal_handler_def run_update_handler_def handler_finished_def reply_def quiet_def
    record_workflow_error_def set_outcome_def split: completion.split)

text \<open>Giving a new owner a fresh future: nobody else has it.\<close>

lemma futs_ok_fresh:
  assumes ok: "futs_ok s" and new: "i_next_fut t = i_next_fut s + k" "dict_wf (i_activities t)"
    and own: "\<And>p f. owner_fut t p = Some f \<Longrightarrow>
      (owner_fut s p = Some f \<and> i_futs t f = i_futs s f) \<or>
      (fresh p = Some f \<and> i_next_fut s \<le> f \<and> f < i_next_fut t \<and> i_futs t f = Pending)"
    and inj: "\<And>p p' f. fresh p = Some f \<Longrightarrow> fresh p' = Some f \<Longrightarrow> p = p'"
  shows "futs_ok t"
proof -
  have old: "f < i_next_fut s" if "owner_fut s p = Some f" for p f using futs_okD [OF ok that] ..
  have "f < i_next_fut t \<and> i_futs t f \<in> {Pending, FutCancelled}" if "owner_fut t p = Some f" for p f
    using own [OF that] futs_okD [OF ok, of p f] new(1) by auto
  moreover have "p = p'" if "owner_fut t p = Some f" "owner_fut t p' = Some f" for p p' f
    using own [OF that(1)] own [OF that(2)] old [of p f] old [of p' f] inj [of p f p'] ok
    unfolding futs_ok_def by (metis leD)
  ultimately show ?thesis using new(2) unfolding futs_ok_def by blast
qed

lemma loop_inv_parts:
  "loop_inv s \<Longrightarrow> futs_ok s" "loop_inv s \<Longrightarrow> act_watch s" "loop_inv s \<Longrightarrow> child_bounds s"
  "loop_inv s \<Longrightarrow> children_unstarted (i_commands s) s"
  by (simp_all add: loop_inv_def)

lemma fresh_future_inv:
  assumes "loop_inv s" shows "loop_inv (snd (create_future s))"
proof -
  let ?t = "snd (create_future s)"
  have own: "owner_fut ?t p = owner_fut s p" for p by (cases p) (simp_all add: create_future_def owner_fut.simps)
  have lt: "f < i_next_fut s" if "owner_fut s p = Some f" for p f
    using futs_okD [OF loop_inv_parts(1) [OF assms] that] ..
  have "futs_ok ?t"
    by (rule futs_ok_fresh [OF loop_inv_parts(1) [OF assms], where k = 1 and fresh = "\<lambda>_. None"])
       (use assms own lt in \<open>auto simp: create_future_def loop_inv_def futs_ok_def\<close>)
  moreover have "act_watch ?t"
    using loop_inv_parts(2) [OF assms] unfolding act_watch_def own
    by (auto simp: create_future_def dest: lt)
  ultimately show ?thesis
    using assms by (simp add: loop_inv_def children_unstarted_def child_bounds_def create_future_def)
qed

lemma start_activity_inv:
  assumes inv: "loop_inv s" shows "loop_inv (fst (start_activity e r s))"
proof -
  let ?f = "i_next_fut s" and ?q = "Suc (i_seqs s SeqActivity)"
  define policy where "policy = (case ar_retry_policy r of Some p \<Rightarrow> p | None \<Rightarrow> default_retry_policy)"
  let ?a = "new_activity_exec r policy ?q ?f (i_time s)"
  let ?s1 = "s\<lparr>i_seqs := (i_seqs s)(SeqActivity := ?q)\<rparr>"
  let ?t = "?s1\<lparr>i_next_fut := Suc ?f, i_futs := (i_futs s)(?f := Pending),
     i_activities := dict_set ?q ?a (i_activities s), i_commands := i_commands s @ [CmdActivity ?q],
     i_callbacks := (i_callbacks s)(?f := [ActivityDone ?f ?q])\<rparr>"
  have quiet: "quiet s ?s1" by (simp add: quiet_def)
  have own: "owner_fut ?t p = (if p = OAct ?q then Some ?f else owner_fut s p)" for p
    by (cases p) (auto simp: owner_fut.simps dict_get_set new_activity_exec_def)
  have lt: "f < i_next_fut s" if "owner_fut s p = Some f" for p f
    using futs_okD [OF loop_inv_parts(1) [OF inv] that] ..
  have "futs_ok ?t"
    by (rule futs_ok_fresh [OF loop_inv_parts(1) [OF inv], where k = 1 and fresh = "\<lambda>p. if p = OAct ?q then Some ?f else None"])
       (use inv own lt in \<open>auto simp: loop_inv_def futs_ok_def split: if_splits\<close>)
  moreover have "act_watch ?t"
    using loop_inv_parts(2) [OF inv] unfolding act_watch_def own by (auto dest: lt)
  ultimately have t: "loop_inv ?t"
    using inv by (auto simp: loop_inv_def children_unstarted_def child_bounds_def)
  have "P s \<Longrightarrow> P ?s1 \<Longrightarrow> P ?t \<Longrightarrow> P (fst (start_activity e r s))" for P
    unfolding policy_def start_activity_def assert_not_read_only_def next_seq_def Let_def prod.case
    by (simp add: create_future_def add_done_callback_def push_command_def split: sum.split)
  from this [of loop_inv] t quiet_inv [OF quiet inv] inv show ?thesis by blast
qed

lemma send_inv:
  assumes inv: "loop_inv s" shows "loop_inv (fst (send_to_workflow target m rc s))"
proof -
  let ?f = "i_next_fut s" and ?q = "Suc (i_seqs s SeqSend)"
  let ?t = "s\<lparr>i_seqs := (i_seqs s)(SeqSend := ?q), i_next_fut := Suc ?f, i_futs := (i_futs s)(?f := Pending),
     i_callbacks := (i_callbacks s)(?f := []), i_sends := dict_set ?q (target, m, ?f, rc) (i_sends s),
     i_commands := i_commands s @ [CmdSend ?q]\<rparr>"
  have own: "owner_fut ?t p = (if p = OSend ?q then Some ?f else owner_fut s p)" for p
    by (cases p) (auto simp: owner_fut.simps dict_get_set)
  have lt: "f < i_next_fut s" if "owner_fut s p = Some f" for p f
    using futs_okD [OF loop_inv_parts(1) [OF inv] that] ..
  have "futs_ok ?t"
    by (rule futs_ok_fresh [OF loop_inv_parts(1) [OF inv], where k = 1 and fresh = "\<lambda>p. if p = OSend ?q then Some ?f else None"])
       (use inv own lt in \<open>auto simp: loop_inv_def futs_ok_def split: if_splits\<close>)
  moreover have "act_watch ?t"
    using loop_inv_parts(2) [OF inv] unfolding act_watch_def own by (auto dest: lt)
  ultimately have t: "loop_inv ?t"
    using inv by (auto simp: loop_inv_def children_unstarted_def child_bounds_def)
  have "fst (send_to_workflow target m rc s) \<in> {s, ?t}"
    by (auto simp: send_to_workflow_def assert_not_read_only_def next_seq_def create_future_def push_command_def
        Let_def split: sum.split)
  with t inv show ?thesis by auto
qed

lemma start_child_inv:
  assumes inv: "loop_inv s" shows "loop_inv (fst (start_child_workflow r s))"
proof -
  let ?f = "i_next_fut s" and ?g = "Suc (i_next_fut s)" and ?q = "Suc (i_seqs s SeqChild)"
  define cid where "cid = (case cr_id r of Some c \<Rightarrow> if c \<noteq> [] then c else child_dbos_id (i_workflow_id s) ?q
      | None \<Rightarrow> child_dbos_id (i_workflow_id s) ?q)"
  let ?c = "\<lparr>ce_seq = ?q, ce_type = cr_type r, ce_id = cid, ce_args = cr_args r,
     ce_task_queue = cr_task_queue r, ce_policy = cr_policy r, ce_cancellation = cr_cancellation r,
     ce_start_future = ?f, ce_result_future = ?g, ce_memo = cr_memo r, ce_sa = cr_sa r, ce_started = False,
     ce_headers = cr_headers r, ce_run_timeout = map_option total_seconds (cr_run_timeout r),
     ce_retry_policy = map_option (jdict_of \<circ> serialize_retry_policy) (cr_retry_policy r)\<rparr>"
  let ?s1 = "s\<lparr>i_seqs := (i_seqs s)(SeqChild := ?q)\<rparr>"
  let ?t = "?s1\<lparr>i_next_fut := Suc ?g, i_futs := (i_futs s)(?f := Pending, ?g := Pending),
     i_children := dict_set ?q ?c (i_children s), i_commands := i_commands s @ [CmdChild ?q],
     i_callbacks := (i_callbacks s)(?f := [], ?g := [ChildDone ?g ?q])\<rparr>"
  have own1: "owner_fut ?s1 p = owner_fut s p" for p by (cases p) (simp_all add: owner_fut.simps)
  then have s1: "loop_inv ?s1"
    using inv unfolding loop_inv_def futs_ok_def act_watch_def children_unstarted_def child_bounds_def
    by (auto intro: le_SucI)
  have own: "owner_fut ?t p = (if p = OChild ?q then Some ?g else if p = OStart ?q then Some ?f else owner_fut s p)" for p
    by (cases p) (auto simp: owner_fut.simps dict_get_set)
  have lt: "f < i_next_fut s" if "owner_fut s p = Some f" for p f
    using futs_okD [OF loop_inv_parts(1) [OF inv] that] ..
  have "futs_ok ?t"
    by (rule futs_ok_fresh [OF loop_inv_parts(1) [OF inv], where k = 2
          and fresh = "\<lambda>p. if p = OChild ?q then Some ?g else if p = OStart ?q then Some ?f else None"])
       (use inv own lt in \<open>auto simp: loop_inv_def futs_ok_def split: if_splits dest: less_SucI\<close>)
  moreover have "act_watch ?t"
    using loop_inv_parts(2) [OF inv] unfolding act_watch_def own by (auto dest: lt)
  moreover have "child_bounds ?t"
    using loop_inv_parts(3) [OF inv] by (auto simp: child_bounds_def dict_get_set intro: le_SucI)
  moreover have "children_unstarted (i_commands ?t) ?t"
    using loop_inv_parts(3,4) [OF inv]
    by (auto simp: children_unstarted_def child_bounds_def dict_get_set split: if_splits)
  ultimately have t: "loop_inv ?t" by (simp add: loop_inv_def)
  have "P s \<Longrightarrow> P ?s1 \<Longrightarrow> P ?t \<Longrightarrow> P (fst (start_child_workflow r s))" for P
    unfolding cid_def start_child_workflow_def assert_not_read_only_def next_seq_def Let_def prod.case
    by (simp add: create_future_def add_done_callback_def push_command_def split: sum.split)
  from this [of loop_inv] t s1 inv show ?thesis by blast
qed

text \<open>An operation of the interpreter itself that releases futures and deletes children at most.\<close>

definition shrinks_children :: "interp \<Rightarrow> interp \<Rightarrow> bool" where
  "shrinks_children s t \<longleftrightarrow> (\<forall>q. dict_get (i_children t) q \<in> {None, dict_get (i_children s) q})"

lemma releases_static: "releases s t \<Longrightarrow> i_commands t = i_commands s \<and> i_seqs t = i_seqs s \<and> i_callbacks t = i_callbacks s"
  by (simp add: releases_def loop_view_def)

lemma releases_inv:
  assumes r: "releases s t" and inv: "loop_inv s" and ch: "shrinks_children s t" and w: "act_watch t"
  shows "loop_inv t"
proof -
  note st = releases_static [OF r]
  have "dict_get (i_children t) q = Some c \<Longrightarrow> dict_get (i_children s) q = Some c" for q c
    using ch unfolding shrinks_children_def by (metis insertE option.distinct(1) singletonD)
  then have "children_unstarted (i_commands t) t \<and> child_bounds t"
    using loop_inv_parts(3,4) [OF inv] st
    unfolding children_unstarted_def child_bounds_def by (metis not_None_eq)
  then show ?thesis using releases_ok [OF r] inv w by (simp add: loop_inv_def)
qed

lemma complete_inv:
  assumes inv: "loop_inv s" and f: "unowned f s \<or> st = FutCancelled"
  shows "loop_inv (complete_future f st s)"
proof -
  let ?t = "complete_future f st s"
  have own: "owner_fut ?t p = owner_fut s p" for p by (cases p) (simp_all add: owner_fut.simps complete_future_def)
  have "futs_ok ?t"
    using loop_inv_parts(1) [OF inv] f unfolding futs_ok_def own
    by (auto simp: complete_future_def unowned_def)
  moreover have "act_watch ?t"
    using loop_inv_parts(2) [OF inv] f unfolding act_watch_def own
    by (auto simp: complete_future_def unowned_def)
  ultimately show ?thesis
    using loop_inv_parts(3,4) [OF inv]
    by (simp add: loop_inv_def children_unstarted_def child_bounds_def complete_future_def)
qed

lemma cancel_inv: "loop_inv s \<Longrightarrow> loop_inv (cancel_future f s)"
  by (simp add: cancel_future_def complete_inv)

lemma request_cancel_inv:
  assumes inv: "loop_inv s" shows "loop_inv (request_activity_cancel q s)"
proof -
  let ?s1 = "update_activity q (ae_cancel_requested_update (\<lambda>_. True)) s"
  have own: "owner_fut ?s1 p = owner_fut s p" for p
    by (cases p) (auto simp: owner_fut.simps update_activity_def dict_get_set split: option.split)
  have keep: "i_children ?s1 = i_children s" "i_commands ?s1 = i_commands s" "i_seqs ?s1 = i_seqs s"
    "i_callbacks ?s1 = i_callbacks s" "i_ready ?s1 = i_ready s" "i_futs ?s1 = i_futs s"
    "i_cancelled_activities ?s1 = i_cancelled_activities s"
    by (simp_all add: update_activity_def split: option.split)
  have r: "releases s ?s1" by (rule releases_update) simp_all
  have s1: "loop_inv ?s1"
    by (rule releases_inv [OF r inv])
       (use loop_inv_parts(2) [OF inv] own keep in \<open>simp_all add: shrinks_children_def act_watch_def\<close>)
  have "quiet ?s1 (emit x ?s1)" "quiet ?s1 (?s1\<lparr>i_queued_wait_cancels := y\<rparr>)" for x y
    by (simp_all add: quiet_def emit_def)
  with s1 quiet_inv have "loop_inv (emit x ?s1)" "loop_inv (?s1\<lparr>i_queued_wait_cancels := y\<rparr>)" for x y by blast+
  then show ?thesis
    by (auto simp: request_activity_cancel_def Let_def inv cancel_inv split: option.split)
qed

lemma user_step_inv:
  assumes "loop_inv s" and "permitted u s" shows "loop_inv (user_step e u s)"
  using assms
  by (cases u) (auto simp: user_step_def permitted_def settle_def complete_inv cancel_inv request_cancel_inv
      start_activity_inv start_child_inv send_inv fresh_future_inv
      intro: quiet_inv [OF quiet_runtime(1)] quiet_inv [OF quiet_runtime(2)] quiet_inv [OF quiet_runtime(3)]
        quiet_inv [OF quiet_runtime(4)] quiet_inv [OF quiet_runtime(5)] quiet_inv [OF quiet_runtime(6)]
        quiet_inv [OF quiet_runtime(7)] quiet_inv [OF quiet_endings(1)] quiet_inv [OF quiet_endings(2)]
        quiet_inv [OF quiet_endings(3)] quiet_inv [OF quiet_endings(4)])

lemma run_callback_inv:
  assumes inv: "loop_inv s" and ready: "i_ready s = cb # cbs"
  shows "loop_inv (run_callback cb (s\<lparr>i_ready := cbs\<rparr>))"
proof -
  let ?t = "run_callback cb (s\<lparr>i_ready := cbs\<rparr>)"
  have keep: "i_activities ?t = i_activities s" "i_children ?t = i_children s" "i_sends ?t = i_sends s"
    "i_futs ?t = i_futs s" "i_next_fut ?t = i_next_fut s" "i_callbacks ?t = i_callbacks s" "i_seqs ?t = i_seqs s"
    "i_commands ?t = i_commands s" "i_ready ?t = cbs"
    "set (i_cancelled_activities s) \<subseteq> set (i_cancelled_activities ?t)"
    by (auto simp: run_callback_def activity_done_def child_done_def split: callback.split)
  have own: "owner_fut ?t p = owner_fut s p" for p by (cases p) (simp_all add: owner_fut.simps keep)
  have "ActivityDone f q \<in> set cbs \<or> q \<in> set (i_cancelled_activities ?t)"
    if o: "owner_fut s (OAct q) = Some f" and c: "i_futs s f = FutCancelled" for q f
  proof (cases "cb = ActivityDone f q")
    case True
    with o c show ?thesis by (auto simp: run_callback_def activity_done_def owner_fut.simps)
  next
    case False
    then show ?thesis
      using loop_inv_parts(2) [OF inv] o c ready keep(10) unfolding act_watch_def by fastforce
  qed
  then have "act_watch ?t"
    using loop_inv_parts(2) [OF inv] unfolding act_watch_def own keep by blast
  then show ?thesis
    using loop_inv_parts(1,3,4) [OF inv]
    by (simp add: loop_inv_def futs_ok_def own children_unstarted_def child_bounds_def keep)
qed

subsection \<open>Deliveries and turns\<close>

lemma children_more [children_frame]:
  "i_children (cancel_future f s) = i_children s" "i_children (advance_time t s) = i_children s"
  "i_children (reply e key rst b s) = i_children s" "i_children (spawn_handler kd n p h s) = i_children s"
  "i_children (buffer_signal n m s) = i_children s" "i_children (apply_cancel m s) = i_children s"
  "i_children (cancel_waiters P s) = i_children s" "i_children (abandon_waiters P s) = i_children s"
  "i_children (retire_parked_timers q s) = i_children s"
proof -
  show "i_children (cancel_waiters P s) = i_children s" for P s
    unfolding cancel_waiters_def by (subst fold_keeps [where f = i_children]) (simp_all add: emit_def)
  then show "i_children (retire_parked_timers q s) = i_children s" by (simp add: retire_parked_timers_def Let_def)
qed (simp_all add: cancel_future_def complete_future_def advance_time_def reply_def spawn_handler_def
    buffer_signal_def apply_cancel_def abandon_waiters_def Let_def split: option.split)

lemma children_activities [children_frame]:
  "i_children (fst (reject_activity e a fl rs s)) = i_children s"
  "i_children (fst (retry_or_reject e q a fl s)) = i_children s" "i_children (park_async q a m s) = i_children s"
  "i_children (fst (fail_async_attempt e q fl s)) = i_children s"
  by (simp_all add: reject_activity_def retry_or_reject_def park_async_def fail_async_attempt_def Let_def
      children_frame split: option.split sum.split prod.split)

lemma children_async [children_frame]:
  "i_children (fst (async_parked_timeout e q t s)) = i_children s"
  "i_children (fst (async_heartbeat_check e q s)) = i_children s" "i_children (fst (deliver_act_s2c e q s)) = i_children s"
  "i_children (fst (apply_activity_result e m s)) = i_children s" "i_children (apply_activity_heartbeat e m s) = i_children s"
  by (simp_all add: async_parked_timeout_def async_heartbeat_check_def deliver_act_s2c_def apply_activity_result_def
      apply_activity_heartbeat_def Let_def children_frame split: option.split sum.split prod.split)

lemma children_messages [children_frame]:
  "i_children (fst (apply_signal e m s)) = i_children s" "i_children (fst (apply_update e m s)) = i_children s"
  "i_children (fst (apply_query e m s)) = i_children s" "i_children (fst (deliver_inbox e m s)) = i_children s"
proof -
  show "i_children (fst (apply_signal e m s)) = i_children s" "i_children (fst (apply_update e m s)) = i_children s"
    "i_children (fst (apply_query e m s)) = i_children s" for m s
    by (simp_all add: apply_signal_def apply_update_def apply_query_def Let_def children_frame
        split: option.split sum.split)
  then show "i_children (fst (deliver_inbox e m s)) = i_children s"
    by (simp add: deliver_inbox_def Let_def children_frame split: option.split sum.split)
qed

lemma children_events [children_frame]:
  "i_children (fst (deliver_activity_event e q m s)) = i_children s"
  "i_children (fst (deliver_queued_activity_event e q m s)) = i_children s"
  "i_children (deliver_timer q s) = i_children s"
  by (simp_all add: deliver_activity_event_def deliver_queued_activity_event_def deliver_timer_def Let_def
      children_frame split: option.split sum.split bool.split)

lemma deliver_child_children:
  "i_children (fst (deliver_child_event e q m s)) \<in> {i_children s, dict_del q (i_children s)}"
  by (simp add: deliver_child_event_def Let_def children_frame split: option.split sum.split)

lemma shrinks_same: "i_children t = i_children s \<Longrightarrow> shrinks_children s t"
  by (simp add: shrinks_children_def)

lemma shrinks_del: "i_children t = dict_del q (i_children s) \<Longrightarrow> shrinks_children s t"
  by (simp add: shrinks_children_def dict_get_del)

lemma shrinks_trans: "shrinks_children s t \<Longrightarrow> shrinks_children t u \<Longrightarrow> shrinks_children s u"
  unfolding shrinks_children_def by (metis insertE insertI1 insertI2 singletonD)

lemma shrinks_waiter: "shrinks_children s (fst (deliver_waiter e w m s))"
  using deliver_child_children [of e "w_seq w" m s]
  by (auto simp: deliver_waiter_def children_frame split: wkind.split
      intro: shrinks_same shrinks_del)

lemma shrinks_deliver_each: "shrinks_children s (fst (deliver_each e results ws s))"
proof (induction ws arbitrary: s)
  case (Cons w ws)
  show ?case
  proof (cases "results (w_task w)")
    case (Some m)
    let ?s0 = "s\<lparr>i_waiters := remove1 w (i_waiters s)\<rparr>"
    obtain s1 r where d: "deliver_waiter e w m ?s0 = (s1, r)" by fastforce
    then have "shrinks_children s s1"
      using shrinks_waiter [of ?s0 e w m] by (simp add: shrinks_children_def)
    with Cons.IH [of s1] shrinks_trans Some d show ?thesis
      by (cases r) (auto intro: shrinks_same)
  qed (simp add: Cons.IH)
qed (simp add: shrinks_same)

lemma act_watch_pending:
  assumes "releases s t" "act_watch s" "acts_pending t" shows "act_watch t"
  using assms releases_static [OF assms(1)] unfolding act_watch_def acts_pending_def releases_def
  by (metis fut_state.distinct(5))

lemma deliver_inv:
  assumes "benign e" "loop_inv s" "acts_pending s" "deliver e results s = (t, r)"
  shows "loop_inv t \<and> acts_pending t \<and> r \<noteq> Inl InvalidStateError"
proof -
  have "safe s (deliver e results s)"
    unfolding deliver_def using assms(1-3) by (intro safe_deliver_each) (simp_all add: benign_def loop_inv_def)
  then have r: "releases s t" and c: "calm r" using assms(4) by (simp_all add: safe_def)
  have "shrinks_children s t" using shrinks_deliver_each [of s e results] assms(4) by (metis deliver_def fst_conv)
  then have "loop_inv t"
    using releases_inv [OF r assms(2)] act_watch_pending [OF r loop_inv_parts(2) [OF assms(2)]]
      releases_pending [OF r assms(3)] by blast
  with c releases_pending [OF r assms(3)] show ?thesis by (simp add: calm_def)
qed

lemma children_sweep [children_frame]: "i_children (sweep_activities e s) = i_children s"
proof -
  have "i_children (sweep_wait_cancel e q t) = i_children t" for q t
    by (simp add: sweep_wait_cancel_def children_frame split: option.split)
  moreover have "i_children (sweep_activity e q t) = i_children t" for q t
    by (simp add: sweep_activity_def Let_def children_frame split: option.split)
  ultimately show ?thesis
    unfolding sweep_activities_def Let_def by (simp add: fold_keeps [where f = i_children])
qed

lemma shrinks_sweep_children: "shrinks_children s (fst (sweep_children e qs s))"
proof (induction qs arbitrary: s)
  case (Cons q qs)
  obtain s1 r where d: "sweep_child e q s = (s1, r)" by fastforce
  then have "i_children s1 \<in> {i_children s, dict_del q (i_children s)}"
    by (auto simp: sweep_child_def Let_def children_frame split: option.splits sum.splits if_splits)
  then have "shrinks_children s s1" using shrinks_same shrinks_del by blast
  with Cons.IH [of s1] shrinks_trans d show ?case by (cases r) auto
qed (simp add: shrinks_same)

text \<open>After the sweep of a drained loop no activity is left undecided but cancelled.\<close>

lemma sweep_inv:
  assumes inv: "loop_inv s" and ready: "i_ready s = []" and sw: "sweep_cancellations e s = (t, r)"
  shows "loop_inv t \<and> acts_pending t \<and> r \<noteq> Inl InvalidStateError"
proof -
  let ?s1 = "sweep_activities e s" and ?s2 = "(sweep_activities e s)\<lparr>i_cancelled_children := []\<rparr>"
  have r1: "releases s ?s1" by simp
  have get: "dict_get (i_activities ?s1) q = (if q \<in> set (i_cancelled_activities s) then None
      else dict_get (i_activities s) q)" for q by (rule sweep_activities_effect(1))
  have pend: "acts_pending ?s1"
    unfolding acts_pending_def
  proof (intro allI impI)
    fix q f assume o: "owner_fut ?s1 (OAct q) = Some f"
    then have os: "owner_fut s (OAct q) = Some f" "i_futs ?s1 f = i_futs s f"
      using r1 unfolding releases_def by blast+
    moreover have "q \<notin> set (i_cancelled_activities s)"
      using o by (auto simp: owner_fut.simps get split: if_splits)
    ultimately have "i_futs s f \<noteq> FutCancelled"
      using loop_inv_parts(2) [OF inv] ready by (auto simp: act_watch_def)
    then show "i_futs ?s1 f = Pending" using futs_okD [OF loop_inv_parts(1) [OF inv] os(1)] os(2) by auto
  qed
  have "safe ?s2 (sweep_children e (i_cancelled_children ?s1) ?s2)"
    by (intro safe_sweep_children calm_resolve_run)
  then have "safe ?s1 (t, r)" using sw safe_same [of ?s2 ?s1] by (simp add: sweep_cancellations_def Let_def)
  then have r2: "releases ?s1 t" and c: "calm r" by (simp_all add: safe_def)
  have r3: "releases s t" by (rule releases_trans [OF r1 r2])
  have p: "acts_pending t" by (rule releases_pending [OF r2 pend])
  have "shrinks_children s t"
    using shrinks_sweep_children [of ?s2 e "i_cancelled_children ?s1"] sw
    by (simp add: sweep_cancellations_def Let_def shrinks_children_def children_frame)
  then have "loop_inv t"
    using releases_inv [OF r3 inv] act_watch_pending [OF r3 loop_inv_parts(2) [OF inv] p] by blast
  with p c show ?thesis by (simp add: calm_def)
qed

lemma safe_apply_signals:
  assumes "\<And>d a. calm (env_decode_args e d a)" shows "safe s (apply_signals e ms s)"
proof (induction ms arbitrary: s)
  case (Cons m ms)
  obtain s1 r where d: "apply_signal e m s = (s1, r)" by fastforce
  have "safe s (s1, r)" using safe_messages(1) [OF assms, of s m] d by simp
  with Cons [of s1] d show ?case by (cases r) (auto simp: safe_def intro: releases_trans)
qed simp

lemma flush_inv:
  assumes "benign e" "loop_inv s" "acts_pending s" "flush_pending_handler_signals e s = (t, r)"
  shows "loop_inv t \<and> acts_pending t \<and> r \<noteq> Inl InvalidStateError"
proof -
  let ?s0 = "s\<lparr>i_pending_flush := []\<rparr>"
  obtain s1 r1 where a: "apply_signals e (i_pending_flush s) ?s0 = (s1, r1)" by fastforce
  have ch: "i_children (fst (apply_signals e ms u)) = i_children u" for ms u
  proof (induction ms arbitrary: u)
    case (Cons m ms)
    obtain u1 r where "apply_signal e m u = (u1, r)" by fastforce
    with Cons [of u1] children_messages(1) [of e m u] show ?case by (cases r) auto
  qed simp
  have "safe ?s0 (s1, r1)"
    using safe_apply_signals [of e ?s0 "i_pending_flush s"] a assms(1) by (simp add: benign_def)
  then have "safe s (s1, r1)" by (rule safe_same [rotated]) simp
  then have r: "releases s s1" and c: "calm r1" by (simp_all add: safe_def)
  have p: "acts_pending s1" by (rule releases_pending [OF r assms(3)])
  have "loop_inv s1"
    using releases_inv [OF r assms(2) shrinks_same act_watch_pending [OF r loop_inv_parts(2) [OF assms(2)] p]]
      ch [of "i_pending_flush s" ?s0] a by simp
  with p c a assms(2-4) show ?thesis
    by (cases r1) (auto simp: flush_pending_handler_signals_def calm_def split: if_splits)
qed

lemma process_inv:
  assumes inv: "loop_inv s" and pend: "acts_pending s" and p: "process_commands e s = (t, r)"
  shows "loop_inv t \<and> acts_pending t \<and> r \<noteq> Inl InvalidStateError"
proof -
  let ?s0 = "s\<lparr>i_commands := []\<rparr>"
  have q: "i_activities ?s0 = i_activities s" by simp
  have own: "owner_fut ?s0 p = owner_fut s p" for p by (cases p) (simp_all add: owner_fut.simps)
  have ok: "futs_ok ?s0" "acts_pending ?s0" "act_watch ?s0" "children_unstarted (i_commands s) ?s0"
    using inv pend by (simp_all add: loop_inv_def futs_ok_def acts_pending_def act_watch_def own children_unstarted_def)
  have "safe ?s0 (t, r)"
    using safe_process_all [OF ok(1,2,4), of e False] unfolding p [unfolded process_commands_def] .
  then have rel: "releases ?s0 t" and c: "calm r" by (simp_all add: safe_def)
  have st: "i_commands t = []" "i_seqs t = i_seqs s" using releases_static [OF rel] by simp_all
  have "dict_get (i_children s) q \<noteq> None" if "dict_get (i_children t) q \<noteq> None" for q
  proof -
    from that obtain f where "owner_fut t (OChild q) = Some f" by (auto simp: owner_fut.simps)
    then have "owner_fut ?s0 (OChild q) = Some f" using rel unfolding releases_def by blast
    then show ?thesis by (auto simp: owner_fut.simps)
  qed
  then have "child_bounds t" using loop_inv_parts(3) [OF inv] st unfolding child_bounds_def by simp
  moreover note pt = releases_pending [OF rel ok(2)]
  ultimately show ?thesis
    using releases_ok [OF rel ok(1)] act_watch_pending [OF rel ok(3) pt] st c
    by (simp add: loop_inv_def children_unstarted_def calm_def)
qed

lemma quiet_pending: "quiet s t \<Longrightarrow> acts_pending s \<Longrightarrow> acts_pending t"
  using quiet_owner unfolding acts_pending_def by (metis quiet_def)

lemma quiet_turn_end: "quiet s (flush_outbox e s)" "quiet s (ensure_inbox_waiter s)"
proof -
  have "quiet s (fold (\<lambda>(key, v). emit (SetEvent key (encode_reply e v))) xs t) \<longleftrightarrow> quiet s t" for xs t
    by (induction xs arbitrary: t) (auto simp: emit_def quiet_def)
  then show "quiet s (flush_outbox e s)" by (simp add: flush_outbox_def quiet_def)
  show "quiet s (ensure_inbox_waiter s)"
    by (simp add: ensure_inbox_waiter_def launch_waiter_def emit_def quiet_def)
qed

lemma turn_inv:
  assumes e: "benign e" and inv: "loop_inv s" and ready: "i_ready s = []" and turn: "outer_turn e d s = (t, o')"
  shows "phase_inv (after_turn o', t)"
proof -
  obtain s1 r1 where 1: "sweep_cancellations e s = (s1, r1)" by fastforce
  obtain s2 r2 where 2: "flush_pending_handler_signals e s1 = (s2, r2)" by fastforce
  obtain s3 r3 where 3: "process_commands e s2 = (s3, r3)" by fastforce
  note i1 = sweep_inv [OF inv ready 1]
  have i2: "loop_inv s2 \<and> acts_pending s2 \<and> r2 \<noteq> Inl InvalidStateError" using flush_inv [OF e _ _ 2] i1 by blast
  have i3: "loop_inv s3 \<and> acts_pending s3 \<and> r3 \<noteq> Inl InvalidStateError" using process_inv [OF _ _ 3] i2 by blast
  let ?s4 = "flush_outbox e s3"
  have i4: "loop_inv ?s4" "acts_pending ?s4"
    using i3 quiet_inv [OF quiet_turn_end(1)] quiet_pending [OF quiet_turn_end(1)] by blast+
  then have i5: "loop_inv (ensure_inbox_waiter ?s4)" "acts_pending (ensure_inbox_waiter ?s4)"
    using quiet_inv [OF quiet_turn_end(2)] quiet_pending [OF quiet_turn_end(2)] by blast+
  have "\<exists>w\<in>set (i_waiters (ensure_inbox_waiter u)). w_kind w = WInbox" for u
    by (auto simp: ensure_inbox_waiter_def launch_waiter_def emit_def list_ex_iff)
  then show ?thesis
    using turn i1 i2 i3 i5
    by (auto simp: outer_turn_def 1 2 3 Let_def split: sum.splits if_splits option.splits outcome.splits)
qed

lemma reachable_inv:
  assumes "loop_inv s0" and "reachable s0 x" shows "phase_inv x"
  using assms(2)
proof (induction rule: reachable.induct)
  case start
  then show ?case using assms(1) by simp
next
  case (step x y)
  from step.hyps(2) step.IH show ?case
  proof (cases rule: run_step.cases)
    case (user u s e)
    then show ?thesis using step.IH user_step_inv by simp
  next
    case (callback s cb cbs)
    then show ?thesis using step.IH run_callback_inv by simp
  next
    case (turn e s d t o')
    then show ?thesis using step.IH turn_inv by simp
  next
    case (event e results s t)
    then show ?thesis using step.IH deliver_inv [of e s results t "Inr ()"] by simp
  next
    case (broken_event e results s t err)
    then show ?thesis using step.IH deliver_inv by (metis phase_inv.simps(2,3))
  qed
qed

lemma initial_inv: "loop_inv (begin_execution steps start memo sa (new_interp wid defn meta q n))"
proof -
  let ?s = "begin_execution steps start memo sa (new_interp wid defn meta q n)"
  have "owner_fut ?s p = None" for p by (cases p) (simp_all add: owner_fut.simps begin_execution_def new_interp_def)
  then show ?thesis
    by (simp add: loop_inv_def futs_ok_def act_watch_def children_unstarted_def child_bounds_def)
       (simp add: begin_execution_def new_interp_def)
qed



end
