(* ===== verification/Queued_Activity.thy ===== *)
theory Queued_Activity
  imports Interp_Commands
begin

text \<open>
  The activity workflow behind a cross-queue activity (\<open>_run_queued_activity\<close>,
  \<open>_await_async_completion\<close> of \<open>dbosify/_internal/activity_workflow.py\<close>): the retry loop of the
  whole activity on its own worker, and the park for an external completion. Parameters: which
  activity types this worker has, the recorded start and enqueue times, the envelope an attempt step
  returns, and the completions the workflow receives, in order.
\<close>

datatype act_op =
    AStep int "rat option" deadline_type
  | ASleep rat
  | ARecv string rat
  | AEvent string json

record queued_env =
  qe_registered :: "string \<Rightarrow> bool"
  qe_started_at :: rat
  qe_created_at :: "rat option"
  qe_step :: "string \<Rightarrow> json list \<Rightarrow> rat option \<Rightarrow> json \<Rightarrow> json"

record queued_call =
  qc_name :: string
  qc_args :: "json list"
  qc_start_to_close :: "rat option"
  qc_schedule_to_close :: "rat option"
  qc_schedule_to_start :: "rat option"
  qc_policy :: retry_policy
  qc_meta :: jdict
  qc_attempt :: int
  qc_activity_id :: string

subsection \<open>The payload\<close>

definition timeout_json :: "timeout_type \<Rightarrow> string \<Rightarrow> json list \<Rightarrow> json" where
  "timeout_json typ msg details = serialize_failure id (new_exc (TimeoutError msg (Some typ) details))"

definition deadline_label :: "deadline_type \<Rightarrow> string" where
  "deadline_label d = (case d of Start_To_Close \<Rightarrow> ''start_to_close'' | Schedule_To_Close \<Rightarrow> ''schedule_to_close'')"

definition deadline_failure :: "deadline_type \<Rightarrow> json" where
  "deadline_failure d =
     (case d of
        Schedule_To_Close \<Rightarrow> timeout_json SCHEDULE_TO_CLOSE ''activity Schedule-To-Close timeout'' []
      | Start_To_Close \<Rightarrow> timeout_json START_TO_CLOSE ''activity Start-To-Close timeout'' [])"

definition failed_envelope :: "json \<Rightarrow> rat \<Rightarrow> json" where
  "failed_envelope failure ended_at =
     JObj [(''ok'', JBool False), (''failure'', failure), (''ended_at'', JNum ended_at)]"

text \<open>The fields of the payload, with the timeouts and the policy copied into the metadata.\<close>

definition queued_call_of :: "json \<Rightarrow> queued_call result" where
  "queued_call_of payload =
     bind_result (str_field payload ''activity_name'') (\<lambda>name.
     bind_result (bind_result (jindex payload ''args'') to_list) (\<lambda>args.
     bind_result (optional to_float (jget payload ''start_to_close'')) (\<lambda>stc.
     bind_result (optional to_float (jget payload ''schedule_to_close'')) (\<lambda>budget.
     bind_result (if jget payload ''retry_policy'' = JNull then Inr default_retry_policy
                  else deserialize_retry_policy (jget payload ''retry_policy'')) (\<lambda>policy.
     bind_result (bind_result (jindex payload ''meta'') as_obj) (\<lambda>meta0.
     let meta = dict_set ''retry_policy'' (jget payload ''retry_policy'')
          (dict_set ''schedule_to_close'' (jget payload ''schedule_to_close'')
            (dict_set ''start_to_close'' (jget payload ''start_to_close'') meta0)) in
     bind_result (optional to_float (jget payload ''schedule_to_start'')) (\<lambda>s2s.
     bind_result (to_int (jget_default (JObj meta) ''attempt'' (JInt 1))) (\<lambda>att.
     bind_result (as_str (jget_default (JObj meta) ''activity_id'' (JStr []))) (\<lambda>aid.
       Inr \<lparr>qc_name = name, qc_args = args, qc_start_to_close = stc, qc_schedule_to_close = budget,
            qc_schedule_to_start = s2s, qc_policy = policy, qc_meta = meta, qc_attempt = att,
            qc_activity_id = aid\<rparr>)))))))))"

subsection \<open>Parking for an external completion\<close>

fun await_completion ::
  "rat \<Rightarrow> string \<Rightarrow> deadline_type \<Rightarrow> rat \<Rightarrow> json option list \<Rightarrow> act_op list \<times> json result \<times> json option list" where
  "await_completion timeout aid dtype ended_at [] =
     ([ARecv ASYNC_COMPLETE_TOPIC timeout], Inr (failed_envelope (deadline_failure dtype) ended_at), [])"
| "await_completion timeout aid dtype ended_at (None # rest) =
     ([ARecv ASYNC_COMPLETE_TOPIC timeout], Inr (failed_envelope (deadline_failure dtype) ended_at), rest)"
| "await_completion timeout aid dtype ended_at (Some c # rest) =
     (if message_kind c = JStr ''activity_heartbeat'' then
        (let (ops, r, left) = await_completion timeout aid dtype ended_at rest
         in (ARecv ASYNC_COMPLETE_TOPIC timeout # ops, r, left))
      else
        (case to_float (jget_default c ''sent_at'' (JNum ended_at)) of
           Inl err \<Rightarrow> ([ARecv ASYNC_COMPLETE_TOPIC timeout], Inl err, rest)
         | Inr sent \<Rightarrow>
             if truthy (jget c ''cancelled'') then
               ([ARecv ASYNC_COMPLETE_TOPIC timeout, AEvent (async_activity_gone_key aid) (JBool True)],
                Inr (failed_envelope (serialize_failure id (new_exc (CancelledError ''Activity cancelled'' []))) sent), rest)
             else if truthy (jget c ''ok'') then
               ([ARecv ASYNC_COMPLETE_TOPIC timeout, AEvent (async_activity_gone_key aid) (JBool True)],
                Inr (JObj [(''ok'', JBool True), (''result'', jget c ''result''), (''ended_at'', JNum sent)]), rest)
             else ([ARecv ASYNC_COMPLETE_TOPIC timeout],
                   bind_result (jindex c ''failure'') (\<lambda>f. Inr (failed_envelope f sent)), rest)))"

text \<open>The wait of a park: the deadline less the time the body took, or the receive timeout.\<close>

definition park_timeout :: "rat option \<Rightarrow> json \<Rightarrow> rat result" where
  "park_timeout deadline env =
     (case deadline of
        None \<Rightarrow> Inr RECV_TIMEOUT_SECONDS
      | Some d \<Rightarrow>
          bind_result (to_float (jget_default env ''ended_at'' (JNum 0))) (\<lambda>ended.
          bind_result (to_float (jget_default env ''started_at'' (JNum ended))) (\<lambda>began.
            Inr (max 0 (d - max 0 (ended - began))))))"

definition settle_attempt ::
  "queued_call \<Rightarrow> rat option \<Rightarrow> deadline_type \<Rightarrow> json \<Rightarrow> json option list \<Rightarrow> act_op list \<times> json result \<times> json option list" where
  "settle_attempt qc deadline dtype env comps =
     (if truthy (jget env ''async_pending'') then
        (case park_timeout deadline env of
           Inl err \<Rightarrow> ([], Inl err, comps)
         | Inr wait \<Rightarrow>
             (case to_float (jget_default env ''ended_at'' (JNum 0)) of
                Inl err \<Rightarrow> ([], Inl err, comps)
              | Inr ended \<Rightarrow> await_completion wait (qc_activity_id qc) dtype ended comps))
      else ([], Inr env, comps))"

subsection \<open>The retry loop\<close>

definition attempt_meta :: "queued_call \<Rightarrow> int \<Rightarrow> deadline_type \<Rightarrow> json" where
  "attempt_meta qc att dtype =
     JObj (dict_set ''deadline_type'' (JStr (deadline_label dtype)) (dict_set ''attempt'' (JInt att) (qc_meta qc)))"

definition stamp :: "json \<Rightarrow> retry_state \<Rightarrow> json" where
  "stamp env rs = (case env of JObj kvs \<Rightarrow> JObj (dict_set ''retry_state'' (JInt (retry_state_int rs)) kvs) | j \<Rightarrow> j)"

text \<open>
  What follows an attempt: the final envelope, or the elapsed time and the backoff before the next one.
\<close>

datatype verdict = Final json | Backoff rat rat

definition judge :: "queued_env \<Rightarrow> queued_call \<Rightarrow> int \<Rightarrow> json \<Rightarrow> verdict result" where
  "judge e qc att env =
     (if truthy (jget env ''ok'') then Inr (Final env)
      else bind_result (jindex env ''failure'') (\<lambda>failure.
        if jget failure ''cls'' = JStr ''CancelledError'' then Inr (Final env)
        else bind_result (to_float (jget_default env ''ended_at'' (JNum (qe_started_at e)))) (\<lambda>ended.
          let elapsed = ended - qe_started_at e
          in bind_result (retry_decision (qc_policy qc) att failure (Some elapsed) (qc_schedule_to_close qc)) (\<lambda>(delay, rs).
               case delay of
                 None \<Rightarrow> Inr (Final (stamp env rs))
               | Some d \<Rightarrow> Inr (Backoff elapsed d)))))"

partial_function (option) queued_loop ::
  "queued_env \<Rightarrow> queued_call \<Rightarrow> int \<Rightarrow> rat \<Rightarrow> json option list \<Rightarrow> act_op list \<Rightarrow> (act_op list \<times> json result) option" where
  "queued_loop e qc att elapsed_before comps ops =
     (let (deadline, dtype) = effective_deadline (qc_start_to_close qc)
            (map_option (\<lambda>b. b - elapsed_before) (qc_schedule_to_close qc));
          env = qe_step e (qc_name qc) (qc_args qc) deadline (attempt_meta qc att dtype);
          (parked, settled, left) = settle_attempt qc deadline dtype env comps;
          ops1 = ops @ [AStep att deadline dtype] @ parked
      in case bind_result settled (judge e qc att) of
           Inl err \<Rightarrow> Some (ops1, Inl err)
         | Inr (Final final) \<Rightarrow> Some (ops1, Inr final)
         | Inr (Backoff elapsed d) \<Rightarrow> queued_loop e qc (att + 1) (elapsed + d) left (ops1 @ [ASleep d]))"

definition run_queued_activity :: "queued_env \<Rightarrow> json \<Rightarrow> json option list \<Rightarrow> (act_op list \<times> json result) option" where
  "run_queued_activity e payload comps =
     (case queued_call_of payload of
        Inl err \<Rightarrow> Some ([], Inl err)
      | Inr qc \<Rightarrow>
          if \<not> qe_registered e (qc_name qc) then Some ([], Inl KeyError)
          else if (case (qc_schedule_to_start qc, qe_created_at e) of
                     (Some limit, Some created) \<Rightarrow> limit < qe_started_at e - created | _ \<Rightarrow> False)
          then Some ([], Inr (stamp (failed_envelope
                 (timeout_json SCHEDULE_TO_START ''activity Schedule-To-Start timeout'' []) (qe_started_at e)) TIMEOUT))
          else queued_loop e qc (qc_attempt qc) 0 comps [])"

subsection \<open>The loop ends\<close>

fun attempts_of :: "act_op list \<Rightarrow> int list" where
  "attempts_of [] = []"
| "attempts_of (AStep n _ _ # ops) = n # attempts_of ops"
| "attempts_of (_ # ops) = attempts_of ops"

lemma attempts_of_append: "attempts_of (a @ b) = attempts_of a @ attempts_of b"
  by (induction a rule: attempts_of.induct) simp_all

lemma attempts_await: "attempts_of (fst (await_completion w aid dt ended comps)) = []"
  by (induction w aid dt ended comps rule: await_completion.induct) (auto split: sum.split prod.splits)

lemma attempts_settle: "settle_attempt qc d dt env comps = (ops, r, left) \<Longrightarrow> attempts_of ops = []"
  using attempts_await [of _ "qc_activity_id qc" dt _ comps]
  by (auto simp: settle_attempt_def split: if_splits sum.splits) (metis fst_conv)

lemma judge_backoff:
  assumes "judge e qc att env = Inr (Backoff elapsed d)"
  shows "maximum_attempts (qc_policy qc) = 0 \<or> att < maximum_attempts (qc_policy qc)"
    and "qc_schedule_to_close qc = Some b \<Longrightarrow> elapsed + d < b"
proof -
  obtain failure rs where decision:
    "retry_decision (qc_policy qc) att failure (Some elapsed) (qc_schedule_to_close qc) = Inr (Some d, rs)"
    using assms by (auto simp: judge_def Let_def bind_result_Inr_iff split: if_splits option.splits)
  show "maximum_attempts (qc_policy qc) = 0 \<or> att < maximum_attempts (qc_policy qc)"
    using decision by (cases rule: retry_decision_cases) auto
  show "elapsed + d < b" if "qc_schedule_to_close qc = Some b"
    using decision that by (cases rule: retry_decision_cases) auto
qed

lemma queued_loop_ends:
  assumes "0 < maximum_attempts (qc_policy qc)" "nat (maximum_attempts (qc_policy qc) - att) = k"
  shows "\<exists>ops' r n. queued_loop e qc att elapsed_before comps ops = Some (ops', r) \<and> n \<le> k \<and>
    attempts_of ops' = attempts_of ops @ map (\<lambda>i. att + int i) [0..<Suc n]"
  using assms(2)
proof (induction k arbitrary: att elapsed_before comps ops rule: less_induct)
  case (less k)
  obtain deadline dtype where dl: "effective_deadline (qc_start_to_close qc)
      (map_option (\<lambda>b. b - elapsed_before) (qc_schedule_to_close qc)) = (deadline, dtype)" by fastforce
  let ?env = "qe_step e (qc_name qc) (qc_args qc) deadline (attempt_meta qc att dtype)"
  obtain parked settled left where st: "settle_attempt qc deadline dtype ?env comps = (parked, settled, left)"
    by (cases "settle_attempt qc deadline dtype ?env comps") auto
  let ?ops1 = "ops @ [AStep att deadline dtype] @ parked"
  have one: "attempts_of ?ops1 = attempts_of ops @ [att]"
    using attempts_settle [OF st] by (simp add: attempts_of_append)
  have step: "queued_loop e qc att elapsed_before comps ops =
      (case bind_result settled (judge e qc att) of
           Inl err \<Rightarrow> Some (?ops1, Inl err)
         | Inr (Final final) \<Rightarrow> Some (?ops1, Inr final)
         | Inr (Backoff elapsed d) \<Rightarrow> queued_loop e qc (att + 1) (elapsed + d) left (?ops1 @ [ASleep d]))"
    by (subst queued_loop.simps) (simp only: dl st Let_def prod.case)
  consider (err) err where "bind_result settled (judge e qc att) = Inl err"
    | (fin) final where "bind_result settled (judge e qc att) = Inr (Final final)"
    | (retry) elapsed d where "bind_result settled (judge e qc att) = Inr (Backoff elapsed d)"
    by (cases "bind_result settled (judge e qc att)"; cases "projr (bind_result settled (judge e qc att))") auto
  then show ?case
  proof cases
    case retry
    then obtain env where "judge e qc att env = Inr (Backoff elapsed d)" by (auto simp: bind_result_Inr_iff)
    then have "att < maximum_attempts (qc_policy qc)" using judge_backoff(1) assms(1) by fastforce
    then have "nat (maximum_attempts (qc_policy qc) - (att + 1)) < k" using less.prems by simp
    from less.IH [OF this refl, of "elapsed + d" left "?ops1 @ [ASleep d]"] obtain ops' r n where
      rec: "queued_loop e qc (att + 1) (elapsed + d) left (?ops1 @ [ASleep d]) = Some (ops', r)"
        "n \<le> nat (maximum_attempts (qc_policy qc) - (att + 1))"
        "attempts_of ops' = attempts_of (?ops1 @ [ASleep d]) @ map (\<lambda>i. att + 1 + int i) [0..<Suc n]" by blast
    have "map (\<lambda>i. att + int i) [0..<Suc (Suc n)] = att # map (\<lambda>i. att + 1 + int i) [0..<Suc n]"
      by (simp only: map_upt_Suc) (simp add: algebra_simps)
    then have "attempts_of ops' = attempts_of ops @ map (\<lambda>i. att + int i) [0..<Suc (Suc n)]"
      using rec(3) one attempts_of_append [of ?ops1 "[ASleep d]"] by simp
    moreover have "Suc n \<le> k" using rec(2) \<open>nat (maximum_attempts (qc_policy qc) - (att + 1)) < k\<close> by simp
    ultimately show ?thesis using step retry rec(1) by auto
  qed (use step one in \<open>auto intro!: exI [of _ "0::nat"]\<close>)
qed


text \<open>An activity that fails twice and then succeeds.\<close>

definition flaky_env :: queued_env where
  "flaky_env = \<lparr>qe_registered = (\<lambda>_. True), qe_started_at = 100, qe_created_at = None,
     qe_step = (\<lambda>_ _ _ meta. failed_envelope (JObj [(''cls'', JStr ''ServerError'')]) 101)\<rparr>"

definition flaky_payload :: json where
  "flaky_payload = JObj [(''activity_name'', JStr ''a''), (''args'', JList []),
     (''retry_policy'', serialize_retry_policy (default_retry_policy\<lparr>maximum_attempts := 3\<rparr>)), (''meta'', JObj [])]"

lemma flaky_call: "\<exists>qc. queued_call_of flaky_payload = Inr qc \<and> maximum_attempts (qc_policy qc) = 3 \<and> qc_attempt qc = 1"
proof -
  have p: "deserialize_retry_policy (serialize_retry_policy (default_retry_policy\<lparr>maximum_attempts := 3\<rparr>)) =
      Inr (default_retry_policy\<lparr>maximum_attempts := 3\<rparr>)" by (rule wire_policy_roundtrip)
  have "serialize_retry_policy p \<noteq> JNull" for p by (simp add: serialize_retry_policy_def)
  then show ?thesis
    by (simp add: queued_call_of_def flaky_payload_def str_field_def jindex_def jget_def jget_default_def p Let_def)
qed


subsection \<open>The park's deadline\<close>

text \<open>
  Heartbeats extend a parked activity past its deadline. Each heartbeat restarts the wait
  with the full timeout, so after \<open>n\<close> heartbeats the park has waited \<open>n + 1\<close> times the time that was
  left until the deadline before it reports the timeout; and a park without any deadline reports a
  start-to-close timeout after an hour.
\<close>

theorem park_restarts_deadline:
  "await_completion w aid dt ended (replicate n (Some (activity_heartbeat_envelope now aid details))) =
     (replicate (Suc n) (ARecv ASYNC_COMPLETE_TOPIC w), Inr (failed_envelope (deadline_failure dt) ended), []) \<and>
   effective_deadline None None = (None, Start_To_Close) \<and> park_timeout None env = Inr 3600"
proof -
  have "message_kind (activity_heartbeat_envelope now aid details) = JStr ''activity_heartbeat''"
    by (simp add: message_kind_def activity_heartbeat_envelope_def jget_def)
  then have "await_completion w aid dt ended (replicate n (Some (activity_heartbeat_envelope now aid details))) =
     (replicate (Suc n) (ARecv ASYNC_COMPLETE_TOPIC w), Inr (failed_envelope (deadline_failure dt) ended), [])"
    by (induction n) simp_all
  then show ?thesis by (simp add: effective_deadline_def park_timeout_def RECV_TIMEOUT_SECONDS_def)
qed

end
