(* ===== verification/Activity_Attempt.thy ===== *)
theory Activity_Attempt
  imports Queued_Activity
begin

text \<open>
  One attempt of an activity (\<open>_make_attempt_step\<close>, \<open>attempt_step_for\<close>, \<open>_RootActivityInbound\<close> of
  \<open>dbosify/_internal/activities.py\<close>): the race between the user function, its watchdog (heartbeat
  timeout, cancellation) and the attempt deadline. What happens is a parameter: a list of the
  watchdog's observations in time order, those before the deadline. User code is the way the body
  ends. The value conversion and the clock are parameters too; interceptors and the concurrency slot
  are not modelled, they do not change how an attempt ends.
\<close>

subsection \<open>Which step runs an activity\<close>

text \<open>\<open>attempt_step_for\<close>: the type's own step, the dynamic activity's, or KeyError.\<close>

definition attempt_step_for :: "string list \<Rightarrow> bool \<Rightarrow> string \<Rightarrow> string option result" where
  "attempt_step_for steps dynamic name =
     (if name \<in> set steps then Inr (Some name) else if dynamic then Inr None else Inl KeyError)"

subsection \<open>The race\<close>

text \<open>How the body ends: \<open>raise_complete_async\<close> and the asyncio cancellation are not \<open>Exception\<close>s.\<close>

datatype body_end = BodyReturned json | BodyRaised "json exc" | BodyAsync | BodyCancelled

text \<open>
  One wake-up of the watchdog: the body is done, or a poll interval has passed. A poll sees whether
  the run's cancel event is set, whether this attempt's own cancel flag is, and how long ago the last
  heartbeat was; \<open>after\<close> is how the body ends if it is cancelled now.
\<close>

datatype observation =
    BodyDone body_end rat
  | Poll (cancel_event: bool) (cancel_flag: bool) (stale: rat) (last_details: "json list") (after_cancel: body_end) (poll_time: rat)

record attempt_cfg =
  ac_queued :: bool
  ac_is_async :: bool
  ac_heartbeat :: "rat option"
  ac_deadline :: "rat option"
  ac_deadline_type :: deadline_type
  ac_started_at :: rat

text \<open>What the attempt comes to: an envelope, \<open>raise_complete_async\<close>, or the cancellation escaping.\<close>

datatype attempt_end = Envelope json | CompleteAsync rat | Escaped

definition ok_envelope :: "json \<Rightarrow> rat \<Rightarrow> json" where
  "ok_envelope v t = JObj [(''ok'', JBool True), (''result'', v), (''ended_at'', JNum t)]"

definition cancelled_failure :: json where
  "cancelled_failure = serialize_failure id (new_exc (CancelledError ''Activity cancelled'' []))"

text \<open>\<open>call_user_activity\<close>: exceptions are serialized, not raised.\<close>

fun body_outcome :: "(json \<Rightarrow> json) \<Rightarrow> body_end \<Rightarrow> rat \<Rightarrow> attempt_end" where
  "body_outcome enc (BodyReturned v) t = Envelope (ok_envelope (enc v) t)"
| "body_outcome enc (BodyRaised err) t = Envelope (failed_envelope (serialize_failure (map enc) err) t)"
| "body_outcome enc BodyAsync t = CompleteAsync t"
| "body_outcome enc BodyCancelled t = Escaped"

text \<open>\<open>_watch\<close>; \<open>None\<close> when the observations end before the attempt does.\<close>

fun watch :: "(json \<Rightarrow> json) \<Rightarrow> attempt_cfg \<Rightarrow> observation list \<Rightarrow> attempt_end option" where
  "watch enc c [] = None"
| "watch enc c (BodyDone b t # obs) = Some (body_outcome enc b t)"
| "watch enc c (Poll ev flag st details after t # obs) =
     (if ac_queued c \<and> ev then
        (case after of
           BodyAsync \<Rightarrow> Some (CompleteAsync t)
         | _ \<Rightarrow> Some (Envelope (failed_envelope cancelled_failure t)))
      else if \<not> ac_queued c \<and> ac_is_async c \<and> flag then
        (case after of
           BodyCancelled \<Rightarrow> Some (Envelope (failed_envelope cancelled_failure t))
         | _ \<Rightarrow> Some (body_outcome enc after t))
      else if (case ac_heartbeat c of Some hb \<Rightarrow> hb < st | None \<Rightarrow> False) then
        Some (Envelope (failed_envelope (timeout_json HEARTBEAT ''activity Heartbeat timeout'' details) t))
      else watch enc c obs)"

text \<open>
  \<open>run_attempt\<close>: without a heartbeat timeout and off the queued path there is no watchdog, and the
  first end of the body decides.
\<close>

fun first_done :: "(json \<Rightarrow> json) \<Rightarrow> observation list \<Rightarrow> attempt_end option" where
  "first_done enc [] = None"
| "first_done enc (BodyDone b t # obs) = Some (body_outcome enc b t)"
| "first_done enc (Poll _ _ _ _ _ _ # obs) = first_done enc obs"

definition run_attempt :: "(json \<Rightarrow> json) \<Rightarrow> attempt_cfg \<Rightarrow> observation list \<Rightarrow> attempt_end option" where
  "run_attempt enc c obs =
     (if ac_heartbeat c = None \<and> \<not> ac_queued c then first_done enc obs else watch enc c obs)"

subsection \<open>The step\<close>

text \<open>
  The envelope of an attempt: \<open>None\<close> while it is still running, which only an attempt without a
  deadline can be; \<open>deadline_at\<close> is the time the deadline is noticed. \<open>Inl\<close> is the cancellation of
  the step itself.
\<close>

definition attempt_step :: "(json \<Rightarrow> json) \<Rightarrow> attempt_cfg \<Rightarrow> observation list \<Rightarrow> rat \<Rightarrow> json result option" where
  "attempt_step enc c obs deadline_at =
     (case run_attempt enc c obs of
        Some (Envelope env) \<Rightarrow> Some (Inr env)
      | Some (CompleteAsync t) \<Rightarrow>
          Some (Inr (JObj [(''async_pending'', JBool True), (''started_at'', JNum (ac_started_at c)), (''ended_at'', JNum t)]))
      | Some Escaped \<Rightarrow> Some (Inl CancelledErr)
      | None \<Rightarrow>
          if ac_deadline c = None then None
          else Some (Inr (failed_envelope (deadline_failure (ac_deadline_type c)) deadline_at)))"

subsection \<open>What an envelope says\<close>

text \<open>Whether some observation ends the body by itself with this outcome, or after a cancellation.\<close>

definition body_ends :: "observation list \<Rightarrow> body_end \<Rightarrow> rat \<Rightarrow> bool" where
  "body_ends obs b t \<longleftrightarrow> BodyDone b t \<in> set obs \<or> (\<exists>ev flag st ds. Poll ev flag st ds b t \<in> set obs)"

lemma body_ends_intros [intro]:
  "body_ends obs b t \<Longrightarrow> body_ends (x # obs) b t" "body_ends (BodyDone b t # obs) b t"
  "body_ends (Poll ev flag st ds b t # obs) b t"
  by (auto simp: body_ends_def)

lemma envelope_ok: "truthy (jget (ok_envelope v t) ''ok'')" "\<not> truthy (jget (failed_envelope f t) ''ok'')"
  by (simp_all add: ok_envelope_def failed_envelope_def jget_def)

lemma body_outcome_ok:
  "body_outcome enc b t = Envelope env \<Longrightarrow> truthy (jget env ''ok'') \<Longrightarrow> \<exists>v. b = BodyReturned v \<and> env = ok_envelope (enc v) t"
  by (cases b) (auto simp: envelope_ok)

lemma watch_ok:
  "watch enc c obs = Some (Envelope env) \<Longrightarrow> truthy (jget env ''ok'') \<Longrightarrow>
   \<exists>v t. body_ends obs (BodyReturned v) t \<and> env = ok_envelope (enc v) t"
proof (induction enc c obs rule: watch.induct)
  case (2 enc c b t obs)
  then show ?case using body_outcome_ok [of enc b t env] by auto
next
  case (3 enc c ev flag st details after t obs)
  show ?case
  proof (cases "ac_queued c \<and> ev")
    case True
    with 3(2,3) show ?thesis by (auto simp: envelope_ok split: body_end.splits)
  next
    case not_queued: False
    show ?thesis
    proof (cases "\<not> ac_queued c \<and> ac_is_async c \<and> flag")
      case True
      with 3(2,3) not_queued have "body_outcome enc after t = Envelope env"
        by (auto simp: envelope_ok split: body_end.splits)
      from body_outcome_ok [OF this 3(3)] show ?thesis by blast
    next
      case False
      with 3 not_queued show ?thesis by (fastforce simp: envelope_ok split: if_splits)
    qed
  qed
qed simp

lemma first_done_ok:
  "first_done enc obs = Some (Envelope env) \<Longrightarrow> truthy (jget env ''ok'') \<Longrightarrow>
   \<exists>v t. body_ends obs (BodyReturned v) t \<and> env = ok_envelope (enc v) t"
proof (induction enc obs rule: first_done.induct)
  case (2 enc b t obs)
  then show ?case using body_outcome_ok [of enc b t env] by auto
qed fastforce+


definition local_attempt :: attempt_cfg where
  "local_attempt = \<lparr>ac_queued = False, ac_is_async = True, ac_heartbeat = Some 2, ac_deadline = Some 10,
     ac_deadline_type = Start_To_Close, ac_started_at = 0\<rparr>"


end
