(* ===== verification/Client_Start.thy ===== *)
theory Client_Start
  imports Dispatcher
begin

text \<open>
  Starting a workflow from a client (\<open>Client._start_workflow_impl\<close>, \<open>_current_run\<close>,
  \<open>_resolve_dbos_id\<close> of \<open>dbosify/client.py\<close>, after the outbound interceptors): the checks of the
  request, the run metadata, the conflict and reuse policies against the chain's current run, and the
  DBOS calls made. The calls are values in the order they are made; reading the status table is a
  parameter, one snapshot per start.
\<close>

subsection \<open>The client's view\<close>

record run_row =
  rr_id :: string
  rr_status :: "string option"
  rr_error :: "ledger_error option"
  rr_parent :: "string option"

datatype client_error =
    PyErr py_error
  | WorkflowAlreadyStarted string
  | WorkflowFailure "json exc"
  | WorkflowTerminated
  | RunContinuedAsNew string
  | ForeignFailure string string
  | QueryRejected execution_status
  | QueryFailed
  | UpdateFailed "json exc"
  | AsyncActivityGone

type_synonym 'a client_result = "client_error + 'a"

definition lift_py :: "'a result \<Rightarrow> 'a client_result" where
  "lift_py r = (case r of Inl e \<Rightarrow> Inl (PyErr e) | Inr x \<Rightarrow> Inr x)"

type_synonym message = "json \<times> string \<times> string option"

datatype client_op =
    ClientSend string message
  | ClientCancel string
  | ClientEnqueue run_start "message list"

record client_env =
  ce_now :: rat
  ce_cron :: cron_lib
  ce_enc :: "json \<Rightarrow> json"
  ce_list :: "string list \<Rightarrow> run_row list"

definition current_run :: "client_env \<Rightarrow> string \<Rightarrow> (nat \<times> run_row) option result option" where
  "current_run e workflow_id = resolve_latest_run workflow_id (chain_lookup (ce_list e) rr_id)"

definition resolve_dbos_id :: "client_env \<Rightarrow> string \<Rightarrow> string option \<Rightarrow> string result option" where
  "resolve_dbos_id e workflow_id run_id =
     (case run_id of
        Some run \<Rightarrow> Some (Inr run)
      | None \<Rightarrow> map_option (\<lambda>r. bind_result r (\<lambda>cur.
          case cur of None \<Rightarrow> Inl RuntimeError | Some (_, row) \<Rightarrow> Inr (rr_id row)))
          (current_run e workflow_id))"

subsection \<open>The request\<close>

datatype reuse_policy = ALLOW_DUPLICATE | ALLOW_DUPLICATE_FAILED_ONLY | REJECT_DUPLICATE | TERMINATE_IF_RUNNING

datatype conflict_policy = CONFLICT_UNSPECIFIED | CONFLICT_FAIL | USE_EXISTING | TERMINATE_EXISTING

record start_input =
  si_type :: string
  si_args :: "json list"
  si_id :: string
  si_queue :: string
  si_run_timeout :: "timedelta option"
  si_reuse :: reuse_policy
  si_conflict :: conflict_policy
  si_retry :: "retry_policy option"
  si_cron :: string
  si_memo :: "jdict option"
  si_search :: "sa_pair list option"
  si_delay :: "timedelta option"
  si_headers :: jdict
  si_signal :: "(string \<times> json list) option"
  si_update :: "message option"

record handle =
  h_id :: string
  h_run_id :: "string option"
  h_result_run :: "string option"
  h_first_run :: "string option"

text \<open>The checks made before anything is read, in their order, and the delay the run starts with.\<close>

definition start_delay :: "client_env \<Rightarrow> start_input \<Rightarrow> timedelta option result" where
  "start_delay e i =
     (if si_queue i = [] then Inl ValueError
      else bind_result (validate_workflow_id (si_id i)) (\<lambda>_.
        if (case si_delay i of Some d \<Rightarrow> d < 0 | None \<Rightarrow> False) then Inl ValueError
        else bind_result (case si_retry i of Some p \<Rightarrow> validate_retry_policy p | None \<Rightarrow> Inr ()) (\<lambda>_.
          if si_cron i = [] then Inr (si_delay i)
          else bind_result (validate_cron (ce_cron e) (si_cron i)) (\<lambda>_.
            if si_delay i \<noteq> None then Inl ValueError
            else bind_result (next_fire_delay (ce_cron e) (si_cron i) (ce_now e)) (\<lambda>secs.
              Inr (Some (timedelta_seconds secs)))))))"

definition start_meta :: "client_env \<Rightarrow> start_input \<Rightarrow> run_meta result" where
  "start_meta e i =
     bind_result (encode_attributes (ce_enc e) (si_memo i) (si_search i)) (\<lambda>attributes.
       Inr (default_meta\<lparr>
         m_retry_policy := map_option (\<lambda>p. case serialize_retry_policy p of JObj d \<Rightarrow> d | _ \<Rightarrow> []) (si_retry i),
         m_run_timeout := map_option total_seconds (si_run_timeout i),
         m_cron := (if si_cron i = [] then None else Some (si_cron i)),
         m_attributes := attributes,
         m_headers := (if si_headers i = [] then None else Some (si_headers i))\<rparr>))"

definition with_start_messages :: "client_env \<Rightarrow> start_input \<Rightarrow> message list" where
  "with_start_messages e i =
     (case si_signal i of
        Some (name, args) \<Rightarrow>
          [(signal_envelope (ce_now e) name (map (ce_enc e) args) (Some (si_headers i)), INBOX_TOPIC, None)]
      | None \<Rightarrow> []) @
     (case si_update i of Some m \<Rightarrow> [m] | None \<Rightarrow> [])"

subsection \<open>Policies\<close>

text \<open>
  What the policies decide about the chain's current run: attach to it, refuse (after cancelling it,
  in one case), or start a run, possibly cancelling the current one first.
\<close>

datatype start_plan =
    Attach string
  | Refuse string "string option"
  | NewRun nat "string option"

definition reuse_plan :: "reuse_policy \<Rightarrow> nat \<Rightarrow> run_row \<Rightarrow> string option \<Rightarrow> start_plan result" where
  "reuse_plan reuse index row cancelled =
     (if reuse = REJECT_DUPLICATE then Inr (Refuse (rr_id row) cancelled)
      else if reuse = ALLOW_DUPLICATE_FAILED_ONLY
      then bind_result (to_execution_status (rr_status row) None) (\<lambda>s.
        Inr (if s = COMPLETED then Refuse (rr_id row) cancelled else NewRun (index + 1) cancelled))
      else Inr (NewRun (index + 1) cancelled))"

definition start_plan_for ::
  "reuse_policy \<Rightarrow> conflict_policy \<Rightarrow> (nat \<times> run_row) option \<Rightarrow> start_plan result" where
  "start_plan_for reuse conflict current =
     (case current of
        None \<Rightarrow> Inr (NewRun 0 None)
      | Some (index, row) \<Rightarrow>
          if is_open (rr_status row)
          then if conflict = USE_EXISTING then Inr (Attach (rr_id row))
               else if conflict = TERMINATE_EXISTING \<or> reuse = TERMINATE_IF_RUNNING
               then reuse_plan reuse index row (Some (rr_id row))
               else Inr (Refuse (rr_id row) None)
          else reuse_plan reuse index row None)"

definition cancel_ops :: "string option \<Rightarrow> client_op list" where
  "cancel_ops cancelled = (case cancelled of Some d \<Rightarrow> [ClientCancel d] | None \<Rightarrow> [])"

definition start_of :: "client_env \<Rightarrow> start_input \<Rightarrow> run_meta \<Rightarrow> timedelta option \<Rightarrow> nat \<Rightarrow> run_start" where
  "start_of e i meta delay index = \<lparr>
     st_type = si_type i, st_run = run_dbos_id (si_id i) index,
     st_payload = wrap_input (map (ce_enc e) (si_args i)) (Some meta), st_queue = Some (si_queue i),
     st_timeout = map_option total_seconds (si_run_timeout i), st_attributes = m_attributes meta,
     st_delay = map_option total_seconds delay\<rparr>"

text \<open>
  The start itself. A \<open>None\<close> result is a run resolution whose lookups never end. The enqueue and the
  messages that ride it are one transaction.
\<close>

definition carry_out ::
  "client_env \<Rightarrow> start_input \<Rightarrow> run_meta \<Rightarrow> timedelta option \<Rightarrow> start_plan \<Rightarrow> client_op list \<times> handle client_result" where
  "carry_out e i meta delay plan =
     (let msgs = with_start_messages e i in
      case plan of
        Attach run \<Rightarrow>
          (map (ClientSend run) msgs,
           Inr \<lparr>h_id = si_id i, h_run_id = None, h_result_run = Some run, h_first_run = Some (run_dbos_id (si_id i) 0)\<rparr>)
      | Refuse run cancelled \<Rightarrow> (cancel_ops cancelled, Inl (WorkflowAlreadyStarted run))
      | NewRun index cancelled \<Rightarrow>
          let d = run_dbos_id (si_id i) index
          in (cancel_ops cancelled @ [ClientEnqueue (start_of e i meta delay index) msgs],
              Inr \<lparr>h_id = si_id i, h_run_id = None, h_result_run = Some d, h_first_run = Some d\<rparr>))"

definition start_workflow :: "client_env \<Rightarrow> start_input \<Rightarrow> (client_op list \<times> handle client_result) option" where
  "start_workflow e i =
     (case bind_result (start_delay e i) (\<lambda>delay. bind_result (start_meta e i) (\<lambda>meta. Inr (delay, meta))) of
        Inl err \<Rightarrow> Some ([], Inl (PyErr err))
      | Inr (delay, meta) \<Rightarrow>
          map_option (\<lambda>cur.
            case bind_result cur (start_plan_for (si_reuse i) (si_conflict i)) of
              Inl err \<Rightarrow> ([], Inl (PyErr err))
            | Inr plan \<Rightarrow> carry_out e i meta delay plan)
            (current_run e (si_id i)))"

subsection \<open>At most one open run\<close>

text \<open>What DBOS documents of the calls: their effect on the status table.\<close>

type_synonym status_table = "string \<Rightarrow> run_row option"

fun documented_effect :: "client_op \<Rightarrow> status_table \<Rightarrow> status_table" where
  "documented_effect (ClientSend run m) rows = rows"
| "documented_effect (ClientCancel run) rows =
     rows(run := map_option (\<lambda>r. r\<lparr>rr_status := Some ''CANCELLED''\<rparr>) (rows run))"
| "documented_effect (ClientEnqueue s msgs) rows =
     rows(st_run s \<mapsto> \<lparr>rr_id = st_run s,
       rr_status = Some (if st_delay s = None then ''ENQUEUED'' else ''DELAYED''), rr_error = None, rr_parent = None\<rparr>)"

text \<open>The messages the calls deliver to a run.\<close>

fun delivered_by :: "string \<Rightarrow> client_op \<Rightarrow> message list" where
  "delivered_by run (ClientSend d m) = (if d = run then [m] else [])"
| "delivered_by run (ClientCancel d) = []"
| "delivered_by run (ClientEnqueue s msgs) = (if st_run s = run then msgs else [])"

definition run_open :: "status_table \<Rightarrow> string \<Rightarrow> bool" where
  "run_open rows d \<longleftrightarrow> (case rows d of Some r \<Rightarrow> is_open (rr_status r) | None \<Rightarrow> False)"

text \<open>
  The chain of an id: its runs are exactly those below \<open>n\<close>, each under its own key, and only the
  newest may be open.
\<close>

definition chain_ok :: "status_table \<Rightarrow> string \<Rightarrow> nat \<Rightarrow> bool" where
  "chain_ok rows w n \<longleftrightarrow>
     (\<forall>i. rows (run_dbos_id w i) \<noteq> None \<longleftrightarrow> i < n) \<and> (\<forall>i. run_open rows (run_dbos_id w i) \<longrightarrow> Suc i = n)"

definition lists_table :: "(string list \<Rightarrow> run_row list) \<Rightarrow> status_table \<Rightarrow> bool" where
  "lists_table list_workflows rows \<longleftrightarrow>
     (\<forall>ids r. r \<in> set (list_workflows ids) \<longleftrightarrow> (\<exists>d\<in>set ids. rows d = Some r)) \<and>
     (\<forall>d r. rows d = Some r \<longrightarrow> rr_id r = d)"

lemma listed_store:
  "lists_table (ce_list e) rows \<Longrightarrow> chain_store (chain_lookup (ce_list e) rr_id) rows"
  by (rule status_listing.chain_lookup_store) (auto simp: lists_table_def intro!: status_listing.intro)

lemma current_run_newest:
  assumes "lists_table (ce_list e) rows" "\<And>i. rows (run_dbos_id w i) \<noteq> None \<longleftrightarrow> i < n"
  shows "current_run e w = Some (Inr (if n = 0 then None else Some (n - 1, the (rows (run_dbos_id w (n - 1))))))"
proof (cases "n = 0")
  case True
  with assms(2) show ?thesis
    by (simp add: current_run_def chain_store.resolve_absent [OF listed_store [OF assms(1)]])
next
  case False
  then have "run_chain (chain_lookup (ce_list e) rr_id) rows w 0 (n - 1)"
    using assms(2) by (intro run_chain.intro run_chain_axioms.intro listed_store [OF assms(1)]) auto
  moreover have "0 \<in> set probe_ladder" by (simp add: probe_ladder_def DENSE_PROBE_LIMIT_def)
  ultimately show ?thesis
    using False run_chain.resolve_latest [of "chain_lookup (ce_list e) rr_id" rows w 0 "n - 1" 0]
    by (auto simp: current_run_def)
qed

lemma run_open_open: "is_open (Some ''ENQUEUED'')" "is_open (Some ''DELAYED'')" "\<not> is_open (Some ''CANCELLED'')"
  by (simp_all add: is_open_def OPEN_DBOS_STATUSES_def)

lemma delivered_sends: "concat (map (delivered_by run \<circ> ClientSend run) msgs) = msgs"
  by (induction msgs) simp_all

lemma delivered_cancel: "xs \<in> set (cancel_ops c) \<Longrightarrow> delivered_by run xs = []"
  by (cases c) (simp_all add: cancel_ops_def)

lemma sends_effect: "fold documented_effect (map (ClientSend run) msgs) rows = rows"
  by (induction msgs) simp_all

lemma cancel_effect:
  "fold documented_effect (cancel_ops c) rows d =
     (if c = Some d then map_option (\<lambda>r. r\<lparr>rr_status := Some ''CANCELLED''\<rparr>) (rows d) else rows d)"
  by (cases c) (simp_all add: cancel_ops_def)

lemma start_plan_cases:
  assumes "start_plan_for reuse conflict current = Inr plan"
  shows "(current = None \<and> plan = NewRun 0 None) \<or>
    (\<exists>index row. current = Some (index, row) \<and>
       (plan = Attach (rr_id row) \<and> is_open (rr_status row) \<or>
        (\<exists>c. (c = None \<or> c = Some (rr_id row)) \<and> (is_open (rr_status row) \<longrightarrow> c = Some (rr_id row)) \<and>
             plan = NewRun (Suc index) c) \<or>
        (\<exists>c. (c = None \<or> c = Some (rr_id row)) \<and> plan = Refuse (rr_id row) c)))"
  using assms
  by (auto simp: start_plan_for_def reuse_plan_def bind_result_Inr_iff split: option.splits if_splits)

text \<open>
  What carrying out a plan leaves behind: how many runs the chain has, whether its newest run is the
  one the handle anchors on, and where the messages went.
\<close>

lemma cancelled_chain:
  assumes "chain_ok rows w n" "c = None \<or> c = Some (run_dbos_id w (n - 1)) \<and> 0 < n"
  shows "chain_ok (fold documented_effect (cancel_ops c) rows) w n \<and>
    (c \<noteq> None \<longrightarrow> (\<forall>i. \<not> run_open (fold documented_effect (cancel_ops c) rows) (run_dbos_id w i)))"
proof -
  let ?a = "fold documented_effect (cancel_ops c) rows"
  have dom: "?a d = None \<longleftrightarrow> rows d = None" for d by (simp add: cancel_effect)
  have opn: "run_open ?a d \<longleftrightarrow> run_open rows d \<and> c \<noteq> Some d" for d
    by (cases "rows d") (auto simp: run_open_def cancel_effect run_open_open)
  have "\<not> run_open ?a (run_dbos_id w i)" if "c \<noteq> None" for i
  proof
    assume "run_open ?a (run_dbos_id w i)"
    with opn have "run_open rows (run_dbos_id w i)" "c \<noteq> Some (run_dbos_id w i)" by auto
    moreover from this(1) assms(1) have "Suc i = n" by (simp add: chain_ok_def)
    ultimately show False using assms(2) that by auto
  qed
  moreover have "chain_ok ?a w n" using assms(1) dom opn by (simp add: chain_ok_def)
  ultimately show ?thesis by blast
qed

lemma enqueued_chain:
  assumes "chain_ok rows w n" "\<And>i. \<not> run_open rows (run_dbos_id w i)" "st_run s = run_dbos_id w n"
  shows "chain_ok (documented_effect (ClientEnqueue s msgs) rows) w (Suc n) \<and>
    run_open (documented_effect (ClientEnqueue s msgs) rows) (run_dbos_id w n)"
  using assms by (auto simp: chain_ok_def run_open_def run_dbos_id_inject run_open_open less_Suc_eq)

text \<open>A start seen from its outcome: the calls made, and the handle or the refusal.\<close>

definition keeps_chain :: "client_env \<Rightarrow> start_input \<Rightarrow> status_table \<Rightarrow> nat \<Rightarrow> client_op list \<times> handle client_result \<Rightarrow> bool" where
  "keeps_chain e i rows n out \<longleftrightarrow>
     (case snd out of
        Inr h \<Rightarrow> \<exists>k. h_result_run h = Some (run_dbos_id (si_id i) k) \<and>
          chain_ok (fold documented_effect (fst out) rows) (si_id i) (Suc k) \<and> (k = n \<or> Suc k = n) \<and>
          run_open (fold documented_effect (fst out) rows) (run_dbos_id (si_id i) k) \<and>
          concat (map (delivered_by (run_dbos_id (si_id i) k)) (fst out)) = with_start_messages e i
      | Inl err \<Rightarrow> chain_ok (fold documented_effect (fst out) rows) (si_id i) n \<and>
          (\<forall>d. concat (map (delivered_by d) (fst out)) = []))"

lemma attach_keeps_chain:
  assumes "chain_ok rows (si_id i) n" "n \<noteq> 0" "run_open rows (run_dbos_id (si_id i) (n - 1))"
  shows "keeps_chain e i rows n (carry_out e i meta delay (Attach (run_dbos_id (si_id i) (n - 1))))"
  using assms
  by (simp add: keeps_chain_def carry_out_def Let_def sends_effect delivered_sends)
     (intro exI [of _ "n - 1"], simp add: delivered_sends)

lemma new_run_keeps_chain:
  assumes chain: "chain_ok rows (si_id i) n"
    and c: "c = None \<or> c = Some (run_dbos_id (si_id i) (n - 1)) \<and> 0 < n"
    and opn: "0 < n \<Longrightarrow> run_open rows (run_dbos_id (si_id i) (n - 1)) \<Longrightarrow> c \<noteq> None"
  shows "keeps_chain e i rows n (carry_out e i meta delay (NewRun n c))"
proof -
  let ?s = "start_of e i meta delay n" and ?rows = "fold documented_effect (cancel_ops c) rows"
  note cancelled = cancelled_chain [OF chain c]
  have "\<not> run_open ?rows (run_dbos_id (si_id i) k)" for k
  proof (cases "c = None")
    case True
    with opn chain show ?thesis by (auto simp: cancel_ops_def chain_ok_def)
  qed (use cancelled in simp)
  with cancelled have "chain_ok (documented_effect (ClientEnqueue ?s (with_start_messages e i)) ?rows) (si_id i) (Suc n) \<and>
    run_open (documented_effect (ClientEnqueue ?s (with_start_messages e i)) ?rows) (run_dbos_id (si_id i) n)"
    by (intro enqueued_chain) (simp_all add: start_of_def)
  then show ?thesis
    by (simp add: keeps_chain_def carry_out_def Let_def start_of_def delivered_cancel run_dbos_id_inject)
qed

lemma refuse_keeps_chain:
  assumes "chain_ok rows (si_id i) n" "c = None \<or> c = Some (run_dbos_id (si_id i) (n - 1)) \<and> 0 < n"
  shows "keeps_chain e i rows n (carry_out e i meta delay (Refuse run c))"
  using cancelled_chain [OF assms]
  by (simp add: keeps_chain_def carry_out_def Let_def delivered_cancel)

text \<open>
  Claim C4. Starts keep an id's runs in order. Take a status table listed as documented, in which
  the id's chain has the runs below \<open>n\<close> and at most its newest is open. Then a start whose request is
  valid resolves the current run and makes DBOS calls after which the chain is still gapless with at
  most its newest run open. When it succeeds, the run its handle anchors on is that newest run, it is
  open, and it has received exactly the messages of the request; when it is refused, no run is
  created and no run of any id receives a message. So whatever the policies, two runs of an id are
  never open at once.
\<close>

theorem start_keeps_one_open_run:
  assumes listing: "lists_table (ce_list e) rows"
    and chain: "chain_ok rows (si_id i) n"
    and valid: "start_delay e i = Inr delay" "start_meta e i = Inr meta"
  shows "\<exists>ops res. start_workflow e i = Some (ops, res) \<and>
    (case res of
       Inr h \<Rightarrow> \<exists>k. h_result_run h = Some (run_dbos_id (si_id i) k) \<and>
         chain_ok (fold documented_effect ops rows) (si_id i) (Suc k) \<and> (k = n \<or> Suc k = n) \<and>
         run_open (fold documented_effect ops rows) (run_dbos_id (si_id i) k) \<and>
         concat (map (delivered_by (run_dbos_id (si_id i) k)) ops) = with_start_messages e i
     | Inl err \<Rightarrow> chain_ok (fold documented_effect ops rows) (si_id i) n \<and>
         (\<forall>d. concat (map (delivered_by d) ops) = []))"
proof -
  let ?w = "si_id i"
  let ?cur = "if n = 0 then None else Some (n - 1, the (rows (run_dbos_id ?w (n - 1))))"
  have cur: "current_run e ?w = Some (Inr ?cur)"
    using chain by (intro current_run_newest [OF listing]) (simp add: chain_ok_def)
  have key: "rr_id (the (rows (run_dbos_id ?w (n - 1)))) = run_dbos_id ?w (n - 1)"
    and opn: "run_open rows (run_dbos_id ?w (n - 1)) \<longleftrightarrow> is_open (rr_status (the (rows (run_dbos_id ?w (n - 1)))))"
    if "n \<noteq> 0"
  proof -
    from that chain have "rows (run_dbos_id ?w (n - 1)) \<noteq> None" by (simp add: chain_ok_def)
    with listing show "rr_id (the (rows (run_dbos_id ?w (n - 1)))) = run_dbos_id ?w (n - 1)"
      "run_open rows (run_dbos_id ?w (n - 1)) \<longleftrightarrow> is_open (rr_status (the (rows (run_dbos_id ?w (n - 1)))))"
      by (auto simp: lists_table_def run_open_def)
  qed
  have "\<exists>out. start_workflow e i = Some out \<and> keeps_chain e i rows n out"
  proof (cases "start_plan_for (si_reuse i) (si_conflict i) ?cur")
    case (Inl err)
    with chain show ?thesis by (simp add: start_workflow_def valid cur keeps_chain_def)
  next
    case (Inr plan)
    have out: "start_workflow e i = Some (carry_out e i meta delay plan)"
      using Inr by (simp add: start_workflow_def valid cur)
    from start_plan_cases [OF Inr] consider
        (attach) "n \<noteq> 0" "plan = Attach (run_dbos_id ?w (n - 1))" "run_open rows (run_dbos_id ?w (n - 1))"
      | (successor) c where "c = None \<or> c = Some (run_dbos_id ?w (n - 1)) \<and> 0 < n"
          "0 < n \<Longrightarrow> run_open rows (run_dbos_id ?w (n - 1)) \<Longrightarrow> c \<noteq> None" "plan = NewRun n c"
      | (refuse) c where "c = None \<or> c = Some (run_dbos_id ?w (n - 1)) \<and> 0 < n" "plan = Refuse (run_dbos_id ?w (n - 1)) c"
      using key opn by (cases "n = 0") (simp_all, blast)
    then show ?thesis
      using out chain attach_keeps_chain new_run_keeps_chain refuse_keeps_chain by cases auto
  qed
  then obtain ops res where "start_workflow e i = Some (ops, res)" "keeps_chain e i rows n (ops, res)"
    by (metis surj_pair)
  then show ?thesis unfolding keeps_chain_def fst_conv snd_conv by blast
qed

text \<open>
  A refused start can still kill the running workflow. Under \<open>TERMINATE_EXISTING\<close> (or
  \<open>TERMINATE_IF_RUNNING\<close>) the running run is cancelled before the reuse policy is looked at, so with
  \<open>REJECT_DUPLICATE\<close> the caller gets the already-started error, nothing is started, and the run that
  was to be protected from duplicates is terminated.
\<close>

theorem refused_start_cancels:
  assumes "current_run e (si_id i) = Some (Inr (Some (k, row)))" "is_open (rr_status row)"
    and "si_conflict i = TERMINATE_EXISTING" "si_reuse i = REJECT_DUPLICATE"
    and "start_delay e i = Inr delay" "start_meta e i = Inr meta"
  shows "start_workflow e i = Some ([ClientCancel (rr_id row)], Inl (WorkflowAlreadyStarted (rr_id row)))"
  using assms by (simp add: start_workflow_def start_plan_for_def reuse_plan_def carry_out_def cancel_ops_def)

subsection \<open>A running order\<close>

text \<open>A table whose only run is the open run 0 of an id, and a start that replaces it.\<close>

definition order_table :: status_table where
  "order_table = [''order'' \<mapsto> \<lparr>rr_id = ''order'', rr_status = Some ''PENDING'', rr_error = None, rr_parent = None\<rparr>]"

definition order_client :: client_env where
  "order_client = \<lparr>ce_now = 0, ce_cron = \<lparr>cron_zone = (\<lambda>_. True), cron_valid = (\<lambda>_. True), cron_next = (\<lambda>_ _ _. 0)\<rparr>,
     ce_enc = id, ce_list = List.map_filter order_table\<rparr>"

definition order_start :: "reuse_policy \<Rightarrow> start_input" where
  "order_start reuse = \<lparr>si_type = ''Order'', si_args = [JInt 1], si_id = ''order'', si_queue = ''q'',
     si_run_timeout = None, si_reuse = reuse, si_conflict = TERMINATE_EXISTING, si_retry = None, si_cron = [],
     si_memo = None, si_search = None, si_delay = None, si_headers = [], si_signal = Some (''go'', []), si_update = None\<rparr>"

lemma order_listing: "lists_table (ce_list order_client) order_table"
  by (auto simp: lists_table_def order_client_def set_map_filter_iff order_table_def split: if_splits)

lemma order_run: "order_table (run_dbos_id ''order'' k) =
   (if k = 0 then Some \<lparr>rr_id = ''order'', rr_status = Some ''PENDING'', rr_error = None, rr_parent = None\<rparr> else None)"
  by (simp add: order_table_def run_dbos_id_def RUN_SEPARATOR_def)

lemma order_chain: "chain_ok order_table ''order'' 1"
  by (simp add: chain_ok_def order_run run_open_def)

lemma order_valid: "start_delay order_client (order_start r) = Inr None"
  "start_meta order_client (order_start r) = Inr default_meta" "si_id (order_start r) = ''order''"
  "si_conflict (order_start r) = TERMINATE_EXISTING" "si_reuse (order_start r) = r"
proof -
  have "validate_workflow_id ''order'' = Inr ()" by code_simp
  then show "start_delay order_client (order_start r) = Inr None"
    by (simp add: start_delay_def order_start_def)
qed (simp_all add: start_meta_def order_start_def encode_attributes_def default_meta_def)

theorem start_keeps_one_open_run_witness:
  "\<exists>ops res. start_workflow order_client (order_start ALLOW_DUPLICATE) = Some (ops, res) \<and>
    (case res of
       Inr h \<Rightarrow> \<exists>k. h_result_run h = Some (run_dbos_id ''order'' k) \<and>
         chain_ok (fold documented_effect ops order_table) ''order'' (Suc k) \<and> (k = 1 \<or> Suc k = 1) \<and>
         run_open (fold documented_effect ops order_table) (run_dbos_id ''order'' k) \<and>
         concat (map (delivered_by (run_dbos_id ''order'' k)) ops) = with_start_messages order_client (order_start ALLOW_DUPLICATE)
     | Inl err \<Rightarrow> chain_ok (fold documented_effect ops order_table) ''order'' 1 \<and>
         (\<forall>d. concat (map (delivered_by d) ops) = []))"
  using start_keeps_one_open_run [OF order_listing, of "order_start ALLOW_DUPLICATE" 1 None default_meta]
  unfolding order_valid using order_chain by simp

theorem refused_start_cancels_witness:
  "start_workflow order_client (order_start REJECT_DUPLICATE) = Some ([ClientCancel ''order''], Inl (WorkflowAlreadyStarted ''order''))"
proof -
  let ?row = "\<lparr>rr_id = ''order'', rr_status = Some ''PENDING'', rr_error = None, rr_parent = None\<rparr>"
  have "current_run order_client ''order'' = Some (Inr (Some (0, ?row)))"
    using current_run_newest [OF order_listing, of "''order''" 1] by (simp add: order_run)
  moreover have "is_open (rr_status ?row)" by (simp add: is_open_def OPEN_DBOS_STATUSES_def)
  ultimately show ?thesis
    using refused_start_cancels [of order_client "order_start REJECT_DUPLICATE" 0 ?row None default_meta]
    unfolding order_valid by simp
qed

end
