(* ===== verification/Client_Handle.thy ===== *)
theory Client_Handle
  imports Client_Start
begin

text \<open>
  Workflow handles (\<open>WorkflowHandle\<close>, \<open>WorkflowUpdateHandle\<close>, \<open>Client._await_reply_event\<close>,
  \<open>_newer_chain_runs\<close>, \<open>_status_of\<close> of \<open>dbosify/client.py\<close>; \<open>start_replay_fork\<close> of
  \<open>_internal/replay.py\<close>): waiting for results along the run chain, replies, signals, queries, updates
  and cancel requests. The operations thread a world of type \<open>'w\<close> through the DBOS calls, which are
  fields of \<open>dbos\<close>: a call may change the world in any way, so whatever other processes do between
  two calls is covered. A \<open>None\<close> result is an operation that never returns.
\<close>

subsection \<open>The world\<close>

text \<open>What DBOS's \<open>get_result\<close> ends with; a wait for a terminated run raises its own error.\<close>

datatype awaited = Returned json | AwaitRaised ledger_error | AwaitCancelled

record 'w dbos =
  db_clock :: "'w \<Rightarrow> rat"
  db_list :: "'w \<Rightarrow> string list \<Rightarrow> run_row list"
  db_send :: "string \<Rightarrow> message \<Rightarrow> 'w \<Rightarrow> 'w"
  db_cancel :: "string \<Rightarrow> 'w \<Rightarrow> 'w"
  db_enqueue :: "run_start \<Rightarrow> message list \<Rightarrow> 'w \<Rightarrow> 'w"
  db_event :: "string \<Rightarrow> string \<Rightarrow> rat \<Rightarrow> 'w \<Rightarrow> json option \<times> 'w"
  db_await :: "string \<Rightarrow> 'w \<Rightarrow> (awaited \<times> 'w) option"
  db_steps :: "string \<Rightarrow> 'w \<Rightarrow> nat list"
  db_fork :: "string \<Rightarrow> nat \<Rightarrow> string \<Rightarrow> 'w \<Rightarrow> 'w"
  db_ends_first :: "string \<Rightarrow> 'w \<Rightarrow> 'w option"
  db_settles :: "string \<Rightarrow> rat \<Rightarrow> 'w \<Rightarrow> bool \<times> 'w"
  db_delete :: "string \<Rightarrow> 'w \<Rightarrow> 'w"
  db_cron :: cron_lib
  db_enc :: "json \<Rightarrow> json"
  db_dec :: "json \<Rightarrow> (string \<times> string) + json"
  db_detail :: "json \<Rightarrow> json"

definition env_at :: "'w dbos \<Rightarrow> 'w \<Rightarrow> client_env" where
  "env_at c w = \<lparr>ce_now = db_clock c w, ce_cron = db_cron c, ce_enc = db_enc c, ce_list = db_list c w\<rparr>"

fun perform :: "'w dbos \<Rightarrow> client_op \<Rightarrow> 'w \<Rightarrow> 'w" where
  "perform c (ClientSend run m) = db_send c run m"
| "perform c (ClientCancel run) = db_cancel c run"
| "perform c (ClientEnqueue s msgs) = db_enqueue c s msgs"

type_synonym ('w, 'a) act = "'w \<Rightarrow> ('a client_result \<times> 'w) option"

definition act_raise :: "client_error \<Rightarrow> ('w, 'a) act" where "act_raise err w = Some (Inl err, w)"
definition act_lift :: "'a client_result \<Rightarrow> ('w, 'a) act" where "act_lift r w = Some (r, w)"
definition act_do :: "('w \<Rightarrow> 'w) \<Rightarrow> ('w, unit) act" where "act_do f w = Some (Inr (), f w)"

definition act_bind :: "('w, 'a) act \<Rightarrow> ('a \<Rightarrow> ('w, 'b) act) \<Rightarrow> ('w, 'b) act" where
  "act_bind m f w =
     (case m w of
        None \<Rightarrow> None
      | Some (Inl err, w1) \<Rightarrow> Some (Inl err, w1)
      | Some (Inr x, w1) \<Rightarrow> f x w1)"

definition start_in :: "'w dbos \<Rightarrow> start_input \<Rightarrow> ('w, handle) act" where
  "start_in c i w = map_option (\<lambda>(ops, res). (res, fold (perform c) ops w)) (start_workflow (env_at c w) i)"

definition target_of :: "'w dbos \<Rightarrow> string \<Rightarrow> string option \<Rightarrow> ('w, string) act" where
  "target_of c workflow_id run_id w =
     map_option (\<lambda>r. (lift_py r, w)) (resolve_dbos_id (env_at c w) workflow_id run_id)"

definition status_of :: "'w dbos \<Rightarrow> string \<Rightarrow> ('w, run_row) act" where
  "status_of c dbos_id w =
     (case db_list c w [dbos_id] of
        [] \<Rightarrow> act_raise (PyErr RuntimeError) w
      | row # _ \<Rightarrow> act_lift (Inr row) w)"

definition execution_status_of :: "run_row \<Rightarrow> execution_status client_result" where
  "execution_status_of row = lift_py (to_execution_status (rr_status row) (rr_error row))"

subsection \<open>The result of a workflow\<close>

text \<open>What \<open>result\<close> does with the outcome of one run: end, or go on to the next run.\<close>

definition after_failure :: "'w dbos \<Rightarrow> bool \<Rightarrow> json \<Rightarrow> json client_result + string" where
  "after_failure c follow env =
     (let successor = jget env ''new_run_id''
      in if follow \<and> successor \<noteq> JNull
         then (case as_str successor of Inl err \<Rightarrow> Inl (Inl (PyErr err)) | Inr run \<Rightarrow> Inr run)
         else Inl (case deserialize_failure (db_detail c) env of
                     Inl err \<Rightarrow> Inl (PyErr err)
                   | Inr x \<Rightarrow> Inl (WorkflowFailure x)))"

definition after_run :: "'w dbos \<Rightarrow> bool \<Rightarrow> awaited \<Rightarrow> json client_result + string" where
  "after_run c follow outcome =
     (case outcome of
        Returned raw \<Rightarrow>
          Inl (case db_dec c raw of Inr v \<Rightarrow> Inr v | Inl (typ, msg) \<Rightarrow> Inl (ForeignFailure typ msg))
      | AwaitRaised (SerializedContinueAsNew env) \<Rightarrow>
          (case bind_result (jindex env ''new_run_id'') as_str of
             Inl err \<Rightarrow> Inl (Inl (PyErr err))
           | Inr run \<Rightarrow> if follow then Inr run else Inl (Inl (RunContinuedAsNew run)))
      | AwaitRaised (SerializedWorkflowFailure env) \<Rightarrow> after_failure c follow env
      | AwaitRaised (SerializedWorkflowCancellation env) \<Rightarrow> after_failure c follow env
      | AwaitRaised (OtherError typ msg) \<Rightarrow> Inl (Inl (ForeignFailure typ msg))
      | AwaitCancelled \<Rightarrow> Inl (Inl WorkflowTerminated))"

partial_function (option) result_loop :: "'w dbos \<Rightarrow> bool \<Rightarrow> string \<Rightarrow> 'w \<Rightarrow> (json client_result \<times> 'w) option" where
  "result_loop c follow run w =
     (case db_await c run w of
        None \<Rightarrow> None
      | Some (outcome, w1) \<Rightarrow>
          (case after_run c follow outcome of
             Inl res \<Rightarrow> Some (res, w1)
           | Inr successor \<Rightarrow> result_loop c follow successor w1))"

definition handle_result :: "'w dbos \<Rightarrow> handle \<Rightarrow> bool \<Rightarrow> ('w, json) act" where
  "handle_result c h follow =
     (case h_result_run h of
        Some run \<Rightarrow> if run = [] then act_bind (target_of c (h_id h) (h_run_id h)) (result_loop c follow)
                    else result_loop c follow run
      | None \<Rightarrow> act_bind (target_of c (h_id h) (h_run_id h)) (result_loop c follow))"

subsection \<open>Replies\<close>

definition REPLY_SWEEP_INTERVAL_SECONDS :: rat where "REPLY_SWEEP_INTERVAL_SECONDS = 1"

definition newer_chain_runs :: "'w dbos \<Rightarrow> string \<Rightarrow> nat \<Rightarrow> ('w, string list) act" where
  "newer_chain_runs c workflow_id after w =
     map_option (\<lambda>r. (lift_py (bind_result r (\<lambda>cur.
         Inr (case cur of
                None \<Rightarrow> []
              | Some (latest, _) \<Rightarrow> map (run_dbos_id workflow_id) (rev [Suc after..<Suc latest])))), w))
       (current_run (env_at c w) workflow_id)"

text \<open>A value that is not null; the first of the runs that has one.\<close>

definition some_value :: "json option \<Rightarrow> json option" where
  "some_value v = (if v = Some JNull then None else v)"

fun sweep_runs :: "'w dbos \<Rightarrow> string \<Rightarrow> string list \<Rightarrow> 'w \<Rightarrow> json option \<times> 'w" where
  "sweep_runs c key [] w = (None, w)"
| "sweep_runs c key (run # runs) w =
     (let (v, w1) = db_event c run key 0 w
      in if some_value v \<noteq> None then (v, w1) else sweep_runs c key runs w1)"

partial_function (option) await_reply_until ::
  "'w dbos \<Rightarrow> string \<Rightarrow> string \<Rightarrow> string \<Rightarrow> rat \<Rightarrow> 'w \<Rightarrow> (json option client_result \<times> 'w) option" where
  "await_reply_until c workflow_id target key deadline w =
     (if deadline - db_clock c w \<le> 0 then Some (Inr None, w)
      else let (v, w1) = db_event c target key (min REPLY_SWEEP_INTERVAL_SECONDS (deadline - db_clock c w)) w
        in if some_value v \<noteq> None then Some (Inr v, w1)
           else (case run_index_of workflow_id target of
             None \<Rightarrow> await_reply_until c workflow_id target key deadline w1
           | Some index \<Rightarrow>
               (case newer_chain_runs c workflow_id index w1 of
                  None \<Rightarrow> None
                | Some (Inl err, w2) \<Rightarrow> Some (Inl err, w2)
                | Some (Inr runs, w2) \<Rightarrow>
                    (let (x, w3) = sweep_runs c key runs w2
                     in if x \<noteq> None then Some (Inr x, w3)
                        else await_reply_until c workflow_id target key deadline w3))))"

definition await_reply_event :: "'w dbos \<Rightarrow> string \<Rightarrow> string \<Rightarrow> string \<Rightarrow> rat \<Rightarrow> ('w, json option) act" where
  "await_reply_event c workflow_id target key timeout_seconds w =
     await_reply_until c workflow_id target key (db_clock c w + timeout_seconds) w"

text \<open>\<open>rpc_timeout.total_seconds() if rpc_timeout else 60.0\<close>; a zero \<open>timedelta\<close> is falsy.\<close>

definition reply_timeout :: "timedelta option \<Rightarrow> rat" where
  "reply_timeout rpc_timeout =
     (case rpc_timeout of Some t \<Rightarrow> if t = 0 then 60 else total_seconds t | None \<Rightarrow> 60)"

subsection \<open>Signals, cancel requests and queries\<close>

definition signal_handle :: "'w dbos \<Rightarrow> handle \<Rightarrow> string \<Rightarrow> json list \<Rightarrow> jdict \<Rightarrow> ('w, unit) act" where
  "signal_handle c h name args headers =
     act_bind (target_of c (h_id h) (h_run_id h)) (\<lambda>target w.
       act_do (db_send c target
         (signal_envelope (db_clock c w) name (map (db_enc c) args) (Some headers), INBOX_TOPIC, None)) w)"

definition cancel_handle :: "'w dbos \<Rightarrow> handle \<Rightarrow> string \<Rightarrow> ('w, unit) act" where
  "cancel_handle c h reason =
     act_bind (target_of c (h_id h) (h_run_id h)) (\<lambda>target.
     act_bind (status_of c target) (\<lambda>row.
     act_bind (act_lift (execution_status_of row)) (\<lambda>status w.
       if status \<noteq> RUNNING then act_raise (PyErr RuntimeError) w
       else act_do (db_send c target (cancel_envelope (db_clock c w) reason, INBOX_TOPIC, None)) w)))"

datatype reject_condition = REJECT_NONE | NOT_OPEN | NOT_COMPLETED_CLEANLY

definition query_rejected :: "reject_condition option \<Rightarrow> execution_status \<Rightarrow> bool" where
  "query_rejected condition status =
     (case condition of
        Some NOT_OPEN \<Rightarrow> status \<noteq> RUNNING
      | Some NOT_COMPLETED_CLEANLY \<Rightarrow> status \<noteq> COMPLETED
      | _ \<Rightarrow> False)"

text \<open>\<open>start_replay_fork\<close>: one step past the last recorded checkpoint, into a named scratch run.\<close>

definition start_replay_fork :: "'w dbos \<Rightarrow> string \<Rightarrow> nat list \<Rightarrow> replay_mode \<Rightarrow> string \<Rightarrow> 'w \<Rightarrow> string \<times> 'w" where
  "start_replay_fork c run_id steps mode sfx w =
     (let horizon = Max (insert 0 (set steps)); scratch = replay_scratch_id run_id mode sfx
      in (scratch, db_fork c run_id (horizon + 1) scratch w))"

definition REHYDRATE_SETTLE_SECONDS :: rat where "REHYDRATE_SETTLE_SECONDS = 10"

text \<open>The race of the reply against the end of the fork; an error of the reply wait is no reply.\<close>

definition await_rehydrate_reply :: "'w dbos \<Rightarrow> string \<Rightarrow> string \<Rightarrow> rat \<Rightarrow> ('w, json option) act" where
  "await_rehydrate_reply c scratch key timeout w =
     (case db_ends_first c scratch w of
        Some w1 \<Rightarrow> Some (Inr None, w1)
      | None \<Rightarrow> map_option (\<lambda>(r, w1). (case r of Inl _ \<Rightarrow> Inr None | Inr v \<Rightarrow> Inr v, w1))
                  (await_reply_event c scratch scratch key timeout w))"

definition discard_scratch :: "'w dbos \<Rightarrow> string \<Rightarrow> 'w \<Rightarrow> 'w" where
  "discard_scratch c scratch w =
     (let w1 = db_send c scratch (rehydrate_stop_envelope (db_clock c w), INBOX_TOPIC, None) w;
          (settled, w2) = db_settles c scratch REHYDRATE_SETTLE_SECONDS w1;
          w3 = (if settled then w2 else db_cancel c scratch w2)
      in db_delete c scratch w3)"

definition rehydrate_query :: "'w dbos \<Rightarrow> string \<Rightarrow> json \<Rightarrow> string \<Rightarrow> rat \<Rightarrow> ('w, json) act" where
  "rehydrate_query c target envelope request_id timeout w =
     (let (scratch, w1) = start_replay_fork c target (db_steps c target w) Rehydrate request_id w;
          w2 = db_send c scratch (envelope, INBOX_TOPIC, None) w1
      in map_option
           (\<lambda>(r, w3).
              (case r of Inr (Some answer) \<Rightarrow> Inr answer | Inr None \<Rightarrow> Inl QueryFailed | Inl err \<Rightarrow> Inl err,
               discard_scratch c scratch w3))
           (await_rehydrate_reply c scratch (query_result_key request_id) timeout w2))"

text \<open>Reading a reply: its decoded result, or the failure it carries.\<close>

definition lift_dec :: "(string \<times> string) + json \<Rightarrow> json client_result" where
  "lift_dec r = (case r of Inl (typ, msg) \<Rightarrow> Inl (ForeignFailure typ msg) | Inr v \<Rightarrow> Inr v)"

definition reply_failure :: "'w dbos \<Rightarrow> json \<Rightarrow> (json exc) client_result" where
  "reply_failure c r = lift_py (bind_result (jindex r ''failure'') (deserialize_failure (db_detail c)))"

definition query_answer :: "'w dbos \<Rightarrow> json \<Rightarrow> json client_result" where
  "query_answer c r =
     (case jindex r ''status'' of
        Inl err \<Rightarrow> Inl (PyErr err)
      | Inr st \<Rightarrow>
          if st = JStr ''completed''
          then (case jindex r ''result'' of Inl err \<Rightarrow> Inl (PyErr err) | Inr v \<Rightarrow> lift_dec (db_dec c v))
          else (case reply_failure c r of Inl err \<Rightarrow> Inl err | Inr _ \<Rightarrow> Inl QueryFailed))"

text \<open>A run that cannot be found is a failed query; other errors pass.\<close>

definition query_target :: "'w dbos \<Rightarrow> handle \<Rightarrow> ('w, string \<times> run_row) act" where
  "query_target c h w =
     map_option (\<lambda>(r, w1). (case r of Inl (PyErr RuntimeError) \<Rightarrow> Inl QueryFailed | _ \<Rightarrow> r, w1))
       (act_bind (target_of c (h_id h) (h_run_id h)) (\<lambda>target.
          act_bind (status_of c target) (\<lambda>row. act_lift (Inr (target, row)))) w)"

definition query_handle ::
  "'w dbos \<Rightarrow> handle \<Rightarrow> reject_condition option \<Rightarrow> reject_condition option \<Rightarrow> string \<Rightarrow> json list \<Rightarrow> jdict \<Rightarrow>
     string \<Rightarrow> timedelta option \<Rightarrow> ('w, json) act" where
  "query_handle c h condition client_default name args headers request_id rpc_timeout =
     act_bind (query_target c h) (\<lambda>(target, row).
     act_bind (act_lift (execution_status_of row)) (\<lambda>status w.
       let condition = (if condition = None then client_default else condition);
           timeout = reply_timeout rpc_timeout;
           envelope = query_envelope (db_clock c w) name (map (db_enc c) args) request_id (Some headers)
       in if query_rejected condition status then act_raise (QueryRejected status) w
          else act_bind
            (if status = RUNNING
             then act_bind (act_do (db_send c target (envelope, INBOX_TOPIC, None))) (\<lambda>_.
                  act_bind (await_reply_event c (h_id h) target (query_result_key request_id) timeout) (\<lambda>r.
                    case r of Some v \<Rightarrow> act_lift (Inr v) | None \<Rightarrow> act_raise QueryFailed))
             else if status \<in> {COMPLETED, FAILED, CANCELED}
             then rehydrate_query c target envelope request_id timeout
             else act_raise QueryFailed)
            (\<lambda>r. act_lift (query_answer c r)) w))"

subsection \<open>Updates\<close>

datatype update_stage = ADMITTED | ACCEPTED | STAGE_COMPLETED

record update_handle =
  uh_id :: string
  uh_workflow :: string
  uh_run :: "string option"
  uh_known :: "json option"

text \<open>Waiting for the stage asked for; a rejection is a failure of the start at either stage.\<close>

definition await_accepted :: "'w dbos \<Rightarrow> string \<Rightarrow> string \<Rightarrow> string \<Rightarrow> rat \<Rightarrow> ('w, json option) act" where
  "await_accepted c workflow_id target update_id timeout =
     act_bind (await_reply_event c workflow_id target (update_acceptance_key update_id) timeout) (\<lambda>r.
       case r of
         None \<Rightarrow> act_raise (PyErr TimeoutErr)
       | Some acceptance \<Rightarrow>
           act_bind (act_lift (lift_py (jindex acceptance ''status''))) (\<lambda>st.
             if st \<noteq> JStr ''accepted''
             then act_bind (act_lift (reply_failure c acceptance)) (\<lambda>x. act_raise (UpdateFailed x))
             else act_lift (Inr None)))"

definition await_completed :: "'w dbos \<Rightarrow> string \<Rightarrow> string \<Rightarrow> string \<Rightarrow> rat \<Rightarrow> ('w, json option) act" where
  "await_completed c workflow_id target update_id timeout =
     act_bind (await_reply_event c workflow_id target (update_result_key update_id) timeout) (\<lambda>r.
       case r of
         None \<Rightarrow> act_raise (PyErr TimeoutErr)
       | Some outcome \<Rightarrow>
           act_bind (act_lift (lift_py (jindex outcome ''status''))) (\<lambda>st.
             if st = JStr ''rejected''
             then act_bind (act_lift (reply_failure c outcome)) (\<lambda>x. act_raise (UpdateFailed x))
             else act_lift (Inr (Some outcome))))"

text \<open>
  Sending the update, or starting the workflow with it: the start delivers it to the run it creates
  or attaches to, and the target is then resolved anew.
\<close>

definition deliver_update ::
  "'w dbos \<Rightarrow> handle \<Rightarrow> start_input option \<Rightarrow> json \<Rightarrow> string \<Rightarrow> ('w, string) act" where
  "deliver_update c h with_start envelope update_id =
     (case with_start of
        Some i \<Rightarrow>
          act_bind (start_in c (i\<lparr>si_update := Some (envelope, INBOX_TOPIC, Some update_id)\<rparr>)) (\<lambda>started.
            target_of c (h_id started) (h_run_id started))
      | None \<Rightarrow>
          act_bind (target_of c (h_id h) (h_run_id h)) (\<lambda>target.
            act_bind (act_do (db_send c target (envelope, INBOX_TOPIC, Some update_id))) (\<lambda>_.
              act_lift (Inr target))))"

definition start_update ::
  "'w dbos \<Rightarrow> handle \<Rightarrow> start_input option \<Rightarrow> update_stage \<Rightarrow> string \<Rightarrow> json list \<Rightarrow> jdict \<Rightarrow> string \<Rightarrow>
     timedelta option \<Rightarrow> ('w, update_handle) act" where
  "start_update c h with_start stage name args headers update_id rpc_timeout w =
     (if stage = ADMITTED then act_raise (PyErr ValueError) w
      else let timeout = reply_timeout rpc_timeout;
               envelope = update_envelope (db_clock c w) name (map (db_enc c) args) update_id (Some headers)
        in act_bind (deliver_update c h with_start envelope update_id) (\<lambda>target.
             act_bind (if stage = ACCEPTED then await_accepted c (h_id h) target update_id timeout
                       else await_completed c (h_id h) target update_id timeout) (\<lambda>known.
               act_lift (Inr \<lparr>uh_id = update_id, uh_workflow = h_id h, uh_run = Some target, uh_known = known\<rparr>))) w)"

definition update_answer :: "'w dbos \<Rightarrow> json \<Rightarrow> json client_result" where
  "update_answer c outcome =
     (case jindex outcome ''status'' of
        Inl err \<Rightarrow> Inl (PyErr err)
      | Inr st \<Rightarrow>
          if st = JStr ''completed''
          then (case jindex outcome ''result'' of Inl err \<Rightarrow> Inl (PyErr err) | Inr v \<Rightarrow> lift_dec (db_dec c v))
          else (case reply_failure c outcome of Inl err \<Rightarrow> Inl err | Inr x \<Rightarrow> Inl (UpdateFailed x)))"

definition update_result :: "'w dbos \<Rightarrow> update_handle \<Rightarrow> timedelta option \<Rightarrow> ('w, json) act" where
  "update_result c u rpc_timeout =
     act_bind
       (case uh_known u of
          Some outcome \<Rightarrow> act_lift (Inr outcome)
        | None \<Rightarrow>
            act_bind (await_reply_event c (uh_workflow u) (case uh_run u of Some run \<Rightarrow> run | None \<Rightarrow> uh_workflow u)
                (update_result_key (uh_id u)) (reply_timeout rpc_timeout)) (\<lambda>r.
              case r of Some outcome \<Rightarrow> act_lift (Inr outcome) | None \<Rightarrow> act_raise (PyErr TimeoutErr)))
       (\<lambda>outcome. act_lift (update_answer c outcome))"

text \<open>\<open>execute_update\<close>: start it, wait for its completion, read its result.\<close>

definition execute_update_handle ::
  "'w dbos \<Rightarrow> handle \<Rightarrow> string \<Rightarrow> json list \<Rightarrow> jdict \<Rightarrow> string \<Rightarrow> timedelta option \<Rightarrow> ('w, json) act" where
  "execute_update_handle c h name args headers update_id rpc_timeout =
     act_bind (start_update c h None STAGE_COMPLETED name args headers update_id rpc_timeout) (\<lambda>u.
       update_result c u rpc_timeout)"

subsection \<open>Completing an activity from outside\<close>

text \<open>
  \<open>AsyncActivityHandle\<close>: addressed by a task token (the run and, for a queued activity, its workflow)
  or by a workflow id, an optional run and the activity id.
\<close>

record activity_ref =
  ar_workflow :: string
  ar_run :: "string option"
  ar_activity :: string
  ar_queued :: "string option"

definition reference_to :: "string \<Rightarrow> string option \<Rightarrow> string \<Rightarrow> activity_ref result" where
  "reference_to workflow_id run_id activity_id =
     (if workflow_id = [] \<or> activity_id = [] then Inl ValueError
      else Inr \<lparr>ar_workflow = workflow_id, ar_run = run_id, ar_activity = activity_id, ar_queued = None\<rparr>)"

definition reference_of_token :: "json \<Rightarrow> activity_ref result" where
  "reference_of_token token =
     bind_result (bind_result (jindex token ''run'') (optional as_str)) (\<lambda>run.
     bind_result (bind_result (jindex token ''aid'') as_str) (\<lambda>aid.
     bind_result (optional as_str (jget token ''qwf'')) (\<lambda>qwf.
       Inr \<lparr>ar_workflow = [], ar_run = run, ar_activity = aid, ar_queued = qwf\<rparr>)))"

definition activity_target :: "'w dbos \<Rightarrow> activity_ref \<Rightarrow> ('w, string) act" where
  "activity_target c r =
     (case ar_queued r of
        Some qwf \<Rightarrow> act_lift (Inr qwf)
      | None \<Rightarrow> target_of c (ar_workflow r) (ar_run r))"

definition completion_topic :: "activity_ref \<Rightarrow> string" where
  "completion_topic r = (if ar_queued r \<noteq> None then ASYNC_COMPLETE_TOPIC else INBOX_TOPIC)"

definition send_checked :: "'w dbos \<Rightarrow> activity_ref \<Rightarrow> (rat \<Rightarrow> json) \<Rightarrow> ('w, unit) act" where
  "send_checked c r envelope =
     act_bind (activity_target c r) (\<lambda>target w.
       let (gone, w1) = db_event c target (async_activity_gone_key (ar_activity r)) 0 w
       in if (case gone of Some v \<Rightarrow> truthy v | None \<Rightarrow> False) then act_raise AsyncActivityGone w1
          else act_do (db_send c target (envelope (db_clock c w), completion_topic r, None)) w1)"

definition complete_activity :: "'w dbos \<Rightarrow> activity_ref \<Rightarrow> json \<Rightarrow> ('w, unit) act" where
  "complete_activity c r result =
     send_checked c r (\<lambda>now. activity_result_envelope now (ar_activity r) (db_enc c result) JNull False)"

definition fail_activity :: "'w dbos \<Rightarrow> activity_ref \<Rightarrow> json \<Rightarrow> ('w, unit) act" where
  "fail_activity c r failure =
     send_checked c r (\<lambda>now. activity_result_envelope now (ar_activity r) JNull failure False)"

definition heartbeat_activity :: "'w dbos \<Rightarrow> activity_ref \<Rightarrow> json list \<Rightarrow> ('w, unit) act" where
  "heartbeat_activity c r details =
     send_checked c r (\<lambda>now. activity_heartbeat_envelope now (ar_activity r) (map (db_enc c) details))"

definition report_cancelled :: "'w dbos \<Rightarrow> activity_ref \<Rightarrow> ('w, unit) act" where
  "report_cancelled c r =
     act_bind (activity_target c r) (\<lambda>target w.
       act_do (db_send c target
         (activity_result_envelope (db_clock c w) (ar_activity r) JNull JNull True, completion_topic r, None)) w)"

end
