(* ===== verification/Client_Terminate.thy ===== *)
theory Client_Terminate
  imports Client_Handle
begin

text \<open>
  Terminating a workflow from a client (\<open>WorkflowHandle._terminate_impl\<close>,
  \<open>Client._apply_parent_close_policies\<close> of \<open>dbosify/client.py\<close>): the current run is cancelled in DBOS,
  which runs no workflow code, so the client applies the parent close policies recorded for the run's
  children, down the tree, and follows a successor the run may have started meanwhile. The recursion of
  the source over the children is a loop over a stack here: the children of a terminated run are
  handled before its remaining siblings, as in the source.
\<close>

subsection \<open>Parent close policies\<close>

definition ABANDON :: json where "ABANDON = JInt 2"
definition REQUEST_CANCEL :: json where "REQUEST_CANCEL = JInt 3"

definition child_entry :: "json \<Rightarrow> (string \<times> json) result" where
  "child_entry child =
     bind_result (bind_result (jindex child ''id'') as_str) (\<lambda>child_id.
       Inr (child_id, jget_default child ''policy'' (JInt 1)))"

text \<open>The recorded children of a run that has not been visited, which it now is.\<close>

definition expand :: "'w dbos \<Rightarrow> string list \<Rightarrow> string \<Rightarrow> ('w, json list \<times> string list) act" where
  "expand c visited parent w =
     (if parent \<in> set visited then Some (Inr ([], visited), w)
      else let (v, w1) = db_event c parent CHILDREN_EVENT_KEY 0 w
        in case v of
             None \<Rightarrow> Some (Inr ([], parent # visited), w1)
           | Some children \<Rightarrow>
               if \<not> truthy children then Some (Inr ([], parent # visited), w1)
               else Some (lift_py (bind_result (to_list children) (\<lambda>cs. Inr (cs, parent # visited))), w1))"

partial_function (option) close_tree ::
  "'w dbos \<Rightarrow> json list \<Rightarrow> string list \<Rightarrow> 'w \<Rightarrow> (string list client_result \<times> 'w) option" where
  "close_tree c work visited w =
     (case work of
        [] \<Rightarrow> Some (Inr visited, w)
      | child # rest \<Rightarrow>
          (case child_entry child of
             Inl err \<Rightarrow> Some (Inl (PyErr err), w)
           | Inr (child_id, policy) \<Rightarrow>
               if policy = ABANDON then close_tree c rest visited w
               else (case current_run (env_at c w) child_id of
                  None \<Rightarrow> None
                | Some (Inl err) \<Rightarrow> Some (Inl (PyErr err), w)
                | Some (Inr None) \<Rightarrow> close_tree c rest visited w
                | Some (Inr (Some (_, row))) \<Rightarrow>
                    if \<not> is_open (rr_status row) then close_tree c rest visited w
                    else if policy = REQUEST_CANCEL
                    then close_tree c rest visited
                      (db_send c (rr_id row) (cancel_envelope (db_clock c w) '''', INBOX_TOPIC, None) w)
                    else (case expand c visited (rr_id row) (db_cancel c (rr_id row) w) of
                       None \<Rightarrow> None
                     | Some (Inl err, w1) \<Rightarrow> Some (Inl err, w1)
                     | Some (Inr (below, visited1), w1) \<Rightarrow> close_tree c (below @ rest) visited1 w1))))"

definition apply_parent_close_policies :: "'w dbos \<Rightarrow> string \<Rightarrow> string list \<Rightarrow> ('w, string list) act" where
  "apply_parent_close_policies c parent visited =
     act_bind (expand c visited parent) (\<lambda>(work, visited1). close_tree c work visited1)"

subsection \<open>Terminating\<close>

definition next_run :: "string \<Rightarrow> string" where
  "next_run run = (let (base, index) = parse_run run in run_dbos_id base (index + 1))"

definition TERMINATE_HOPS :: nat where "TERMINATE_HOPS = 64"

fun terminate_loop :: "'w dbos \<Rightarrow> bool \<Rightarrow> nat \<Rightarrow> bool \<Rightarrow> string \<Rightarrow> ('w, unit) act" where
  "terminate_loop c bound 0 cancelled_any target w = act_raise (PyErr RuntimeError) w"
| "terminate_loop c bound (Suc n) cancelled_any target w =
     act_bind (act_bind (status_of c target) (\<lambda>row. act_lift (execution_status_of row)))
       (\<lambda>status w1.
          if status = CONTINUED_AS_NEW \<and> (\<not> bound \<or> cancelled_any)
          then terminate_loop c bound n cancelled_any (next_run target) w1
          else if status \<noteq> RUNNING then act_raise (PyErr RuntimeError) w1
          else act_bind (apply_parent_close_policies c target [])
            (\<lambda>_ w2.
               case db_list c w2 [next_run target] of
                 [] \<Rightarrow> act_lift (Inr ()) w2
               | successor # _ \<Rightarrow>
                   if rr_parent successor \<noteq> Some target then act_lift (Inr ()) w2
                   else terminate_loop c bound n True (next_run target) w2)
            (db_cancel c target w1)) w"

definition terminate_handle :: "'w dbos \<Rightarrow> handle \<Rightarrow> ('w, unit) act" where
  "terminate_handle c h =
     act_bind (target_of c (h_id h) (h_run_id h)) (terminate_loop c (h_run_id h \<noteq> None) TERMINATE_HOPS False)"

subsection \<open>The tree that goes down\<close>

text \<open>
  The newest run of a child, and the runs a terminated run takes down: those of its children that are
  neither abandoned nor only asked to cancel, if open.
\<close>

definition newest_run :: "status_table \<Rightarrow> string \<Rightarrow> string \<Rightarrow> bool" where
  "newest_run rows child_id d \<longleftrightarrow>
     (\<exists>n. d = run_dbos_id child_id n \<and> (\<forall>i. rows (run_dbos_id child_id i) \<noteq> None \<longleftrightarrow> i \<le> n))"

definition takes_down :: "status_table \<Rightarrow> (string \<Rightarrow> json list) \<Rightarrow> string \<Rightarrow> string \<Rightarrow> bool" where
  "takes_down rows kids parent d \<longleftrightarrow>
     (\<exists>child\<in>set (kids parent). \<exists>child_id policy. child_entry child = Inr (child_id, policy) \<and>
        policy \<notin> {ABANDON, REQUEST_CANCEL} \<and> newest_run rows child_id d \<and> run_open rows d)"

definition cancel_runs :: "string set \<Rightarrow> status_table \<Rightarrow> status_table" where
  "cancel_runs ds rows d =
     (if d \<in> ds then map_option (\<lambda>r. r\<lparr>rr_status := Some ''CANCELLED''\<rparr>) (rows d) else rows d)"

text \<open>
  What DBOS documents: \<open>view\<close> is the status table of a world, cancelling a run marks it, messages and
  event reads leave the table alone, and \<open>kids\<close> is what the children event of a run holds.
\<close>

definition documented_world :: "'w dbos \<Rightarrow> ('w \<Rightarrow> status_table) \<Rightarrow> (string \<Rightarrow> json list) \<Rightarrow> bool" where
  "documented_world c view kids \<longleftrightarrow>
     (\<forall>w. lists_table (db_list c w) (view w)) \<and>
     (\<forall>d w. view (db_cancel c d w) = cancel_runs {d} (view w)) \<and>
     (\<forall>d m w. view (db_send c d m w) = view w) \<and>
     (\<forall>d w. \<exists>w'. db_event c d CHILDREN_EVENT_KEY 0 w = (if kids d = [] then None else Some (JList (kids d)), w') \<and>
        view w' = view w)"

text \<open>Every recorded child is well formed, and its chain has no gap.\<close>

definition tree_ok :: "status_table \<Rightarrow> (string \<Rightarrow> json list) \<Rightarrow> bool" where
  "tree_ok rows kids \<longleftrightarrow>
     (\<forall>d. \<forall>child\<in>set (kids d). \<exists>child_id policy n. child_entry child = Inr (child_id, policy) \<and>
        (\<forall>i. rows (run_dbos_id child_id i) \<noteq> None \<longleftrightarrow> i < n))"

lemma cancel_runs_dom [simp]: "cancel_runs ds rows d = None \<longleftrightarrow> rows d = None"
  by (simp add: cancel_runs_def)

lemma cancel_runs_none [simp]: "cancel_runs {} rows = rows"
  by (rule ext) (simp add: cancel_runs_def)

lemma cancel_runs_insert: "cancel_runs {d} (cancel_runs ds rows) = cancel_runs (insert d ds) rows"
  by (rule ext) (auto simp: cancel_runs_def option.map_comp comp_def)

lemma cancel_runs_open: "run_open (cancel_runs ds rows) d \<longleftrightarrow> run_open rows d \<and> d \<notin> ds"
  by (cases "rows d") (auto simp: run_open_def cancel_runs_def run_open_open)

lemma documented_expand:
  assumes "documented_world c view kids" "d \<notin> set visited"
  shows "\<exists>w'. expand c visited d w = Some (Inr (kids d, d # visited), w') \<and> view w' = view w"
proof -
  obtain w' where "db_event c d CHILDREN_EVENT_KEY 0 w = (if kids d = [] then None else Some (JList (kids d)), w')"
    "view w' = view w" using assms(1) unfolding documented_world_def by blast
  with assms(2) show ?thesis by (simp add: expand_def lift_py_def)
qed

text \<open>The current run of a child, in a world whose table differs from the initial one by statuses.\<close>

lemma child_current:
  assumes "documented_world c view kids" "view w = cancel_runs ds rows"
    and "\<And>i. rows (run_dbos_id child_id i) \<noteq> None \<longleftrightarrow> i < n"
  shows "(n = 0 \<and> current_run (env_at c w) child_id = Some (Inr None) \<and> (\<forall>d. \<not> newest_run rows child_id d)) \<or>
    (\<exists>row k. current_run (env_at c w) child_id = Some (Inr (Some (k, row))) \<and>
       (\<forall>d. newest_run rows child_id d \<longleftrightarrow> d = rr_id row) \<and>
       (is_open (rr_status row) \<longleftrightarrow> run_open rows (rr_id row) \<and> rr_id row \<notin> ds))"
proof -
  have l: "lists_table (ce_list (env_at c w)) (cancel_runs ds rows)"
    using assms(1,2) by (simp add: documented_world_def env_at_def) metis
  note cur = current_run_newest [OF l, of child_id n]
  have newest: "newest_run rows child_id d \<longleftrightarrow> n \<noteq> 0 \<and> d = run_dbos_id child_id (n - 1)" for d
  proof -
    have "n = Suc m" if "\<forall>i. i < n \<longleftrightarrow> i \<le> m" for m
      using that [rule_format, of m] that [rule_format, of "Suc m"] by simp
    then have iff: "(\<forall>i. i < n \<longleftrightarrow> i \<le> m) \<longleftrightarrow> n = Suc m" for m
      by (auto simp: less_Suc_eq_le)
    have "newest_run rows child_id d \<longleftrightarrow> (\<exists>m. d = run_dbos_id child_id m \<and> n = Suc m)"
      by (simp only: newest_run_def assms(3) iff)
    then show ?thesis by (cases n) auto
  qed
  show ?thesis
  proof (cases "n = 0")
    case True
    with cur assms(3) newest show ?thesis by simp
  next
    case False
    let ?d = "run_dbos_id child_id (n - 1)"
    obtain r where r: "cancel_runs ds rows ?d = Some r"
      using assms(3) [of "n - 1"] False by (metis cancel_runs_dom diff_less neq0_conv not_None_eq zero_less_one)
    with l have "rr_id r = ?d" by (simp add: lists_table_def)
    moreover from r have "is_open (rr_status r) \<longleftrightarrow> run_open rows ?d \<and> ?d \<notin> ds"
      using cancel_runs_open [of ds rows ?d] by (simp add: run_open_def)
    moreover have "current_run (env_at c w) child_id = Some (Inr (Some (n - 1, r)))"
      using cur assms(3) False r by simp
    ultimately show ?thesis using newest False by auto
  qed
qed

text \<open>
  The loop invariant: \<open>ds\<close> are the runs cancelled so far, all of them taken down by the boss; the
  children on the stack belong to the boss or to cancelled runs; and a child of these is on the
  stack, or its newest run needs nothing more.
\<close>

definition settled :: "status_table \<Rightarrow> string set \<Rightarrow> json \<Rightarrow> bool" where
  "settled rows ds child \<longleftrightarrow>
     (\<forall>child_id policy d. child_entry child = Inr (child_id, policy) \<and> policy \<notin> {ABANDON, REQUEST_CANCEL} \<and>
        newest_run rows child_id d \<and> run_open rows d \<longrightarrow> d \<in> ds)"

definition stack_inv ::
  "status_table \<Rightarrow> (string \<Rightarrow> json list) \<Rightarrow> string \<Rightarrow> string set \<Rightarrow> json list \<Rightarrow> string list \<Rightarrow> bool" where
  "stack_inv rows kids boss ds work visited \<longleftrightarrow>
     (\<forall>d\<in>ds. run_open rows d \<and> (takes_down rows kids)\<^sup>+\<^sup>+ boss d) \<and>
     set visited = insert boss ds \<and>
     (\<forall>child\<in>set work. \<exists>p\<in>insert boss ds. child \<in> set (kids p)) \<and>
     (\<forall>p\<in>insert boss ds. \<forall>child\<in>set (kids p). child \<in> set work \<or> settled rows ds child)"

lemma settled_mono: "settled rows ds child \<Longrightarrow> ds \<subseteq> es \<Longrightarrow> settled rows es child"
  unfolding settled_def by blast

lemma stack_invD:
  "stack_inv rows kids boss ds work visited \<Longrightarrow> p \<in> insert boss ds \<Longrightarrow> x \<in> set (kids p) \<Longrightarrow>
   x \<in> set work \<or> settled rows ds x"
  unfolding stack_inv_def by blast

lemma stack_inv_skip:
  assumes inv: "stack_inv rows kids boss ds (child # work) visited" and fin: "settled rows ds child"
  shows "stack_inv rows kids boss ds work visited"
  unfolding stack_inv_def
proof (intro conjI ballI)
  fix p x assume "p \<in> insert boss ds" "x \<in> set (kids p)"
  from stack_invD [OF inv this] fin show "x \<in> set work \<or> settled rows ds x" by auto
qed (use inv in \<open>simp_all add: stack_inv_def\<close>)

lemma stack_inv_cancel:
  assumes inv: "stack_inv rows kids boss ds (child # work) visited"
    and child: "child_entry child = Inr (child_id, policy)" "policy \<notin> {ABANDON, REQUEST_CANCEL}"
    and run: "\<And>x. newest_run rows child_id x \<longleftrightarrow> x = d" "run_open rows d"
  shows "stack_inv rows kids boss (insert d ds) (kids d @ work) (d # visited)"
proof -
  obtain p where p: "p \<in> insert boss ds" "child \<in> set (kids p)" using inv by (auto simp: stack_inv_def)
  then have "takes_down rows kids p d" using child run unfolding takes_down_def by blast
  moreover have "p = boss \<or> (takes_down rows kids)\<^sup>+\<^sup>+ boss p" using p(1) inv by (auto simp: stack_inv_def)
  ultimately have down: "(takes_down rows kids)\<^sup>+\<^sup>+ boss d" by (auto intro: tranclp.intros)
  have settled: "settled rows (insert d ds) child" using child run(1) by (simp add: settled_def)
  show ?thesis
    unfolding stack_inv_def
  proof (intro conjI ballI)
    fix p x assume px: "p \<in> insert boss (insert d ds)" "x \<in> set (kids p)"
    show "x \<in> set (kids d @ work) \<or> settled rows (insert d ds) x"
    proof (cases "p = d")
      case False
      with px have "p \<in> insert boss ds" by simp
      from stack_invD [OF inv this px(2)] have "x = child \<or> x \<in> set work \<or> settled rows ds x" by auto
      with settled settled_mono [of rows ds x "insert d ds"] show ?thesis by auto
    qed (use px in simp)
  next
    fix x assume "x \<in> set (kids d @ work)"
    with inv show "\<exists>p\<in>insert boss (insert d ds). x \<in> set (kids p)" by (auto simp: stack_inv_def)
  next
    show "set (d # visited) = insert boss (insert d ds)" using inv by (auto simp: stack_inv_def)
  qed (use inv down run(2) in \<open>auto simp: stack_inv_def\<close>)
qed

lemma stack_inv_done:
  assumes "stack_inv rows kids boss ds [] visited"
  shows "ds = {d. (takes_down rows kids)\<^sup>+\<^sup>+ boss d}"
proof -
  have down: "d \<in> ds" if "p \<in> insert boss ds" "takes_down rows kids p d" for p d
  proof -
    from that(2) obtain child child_id policy where c: "child \<in> set (kids p)"
      "child_entry child = Inr (child_id, policy)" "policy \<notin> {ABANDON, REQUEST_CANCEL}"
      "newest_run rows child_id d" "run_open rows d" unfolding takes_down_def by blast
    from stack_invD [OF assms that(1) c(1)] have "settled rows ds child" by simp
    with c show ?thesis unfolding settled_def by blast
  qed
  have "d \<in> ds" if "(takes_down rows kids)\<^sup>+\<^sup>+ boss d" for d
    using that
  proof (induction rule: tranclp_induct)
    case (base y)
    then show ?case by (intro down [of boss]) simp_all
  next
    case (step y z)
    then show ?case by (intro down [of y]) simp_all
  qed
  moreover have "(takes_down rows kids)\<^sup>+\<^sup>+ boss d" if "d \<in> ds" for d using assms that unfolding stack_inv_def by blast
  ultimately show ?thesis by blast
qed

text \<open>Cancelling the open run of a child: one run more is down, its children join the stack, and fewer runs are left open.\<close>

lemma close_tree_kill:
  assumes world: "documented_world c view kids" and inv: "stack_inv rows kids boss ds (child # work) visited"
    and now: "view w = cancel_runs ds rows" and fin: "finite {d. run_open rows d}" and boss: "\<not> run_open rows boss"
    and entry: "child_entry child = Inr (child_id, policy)" "policy \<notin> {ABANDON, REQUEST_CANCEL}"
    and row: "current_run (env_at c w) child_id = Some (Inr (Some (k, row)))" "\<And>d. newest_run rows child_id d \<longleftrightarrow> d = rr_id row"
      "is_open (rr_status row)" "run_open rows (rr_id row)" "rr_id row \<notin> ds"
  obtains w1 where "close_tree c (child # work) visited w = close_tree c (kids (rr_id row) @ work) (rr_id row # visited) w1"
    "view w1 = cancel_runs (insert (rr_id row) ds) rows"
    "stack_inv rows kids boss (insert (rr_id row) ds) (kids (rr_id row) @ work) (rr_id row # visited)"
    "card ({d. run_open rows d} - insert (rr_id row) ds) < card ({d. run_open rows d} - ds)"
proof -
  let ?d = "rr_id row"
  let ?w = "db_cancel c ?d w"
  have "?d \<notin> set visited" using inv row(4,5) boss by (auto simp: stack_inv_def)
  then obtain w1 where w1: "expand c visited ?d ?w = Some (Inr (kids ?d, ?d # visited), w1)" "view w1 = view ?w"
    using documented_expand [OF world] by blast
  show thesis
  proof (rule that)
    show "close_tree c (child # work) visited w = close_tree c (kids ?d @ work) (?d # visited) w1"
      using entry row(1,3) w1(1) by (simp add: close_tree.simps [of c "child # work" visited w])
    show "view w1 = cancel_runs (insert ?d ds) rows"
      using w1(2) world now by (simp add: documented_world_def cancel_runs_insert)
    show "stack_inv rows kids boss (insert ?d ds) (kids ?d @ work) (?d # visited)"
      using row by (intro stack_inv_cancel [OF inv entry]) simp_all
    show "card ({d. run_open rows d} - insert ?d ds) < card ({d. run_open rows d} - ds)"
      using row(4,5) fin by (intro psubset_card_mono) auto
  qed
qed

lemma close_tree_exact:
  fixes c :: "'w dbos"
  assumes world: "documented_world c view kids" and tree: "tree_ok rows kids"
    and boss: "\<not> run_open rows boss" and fin: "finite {d. run_open rows d}"
  shows "stack_inv rows kids boss ds work visited \<Longrightarrow> view w = cancel_runs ds rows \<Longrightarrow>
    \<exists>visited' w'. close_tree c work visited w = Some (Inr visited', w') \<and>
      view w' = cancel_runs {d. (takes_down rows kids)\<^sup>+\<^sup>+ boss d} rows"
proof (induction "card ({d. run_open rows d} - ds)" arbitrary: ds work visited w rule: less_induct)
  case less
  note outer = less.hyps
  show ?case using less.prems
  proof (induction work arbitrary: visited w)
    case Nil
    with stack_inv_done [OF Nil.prems(1)] show ?case by (simp add: close_tree.simps)
  next
    case (Cons child work)
    obtain p where "p \<in> insert boss ds" "child \<in> set (kids p)" using Cons.prems(1) by (auto simp: stack_inv_def)
    then obtain child_id policy n where entry: "child_entry child = Inr (child_id, policy)"
      and runs: "\<And>i. rows (run_dbos_id child_id i) \<noteq> None \<longleftrightarrow> i < n"
      using tree unfolding tree_ok_def by blast
    note step = close_tree.simps [of c "child # work" visited w]
    have skip: ?case
      if "close_tree c (child # work) visited w = close_tree c work visited w1" "view w1 = view w"
        "settled rows ds child" for w1
      using Cons.IH [OF stack_inv_skip [OF Cons.prems(1) that(3)], of w1] Cons.prems(2) that by simp
    consider (abandon) "policy = ABANDON"
      | (none) "policy \<noteq> ABANDON" "current_run (env_at c w) child_id = Some (Inr None)" "\<And>d. \<not> newest_run rows child_id d"
      | (row) k row where "policy \<noteq> ABANDON" "current_run (env_at c w) child_id = Some (Inr (Some (k, row)))"
          "\<And>d. newest_run rows child_id d \<longleftrightarrow> d = rr_id row"
          "is_open (rr_status row) \<longleftrightarrow> run_open rows (rr_id row) \<and> rr_id row \<notin> ds"
      using child_current [OF world Cons.prems(2) runs] by blast
    then show ?case
    proof cases
      case abandon
      then have "settled rows ds child" using entry by (simp add: settled_def)
      with abandon entry step show ?thesis by (intro skip [of w]) simp_all
    next
      case none
      then have "settled rows ds child" using entry by (simp add: settled_def)
      with none entry step show ?thesis by (intro skip [of w]) simp_all
    next
      case row
      consider (closed) "\<not> is_open (rr_status row)" | (request) "is_open (rr_status row)" "policy = REQUEST_CANCEL"
        | (kill) "is_open (rr_status row)" "policy \<noteq> REQUEST_CANCEL" by blast
      then show ?thesis
      proof cases
        case closed
        then have "settled rows ds child" using entry row(3,4) by (auto simp: settled_def)
        with closed row entry step show ?thesis by (intro skip [of w]) simp_all
      next
        case request
        have "view (db_send c d m w) = view w" for d m using world unfolding documented_world_def by blast
        moreover have "settled rows ds child" using request entry by (simp add: settled_def)
        ultimately show ?thesis using request row entry step
          by (intro skip [of "db_send c (rr_id row) (cancel_envelope (db_clock c w) [], INBOX_TOPIC, None) w"]) simp_all
      next
        case kill
        then have "policy \<notin> {ABANDON, REQUEST_CANCEL}" "run_open rows (rr_id row)" "rr_id row \<notin> ds" using row by simp_all
        from close_tree_kill [OF world Cons.prems(1,2) fin boss entry this(1) row(2,3) kill(1) this(2,3)]
        show ?thesis using outer by (metis (no_types, lifting))
      qed
    qed
  qed
qed

text \<open>
  Claim C6. A termination takes down exactly the runs it should. In a world that behaves as DBOS
  documents, with finitely many open runs and well-formed children events, applying the parent close
  policies of a terminated run returns, and afterwards the cancelled runs are exactly the open ones
  reachable from it through children that are neither abandoned nor only asked to cancel, each child
  standing for the newest run of its chain; no other run's row has changed.
\<close>

theorem terminate_takes_down_exactly:
  assumes "documented_world c view kids" "tree_ok (view w) kids"
    and "\<not> run_open (view w) run" "finite {d. run_open (view w) d}"
  shows "\<exists>visited w'. apply_parent_close_policies c run [] w = Some (Inr visited, w') \<and>
    view w' = cancel_runs {d. (takes_down (view w) kids)\<^sup>+\<^sup>+ run d} (view w)"
proof -
  obtain w1 where w1: "expand c [] run w = Some (Inr (kids run, [run]), w1)" "view w1 = view w"
    using documented_expand [OF assms(1), of run "[]"] by auto
  have "stack_inv (view w) kids run {} (kids run) [run]" by (simp add: stack_inv_def)
  moreover have "view w1 = cancel_runs {} (view w)" using w1(2) by (simp add: cancel_runs_def fun_eq_iff)
  ultimately show ?thesis
    using close_tree_exact [OF assms, of "{}" "kids run" "[run]" w1] w1(1)
    by (simp add: apply_parent_close_policies_def act_bind_def)
qed

subsection \<open>A parent with two children\<close>

text \<open>A terminated parent with two open children, one to be terminated and one abandoned.\<close>

definition row_in :: "string \<Rightarrow> string \<Rightarrow> run_row" where
  "row_in d st = \<lparr>rr_id = d, rr_status = Some st, rr_error = None, rr_parent = None\<rparr>"

definition family :: status_table where
  "family = [''P'' \<mapsto> row_in ''P'' ''CANCELLED'', ''C'' \<mapsto> row_in ''C'' ''PENDING'', ''A'' \<mapsto> row_in ''A'' ''PENDING'']"

definition child_of :: "string \<Rightarrow> int \<Rightarrow> json" where
  "child_of d policy = JObj [(''id'', JStr d), (''policy'', JInt policy)]"

definition family_kids :: "string \<Rightarrow> json list" where
  "family_kids d = (if d = ''P'' then [child_of ''C'' 1, child_of ''A'' 2] else [])"

text \<open>A world is the set of the runs cancelled in it.\<close>

definition family_dbos :: "string set dbos" where
  "family_dbos = \<lparr>db_clock = (\<lambda>_. 0), db_list = (\<lambda>ds. List.map_filter (cancel_runs ds family)), db_send = (\<lambda>_ _ ds. ds),
     db_cancel = insert, db_enqueue = (\<lambda>_ _ ds. ds),
     db_event = (\<lambda>d key limit ds. (if family_kids d = [] then None else Some (JList (family_kids d)), ds)),
     db_await = (\<lambda>_ _. None), db_steps = (\<lambda>_ _. []), db_fork = (\<lambda>_ _ _ ds. ds), db_ends_first = (\<lambda>_ _. None),
     db_settles = (\<lambda>_ _ ds. (True, ds)), db_delete = (\<lambda>_ ds. ds),
     db_cron = \<lparr>cron_zone = (\<lambda>_. True), cron_valid = (\<lambda>_. True), cron_next = (\<lambda>_ _ _. 0)\<rparr>,
     db_enc = id, db_dec = Inr, db_detail = id\<rparr>"

lemma family_listing: "lists_table (List.map_filter (cancel_runs ds family)) (cancel_runs ds family)"
  by (auto simp: lists_table_def set_map_filter_iff cancel_runs_def family_def row_in_def split: if_splits)

lemma family_world: "documented_world family_dbos (\<lambda>ds. cancel_runs ds family) family_kids"
  by (simp add: documented_world_def family_dbos_def family_listing cancel_runs_insert)

lemma family_chain: "w \<in> {''C'', ''A''} \<Longrightarrow> family (run_dbos_id w i) \<noteq> None \<longleftrightarrow> i < 1"
  by (auto simp: family_def run_dbos_id_def RUN_SEPARATOR_def)

lemma family_tree: "tree_ok family family_kids"
proof -
  have "child_entry (child_of w k) = Inr (w, JInt k)" for w k
    by (simp add: child_entry_def child_of_def jindex_def jget_default_def)
  then show ?thesis using family_chain unfolding tree_ok_def
    by (auto simp: family_kids_def simp del: not_None_eq intro!: exI [of _ "1::nat"])
qed

lemma family_open: "run_open family d \<longleftrightarrow> d \<in> {''C'', ''A''}"
  by (auto simp: run_open_def family_def row_in_def is_open_def OPEN_DBOS_STATUSES_def split: if_splits)

theorem terminate_takes_down_exactly_witness:
  "\<exists>visited ds. apply_parent_close_policies family_dbos ''P'' [] {} = Some (Inr visited, ds) \<and>
    cancel_runs ds family = cancel_runs {d. (takes_down family family_kids)\<^sup>+\<^sup>+ ''P'' d} family"
proof -
  have "\<not> run_open family ''P''" "finite {d. run_open family d}" by (simp_all add: family_open)
  then show ?thesis
    using terminate_takes_down_exactly [OF family_world, of "{}" "''P''"] family_tree by simp
qed

end
