(* ===== verification/Client_Replies.thy ===== *)
theory Client_Replies
  imports Client_Handle
begin

text \<open>
  What waiting on a handle gives: \<open>result\<close> follows the run chain to its end, and a reply posted under a
  later run of the chain is found, while one posted under an earlier run is not.
\<close>

subsection \<open>Results\<close>

text \<open>The record of a run that hands over to another run: continued as new, retried, or a cron hop.\<close>

definition hands_over :: "ledger_error \<Rightarrow> string \<Rightarrow> bool" where
  "hands_over err run \<longleftrightarrow>
     (case err of
        SerializedContinueAsNew env \<Rightarrow> jindex env ''new_run_id'' = Inr (JStr run)
      | SerializedWorkflowFailure env \<Rightarrow> jget env ''new_run_id'' = JStr run
      | SerializedWorkflowCancellation env \<Rightarrow> jget env ''new_run_id'' = JStr run
      | OtherError _ _ \<Rightarrow> False)"

lemma after_hand_over: "hands_over err run \<Longrightarrow> after_run c True (AwaitRaised err) = Inr run"
  by (cases err) (simp_all add: hands_over_def after_run_def after_failure_def)

lemma result_loop_follows:
  assumes "\<And>k w. k < n \<Longrightarrow> \<exists>err w'. db_await c (r k) w = Some (AwaitRaised err, w') \<and> hands_over err (r (Suc k))"
    and "\<And>w. \<exists>w'. db_await c (r n) w = Some (outcome, w')" "after_run c True outcome = Inl res" "k \<le> n"
  shows "\<exists>w'. result_loop c True (r k) w = Some (res, w')"
  using assms(4)
proof (induction "n - k" arbitrary: k w)
  case 0
  then have "k = n" by simp
  moreover obtain w' where "db_await c (r n) w = Some (outcome, w')" using assms(2) by blast
  ultimately show ?case using assms(3) by (simp add: result_loop.simps [of c True "r n"])
next
  case (Suc d)
  then have "k < n" by simp
  then obtain err w1 where a: "db_await c (r k) w = Some (AwaitRaised err, w1)" "hands_over err (r (Suc k))"
    using assms(1) by blast
  from Suc have "\<exists>w'. result_loop c True (r (Suc k)) w1 = Some (res, w')" by (intro Suc.hyps(1)) auto
  with a show ?case by (simp add: result_loop.simps [of c True "r k"] after_hand_over)
qed

lemma result_loop_endless:
  assumes "\<And>k w. \<exists>err w'. db_await c (r k) w = Some (AwaitRaised err, w') \<and> hands_over err (r (Suc k))"
  shows "result_loop c True (r k) w = None"
proof (rule ccontr)
  assume "result_loop c True (r k) w \<noteq> None"
  then obtain y where y: "result_loop c True (r k) w = Some y" by auto
  have "\<forall>k. run \<noteq> r k \<or> c' \<noteq> c \<or> \<not> follow" if "result_loop c' follow run w = Some y" for c' follow run w y
    using that
  proof (rule result_loop.raw_induct [rotated])
    fix loop :: "'a dbos \<Rightarrow> bool \<Rightarrow> string \<Rightarrow> 'a \<Rightarrow> (json client_result \<times> 'a) option" and c' follow run w y
    assume IH: "\<And>c' follow run w y. loop c' follow run w = Some y \<Longrightarrow> \<forall>k. run \<noteq> r k \<or> c' \<noteq> c \<or> \<not> follow"
      and s: "(case db_await c' run w of None \<Rightarrow> None
        | Some (outcome, w1) \<Rightarrow> (case after_run c' follow outcome of Inl res \<Rightarrow> Some (res, w1)
          | Inr successor \<Rightarrow> loop c' follow successor w1)) = Some y"
    show "\<forall>k. run \<noteq> r k \<or> c' \<noteq> c \<or> \<not> follow"
    proof (rule ccontr)
      assume "\<not> ?thesis"
      then obtain k where k: "run = r k" "c' = c" "follow" by blast
      obtain err w1 where a: "db_await c (r k) w = Some (AwaitRaised err, w1)" "hands_over err (r (Suc k))"
        using assms by blast
      from s k a have "loop c True (r (Suc k)) w1 = Some y" by (simp add: after_hand_over)
      then show False using IH by blast
    qed
  qed
  with y show False by blast
qed


subsection \<open>Replies\<close>

text \<open>
  What DBOS documents of events: a read returns the value posted by the end of its timeout, and
  otherwise waits exactly that long. Reads without a timeout take no time. \<open>posted\<close> tells when each event is set.
\<close>

definition documented_events :: "'w dbos \<Rightarrow> (string \<Rightarrow> string \<Rightarrow> (rat \<times> json) option) \<Rightarrow> bool" where
  "documented_events c posted \<longleftrightarrow>
     (\<forall>d key limit w v w'. 0 \<le> limit \<longrightarrow> db_event c d key limit w = (v, w') \<longrightarrow>
        v = (case posted d key of Some (t, x) \<Rightarrow> if t \<le> db_clock c w + limit then Some x else None | None \<Rightarrow> None) \<and>
        (v = None \<longrightarrow> db_clock c w' = db_clock c w + limit) \<and>
        (limit = 0 \<longrightarrow> db_clock c w' = db_clock c w))"

text \<open>In every world the chain of the workflow is gapless; its run \<open>m\<close> exists from time \<open>t\<close> on.\<close>

definition chain_grows :: "'w dbos \<Rightarrow> string \<Rightarrow> nat \<Rightarrow> rat \<Rightarrow> bool" where
  "chain_grows c workflow_id m t \<longleftrightarrow>
     (\<forall>w. \<exists>rows n. lists_table (db_list c w) rows \<and> (\<forall>i. rows (run_dbos_id workflow_id i) \<noteq> None \<longleftrightarrow> i < n) \<and>
        (t \<le> db_clock c w \<longrightarrow> m < n))"

lemma event_read:
  assumes "documented_events c posted" "db_event c d key limit w = (v, w')" "0 \<le> limit"
  shows "v = (case posted d key of Some (t, x) \<Rightarrow> if t \<le> db_clock c w + limit then Some x else None | None \<Rightarrow> None)"
    and "v = None \<Longrightarrow> db_clock c w' = db_clock c w + limit"
    and "limit = 0 \<Longrightarrow> db_clock c w' = db_clock c w"
  using assms unfolding documented_events_def by blast+

lemma run_index_of_run: "run_index_of workflow_id (run_dbos_id workflow_id j) = Some j"
  by (cases "j = 0") (simp_all add: run_index_of_def run_dbos_id_def separator_defs)

lemma newer_runs_listed:
  assumes "chain_grows c workflow_id m t"
  shows "\<exists>runs. newer_chain_runs c workflow_id j w = Some (Inr runs, w) \<and>
    set runs \<subseteq> run_dbos_id workflow_id ` {Suc j..} \<and>
    (t \<le> db_clock c w \<and> j < m \<longrightarrow> run_dbos_id workflow_id m \<in> set runs)"
proof -
  obtain rows n where r: "lists_table (db_list c w) rows" "\<And>i. rows (run_dbos_id workflow_id i) \<noteq> None \<longleftrightarrow> i < n"
    "t \<le> db_clock c w \<longrightarrow> m < n" using assms unfolding chain_grows_def by blast
  then have "lists_table (ce_list (env_at c w)) rows" by (simp add: env_at_def)
  from current_run_newest [OF this r(2)] r(3) show ?thesis
    by (cases "n = 0") (auto simp: newer_chain_runs_def lift_py_def simp del: upt_Suc)
qed

lemma sweep_result:
  assumes "documented_events c posted" "x \<noteq> JNull" "posted late key = Some (t, x)"
    and "\<And>d. d \<in> set runs \<Longrightarrow> d \<noteq> late \<Longrightarrow> posted d key = None"
  shows "\<exists>w'. sweep_runs c key runs w = (if late \<in> set runs \<and> t \<le> db_clock c w then Some x else None, w') \<and>
    db_clock c w' = db_clock c w"
  using assms(4)
proof (induction runs arbitrary: w)
  case (Cons d runs)
  obtain v w1 where e: "db_event c d key 0 w = (v, w1)" by (cases "db_event c d key 0 w")
  have v: "v = (case posted d key of Some (t, x) \<Rightarrow> if t \<le> db_clock c w then Some x else None | None \<Rightarrow> None)"
    and clk: "db_clock c w1 = db_clock c w"
    using event_read [OF assms(1) e] by (auto split: option.split)
  have IH: "\<exists>w'. sweep_runs c key runs w1 = (if late \<in> set runs \<and> t \<le> db_clock c w1 then Some x else None, w') \<and>
    db_clock c w' = db_clock c w1" using Cons by simp
  show ?case
  proof (cases "d = late")
    case True
    with v e clk IH assms(2,3) show ?thesis by (auto simp: some_value_def)
  next
    case False
    with Cons.prems v have "v = None" by simp
    with e clk IH False show ?thesis by (simp add: some_value_def)
  qed
qed simp

lemma ceiling_progress:
  fixes a :: rat
  assumes "0 < a"
  shows "nat \<lceil>a - min 1 a\<rceil> < nat \<lceil>a\<rceil>"
proof (cases "a \<le> 1")
  case False
  then have "\<lceil>a - min 1 a\<rceil> = \<lceil>a\<rceil> - 1" by simp
  with assms show ?thesis by simp
qed (use assms in simp)

lemma reply_loop:
  fixes c :: "'w dbos"
  assumes ev: "documented_events c posted" and chain: "chain_grows c workflow_id m t"
    and post: "posted (run_dbos_id workflow_id m) key = Some (t, x)" "x \<noteq> JNull"
    and once: "\<And>i. i \<noteq> m \<Longrightarrow> posted (run_dbos_id workflow_id i) key = None"
  shows "(j \<le> m \<and> t \<le> deadline \<and> db_clock c w < deadline \<longrightarrow>
       (\<exists>w'. await_reply_until c workflow_id (run_dbos_id workflow_id j) key deadline w = Some (Inr (Some x), w'))) \<and>
    (m < j \<longrightarrow> (\<exists>w'. await_reply_until c workflow_id (run_dbos_id workflow_id j) key deadline w = Some (Inr None, w')))"
proof (induction "nat \<lceil>deadline - db_clock c w\<rceil>" arbitrary: w rule: less_induct)
  case less
  let ?run = "run_dbos_id workflow_id"
  let ?limit = "min REPLY_SWEEP_INTERVAL_SECONDS (deadline - db_clock c w)"
  show ?case
  proof (cases "deadline - db_clock c w \<le> 0")
    case True
    then show ?thesis by (subst (1 2) await_reply_until.simps) simp
  next
    case False
    obtain v w1 where e: "db_event c (?run j) key ?limit w = (v, w1)" by (cases "db_event c (?run j) key ?limit w")
    have "0 \<le> ?limit" using False by (simp add: REPLY_SWEEP_INTERVAL_SECONDS_def)
    note read = event_read [OF ev e this]
    note v = read(1) and clk = read(2)
    show ?thesis
    proof (cases "v = None")
      case hit: False
      with v once have "j = m" "v = Some x" using post by (cases "j = m"; auto split: if_splits)+
      with False e post(2) show ?thesis by (subst (1 2) await_reply_until.simps) (simp add: some_value_def)
    next
      case miss: True
      obtain runs where runs: "newer_chain_runs c workflow_id j w1 = Some (Inr runs, w1)"
        "set runs \<subseteq> ?run ` {Suc j..}" "t \<le> db_clock c w1 \<and> j < m \<longrightarrow> ?run m \<in> set runs"
        using newer_runs_listed [OF chain] by blast
      have "\<And>d. d \<in> set runs \<Longrightarrow> d \<noteq> ?run m \<Longrightarrow> posted d key = None" using runs(2) once by (metis imageE subsetD)
      from sweep_result [OF ev post(2,1) this] obtain w3 where
        s: "sweep_runs c key runs w1 = (if ?run m \<in> set runs \<and> t \<le> db_clock c w1 then Some x else None, w3)"
        and clk3: "db_clock c w3 = db_clock c w1" by blast
      have step: "await_reply_until c workflow_id (?run j) key deadline w =
        (if ?run m \<in> set runs \<and> t \<le> db_clock c w1 then Some (Inr (Some x), w3)
         else await_reply_until c workflow_id (?run j) key deadline w3)"
        using False e miss runs(1) s
        by (subst await_reply_until.simps) (simp add: some_value_def run_index_of_run)
      have progress: "db_clock c w3 = db_clock c w + ?limit" using clk miss clk3 by simp
      have "nat \<lceil>deadline - db_clock c w3\<rceil> < nat \<lceil>deadline - db_clock c w\<rceil>"
        using ceiling_progress [of "deadline - db_clock c w"] False
        by (simp add: progress REPLY_SWEEP_INTERVAL_SECONDS_def diff_diff_eq)
      note IH = less.hyps [OF this]
      have "db_clock c w3 < t" if "j \<le> m" "t \<le> deadline" "\<not> (?run m \<in> set runs \<and> t \<le> db_clock c w1)"
      proof (cases "j = m")
        case True
        with miss v post have "db_clock c w + ?limit < t" by (simp split: if_splits)
        with progress show ?thesis by simp
      qed (use that runs(3) clk3 in force)
      then have early: "db_clock c w3 < deadline"
        if "j \<le> m" "t \<le> deadline" "\<not> (?run m \<in> set runs \<and> t \<le> db_clock c w1)" using that by force
      have "\<not> m < j" if "?run m \<in> set runs" using that runs(2) by (auto simp: run_dbos_id_inject)
      then show ?thesis unfolding step using IH early by auto
    qed
  qed
qed

text \<open>
  Claim C14. A reply is found wherever the chain has gone, but only forwards. Let the events behave as
  documented, the chain stay gapless, and let the reply be posted once on the chain, at time \<open>t\<close> under
  run \<open>m\<close>. A wait that targets run \<open>j \<le> m\<close> returns it whenever it is posted by the deadline, even though
  the target itself never gets it. A wait that targets a later run \<open>j > m\<close> always ends empty-handed: the
  sweep only looks at runs newer than its target.
\<close>

theorem reply_found_on_newer_runs:
  assumes "documented_events c posted" "chain_grows c workflow_id m t"
    and "posted (run_dbos_id workflow_id m) key = Some (t, x)" "x \<noteq> JNull"
    and "\<And>i. i \<noteq> m \<Longrightarrow> posted (run_dbos_id workflow_id i) key = None"
    and "0 < timeout"
  shows "(j \<le> m \<and> t \<le> db_clock c w + timeout \<longrightarrow>
      (\<exists>w'. await_reply_event c workflow_id (run_dbos_id workflow_id j) key timeout w = Some (Inr (Some x), w'))) \<and>
    (m < j \<longrightarrow>
      (\<exists>w'. await_reply_event c workflow_id (run_dbos_id workflow_id j) key timeout w = Some (Inr None, w')))"
  unfolding await_reply_event_def
  using reply_loop [OF assms(1-5), of j "db_clock c w + timeout" w] assms(6) by simp

subsection \<open>A world with a clock\<close>

text \<open>
  Two runs of an id, the first of which ended by continuing as new; the reply is posted under the
  second one after two and a half seconds.
\<close>

definition two_runs :: status_table where
  "two_runs = [''W'' \<mapsto> \<lparr>rr_id = ''W'', rr_status = Some ''ERROR'', rr_error = None, rr_parent = None\<rparr>,
     run_dbos_id ''W'' 1 \<mapsto> \<lparr>rr_id = run_dbos_id ''W'' 1, rr_status = Some ''PENDING'', rr_error = None, rr_parent = Some ''W''\<rparr>]"

definition two_posts :: "string \<Rightarrow> string \<Rightarrow> (rat \<times> json) option" where
  "two_posts d key = (if d = run_dbos_id ''W'' 1 \<and> key = ''k'' then Some (5 / 2, JInt 7) else None)"

definition clocked :: "rat dbos" where
  "clocked = \<lparr>db_clock = id, db_list = (\<lambda>_. List.map_filter two_runs), db_send = (\<lambda>_ _ w. w), db_cancel = (\<lambda>_ w. w),
     db_enqueue = (\<lambda>_ _ w. w),
     db_event = (\<lambda>d key limit w. case two_posts d key of
        Some (t, x) \<Rightarrow> if t \<le> w + limit then (Some x, w) else (None, w + limit)
      | None \<Rightarrow> (None, w + limit)),
     db_await = (\<lambda>run w. Some (if run = ''W'' then AwaitRaised (SerializedContinueAsNew (JObj [(''new_run_id'', JStr (run_dbos_id ''W'' 1))]))
        else Returned (JInt 3), w)),
     db_steps = (\<lambda>_ _. []), db_fork = (\<lambda>_ _ _ w. w), db_ends_first = (\<lambda>_ _. None), db_settles = (\<lambda>_ _ w. (True, w)),
     db_delete = (\<lambda>_ w. w), db_cron = \<lparr>cron_zone = (\<lambda>_. True), cron_valid = (\<lambda>_. True), cron_next = (\<lambda>_ _ _. 0)\<rparr>,
     db_enc = id, db_dec = Inr, db_detail = id\<rparr>"

lemma clocked_events: "documented_events clocked two_posts"
  by (auto simp: documented_events_def clocked_def split: option.splits if_splits)

lemma two_runs_runs: "two_runs (run_dbos_id ''W'' i) \<noteq> None \<longleftrightarrow> i < 2"
proof -
  have "run_dbos_id ''W'' i = ''W'' \<longleftrightarrow> i = 0" by (simp add: run_dbos_id_def RUN_SEPARATOR_def)
  then show ?thesis by (auto simp: two_runs_def run_dbos_id_inject less_2_cases_iff)
qed

lemma clocked_chain: "chain_grows clocked ''W'' 1 t"
proof -
  have "lists_table (List.map_filter two_runs) two_runs"
    by (auto simp: lists_table_def set_map_filter_iff two_runs_def split: if_splits)
  then have "\<exists>rows n. lists_table (List.map_filter two_runs) rows \<and> (\<forall>i. rows (run_dbos_id ''W'' i) \<noteq> None \<longleftrightarrow> i < n) \<and> 1 < n"
    using two_runs_runs by (intro exI [of _ two_runs] exI [of _ 2]) simp
  then show ?thesis by (auto simp: chain_grows_def clocked_def)
qed

theorem reply_found_on_newer_runs_witness:
  "\<exists>w'. await_reply_event clocked ''W'' (run_dbos_id ''W'' 0) ''k'' 10 0 = Some (Inr (Some (JInt 7)), w')"
  using reply_found_on_newer_runs [OF clocked_events clocked_chain, of "''k''" "5 / 2" "JInt 7" 10 0 0]
  by (simp add: two_posts_def run_dbos_id_inject clocked_def)


end
