(* ===== verification/Client_Listing.thy ===== *)
theory Client_Listing
  imports Visibility_Queries Attributes Chain
begin

text \<open>
  Listing and counting workflows (\<open>WorkflowExecutionAsyncIterator\<close>, \<open>_execution_from_status\<close>,
  \<open>Client.count_workflows\<close>, \<open>WorkflowExecution.memo_value\<close> of \<open>dbosify/client.py\<close>): the pages fetched by
  limit and offset, the rows shown, and the tallies of a count. The two DBOS listings are parameters.
\<close>

subsection \<open>What a row shows\<close>

record exec_row = vis_row +
  er_queue :: "string option"
  er_parent :: "string option"
  er_attributes :: "jdict option"

record execution =
  ex_id :: string
  ex_namespace :: string
  ex_run_id :: string
  ex_type :: string
  ex_queue :: "string option"
  ex_status :: execution_status
  ex_start :: instant
  ex_execution_time :: instant
  ex_close :: "instant option"
  ex_search :: "sa_pair list"
  ex_untyped_search :: "(string, sa_value list) dict"
  ex_parent_id :: "string option"
  ex_parent_run :: "string option"
  ex_memo :: jdict

record listing =
  ls_vis :: vis_env
  ls_namespace :: string
  ls_iso :: "string \<Rightarrow> datetime option"
  ls_list :: "dbos_filters \<Rightarrow> nat \<Rightarrow> nat \<Rightarrow> exec_row list"
  ls_aggregate :: "dbos_filters \<Rightarrow> (string option \<times> nat option) list"

text \<open>A DBOS parent link within the chain is a continuation, not a parent.\<close>

definition real_parent :: "exec_row \<Rightarrow> string option" where
  "real_parent r =
     (case er_parent r of
        Some p \<Rightarrow> if fst (parse_run p) \<noteq> fst (parse_run (row_id r)) then Some p else None
      | None \<Rightarrow> None)"

definition execution_from_status :: "listing \<Rightarrow> exec_row \<Rightarrow> execution result" where
  "execution_from_status c r =
     (let stored = JObj (case er_attributes r of Some a \<Rightarrow> a | None \<Rightarrow> [])
      in bind_result (as_obj (jget_default stored ''search_attributes'' (JObj []))) (\<lambda>sa.
         bind_result (decode_search_attributes (ls_iso c) sa) (\<lambda>typed.
         bind_result (to_execution_status (row_status r) (row_error r)) (\<lambda>status.
         bind_result (as_obj (jget_default stored ''memo'' (JObj []))) (\<lambda>memo.
           Inr \<lparr>ex_id = fst (parse_run (row_id r)), ex_namespace = ls_namespace c, ex_run_id = row_id r,
             ex_type = row_type (vis_row.truncate r), ex_queue = er_queue r, ex_status = status,
             ex_start = row_created r, ex_execution_time = row_created r, ex_close = row_closed r,
             ex_search = typed, ex_untyped_search = typed_to_untyped typed,
             ex_parent_id = map_option (\<lambda>p. fst (parse_run p)) (case real_parent r of Some p \<Rightarrow> if p = [] then None else Some p | None \<Rightarrow> None),
             ex_parent_run = real_parent r, ex_memo = memo\<rparr>)))))"

definition memo_value :: "(json \<Rightarrow> json) \<Rightarrow> execution \<Rightarrow> string \<Rightarrow> json option \<Rightarrow> json result" where
  "memo_value decv x key dflt =
     (case dict_get (ex_memo x) key of
        Some v \<Rightarrow> Inr (decv v)
      | None \<Rightarrow> (case dflt of Some d \<Rightarrow> Inr d | None \<Rightarrow> Inl KeyError))"

subsection \<open>The iterator\<close>

record iterator =
  it_query :: "string option"
  it_page_size :: nat
  it_limit :: "nat option"
  it_offset :: nat
  it_token :: "nat option"
  it_page :: "execution list option"
  it_index :: nat
  it_yielded :: nat
  it_parsed :: "vis_query option"

definition new_iterator :: "string option \<Rightarrow> nat \<Rightarrow> nat option \<Rightarrow> nat option \<Rightarrow> iterator" where
  "new_iterator query page_size limit token =
     \<lparr>it_query = query, it_page_size = page_size, it_limit = limit,
      it_offset = (case token of Some n \<Rightarrow> n | None \<Rightarrow> 0), it_token = token, it_page = None, it_index = 0,
      it_yielded = 0, it_parsed = None\<rparr>"

definition ensure_parsed :: "listing \<Rightarrow> iterator \<Rightarrow> (vis_query \<times> iterator) result" where
  "ensure_parsed c it =
     (case it_parsed it of
        Some q \<Rightarrow> Inr (q, it)
      | None \<Rightarrow> bind_result (parse_query (ls_vis c) (it_query it)) (\<lambda>q. Inr (q, it\<lparr>it_parsed := Some q\<rparr>)))"

text \<open>User workflows, without the scratch forks of replays, that pass the post-filter.\<close>

definition shown :: "vis_query \<Rightarrow> exec_row \<Rightarrow> bool result" where
  "shown q r =
     (if prefix ''wf:'' (case row_name r of Some n \<Rightarrow> n | None \<Rightarrow> []) \<and> \<not> is_replay_scratch (row_id r)
      then keeps q (vis_row.truncate r) else Inr False)"

fun survivors :: "vis_query \<Rightarrow> exec_row list \<Rightarrow> exec_row list result" where
  "survivors q [] = Inr []"
| "survivors q (r # rs) =
     bind_result (shown q r) (\<lambda>ok. bind_result (survivors q rs) (\<lambda>rest. Inr (if ok then r # rest else rest)))"

definition fetch_next_page :: "listing \<Rightarrow> nat option \<Rightarrow> iterator \<Rightarrow> iterator result" where
  "fetch_next_page c page_size it =
     bind_result (ensure_parsed c it) (\<lambda>(q, it1).
       let size = (case page_size of Some n \<Rightarrow> if n = 0 then it_page_size it1 else n | None \<Rightarrow> it_page_size it1);
           raw = ls_list c (to_dbos_filters q) size (it_offset it1);
           offset = it_offset it1 + length raw
       in bind_result (survivors q raw) (\<lambda>rows.
          bind_result (map_result (execution_from_status c) rows) (\<lambda>page.
            Inr (it1\<lparr>it_offset := offset, it_page := Some page, it_index := 0,
              it_token := (if length raw = size \<and> 0 < size then Some offset else None)\<rparr>))))"

text \<open>\<open>__anext__\<close>: the next execution, or the end (\<open>StopAsyncIteration\<close>).\<close>

partial_function (option) advance :: "listing \<Rightarrow> iterator \<Rightarrow> (execution option \<times> iterator) result option" where
  "advance c it =
     (case it_page it of
        None \<Rightarrow> (case fetch_next_page c None it of Inl err \<Rightarrow> Some (Inl err) | Inr it1 \<Rightarrow> advance c it1)
      | Some page \<Rightarrow>
          if length page \<le> it_index it
          then if it_token it \<noteq> None
               then (case fetch_next_page c None it of Inl err \<Rightarrow> Some (Inl err) | Inr it1 \<Rightarrow> advance c it1)
               else Some (Inr (None, it))
          else Some (Inr (Some (page ! it_index it),
                 it\<lparr>it_index := Suc (it_index it), it_yielded := Suc (it_yielded it)\<rparr>)))"

definition anext :: "listing \<Rightarrow> iterator \<Rightarrow> (execution option \<times> iterator) result option" where
  "anext c it =
     (if (case it_limit it of Some n \<Rightarrow> n \<le> it_yielded it | None \<Rightarrow> False) then Some (Inr (None, it))
      else advance c it)"

text \<open>\<open>async for\<close>: all executions.\<close>

partial_function (option) drain :: "listing \<Rightarrow> iterator \<Rightarrow> execution list \<Rightarrow> execution list result option" where
  "drain c it xs =
     (case anext c it of
        None \<Rightarrow> None
      | Some (Inl err) \<Rightarrow> Some (Inl err)
      | Some (Inr (None, it1)) \<Rightarrow> Some (Inr xs)
      | Some (Inr (Some x, it1)) \<Rightarrow> drain c it1 (xs @ [x]))"

subsection \<open>Counting\<close>

record count =
  ct_count :: nat
  ct_groups :: "(nat \<times> string) list"

fun tally :: "(string option \<times> nat option) list \<Rightarrow> (string, nat) dict \<Rightarrow> (string, nat) dict" where
  "tally [] tallies = tallies"
| "tally ((name, n) # rows) tallies =
     (let s = (case name of Some s \<Rightarrow> s | None \<Rightarrow> [])
      in if \<not> prefix ''wf:'' s then tally rows tallies
         else let key = drop 3 s; old = (case dict_get tallies key of Some k \<Rightarrow> k | None \<Rightarrow> 0)
           in tally rows (dict_set key (old + (case n of Some k \<Rightarrow> k | None \<Rightarrow> 0)) tallies))"

definition count_workflows :: "listing \<Rightarrow> string option \<Rightarrow> count result" where
  "count_workflows c query =
     bind_result (parse_query (ls_vis c) query) (\<lambda>q.
       if \<not> aggregate_eligible q \<or> post_filter q \<noteq> None then Inl VisibilityQueryError
       else if q_group_by q = Some ''ExecutionStatus'' then Inl VisibilityQueryError
       else let tallies = tally (ls_aggregate c (aggregate_filter_kwargs q)) [];
                total = sum_list (map snd tallies)
            in Inr \<lparr>ct_count = total,
                 ct_groups = (if q_group_by q = None then []
                              else map (\<lambda>(v, n). (n, v)) (sort_key fst tallies))\<rparr>)"

subsection \<open>Pages lose nothing\<close>

text \<open>What an iterator still has to show: the rest of its page and the rows not fetched yet.\<close>

definition to_show :: "exec_row list \<Rightarrow> (exec_row \<Rightarrow> bool) \<Rightarrow> (exec_row \<Rightarrow> execution) \<Rightarrow> iterator \<Rightarrow> execution list" where
  "to_show rows v g it =
     (let later = map g (filter v (drop (it_offset it) rows))
      in case it_page it of
           None \<Rightarrow> later
         | Some page \<Rightarrow> drop (it_index it) page @ (if it_token it = None then [] else later))"

text \<open>The query parses to \<open>q\<close>, and the listing serves \<open>rows\<close>, each shown as \<open>v\<close> and \<open>g\<close> say.\<close>

definition serves :: "listing \<Rightarrow> string option \<Rightarrow> vis_query \<Rightarrow> exec_row list \<Rightarrow> (exec_row \<Rightarrow> bool) \<Rightarrow> (exec_row \<Rightarrow> execution) \<Rightarrow> bool" where
  "serves c query q rows v g \<longleftrightarrow>
     parse_query (ls_vis c) query = Inr q \<and>
     (\<forall>limit offset. ls_list c (to_dbos_filters q) limit offset = take limit (drop offset rows)) \<and>
     (\<forall>r\<in>set rows. shown q r = Inr (v r)) \<and>
     (\<forall>r\<in>set rows. v r \<longrightarrow> execution_from_status c r = Inr (g r))"

definition iterates :: "string option \<Rightarrow> vis_query \<Rightarrow> nat \<Rightarrow> iterator \<Rightarrow> bool" where
  "iterates query q n it \<longleftrightarrow> it_query it = query \<and> it_page_size it = n \<and> (it_parsed it = None \<or> it_parsed it = Some q)"

lemma survivors_filter: "\<forall>r\<in>set rs. shown q r = Inr (v r) \<Longrightarrow> survivors q rs = Inr (filter v rs)"
  by (induction rs) simp_all

lemma map_result_map: "\<forall>r\<in>set rs. f r = Inr (g r) \<Longrightarrow> map_result f rs = Inr (map g rs)"
  by (induction rs) simp_all

lemma fetch_serves:
  assumes "serves c query q rows v g" "iterates query q n it" "0 < n"
  shows "\<exists>it1. fetch_next_page c None it = Inr it1 \<and> iterates query q n it1 \<and>
    it_page it1 = Some (map g (filter v (take n (drop (it_offset it) rows)))) \<and> it_index it1 = 0 \<and>
    it_limit it1 = it_limit it \<and> it_yielded it1 = it_yielded it \<and>
    to_show rows v g it1 = map g (filter v (drop (it_offset it) rows)) \<and>
    (it_token it1 = None \<or> it_offset it1 = it_offset it + n \<and> it_offset it1 \<le> length rows) \<and>
    it_offset it \<le> it_offset it1"
proof -
  let ?o = "it_offset it"
  let ?raw = "take n (drop ?o rows)"
  have sub: "set ?raw \<subseteq> set rows" by (meson set_drop_subset set_take_subset subset_trans)
  then have s: "survivors q ?raw = Inr (filter v ?raw)"
    using assms(1) by (intro survivors_filter) (auto simp: serves_def)
  have m: "map_result (execution_from_status c) (filter v ?raw) = Inr (map g (filter v ?raw))"
    using assms(1) sub by (intro map_result_map) (auto simp: serves_def)
  obtain it0 where it0: "ensure_parsed c it = Inr (q, it0)" "it_query it0 = query" "it_page_size it0 = n"
    "it_parsed it0 = Some q" "it_offset it0 = ?o" "it_limit it0 = it_limit it" "it_yielded it0 = it_yielded it"
    using assms(1,2) by (cases "it_parsed it") (auto simp: ensure_parsed_def serves_def iterates_def)
  let ?it1 = "it0\<lparr>it_offset := ?o + length ?raw, it_page := Some (map g (filter v ?raw)), it_index := 0,
    it_token := (if length ?raw = n \<and> 0 < n then Some (?o + length ?raw) else None)\<rparr>"
  have fetched: "fetch_next_page c None it = Inr ?it1"
    using assms(1) it0 s m by (simp add: fetch_next_page_def serves_def Let_def)
  have later: "drop ?o rows = ?raw @ drop (?o + length ?raw) rows"
    by (metis append_take_drop_id add.commute drop_drop length_take min_def take_all drop_all nat_le_linear)
  have "to_show rows v g ?it1 = map g (filter v (drop ?o rows))"
  proof (cases "length ?raw = n")
    case True
    with assms(3) show ?thesis
      using arg_cong [OF later, of "\<lambda>xs. map g (filter v xs)"] by (simp add: to_show_def Let_def)
  next
    case False
    then have "?raw = drop ?o rows" by simp
    with False show ?thesis by (simp add: to_show_def Let_def)
  qed
  then show ?thesis using fetched it0 by (auto simp: iterates_def)
qed

lemma advance_serves:
  assumes "serves c query q rows v g" "iterates query q n it" "0 < n"
  shows "(to_show rows v g it = [] \<longrightarrow> (\<exists>it1. advance c it = Some (Inr (None, it1)))) \<and>
    (\<forall>x xs. to_show rows v g it = x # xs \<longrightarrow>
       (\<exists>it1. advance c it = Some (Inr (Some x, it1)) \<and> iterates query q n it1 \<and> to_show rows v g it1 = xs \<and>
          it_limit it1 = it_limit it \<and> it_yielded it1 = Suc (it_yielded it)))"
  using assms(2)
proof (induction "2 * (length rows - it_offset it) + (if it_page it \<noteq> None \<and> it_token it = None then 0 else 1)"
    arbitrary: it rule: less_induct)
  case less
  have fetching: ?case
    if again: "\<And>it1. fetch_next_page c None it = Inr it1 \<Longrightarrow> advance c it = advance c it1"
      and old: "to_show rows v g it = map g (filter v (drop (it_offset it) rows))"
      and fresh: "it_page it = None \<or> it_token it \<noteq> None"
  proof -
    obtain it1 where it1: "fetch_next_page c None it = Inr it1" "iterates query q n it1" "it_page it1 \<noteq> None"
      "it_limit it1 = it_limit it" "it_yielded it1 = it_yielded it"
      "to_show rows v g it1 = to_show rows v g it" "it_offset it \<le> it_offset it1"
      "it_token it1 = None \<or> it_offset it1 = it_offset it + n \<and> it_offset it1 \<le> length rows"
      using fetch_serves [OF assms(1) less.prems assms(3)] old by auto
    have "2 * (length rows - it_offset it1) + (if it_page it1 \<noteq> None \<and> it_token it1 = None then 0 else 1)
        < 2 * (length rows - it_offset it) + (if it_page it \<noteq> None \<and> it_token it = None then 0 else 1)"
      using it1(3,7,8) fresh assms(3) by auto
    from less.hyps [OF this it1(2)] show ?thesis unfolding again [OF it1(1)] it1(4-6) .
  qed
  show ?case
  proof (cases "it_page it")
    case None
    then show ?thesis
      by (intro fetching) (simp_all add: advance.simps [of c it] to_show_def Let_def)
  next
    case (Some page)
    show ?thesis
    proof (cases "length page \<le> it_index it")
      case True
      show ?thesis
      proof (cases "it_token it")
        case None
        with Some True show ?thesis by (simp add: advance.simps [of c it] to_show_def Let_def)
      next
        case (Some t)
        with \<open>it_page it = Some page\<close> True show ?thesis
          by (intro fetching) (simp_all add: advance.simps [of c it] to_show_def Let_def)
      qed
    next
      case False
      then have "drop (it_index it) page = page ! it_index it # drop (Suc (it_index it)) page"
        by (simp add: Cons_nth_drop_Suc)
      with Some False less.prems show ?thesis
        by (auto simp: advance.simps [of c it] to_show_def Let_def iterates_def)
    qed
  qed
qed

definition up_to :: "nat option \<Rightarrow> 'a list \<Rightarrow> 'a list" where
  "up_to limit xs = (case limit of Some n \<Rightarrow> take n xs | None \<Rightarrow> xs)"

lemma drain_serves:
  assumes "serves c query q rows v g" "0 < n"
  shows "iterates query q n it \<Longrightarrow>
    drain c it xs = Some (Inr (xs @ up_to (map_option (\<lambda>k. k - it_yielded it) (it_limit it)) (to_show rows v g it)))"
proof (induction "to_show rows v g it" arbitrary: it xs)
  case Nil
  then obtain it1 where "advance c it = Some (Inr (None, it1))"
    using advance_serves [OF assms(1) Nil.prems assms(2)] by auto
  with Nil.hyps show ?case
    by (simp add: drain.simps [of c it] anext_def up_to_def split: option.split)
next
  case (Cons x ys)
  have step: "\<exists>it1. advance c it = Some (Inr (Some x, it1)) \<and> iterates query q n it1 \<and> to_show rows v g it1 = ys \<and>
      it_limit it1 = it_limit it \<and> it_yielded it1 = Suc (it_yielded it)"
    using advance_serves [OF assms(1) Cons.prems assms(2)] Cons.hyps(2) by simp
  show ?case
  proof (cases "case it_limit it of Some k \<Rightarrow> k \<le> it_yielded it | None \<Rightarrow> False")
    case True
    then show ?thesis
      by (auto simp: drain.simps [of c it] anext_def up_to_def split: option.splits)
  next
    case False
    from step obtain it1 where it1: "advance c it = Some (Inr (Some x, it1))" "iterates query q n it1"
      "to_show rows v g it1 = ys" "it_limit it1 = it_limit it" "it_yielded it1 = Suc (it_yielded it)" by blast
    have next1: "anext c it = Some (Inr (Some x, it1))" using False it1(1) by (auto simp: anext_def split: option.splits)
    have IH: "drain c it1 (xs @ [x]) = Some (Inr ((xs @ [x]) @ up_to (map_option (\<lambda>k. k - it_yielded it1) (it_limit it1)) ys))"
      using Cons.hyps(1) [of it1 "xs @ [x]"] it1(2,3) by simp
    have "up_to (map_option (\<lambda>k. k - it_yielded it) (it_limit it)) (x # ys) =
        x # up_to (map_option (\<lambda>k. k - it_yielded it1) (it_limit it1)) ys"
      using False unfolding up_to_def it1(4,5)
      by (auto simp: take_Cons' split: option.splits)
    then show ?thesis using next1 IH Cons.hyps(2) [symmetric] by (simp add: drain.simps [of c it])
  qed
qed

text \<open>
  Claim C7. Paging loses nothing and repeats nothing. Let DBOS serve a fixed list of rows by limit and
  offset. Iterating over \<open>list_workflows\<close> with any positive page size, from the start or from a page
  token, ends, and yields exactly the executions of the rows to be shown, in order, each once, cut off
  at the limit: pages emptied by the post-filter are skipped, and rows hidden by it shift no offset.
\<close>

theorem listing_is_complete:
  assumes "serves c query q rows v g" "0 < n"
  shows "drain c (new_iterator query n limit token) [] =
    Some (Inr (up_to limit (map g (filter v (drop (case token of Some k \<Rightarrow> k | None \<Rightarrow> 0) rows)))))"
proof -
  have "iterates query q n (new_iterator query n limit token)" by (simp add: iterates_def new_iterator_def)
  from drain_serves [OF assms this, of "[]"] show ?thesis
    by (simp add: new_iterator_def to_show_def option.map_ident)
qed

subsection \<open>Counts\<close>

definition user_row :: "exec_row \<Rightarrow> bool" where
  "user_row r \<longleftrightarrow> prefix ''wf:'' (case row_name r of Some s \<Rightarrow> s | None \<Rightarrow> [])"

text \<open>What DBOS documents of the aggregate grouped by name: one entry per name, with its number of rows.\<close>

definition documented_aggregate :: "(string option \<times> nat option) list \<Rightarrow> exec_row list \<Rightarrow> bool" where
  "documented_aggregate agg rows \<longleftrightarrow>
     distinct (map fst agg) \<and>
     (\<forall>name k. (name, k) \<in> set agg \<longleftrightarrow>
        name \<in> row_name ` set rows \<and> k = Some (length (filter (\<lambda>r. row_name r = name) rows)))"

definition entry_count :: "string option \<times> nat option \<Rightarrow> nat" where
  "entry_count x = (case snd x of Some k \<Rightarrow> k | None \<Rightarrow> 0)"

definition entry_user :: "string option \<times> nat option \<Rightarrow> bool" where
  "entry_user x \<longleftrightarrow> prefix ''wf:'' (case fst x of Some s \<Rightarrow> s | None \<Rightarrow> [])"

lemma sum_dict_set:
  "sum_list (map snd (dict_set k (old + n) d)) + (case dict_get d k of Some m \<Rightarrow> m | None \<Rightarrow> 0) =
   sum_list (map snd d) + (old + n :: nat)"
  by (induction k "old + n" d rule: dict_set.induct) (auto simp: dict_get_Cons split: option.splits)

lemma tally_total: "sum_list (map snd (tally agg d)) = sum_list (map snd d) + sum_list (map entry_count (filter entry_user agg))"
proof (induction agg d rule: tally.induct)
  case (2 name n rows tallies)
  let ?s = "case name of Some s \<Rightarrow> s | None \<Rightarrow> []"
  let ?old = "case dict_get tallies (drop 3 ?s) of Some k \<Rightarrow> k | None \<Rightarrow> 0"
  let ?n = "case n of Some k \<Rightarrow> k | None \<Rightarrow> 0"
  show ?case
  proof (cases "prefix ''wf:'' ?s")
    case True
    have "sum_list (map snd (dict_set (drop 3 ?s) (?old + ?n) tallies)) = sum_list (map snd tallies) + ?n"
      using sum_dict_set [of "drop 3 ?s" ?old ?n tallies] by simp
    with 2 True show ?thesis by (simp add: Let_def entry_user_def entry_count_def)
  next
    case False
    with 2 show ?thesis by (simp add: Let_def entry_user_def)
  qed
qed simp

lemma tally_get:
  "distinct (map fst agg) \<Longrightarrow>
   dict_get (tally agg d) t =
     (case find (\<lambda>x. fst x = Some (type_name t)) agg of
        Some x \<Rightarrow> Some ((case dict_get d t of Some k \<Rightarrow> k | None \<Rightarrow> 0) + entry_count x)
      | None \<Rightarrow> dict_get d t)"
proof (induction agg d rule: tally.induct)
  case (2 name n rows tallies)
  let ?s = "case name of Some s \<Rightarrow> s | None \<Rightarrow> []"
  have key: "prefix ''wf:'' ?s \<and> drop 3 ?s = t \<longleftrightarrow> name = Some (type_name t)"
    by (cases name) (auto simp: type_name_def prefix_def)
  have other: "find (\<lambda>x. fst x = name) rows = None"
    using 2(3) by (simp add: find_None_iff) (metis fst_conv image_eqI)
  show ?case
  proof (cases "prefix ''wf:'' ?s")
    case False
    with 2 key show ?thesis by (auto simp: Let_def)
  next
    case True
    with 2 key other show ?thesis
      by (cases "drop 3 ?s = t") (auto simp: Let_def dict_get_set entry_count_def split: option.splits)
  qed
qed simp

lemma tally_wf: "dict_wf d \<Longrightarrow> dict_wf (tally agg d)"
  by (induction agg d rule: tally.induct) (auto simp: Let_def intro: dict_wf_set)

lemma partition_length:
  assumes "finite A" "\<forall>r\<in>set rows. f r \<in> A"
  shows "(\<Sum>a\<in>A. length (filter (\<lambda>r. f r = a) rows)) = length rows"
  using assms(2)
proof (induction rows)
  case (Cons r rows)
  have "length (filter (\<lambda>x. f x = a) (r # rows)) = (if f r = a then 1 else 0) + length (filter (\<lambda>x. f x = a) rows)" for a
    by simp
  with Cons assms(1) show ?case by (simp add: sum.distrib)
qed simp

lemma aggregate_entry:
  assumes "documented_aggregate agg rows" "x \<in> set agg"
  shows "fst x \<in> row_name ` set rows \<and> snd x = Some (length (filter (\<lambda>r. row_name r = fst x) rows))"
proof -
  obtain name k where "x = (name, k)" by (rule prod.exhaust)
  with assms show ?thesis by (simp add: documented_aggregate_def)
qed

lemma aggregate_total:
  assumes "documented_aggregate agg rows"
  shows "sum_list (map entry_count (filter entry_user agg)) = length (filter user_row rows)"
proof -
  let ?names = "set (map fst (filter entry_user agg))"
  have d: "distinct (map fst (filter entry_user agg))"
    using assms by (simp add: documented_aggregate_def distinct_map_filter)
  have "entry_count x = length (filter (\<lambda>r. row_name r = fst x) (filter user_row rows))" if "x \<in> set (filter entry_user agg)" for x
  proof -
    obtain name k where x: "x = (name, k)" by (cases x)
    with that assms have "k = Some (length (filter (\<lambda>r. row_name r = name) rows))" by (simp add: documented_aggregate_def)
    moreover have "filter (\<lambda>r. row_name r = name) (filter user_row rows) = filter (\<lambda>r. row_name r = name) rows"
      using that x by (auto simp: user_row_def entry_user_def intro: filter_cong)
    ultimately show ?thesis using x by (simp add: entry_count_def)
  qed
  then have "map entry_count (filter entry_user agg) =
      map (\<lambda>a. length (filter (\<lambda>r. row_name r = a) (filter user_row rows))) (map fst (filter entry_user agg))"
    unfolding map_map by (intro map_cong) simp_all
  then have "sum_list (map entry_count (filter entry_user agg)) =
      sum_list (map (\<lambda>a. length (filter (\<lambda>r. row_name r = a) (filter user_row rows))) (map fst (filter entry_user agg)))"
    by (rule arg_cong)
  also have "\<dots> = (\<Sum>a\<in>?names. length (filter (\<lambda>r. row_name r = a) (filter user_row rows)))"
    by (rule sum.distinct_set_conv_list [OF d, symmetric])
  also have "\<dots> = length (filter user_row rows)"
    using assms by (intro partition_length) (auto simp: documented_aggregate_def user_row_def entry_user_def image_iff)
  finally show ?thesis .
qed

text \<open>
  A count is the number of executions a listing shows. For a query that aggregates can
  express, with the rows it selects counted per name as documented, \<open>count_workflows\<close> returns the number
  of the user workflows among them, and under \<open>GROUP BY WorkflowType\<close> one group per type, sorted by
  type, with its number of rows. It exceeds the number of rows a listing of the same query shows by the
  replay scratch forks that exist, which a listing hides and the aggregate does not.
\<close>

theorem count_matches_listing:
  assumes "parse_query (ls_vis c) query = Inr q" "aggregate_eligible q" "post_filter q = None"
    and "q_group_by q \<noteq> Some ''ExecutionStatus''"
    and "documented_aggregate (ls_aggregate c (aggregate_filter_kwargs q)) rows"
  shows "\<exists>ct. count_workflows c query = Inr ct \<and> ct_count ct = length (filter user_row rows) \<and>
    ct_count ct = length (filter (\<lambda>r. shown q r = Inr True) rows) +
                  length (filter (\<lambda>r. user_row r \<and> is_replay_scratch (row_id r)) rows) \<and>
    (q_group_by q \<noteq> None \<longrightarrow> sorted (map snd (ct_groups ct)) \<and>
       (\<forall>k t. (k, t) \<in> set (ct_groups ct) \<longleftrightarrow>
          0 < k \<and> k = length (filter (\<lambda>r. row_name r = Some (type_name t)) rows)))"
proof -
  let ?agg = "ls_aggregate c (aggregate_filter_kwargs q)"
  let ?t = "tally ?agg []"
  have total: "sum_list (map snd ?t) = length (filter user_row rows)"
    using tally_total [of ?agg "[]"] aggregate_total [OF assms(5)] by simp
  have "shown q r = Inr (user_row r \<and> \<not> is_replay_scratch (row_id r))" for r
    using assms(3) by (simp add: shown_def user_row_def keeps_def)
  then have split: "length (filter user_row rows) = length (filter (\<lambda>r. shown q r = Inr True) rows) +
      length (filter (\<lambda>r. user_row r \<and> is_replay_scratch (row_id r)) rows)"
    using sum_length_filter_compl [of "\<lambda>r. is_replay_scratch (row_id r)" "filter user_row rows"]
    by (simp add: conj_commute add.commute)
  have get: "dict_get ?t t = Some k \<longleftrightarrow> 0 < k \<and> k = length (filter (\<lambda>r. row_name r = Some (type_name t)) rows)" for t k
  proof -
    have d: "distinct (map fst ?agg)" using assms(5) by (simp add: documented_aggregate_def)
    show ?thesis
    proof (cases "find (\<lambda>x. fst x = Some (type_name t)) ?agg")
      case None
      have "Some (type_name t) \<notin> row_name ` set rows"
        using None assms(5) unfolding find_None_iff documented_aggregate_def by fastforce
      then have "filter (\<lambda>r. row_name r = Some (type_name t)) rows = []"
        unfolding filter_empty_conv by force
      with None tally_get [OF d, of "[]" t] show ?thesis by auto
    next
      case (Some x)
      then have x: "x \<in> set ?agg" "fst x = Some (type_name t)" by (auto dest: find_SomeD)
      let ?n = "length (filter (\<lambda>r. row_name r = Some (type_name t)) rows)"
      from x have "Some (type_name t) \<in> row_name ` set rows \<and> snd x = Some ?n"
        using aggregate_entry [OF assms(5) x(1)] by simp
      then have "0 < ?n" "entry_count x = ?n" by (auto simp: filter_empty_conv entry_count_def)
      with Some tally_get [OF d, of "[]" t] show ?thesis by auto
    qed
  qed
  let ?g = "map (\<lambda>(v, n). (n, v)) (sort_key fst ?t)"
  have "(k, t) \<in> set ?g \<longleftrightarrow> dict_get ?t t = Some k" for k t
    using dict_get_iff [OF tally_wf [of "[]" ?agg], of t k] by force
  moreover have "map snd ?g = map fst (sort_key fst ?t)" by (simp add: comp_def case_prod_beta)
  then have "sorted (map snd ?g)" by (simp only: sorted_sort_key)
  ultimately have groups: "sorted (map snd ?g)"
    "\<And>k t. (k, t) \<in> set ?g \<longleftrightarrow> 0 < k \<and> k = length (filter (\<lambda>r. row_name r = Some (type_name t)) rows)"
    using get by simp_all
  have "count_workflows c query = Inr \<lparr>ct_count = length (filter user_row rows),
      ct_groups = (if q_group_by q = None then [] else ?g)\<rparr>"
    using assms(1-4) total by (simp add: count_workflows_def Let_def)
  then show ?thesis using split groups by simp
qed

subsection \<open>A table with three rows\<close>

definition table_row_of :: "string \<Rightarrow> string \<Rightarrow> exec_row" where
  "table_row_of d name = \<lparr>row_id = d, row_name = Some name, row_status = Some ''SUCCESS'', row_error = None,
     row_created = Instant 0 True, row_closed = None, row_search = (\<lambda>_ _. False),
     er_queue = None, er_parent = None, er_attributes = None\<rparr>"

definition three_rows :: "exec_row list" where
  "three_rows = [table_row_of ''A'' ''wf:Order'', table_row_of ''B'' ''plumbing'', table_row_of ''C'' ''wf:Order'']"

definition three_listing :: listing where
  "three_listing = \<lparr>ls_vis = digit_times, ls_namespace = ''n'', ls_iso = (\<lambda>_. None),
     ls_list = (\<lambda>f limit offset. take limit (drop offset three_rows)),
     ls_aggregate = (\<lambda>f. [(Some ''wf:Order'', Some 2), (Some ''plumbing'', Some 1)])\<rparr>"

lemma three_query: "parse_query (ls_vis three_listing) None = Inr all_workflows"
  by (simp add: parse_query_def)

lemma all_keep: "post_filter all_workflows = None"
  by (simp add: post_filter_def needs_status_def all_workflows_def)

lemma not_scratch: "\<not> is_replay_scratch ''A''" "\<not> is_replay_scratch ''B''" "\<not> is_replay_scratch ''C''"
  by code_simp+

lemma three_serves:
  "serves three_listing None all_workflows three_rows user_row (\<lambda>r. projr (execution_from_status three_listing r))"
proof -
  have "shown all_workflows r = Inr (user_row r)" if "r \<in> set three_rows" for r
    using that not_scratch all_keep by (auto simp: three_rows_def table_row_of_def shown_def user_row_def keeps_def)
  moreover have "execution_from_status three_listing r = Inr (projr (execution_from_status three_listing r))"
    if "r \<in> set three_rows" for r
  proof -
    have "\<exists>x. execution_from_status three_listing r = Inr x"
      using that
      by (auto simp: three_rows_def table_row_of_def execution_from_status_def jget_default_def decode_search_attributes_def
          List.map_filter_def typed_search_attributes_def to_execution_status_def is_open_def OPEN_DBOS_STATUSES_def Let_def)
    then show ?thesis by auto
  qed
  ultimately show ?thesis using three_query by (simp add: serves_def three_listing_def)
qed

theorem listing_is_complete_witness:
  "drain three_listing (new_iterator None 1 (Some 2) None) [] =
    Some (Inr (up_to (Some 2) (map (\<lambda>r. projr (execution_from_status three_listing r)) (filter user_row three_rows))))"
  using listing_is_complete [OF three_serves, of 1 "Some 2" None] by simp

theorem count_matches_listing_witness:
  "\<exists>ct. count_workflows three_listing None = Inr ct \<and> ct_count ct = 2"
proof -
  have eligible: "aggregate_eligible all_workflows" "q_group_by all_workflows \<noteq> Some ''ExecutionStatus''"
    by (simp_all add: aggregate_eligible_def all_workflows_def)
  have "documented_aggregate [(Some ''wf:Order'', Some 2), (Some ''plumbing'', Some 1)] three_rows"
    by (auto simp: documented_aggregate_def three_rows_def table_row_of_def)
  then have "documented_aggregate (ls_aggregate three_listing (aggregate_filter_kwargs all_workflows)) three_rows"
    by (simp add: three_listing_def)
  moreover have "length (filter user_row three_rows) = 2"
    by (simp add: three_rows_def table_row_of_def user_row_def)
  ultimately show ?thesis
    using count_matches_listing [OF three_query eligible(1) all_keep eligible(2)] by metis
qed

end
