(* ===== verification/Schedule_Types.thy ===== *)
theory Schedule_Types
  imports Schedules Attributes
begin

text \<open>
  The schedule value and its stored form (\<open>Schedule\<close> and the types below it, \<open>serialize_schedule_context\<close>,
  \<open>_schedule_from_context\<close>, \<open>compile_spec\<close>, \<open>encode_action_attributes\<close> of \<open>dbosify/_schedule.py\<close>). A
  workflow is given by its type name; the value converter and \<open>datetime.fromisoformat\<close> are parameters.
\<close>

subsection \<open>Specs\<close>

datatype srange = SRange (sr_start: int) (sr_end: int) (sr_step: int)

text \<open>\<open>__post_init__\<close>: the end is at least the start, the step not 0.\<close>

definition schedule_range :: "int \<Rightarrow> int \<Rightarrow> int \<Rightarrow> srange" where
  "schedule_range start stop step = SRange start (if stop < start then start else stop) (if step = 0 then 1 else step)"

definition made_range :: "srange \<Rightarrow> bool" where
  "made_range r \<longleftrightarrow> sr_start r \<le> sr_end r \<and> sr_step r \<noteq> 0"

record calendar_spec =
  cs_second :: "srange list"
  cs_minute :: "srange list"
  cs_hour :: "srange list"
  cs_day_of_month :: "srange list"
  cs_month :: "srange list"
  cs_year :: "srange list"
  cs_day_of_week :: "srange list"
  cs_comment :: "string option"

record interval_spec =
  iv_every :: timedelta
  iv_offset :: "timedelta option"

record schedule_spec =
  sp_calendars :: "calendar_spec list"
  sp_intervals :: "interval_spec list"
  sp_cron :: "string list"
  sp_skip :: "calendar_spec list"
  sp_start_at :: "datetime option"
  sp_end_at :: "datetime option"
  sp_jitter :: "timedelta option"
  sp_zone :: "string option"

datatype overlap_policy = SKIP | BUFFER_ONE | BUFFER_ALL | CANCEL_OTHER | TERMINATE_OTHER | ALLOW_ALL

fun overlap_int :: "overlap_policy \<Rightarrow> int" where
  "overlap_int SKIP = 1"
| "overlap_int BUFFER_ONE = 2"
| "overlap_int BUFFER_ALL = 3"
| "overlap_int CANCEL_OTHER = 4"
| "overlap_int TERMINATE_OTHER = 5"
| "overlap_int ALLOW_ALL = 6"

definition overlap_of :: "json \<Rightarrow> overlap_policy result" where
  "overlap_of v = enum_of overlap_int [SKIP, BUFFER_ONE, BUFFER_ALL, CANCEL_OTHER, TERMINATE_OTHER, ALLOW_ALL] v"

record schedule_policy =
  po_overlap :: overlap_policy
  po_catchup :: timedelta
  po_pause_on_failure :: bool

record schedule_state =
  ss_note :: "string option"
  ss_paused :: bool
  ss_limited :: bool
  ss_remaining :: int

record priority =
  pr_key :: "int option"
  pr_fairness_key :: "string option"
  pr_weight :: "rat option"

record schedule_action =
  ac_workflow :: string
  ac_args :: "json list"
  ac_id :: string
  ac_queue :: string
  ac_execution_timeout :: "timedelta option"
  ac_run_timeout :: "timedelta option"
  ac_task_timeout :: "timedelta option"
  ac_retry :: "retry_policy option"
  ac_memo :: "jdict option"
  ac_typed :: "sa_pair list"
  ac_untyped :: "(string, sa_value list) dict"
  ac_summary :: "string option"
  ac_details :: "string option"
  ac_priority :: "priority option"

record schedule =
  sd_action :: schedule_action
  sd_spec :: schedule_spec
  sd_policy :: schedule_policy
  sd_state :: schedule_state

record schedule_codec =
  co_enc :: "json \<Rightarrow> json"
  co_dec :: "json \<Rightarrow> json"
  co_iso :: "string \<Rightarrow> datetime option"

subsection \<open>Writing the context\<close>

definition secs :: "timedelta option \<Rightarrow> json" where
  "secs td = json_of_option (\<lambda>t. JNum (total_seconds t)) td"

definition range_json :: "srange \<Rightarrow> json" where
  "range_json r = JList [JInt (sr_start r), JInt (sr_end r), JInt (sr_step r)]"

definition serialize_calendar :: "calendar_spec \<Rightarrow> json" where
  "serialize_calendar c = (let ranges = \<lambda>rs. JList (map range_json rs) in JObj [
     (''second'', ranges (cs_second c)), (''minute'', ranges (cs_minute c)), (''hour'', ranges (cs_hour c)),
     (''day_of_month'', ranges (cs_day_of_month c)), (''month'', ranges (cs_month c)), (''year'', ranges (cs_year c)),
     (''day_of_week'', ranges (cs_day_of_week c)), (''comment'', json_of_option JStr (cs_comment c))])"

definition serialize_spec :: "schedule_spec \<Rightarrow> json" where
  "serialize_spec s = JObj [
     (''intervals'', JList (map (\<lambda>i. JObj [(''every'', JNum (total_seconds (iv_every i))), (''offset'', secs (iv_offset i))])
        (sp_intervals s))),
     (''calendars'', JList (map serialize_calendar (sp_calendars s))),
     (''cron_expressions'', JList (map JStr (sp_cron s))),
     (''skip'', JList (map serialize_calendar (sp_skip s))),
     (''start_at'', json_of_option (JStr \<circ> iso) (sp_start_at s)),
     (''end_at'', json_of_option (JStr \<circ> iso) (sp_end_at s)),
     (''jitter'', secs (sp_jitter s)), (''time_zone_name'', json_of_option JStr (sp_zone s))]"

definition serialize_priority :: "priority option \<Rightarrow> json" where
  "serialize_priority p = json_of_option (\<lambda>p. JObj [
     (''priority_key'', json_of_option JInt (pr_key p)), (''fairness_key'', json_of_option JStr (pr_fairness_key p)),
     (''fairness_weight'', json_of_option JNum (pr_weight p))]) p"

definition action_json :: "schedule_codec \<Rightarrow> schedule_action \<Rightarrow> jdict" where
  "action_json k a = [
     (''workflow'', JStr (ac_workflow a)), (''args'', JList (map (co_enc k) (ac_args a))), (''id'', JStr (ac_id a)),
     (''task_queue'', JStr (ac_queue a)), (''execution_timeout'', secs (ac_execution_timeout a)),
     (''run_timeout'', secs (ac_run_timeout a)), (''task_timeout'', secs (ac_task_timeout a)),
     (''retry_policy'', json_of_option serialize_retry_policy (ac_retry a)),
     (''static_summary'', json_of_option JStr (ac_summary a)), (''static_details'', json_of_option JStr (ac_details a)),
     (''priority'', serialize_priority (ac_priority a))]"

definition policy_json :: "schedule_policy \<Rightarrow> json" where
  "policy_json p = JObj [(''overlap'', JInt (overlap_int (po_overlap p))),
     (''catchup_window'', JNum (total_seconds (po_catchup p))), (''pause_on_failure'', JBool (po_pause_on_failure p))]"

definition state_json :: "schedule_state \<Rightarrow> json" where
  "state_json s = JObj [(''note'', json_of_option JStr (ss_note s)), (''paused'', JBool (ss_paused s)),
     (''limited_actions'', JBool (ss_limited s)), (''remaining_actions'', JInt (ss_remaining s))]"

definition serialize_schedule_context :: "schedule_codec \<Rightarrow> schedule \<Rightarrow> jdict" where
  "serialize_schedule_context k s = [
     (''action'', JObj (action_json k (sd_action s))), (''spec'', serialize_spec (sd_spec s)),
     (''policy'', policy_json (sd_policy s)), (''state'', state_json (sd_state s))]"

text \<open>The action's memo and search attributes; typed ones win over untyped ones of the same name.\<close>

definition encode_action_attributes :: "schedule_codec \<Rightarrow> schedule_action \<Rightarrow> jdict option result" where
  "encode_action_attributes k a =
     bind_result (encode_search_attributes (untyped_pairs (ac_untyped a)) []) (\<lambda>untyped.
     bind_result (encode_search_attributes (ac_typed a) untyped) (\<lambda>sa.
       let out = (case ac_memo a of Some m \<Rightarrow> if m = [] then [] else [(''memo'', JObj (encode_memo (co_enc k) m))] | None \<Rightarrow> [])
                 @ (if sa = [] then [] else [(''search_attributes'', JObj sa)])
       in Inr (if out = [] then None else Some out)))"

subsection \<open>Reading it back\<close>

definition td :: "json \<Rightarrow> timedelta option result" where
  "td v = optional (\<lambda>x. bind_result (to_float x) (\<lambda>q. Inr (timedelta_seconds q))) v"

text \<open>\<open>ScheduleRange( *r)\<close>.\<close>

definition range_of_json :: "json \<Rightarrow> srange result" where
  "range_of_json r =
     bind_result (to_list r) (\<lambda>xs.
       case xs of
         [JInt a] \<Rightarrow> Inr (schedule_range a 0 0)
       | [JInt a, JInt b] \<Rightarrow> Inr (schedule_range a b 0)
       | [JInt a, JInt b, JInt c] \<Rightarrow> Inr (schedule_range a b c)
       | _ \<Rightarrow> Inl TypeError)"

definition ranges_of :: "json \<Rightarrow> string \<Rightarrow> srange list result" where
  "ranges_of d key = bind_result (to_list (jget_default d key (JList []))) (map_result range_of_json)"

definition deserialize_calendar :: "json \<Rightarrow> calendar_spec result" where
  "deserialize_calendar d =
     bind_result (ranges_of d ''second'') (\<lambda>second. bind_result (ranges_of d ''minute'') (\<lambda>minute.
     bind_result (ranges_of d ''hour'') (\<lambda>hour. bind_result (ranges_of d ''day_of_month'') (\<lambda>day.
     bind_result (ranges_of d ''month'') (\<lambda>month. bind_result (ranges_of d ''year'') (\<lambda>year.
     bind_result (ranges_of d ''day_of_week'') (\<lambda>weekday. bind_result (optional as_str (jget d ''comment'')) (\<lambda>comment.
       Inr \<lparr>cs_second = second, cs_minute = minute, cs_hour = hour, cs_day_of_month = day, cs_month = month,
         cs_year = year, cs_day_of_week = weekday, cs_comment = comment\<rparr>))))))))"

definition interval_of :: "json \<Rightarrow> interval_spec result" where
  "interval_of i =
     bind_result (bind_result (jindex i ''every'') to_float) (\<lambda>every.
     bind_result (td (jget i ''offset'')) (\<lambda>offset.
       Inr \<lparr>iv_every = timedelta_seconds every, iv_offset = offset\<rparr>))"

definition parse_dt :: "schedule_codec \<Rightarrow> json \<Rightarrow> datetime option result" where
  "parse_dt k v =
     (if \<not> truthy v then Inr None
      else bind_result (as_str v) (\<lambda>s. case co_iso k s of Some d \<Rightarrow> Inr (Some d) | None \<Rightarrow> Inl ValueError))"

definition list_field :: "(json \<Rightarrow> 'a result) \<Rightarrow> json \<Rightarrow> string \<Rightarrow> 'a list result" where
  "list_field f d key = bind_result (to_list (jget_default d key (JList []))) (map_result f)"

definition deserialize_spec :: "schedule_codec \<Rightarrow> json \<Rightarrow> schedule_spec result" where
  "deserialize_spec k d =
     bind_result (list_field deserialize_calendar d ''calendars'') (\<lambda>calendars.
     bind_result (list_field interval_of d ''intervals'') (\<lambda>intervals.
     bind_result (list_field as_str d ''cron_expressions'') (\<lambda>crons.
     bind_result (list_field deserialize_calendar d ''skip'') (\<lambda>skips.
     bind_result (parse_dt k (jget d ''start_at'')) (\<lambda>start_at.
     bind_result (parse_dt k (jget d ''end_at'')) (\<lambda>end_at.
     bind_result (td (jget d ''jitter'')) (\<lambda>jitter.
     bind_result (optional as_str (jget d ''time_zone_name'')) (\<lambda>zone.
       Inr \<lparr>sp_calendars = calendars, sp_intervals = intervals, sp_cron = crons, sp_skip = skips,
         sp_start_at = start_at, sp_end_at = end_at, sp_jitter = jitter, sp_zone = zone\<rparr>))))))))"

definition deserialize_priority :: "json \<Rightarrow> priority option result" where
  "deserialize_priority raw =
     (if raw = JNull then Inr None
      else bind_result (optional (\<lambda>v. case v of JInt i \<Rightarrow> if i < 1 then Inl ValueError else Inr i | _ \<Rightarrow> Inl TypeError)
             (jget raw ''priority_key'')) (\<lambda>key.
           bind_result (optional as_str (jget raw ''fairness_key'')) (\<lambda>fairness.
           bind_result (optional to_float (jget raw ''fairness_weight'')) (\<lambda>weight.
             Inr (Some \<lparr>pr_key = key, pr_fairness_key = fairness, pr_weight = weight\<rparr>)))))"

definition field :: "json \<Rightarrow> string \<Rightarrow> (json \<Rightarrow> 'a result) \<Rightarrow> 'a result" where
  "field d key f = bind_result (jindex d key) f"

definition action_from_context :: "schedule_codec \<Rightarrow> json \<Rightarrow> schedule_action result" where
  "action_from_context k ctx =
     bind_result (jindex ctx ''action'') (\<lambda>a.
     bind_result (optional as_obj (jget a ''attributes'')) (\<lambda>stored.
     bind_result (decode_attributes (co_iso k) (co_dec k) stored) (\<lambda>(memo, typed).
     bind_result (field a ''workflow'' as_str) (\<lambda>workflow.
     bind_result (field a ''args'' to_list) (\<lambda>args.
     bind_result (field a ''id'' as_str) (\<lambda>i.
     bind_result (field a ''task_queue'' as_str) (\<lambda>queue.
     bind_result (field a ''execution_timeout'' td) (\<lambda>execution.
     bind_result (field a ''run_timeout'' td) (\<lambda>run.
     bind_result (field a ''task_timeout'' td) (\<lambda>task.
     bind_result (field a ''retry_policy'' (optional deserialize_retry_policy)) (\<lambda>retry.
     bind_result (field a ''static_summary'' (optional as_str)) (\<lambda>summary.
     bind_result (field a ''static_details'' (optional as_str)) (\<lambda>details.
     bind_result (field a ''priority'' deserialize_priority) (\<lambda>prio.
       Inr \<lparr>ac_workflow = workflow, ac_args = map (co_dec k) args, ac_id = i, ac_queue = queue,
         ac_execution_timeout = execution, ac_run_timeout = run, ac_task_timeout = task, ac_retry = retry,
         ac_memo = (if memo = [] then None else Some memo), ac_typed = typed, ac_untyped = [], ac_summary = summary,
         ac_details = details, ac_priority = prio\<rparr>))))))))))))))"

definition as_bool :: "json \<Rightarrow> bool result" where
  "as_bool v = (case v of JBool b \<Rightarrow> Inr b | _ \<Rightarrow> Inl TypeError)"

definition as_int :: "json \<Rightarrow> int result" where
  "as_int v = (case v of JInt i \<Rightarrow> Inr i | _ \<Rightarrow> Inl TypeError)"

definition policy_from_json :: "json \<Rightarrow> schedule_policy result" where
  "policy_from_json p =
     bind_result (field p ''overlap'' overlap_of) (\<lambda>overlap.
     bind_result (field p ''catchup_window'' to_float) (\<lambda>window.
     bind_result (field p ''pause_on_failure'' as_bool) (\<lambda>pause.
       Inr \<lparr>po_overlap = overlap, po_catchup = timedelta_seconds window, po_pause_on_failure = pause\<rparr>)))"

definition state_from_json :: "json \<Rightarrow> schedule_state result" where
  "state_from_json s =
     bind_result (field s ''note'' (optional as_str)) (\<lambda>note.
     bind_result (field s ''paused'' as_bool) (\<lambda>paused.
     bind_result (field s ''limited_actions'' as_bool) (\<lambda>limited.
     bind_result (field s ''remaining_actions'' as_int) (\<lambda>remaining.
       Inr \<lparr>ss_note = note, ss_paused = paused, ss_limited = limited, ss_remaining = remaining\<rparr>))))"

definition schedule_from_context :: "schedule_codec \<Rightarrow> json \<Rightarrow> schedule result" where
  "schedule_from_context k ctx =
     bind_result (jindex ctx ''policy'') (\<lambda>policy.
     bind_result (jindex ctx ''state'') (\<lambda>state.
     bind_result (action_from_context k ctx) (\<lambda>action.
     bind_result (field ctx ''spec'' (deserialize_spec k)) (\<lambda>spec.
     bind_result (policy_from_json policy) (\<lambda>policy.
     bind_result (state_from_json state) (\<lambda>state.
       Inr \<lparr>sd_action = action, sd_spec = spec, sd_policy = policy, sd_state = state\<rparr>))))))"

subsection \<open>Compiling a spec\<close>

definition cron_ranges :: "srange list \<Rightarrow> cal_range list" where
  "cron_ranges rs = map (\<lambda>r. (sr_start r, sr_end r, sr_step r)) rs"

definition cron_calendar :: "calendar_spec \<Rightarrow> calendar" where
  "cron_calendar c = \<lparr>cal_second = cron_ranges (cs_second c), cal_minute = cron_ranges (cs_minute c),
     cal_hour = cron_ranges (cs_hour c), cal_day_of_month = cron_ranges (cs_day_of_month c),
     cal_month = cron_ranges (cs_month c), cal_day_of_week = cron_ranges (cs_day_of_week c),
     cal_year = cron_ranges (cs_year c)\<rparr>"

text \<open>Cron expressions win, then intervals, then calendars; of each only the first is used.\<close>

definition compile_spec :: "cron_lib \<Rightarrow> schedule_spec \<Rightarrow> (string \<times> string option) result" where
  "compile_spec lib s =
     (let zone = (case sp_zone s of Some z \<Rightarrow> if z = [] then None else Some z | None \<Rightarrow> None) in
      case sp_cron s of
        expr # _ \<Rightarrow>
          bind_result (parse_cron lib expr) (\<lambda>(fields, tz).
            Inr (fields, if zone \<noteq> None then zone else if tz = ''UTC'' then None else Some tz))
      | [] \<Rightarrow>
          (case sp_intervals s of
             i # _ \<Rightarrow> bind_result (interval_to_cron (iv_every i)) (\<lambda>cron. Inr (cron, sp_zone s))
           | [] \<Rightarrow>
               (case sp_calendars s of
                  c # _ \<Rightarrow> Inr (calendar_to_cron (cron_calendar c), sp_zone s)
                | [] \<Rightarrow> Inl ValueError)))"

subsection \<open>The round trip\<close>

text \<open>What can be stored: made ranges, zoned bounds (no ISO string is empty), priority keys from 1, typed attributes only, no empty memo.\<close>

definition calendar_ok :: "calendar_spec \<Rightarrow> bool" where
  "calendar_ok c \<longleftrightarrow> list_all made_range (cs_second c @ cs_minute c @ cs_hour c @ cs_day_of_month c @ cs_month c @
     cs_year c @ cs_day_of_week c)"

definition schedule_ok :: "schedule \<Rightarrow> bool" where
  "schedule_ok s \<longleftrightarrow>
     list_all calendar_ok (sp_calendars (sd_spec s) @ sp_skip (sd_spec s)) \<and>
     (\<forall>d\<in>{sp_start_at (sd_spec s), sp_end_at (sd_spec s)}. case d of Some d \<Rightarrow> tz_aware d \<and> iso d \<noteq> [] | None \<Rightarrow> True) \<and>
     (case ac_priority (sd_action s) of Some p \<Rightarrow> (case pr_key p of Some key \<Rightarrow> 1 \<le> key | None \<Rightarrow> True) | None \<Rightarrow> True) \<and>
     (\<forall>p\<in>set (ac_typed (sd_action s)). sa_typed p) \<and> sa_wf (ac_typed (sd_action s)) \<and>
     ac_untyped (sd_action s) = [] \<and> ac_memo (sd_action s) \<noteq> Some []"

text \<open>The converter gives back what it encoded, and the ISO strings of zoned datetimes read back.\<close>

definition codec_ok :: "schedule_codec \<Rightarrow> bool" where
  "codec_ok k \<longleftrightarrow> (\<forall>v. co_dec k (co_enc k v) = v) \<and> (\<forall>d. tz_aware d \<longrightarrow> co_iso k (iso d) = Some d)"

lemma map_result_roundtrip: "(\<And>x. x \<in> set xs \<Longrightarrow> f (g x) = Inr x) \<Longrightarrow> map_result f (map g xs) = Inr xs"
  by (induction xs) simp_all

lemma range_roundtrip: "made_range r \<Longrightarrow> range_of_json (range_json r) = Inr r"
  by (cases r) (simp add: range_of_json_def range_json_def schedule_range_def made_range_def)

lemma ranges_roundtrip:
  "list_all made_range rs \<Longrightarrow> map_result range_of_json (map range_json rs) = Inr rs"
  by (rule map_result_roundtrip) (simp add: list_all_iff range_roundtrip)

lemma calendar_roundtrip: "calendar_ok c \<Longrightarrow> deserialize_calendar (serialize_calendar c) = Inr c"
  by (simp add: deserialize_calendar_def serialize_calendar_def ranges_of_def jget_default_def jget_def
      ranges_roundtrip calendar_ok_def optional_json_of_option)

lemma secs_roundtrip [simp]: "td (secs t) = Inr t"
  by (cases t) (simp_all add: td_def secs_def optional_def)

lemma calendars_roundtrip:
  "list_all calendar_ok cs \<Longrightarrow> map_result deserialize_calendar (map serialize_calendar cs) = Inr cs"
  by (rule map_result_roundtrip) (simp add: list_all_iff calendar_roundtrip)

lemma interval_roundtrip:
  "interval_of (JObj [(''every'', JNum (total_seconds (iv_every i))), (''offset'', secs (iv_offset i))]) = Inr i"
  by (simp add: interval_of_def jindex_def jget_def)

lemma intervals_roundtrip:
  "map_result interval_of (map (\<lambda>i. JObj [(''every'', JNum (total_seconds (iv_every i))), (''offset'', secs (iv_offset i))]) is) = Inr is"
  by (rule map_result_roundtrip) (rule interval_roundtrip)

lemma dt_roundtrip:
  assumes "codec_ok k" "case d of Some d \<Rightarrow> tz_aware d \<and> iso d \<noteq> [] | None \<Rightarrow> True"
  shows "parse_dt k (json_of_option (JStr \<circ> iso) d) = Inr d"
  using assms by (cases d) (simp_all add: parse_dt_def codec_ok_def)

lemma spec_roundtrip:
  assumes "codec_ok k" "list_all calendar_ok (sp_calendars s @ sp_skip s)"
    and "\<forall>d\<in>{sp_start_at s, sp_end_at s}. case d of Some d \<Rightarrow> tz_aware d \<and> iso d \<noteq> [] | None \<Rightarrow> True"
  shows "deserialize_spec k (serialize_spec s) = Inr s"
proof -
  have "parse_dt k (json_of_option (JStr \<circ> iso) (sp_start_at s)) = Inr (sp_start_at s)"
    "parse_dt k (json_of_option (JStr \<circ> iso) (sp_end_at s)) = Inr (sp_end_at s)"
    using assms(3) by (intro dt_roundtrip [OF assms(1)]; simp)+
  moreover have "list_all calendar_ok (sp_calendars s)" "list_all calendar_ok (sp_skip s)" using assms(2) by simp_all
  ultimately show ?thesis
    by (simp add: deserialize_spec_def serialize_spec_def list_field_def jget_default_def jget_def
        calendars_roundtrip intervals_roundtrip optional_json_of_option)
qed

lemma priority_roundtrip:
  assumes "case p of Some p \<Rightarrow> (case pr_key p of Some key \<Rightarrow> 1 \<le> key | None \<Rightarrow> True) | None \<Rightarrow> True"
  shows "deserialize_priority (serialize_priority p) = Inr p"
proof (cases p)
  case (Some q)
  have "optional (\<lambda>v. case v of JInt i \<Rightarrow> if i < 1 then Inl ValueError else Inr i | _ \<Rightarrow> Inl TypeError)
      (json_of_option JInt (pr_key q)) = Inr (pr_key q)"
    using assms Some by (cases "pr_key q") (simp_all add: optional_def)
  with Some show ?thesis
    by (simp add: deserialize_priority_def serialize_priority_def jget_def optional_json_of_option)
qed (simp add: deserialize_priority_def serialize_priority_def)

lemma policy_roundtrip: "policy_from_json (policy_json p) = Inr p"
  by (cases "po_overlap p")
     (simp_all add: policy_from_json_def policy_json_def field_def jindex_def overlap_of_def enum_of_def as_bool_def)

lemma state_roundtrip: "state_from_json (state_json s) = Inr s"
  by (simp add: state_from_json_def state_json_def field_def jindex_def as_bool_def as_int_def optional_json_of_option)

text \<open>The attributes column of an action: memo and typed attributes come back.\<close>

lemma action_attributes_roundtrip:
  assumes "codec_ok k" "\<forall>p\<in>set (ac_typed a). sa_typed p" "sa_wf (ac_typed a)" "ac_untyped a = []" "ac_memo a \<noteq> Some []"
  shows "\<exists>attrs. encode_action_attributes k a = Inr attrs \<and>
    decode_attributes (co_iso k) (co_dec k) attrs = Inr (case ac_memo a of Some m \<Rightarrow> m | None \<Rightarrow> [], ac_typed a)"
proof -
  have "attribute_codec (co_enc k) (co_dec k) (co_iso k)"
    using assms(1) by unfold_locales (simp_all add: codec_ok_def)
  from attribute_codec.attributes_roundtrip [OF this assms(2,3), of "case ac_memo a of Some m \<Rightarrow> m | None \<Rightarrow> []"]
  obtain attrs where attrs: "encode_attributes (co_enc k) (Some (case ac_memo a of Some m \<Rightarrow> m | None \<Rightarrow> [])) (Some (ac_typed a)) = Inr attrs"
    "decode_attributes (co_iso k) (co_dec k) attrs = Inr (case ac_memo a of Some m \<Rightarrow> m | None \<Rightarrow> [], ac_typed a)" by blast
  moreover have "encode_action_attributes k a = encode_attributes (co_enc k) (Some (case ac_memo a of Some m \<Rightarrow> m | None \<Rightarrow> [])) (Some (ac_typed a))"
    using assms(4,5)
    by (cases "ac_memo a") (simp_all add: encode_action_attributes_def encode_attributes_def untyped_pairs_def List.map_filter_def)
  ultimately show ?thesis by simp
qed

text \<open>The stored context of a schedule, with the action's attributes when it has any.\<close>

definition with_attributes :: "jdict option \<Rightarrow> jdict \<Rightarrow> jdict" where
  "with_attributes attrs ctx =
     (case attrs of
        None \<Rightarrow> ctx
      | Some d \<Rightarrow> dict_set ''action'' (case dict_get ctx ''action'' of
            Some (JObj a) \<Rightarrow> JObj (dict_set ''attributes'' (JObj d) a) | Some v \<Rightarrow> v | None \<Rightarrow> JNull) ctx)"

lemma optional_as_obj: "optional as_obj (JObj d) = Inr (Some d)"
  by (simp add: optional_def)

lemma policy_wire: "optional deserialize_retry_policy (json_of_option serialize_retry_policy r) = Inr r"
proof (rule optional_json_of_option)
  show "deserialize_retry_policy (serialize_retry_policy x) = Inr x \<and> serialize_retry_policy x \<noteq> JNull" for x
    using wire_policy_roundtrip [of x] by (simp add: serialize_retry_policy_def)
qed

lemma action_roundtrip:
  assumes "codec_ok k" "encode_action_attributes k a = Inr attrs"
    and "decode_attributes (co_iso k) (co_dec k) attrs = Inr (case ac_memo a of Some m \<Rightarrow> m | None \<Rightarrow> [], ac_typed a)"
    and "ac_untyped a = []" "ac_memo a \<noteq> Some []"
    and "case ac_priority a of Some p \<Rightarrow> (case pr_key p of Some key \<Rightarrow> 1 \<le> key | None \<Rightarrow> True) | None \<Rightarrow> True"
  shows "action_from_context k (JObj (with_attributes attrs ((''action'', JObj (action_json k a)) # rest))) = Inr a"
proof -
  have m: "(case ac_memo a of Some m \<Rightarrow> m | None \<Rightarrow> []) = [] \<longleftrightarrow> ac_memo a = None"
    "ac_memo a \<noteq> None \<Longrightarrow> Some (case ac_memo a of Some m \<Rightarrow> m | None \<Rightarrow> []) = ac_memo a"
    using assms(5) by (auto split: option.splits)
  have args: "map (co_dec k \<circ> co_enc k) (ac_args a) = ac_args a"
    using assms(1) by (simp add: codec_ok_def map_idI)
  show ?thesis
  proof (cases attrs)
    case None
    with assms(3,4) m args show ?thesis
      by (simp add: with_attributes_def action_from_context_def action_json_def field_def jindex_def jget_def
          optional_json_of_option policy_wire priority_roundtrip [OF assms(6)])
  next
    case (Some d)
    with assms(3,4) m args show ?thesis
      by (simp add: with_attributes_def action_from_context_def action_json_def field_def jindex_def jget_def dict_get_Cons
          optional_json_of_option policy_wire priority_roundtrip [OF assms(6)] optional_as_obj)
  qed
qed

lemma with_attributes_action:
  "with_attributes attrs ((''action'', JObj a) # rest) =
   (''action'', JObj (case attrs of None \<Rightarrow> a | Some d \<Rightarrow> dict_set ''attributes'' (JObj d) a)) # rest"
  by (simp add: with_attributes_def dict_get_Cons split: option.split)

lemma context_roundtrip:
  assumes "codec_ok k" "schedule_ok s" "encode_action_attributes k (sd_action s) = Inr attrs"
  shows "schedule_from_context k (JObj (with_attributes attrs (serialize_schedule_context k s) @ extra)) = Inr s"
proof -
  note ok = assms(2) [unfolded schedule_ok_def]
  have "\<exists>attrs. encode_action_attributes k (sd_action s) = Inr attrs \<and>
    decode_attributes (co_iso k) (co_dec k) attrs = Inr (case ac_memo (sd_action s) of Some m \<Rightarrow> m | None \<Rightarrow> [], ac_typed (sd_action s))"
    using ok by (intro action_attributes_roundtrip assms(1)) simp_all
  with assms(3) have dec: "decode_attributes (co_iso k) (co_dec k) attrs =
      Inr (case ac_memo (sd_action s) of Some m \<Rightarrow> m | None \<Rightarrow> [], ac_typed (sd_action s))" by simp
  have action: "action_from_context k (JObj (with_attributes attrs ((''action'', JObj (action_json k (sd_action s))) # rest))) = Inr (sd_action s)" for rest
    using ok by (intro action_roundtrip [OF assms(1,3) dec]) simp_all
  have spec: "deserialize_spec k (serialize_spec (sd_spec s)) = Inr (sd_spec s)"
    using ok by (intro spec_roundtrip assms(1)) simp_all
  let ?rest = "[(''spec'', serialize_spec (sd_spec s)), (''policy'', policy_json (sd_policy s)), (''state'', state_json (sd_state s))] @ extra"
  have ctx: "with_attributes attrs (serialize_schedule_context k s) @ extra =
      with_attributes attrs ((''action'', JObj (action_json k (sd_action s))) # ?rest)"
    by (simp add: serialize_schedule_context_def with_attributes_action)
  show ?thesis
    unfolding ctx schedule_from_context_def field_def action
    by (simp add: with_attributes_action jindex_def spec policy_roundtrip state_roundtrip)
qed

end
