(* ===== verification/Schedule_Handle.thy ===== *)
theory Schedule_Handle
  imports Schedule_Types Ids
begin

text \<open>
  Creating, describing and updating schedules (\<open>create_schedule_row\<close>, \<open>ScheduleHandle\<close>,
  \<open>_description_from_row\<close>, \<open>_list_description_from_row\<close>, \<open>_next_action_times\<close>, \<open>_replace_schedule\<close> of
  \<open>dbosify/_schedule.py\<close>; \<open>_create_schedule_impl\<close>, \<open>_list_schedules_impl\<close> of \<open>dbosify/client.py\<close>). The
  DBOS schedule calls are values in the order they are made; the cron iterator is a parameter.
\<close>

definition SCHEDULE_FIRE_WORKFLOW :: string where "SCHEDULE_FIRE_WORKFLOW = ''__temporal_schedule_fire''"

record schedule_row =
  rw_name :: string
  rw_workflow :: string
  rw_cron :: string
  rw_context :: jdict
  rw_zone :: "string option"
  rw_queue :: string
  rw_active :: bool

datatype schedule_op =
    CreateSchedule schedule_row
  | DeleteSchedule string
  | PauseSchedule string
  | ResumeSchedule string
  | TriggerSchedule string
  | BackfillSchedule string datetime datetime

record schedule_env =
  sv_codec :: schedule_codec
  sv_cron :: cron_lib
  sv_now :: datetime
  sv_next :: "string \<Rightarrow> string option \<Rightarrow> nat \<Rightarrow> rat list"

record backfill =
  bf_start :: datetime
  bf_end :: datetime
  bf_overlap :: "overlap_policy option"

subsection \<open>The action and the list\<close>

text \<open>\<open>ScheduleActionStartWorkflow.__init__\<close>: \<open>arg\<close> or \<open>args\<close>, an id and a task queue.\<close>

definition resolve_args :: "json option \<Rightarrow> json list \<Rightarrow> json list result" where
  "resolve_args arg args =
     (case arg of None \<Rightarrow> Inr args | Some v \<Rightarrow> if args \<noteq> [] then Inl ValueError else Inr [v])"

definition start_workflow_action ::
  "string option \<Rightarrow> string option \<Rightarrow> json option \<Rightarrow> json list \<Rightarrow> schedule_action \<Rightarrow> schedule_action result" where
  "start_workflow_action i queue arg args options =
     (case i of
        None \<Rightarrow> Inl ValueError
      | Some i \<Rightarrow>
          (case queue of
             None \<Rightarrow> Inl ValueError
           | Some queue \<Rightarrow>
               bind_result (resolve_args arg args) (\<lambda>args.
                 Inr (options\<lparr>ac_args := args, ac_id := i, ac_queue := queue\<rparr>))))"

text \<open>\<open>ScheduleAsyncIterator\<close>: one page, handed out from its index.\<close>

record 'a schedule_iterator =
  si_page :: "'a list"
  si_index :: nat

definition schedule_anext :: "'a schedule_iterator \<Rightarrow> ('a \<times> 'a schedule_iterator) option" where
  "schedule_anext it =
     (if length (si_page it) \<le> si_index it then None
      else Some (si_page it ! si_index it, it\<lparr>si_index := si_index it + 1\<rparr>))"

subsection \<open>Creating\<close>

definition require_supported_overlap :: "overlap_policy option \<Rightarrow> unit result" where
  "require_supported_overlap overlap =
     (if overlap = Some BUFFER_ONE \<or> overlap = Some BUFFER_ALL then Inl NotImplementedErr else Inr ())"

definition require_overlap_override_supported :: "overlap_policy option \<Rightarrow> unit result" where
  "require_overlap_override_supported overlap =
     (if overlap \<noteq> None \<and> overlap \<noteq> Some ALLOW_ALL then Inl NotImplementedErr else Inr ())"

definition check_backfills :: "backfill list \<Rightarrow> unit result" where
  "check_backfills bs =
     bind_result (map_result (\<lambda>b. require_overlap_override_supported (bf_overlap b)) bs) (\<lambda>_. Inr ())"

text \<open>The row of a schedule: its cron expression, zone and context, or the error of building it.\<close>

definition compiled_row :: "schedule_env \<Rightarrow> string \<Rightarrow> schedule \<Rightarrow> schedule_row result" where
  "compiled_row e sid s =
     bind_result (validate_workflow_id (ac_id (sd_action s))) (\<lambda>_.
     bind_result (compile_spec (sv_cron e) (sd_spec s)) (\<lambda>(cron, zone).
     bind_result (encode_action_attributes (sv_codec e) (sd_action s)) (\<lambda>attrs.
       let context = with_attributes attrs (serialize_schedule_context (sv_codec e) s) @
             [(''cron'', JStr cron), (''created_at'', JStr (iso (sv_now e))), (''schedule_id'', JStr sid)]
       in Inr \<lparr>rw_name = sid, rw_workflow = SCHEDULE_FIRE_WORKFLOW, rw_cron = cron, rw_context = context,
            rw_zone = zone, rw_queue = ac_queue (sd_action s), rw_active = True\<rparr>)))"

definition create_schedule_row ::
  "schedule_env \<Rightarrow> string \<Rightarrow> schedule \<Rightarrow> bool \<Rightarrow> backfill list \<Rightarrow> schedule_op list \<times> unit result" where
  "create_schedule_row e sid s trigger_immediately backfills =
     (case bind_result (require_supported_overlap (Some (po_overlap (sd_policy s)))) (\<lambda>_.
             bind_result (check_backfills backfills) (\<lambda>_. compiled_row e sid s)) of
        Inl err \<Rightarrow> ([], Inl err)
      | Inr row \<Rightarrow>
          (CreateSchedule row #
           (if ss_paused (sd_state s) then [PauseSchedule sid] else []) @
           (if trigger_immediately then [TriggerSchedule sid] else []) @
           map (\<lambda>b. BackfillSchedule sid (bf_start b) (bf_end b)) backfills,
           Inr ()))"

subsection \<open>Describing\<close>

record schedule_description =
  de_id :: string
  de_schedule :: schedule
  de_next :: "rat list"
  de_created :: datetime

text \<open>
  The next times of the compiled expression. ValueError and an unknown zone give none; the bounds,
  the jitter and the skipped calendars of the spec play no part.
\<close>

definition next_action_times :: "schedule_env \<Rightarrow> json \<Rightarrow> nat \<Rightarrow> rat list result" where
  "next_action_times e ctx n =
     (case bind_result (deserialize_spec (sv_codec e) (jget_default ctx ''spec'' (JObj []))) (compile_spec (sv_cron e)) of
        Inl ValueError \<Rightarrow> Inr []
      | Inl err \<Rightarrow> Inl err
      | Inr (cron, zone) \<Rightarrow>
          Inr (case zone of
                 Some z \<Rightarrow> if z = [] then sv_next e cron None n
                           else if cron_zone (sv_cron e) z then sv_next e cron (Some z) n else []
               | None \<Rightarrow> sv_next e cron None n))"

definition description_from_row :: "schedule_env \<Rightarrow> schedule_row \<Rightarrow> schedule_description result" where
  "description_from_row e row =
     (let ctx = JObj (rw_context row) in
      bind_result (schedule_from_context (sv_codec e) ctx) (\<lambda>s.
      bind_result (next_action_times e ctx 10) (\<lambda>next_times.
      bind_result (parse_dt (sv_codec e) (jget ctx ''created_at'')) (\<lambda>created.
        Inr \<lparr>de_id = rw_name row,
          de_schedule = s\<lparr>sd_state := (sd_state s)\<lparr>ss_paused := \<not> rw_active row\<rparr>\<rparr>,
          de_next = next_times, de_created = (case created of Some d \<Rightarrow> d | None \<Rightarrow> sv_now e)\<rparr>))))"

record listed_schedule =
  ll_id :: string
  ll_workflow :: json
  ll_spec :: schedule_spec
  ll_note :: json
  ll_paused :: bool
  ll_next :: "rat list"

definition list_description_from_row :: "schedule_env \<Rightarrow> schedule_row \<Rightarrow> listed_schedule result" where
  "list_description_from_row e row =
     (let ctx = JObj (rw_context row);
          action = jget_default ctx ''action'' (JObj []); state = jget_default ctx ''state'' (JObj []) in
      bind_result (deserialize_spec (sv_codec e) (jget_default ctx ''spec'' (JObj []))) (\<lambda>spec.
      bind_result (next_action_times e ctx 10) (\<lambda>next_times.
        Inr \<lparr>ll_id = rw_name row, ll_workflow = jget_default action ''workflow'' (JStr []), ll_spec = spec,
          ll_note = jget state ''note'', ll_paused = \<not> rw_active row, ll_next = next_times\<rparr>)))"

definition list_schedules :: "schedule_env \<Rightarrow> schedule_row list \<Rightarrow> listed_schedule list result" where
  "list_schedules e rows =
     map_result (list_description_from_row e) (filter (\<lambda>row. rw_workflow row = SCHEDULE_FIRE_WORKFLOW) rows)"

subsection \<open>The handle\<close>

type_synonym schedule_table = "string \<Rightarrow> schedule_row option"

definition describe_schedule :: "schedule_env \<Rightarrow> schedule_table \<Rightarrow> string \<Rightarrow> schedule_description result" where
  "describe_schedule e table sid =
     (case table sid of None \<Rightarrow> Inl RuntimeError | Some row \<Rightarrow> description_from_row e row)"

text \<open>\<open>update\<close>: the updater is user code; the old row is deleted, then the new schedule created.\<close>

definition replace_schedule :: "schedule_env \<Rightarrow> string \<Rightarrow> schedule \<Rightarrow> schedule_op list \<times> unit result" where
  "replace_schedule e sid s =
     (case create_schedule_row e sid s False [] of (ops, r) \<Rightarrow> (DeleteSchedule sid # ops, r))"

definition update_schedule ::
  "schedule_env \<Rightarrow> schedule_table \<Rightarrow> (schedule_description \<Rightarrow> schedule option) \<Rightarrow> string \<Rightarrow> schedule_op list \<times> unit result" where
  "update_schedule e table updater sid =
     (case describe_schedule e table sid of
        Inl err \<Rightarrow> ([], Inl err)
      | Inr desc \<Rightarrow>
          (case updater desc of
             None \<Rightarrow> ([], Inr ())
           | Some s \<Rightarrow> replace_schedule e sid s))"

definition pause_schedule :: "string \<Rightarrow> schedule_op list" where "pause_schedule sid = [PauseSchedule sid]"
definition unpause_schedule :: "string \<Rightarrow> schedule_op list" where "unpause_schedule sid = [ResumeSchedule sid]"
definition delete_schedule :: "string \<Rightarrow> schedule_op list" where "delete_schedule sid = [DeleteSchedule sid]"

definition trigger_schedule :: "string \<Rightarrow> overlap_policy option \<Rightarrow> schedule_op list \<times> unit result" where
  "trigger_schedule sid overlap =
     (case require_overlap_override_supported overlap of
        Inl err \<Rightarrow> ([], Inl err) | Inr _ \<Rightarrow> ([TriggerSchedule sid], Inr ()))"

definition backfill_schedule :: "string \<Rightarrow> backfill list \<Rightarrow> schedule_op list \<times> unit result" where
  "backfill_schedule sid backfills =
     (if backfills = [] then ([], Inl ValueError)
      else (case check_backfills backfills of
        Inl err \<Rightarrow> ([], Inl err)
      | Inr _ \<Rightarrow> (map (\<lambda>b. BackfillSchedule sid (bf_start b) (bf_end b)) backfills, Inr ())))"

subsection \<open>What the calls do to the schedules\<close>

text \<open>
  The documented effect of the DBOS schedule calls on the stored rows; \<open>run\<close> stands for the system database.
\<close>

definition documented_schedules :: "(schedule_op \<Rightarrow> schedule_table \<Rightarrow> schedule_table) \<Rightarrow> bool" where
  "documented_schedules run \<longleftrightarrow>
     (\<forall>t row. t (rw_name row) = None \<longrightarrow> run (CreateSchedule row) t = t(rw_name row \<mapsto> row)) \<and>
     (\<forall>t sid. run (DeleteSchedule sid) t = t(sid := None)) \<and>
     (\<forall>t sid row. t sid = Some row \<longrightarrow> run (PauseSchedule sid) t = t(sid \<mapsto> row\<lparr>rw_active := False\<rparr>)) \<and>
     (\<forall>t sid row. t sid = Some row \<longrightarrow> run (ResumeSchedule sid) t = t(sid \<mapsto> row\<lparr>rw_active := True\<rparr>)) \<and>
     (\<forall>t sid. run (TriggerSchedule sid) t = t) \<and>
     (\<forall>t sid a b. run (BackfillSchedule sid a b) t = t)"

definition run_ops :: "(schedule_op \<Rightarrow> schedule_table \<Rightarrow> schedule_table) \<Rightarrow> schedule_op list \<Rightarrow> schedule_table \<Rightarrow> schedule_table" where
  "run_ops run ops t = fold run ops t"

fun memory_schedules :: "schedule_op \<Rightarrow> schedule_table \<Rightarrow> schedule_table" where
  "memory_schedules (CreateSchedule row) t = t(rw_name row \<mapsto> row)"
| "memory_schedules (DeleteSchedule sid) t = t(sid := None)"
| "memory_schedules (PauseSchedule sid) t = t(sid := map_option (\<lambda>row. row\<lparr>rw_active := False\<rparr>) (t sid))"
| "memory_schedules (ResumeSchedule sid) t = t(sid := map_option (\<lambda>row. row\<lparr>rw_active := True\<rparr>) (t sid))"
| "memory_schedules (TriggerSchedule sid) t = t"
| "memory_schedules (BackfillSchedule sid a b) t = t"

lemma memory_schedules_documented: "documented_schedules memory_schedules"
  by (simp add: documented_schedules_def)

lemma run_ops_simps [simp]:
  "run_ops run [] t = t"
  "run_ops run (x # xs) t = run_ops run xs (run x t)"
  "run_ops run (xs @ ys) t = run_ops run ys (run_ops run xs t)"
  by (simp_all add: run_ops_def)

lemma run_backfills: "documented_schedules run \<Longrightarrow> run_ops run (map (\<lambda>b. BackfillSchedule sid (bf_start b) (bf_end b)) bs) t = t"
  by (induction bs arbitrary: t) (simp_all add: documented_schedules_def)

lemma compiled_row_name: "compiled_row e sid s = Inr row \<Longrightarrow> rw_name row = sid \<and> rw_active row"
  by (auto simp: compiled_row_def Let_def bind_result_Inr_iff split: prod.splits)

text \<open>Creating leaves exactly the compiled row, active unless the schedule is paused.\<close>

lemma run_create:
  assumes "documented_schedules run" "t sid = None" "create_schedule_row e sid s trigger bs = (ops, Inr ())"
  shows "\<exists>row. compiled_row e sid s = Inr row \<and>
    run_ops run ops t = t(sid \<mapsto> row\<lparr>rw_active := \<not> ss_paused (sd_state s)\<rparr>)"
proof -
  from assms(3) obtain row where row: "compiled_row e sid s = Inr row"
    and ops: "ops = CreateSchedule row # (if ss_paused (sd_state s) then [PauseSchedule sid] else []) @
      (if trigger then [TriggerSchedule sid] else []) @ map (\<lambda>b. BackfillSchedule sid (bf_start b) (bf_end b)) bs"
    by (auto simp: create_schedule_row_def bind_result_Inr_iff split: sum.splits)
  note name = compiled_row_name [OF row]
  have create: "run (CreateSchedule row) t = t(sid \<mapsto> row)"
    using assms(1,2) name by (simp add: documented_schedules_def)
  have pause: "run (PauseSchedule sid) (t(sid \<mapsto> row)) = t(sid \<mapsto> row\<lparr>rw_active := False\<rparr>)"
    using assms(1) by (simp add: documented_schedules_def)
  have trigger: "run (TriggerSchedule sid) u = u" for u using assms(1) by (simp add: documented_schedules_def)
  have "row\<lparr>rw_active := True\<rparr> = row" using name by (cases row) simp
  then show ?thesis using row by (simp add: ops create pause trigger run_backfills [OF assms(1)])
qed
lemma compiled_rowE:
  assumes "compiled_row e sid s = Inr row"
  obtains cron zone attrs where
    "compile_spec (sv_cron e) (sd_spec s) = Inr (cron, zone)"
    "encode_action_attributes (sv_codec e) (sd_action s) = Inr attrs"
    "row = \<lparr>rw_name = sid, rw_workflow = SCHEDULE_FIRE_WORKFLOW, rw_cron = cron,
       rw_context = with_attributes attrs (serialize_schedule_context (sv_codec e) s) @
         [(''cron'', JStr cron), (''created_at'', JStr (iso (sv_now e))), (''schedule_id'', JStr sid)],
       rw_zone = zone, rw_queue = ac_queue (sd_action s), rw_active = True\<rparr>"
  using assms by (auto simp: compiled_row_def Let_def bind_result_Inr_iff split: prod.splits)

text \<open>What the list and the next times read of the stored context.\<close>

lemma context_fields:
  "jget (JObj (with_attributes attrs (serialize_schedule_context k s) @ extra)) ''spec'' = serialize_spec (sd_spec s)"
  "jget_default (JObj (with_attributes attrs (serialize_schedule_context k s) @ extra)) ''spec'' d = serialize_spec (sd_spec s)"
  "jget (JObj (with_attributes attrs (serialize_schedule_context k s) @
     [(''cron'', c), (''created_at'', v), (''schedule_id'', i)])) ''created_at'' = v"
  "jget_default (JObj (with_attributes attrs (serialize_schedule_context k s) @ extra)) ''state'' d = state_json (sd_state s)"
  by (simp_all add: serialize_schedule_context_def with_attributes_action jget_def jget_default_def)

lemma schedule_ok_spec:
  "codec_ok k \<Longrightarrow> schedule_ok s \<Longrightarrow> deserialize_spec k (serialize_spec (sd_spec s)) = Inr (sd_spec s)"
  by (intro spec_roundtrip) (simp_all add: schedule_ok_def)

lemma describe_compiled:
  assumes "codec_ok (sv_codec e)" "schedule_ok s" "tz_aware (sv_now e)" "iso (sv_now e) \<noteq> []"
    and "compiled_row e sid s = Inr row"
  shows "\<exists>times. description_from_row (e\<lparr>sv_now := later\<rparr>) (row\<lparr>rw_active := \<not> ss_paused (sd_state s)\<rparr>) =
    Inr \<lparr>de_id = sid, de_schedule = s, de_next = times, de_created = sv_now e\<rparr>"
proof -
  from assms(5) obtain cron zone attrs where c: "compile_spec (sv_cron e) (sd_spec s) = Inr (cron, zone)"
    and attrs: "encode_action_attributes (sv_codec e) (sd_action s) = Inr attrs"
    and row: "row = \<lparr>rw_name = sid, rw_workflow = SCHEDULE_FIRE_WORKFLOW, rw_cron = cron,
       rw_context = with_attributes attrs (serialize_schedule_context (sv_codec e) s) @
         [(''cron'', JStr cron), (''created_at'', JStr (iso (sv_now e))), (''schedule_id'', JStr sid)],
       rw_zone = zone, rw_queue = ac_queue (sd_action s), rw_active = True\<rparr>"
    by (rule compiled_rowE)
  have created: "parse_dt (sv_codec e) (JStr (iso (sv_now e))) = Inr (Some (sv_now e))"
    using dt_roundtrip [OF assms(1), of "Some (sv_now e)"] assms(3,4) by simp
  have state: "s\<lparr>sd_state := (sd_state s)\<lparr>ss_paused := ss_paused (sd_state s)\<rparr>\<rparr> = s" by simp
  show ?thesis
    by (simp add: description_from_row_def row Let_def context_roundtrip [OF assms(1,2) attrs] next_action_times_def
        context_fields schedule_ok_spec [OF assms(1,2)] c created)
qed

lemma list_compiled:
  assumes "codec_ok (sv_codec e)" "schedule_ok s" "compiled_row e sid s = Inr row"
  shows "\<exists>times. list_schedules e [row\<lparr>rw_active := b\<rparr>] =
    Inr [\<lparr>ll_id = sid, ll_workflow = JStr (ac_workflow (sd_action s)), ll_spec = sd_spec s,
          ll_note = json_of_option JStr (ss_note (sd_state s)), ll_paused = \<not> b, ll_next = times\<rparr>]"
proof -
  from assms(3) obtain cron zone attrs where c: "compile_spec (sv_cron e) (sd_spec s) = Inr (cron, zone)"
    and row: "row = \<lparr>rw_name = sid, rw_workflow = SCHEDULE_FIRE_WORKFLOW, rw_cron = cron,
       rw_context = with_attributes attrs (serialize_schedule_context (sv_codec e) s) @
         [(''cron'', JStr cron), (''created_at'', JStr (iso (sv_now e))), (''schedule_id'', JStr sid)],
       rw_zone = zone, rw_queue = ac_queue (sd_action s), rw_active = True\<rparr>"
    by (rule compiled_rowE)
  have action: "jget_default (jget_default (JObj (with_attributes attrs (serialize_schedule_context k s) @ extra)) ''action'' d) ''workflow'' d' =
      JStr (ac_workflow (sd_action s))" for k extra d d'
    by (simp add: serialize_schedule_context_def with_attributes_action jget_default_def action_json_def split: option.split)
  have noted: "jget (state_json (sd_state s)) ''note'' = json_of_option JStr (ss_note (sd_state s))"
    by (simp add: state_json_def jget_def)
  show ?thesis
    by (simp add: list_schedules_def list_description_from_row_def row Let_def action context_fields noted next_action_times_def
        schedule_ok_spec [OF assms(1,2)] c)
qed

text \<open>
  Claim C23. A schedule that is created is described as the schedule it was created from, paused flag and
  creation time included, and listed with its workflow, spec and note; the other schedules are left alone.
\<close>

theorem created_schedule_reads_back:
  assumes "documented_schedules run" "codec_ok (sv_codec e)" "schedule_ok s" "tz_aware (sv_now e)" "iso (sv_now e) \<noteq> []"
    and "table sid = None" "create_schedule_row e sid s trigger bs = (ops, Inr ())"
  shows "(\<exists>times. describe_schedule (e\<lparr>sv_now := later\<rparr>) (run_ops run ops table) sid =
      Inr \<lparr>de_id = sid, de_schedule = s, de_next = times, de_created = sv_now e\<rparr>) \<and>
    (\<exists>row times. run_ops run ops table sid = Some row \<and> list_schedules e [row] =
      Inr [\<lparr>ll_id = sid, ll_workflow = JStr (ac_workflow (sd_action s)), ll_spec = sd_spec s,
            ll_note = json_of_option JStr (ss_note (sd_state s)), ll_paused = ss_paused (sd_state s), ll_next = times\<rparr>]) \<and>
    (\<forall>other. other \<noteq> sid \<longrightarrow> run_ops run ops table other = table other)"
proof -
  from run_create [where t = table, OF assms(1,6,7)] obtain row where row: "compiled_row e sid s = Inr row"
    and table: "run_ops run ops table = table(sid \<mapsto> row\<lparr>rw_active := \<not> ss_paused (sd_state s)\<rparr>)" by blast
  from describe_compiled [OF assms(2-5) row] list_compiled [OF assms(2,3) row, of "\<not> ss_paused (sd_state s)"]
  show ?thesis by (simp add: table describe_schedule_def)
qed

text \<open>
  An update that is accepted stores exactly the schedule the updater returned, under the same id; the
  creation time is then the time of the update.
\<close>

theorem updated_schedule_reads_back:
  assumes "documented_schedules run" "codec_ok (sv_codec e)" "schedule_ok s" "tz_aware (sv_now e)" "iso (sv_now e) \<noteq> []"
    and "describe_schedule e table sid = Inr desc" "updater desc = Some s"
    and "update_schedule e table updater sid = (ops, Inr ())"
  shows "(\<exists>times. describe_schedule (e\<lparr>sv_now := later\<rparr>) (run_ops run ops table) sid =
      Inr \<lparr>de_id = sid, de_schedule = s, de_next = times, de_created = sv_now e\<rparr>) \<and>
    (\<forall>other. other \<noteq> sid \<longrightarrow> run_ops run ops table other = table other)"
proof -
  from assms(6-8) obtain ops' where ops: "ops = DeleteSchedule sid # ops'"
    and create: "create_schedule_row e sid s False [] = (ops', Inr ())"
    by (auto simp: update_schedule_def replace_schedule_def split: prod.splits)
  have del: "run (DeleteSchedule sid) table = table(sid := None)" using assms(1) by (simp add: documented_schedules_def)
  from run_create [OF assms(1) _ create, of "table(sid := None)"]
  obtain row where row: "compiled_row e sid s = Inr row"
    and "run_ops run ops' (table(sid := None)) = (table(sid := None))(sid \<mapsto> row\<lparr>rw_active := \<not> ss_paused (sd_state s)\<rparr>)"
    by auto
  with describe_compiled [OF assms(2-5) row] show ?thesis by (simp add: ops del describe_schedule_def)
qed

text \<open>
  An update whose new schedule is refused (an overlap policy that is not supported, a bad workflow id, a spec that
  does not compile) raises that error, and the schedule it was to change is gone.
\<close>

theorem refused_update_loses_schedule:
  assumes "documented_schedules run" "describe_schedule e table sid = Inr desc" "updater desc = Some s"
    and "bind_result (require_supported_overlap (Some (po_overlap (sd_policy s)))) (\<lambda>_. compiled_row e sid s) = Inl err"
  shows "\<exists>ops. update_schedule e table updater sid = (ops, Inl err) \<and> run_ops run ops table = table(sid := None)"
proof -
  have "create_schedule_row e sid s False [] = ([], Inl err)"
    using assms(4) by (simp add: create_schedule_row_def check_backfills_def split: sum.splits)
  with assms(1-3) show ?thesis
    by (simp add: update_schedule_def replace_schedule_def documented_schedules_def)
qed

subsection \<open>Examples\<close>

definition demo_env :: schedule_env where
  "demo_env = \<lparr>sv_codec = \<lparr>co_enc = (\<lambda>v. v), co_dec = (\<lambda>v. v), co_iso = (\<lambda>s. Some (Datetime s True))\<rparr>,
     sv_cron = \<lparr>cron_zone = (\<lambda>z. True), cron_valid = (\<lambda>f. True), cron_next = (\<lambda>f z t. t + 60)\<rparr>,
     sv_now = Datetime ''2024-05-01T00:00:00+00:00'' True, sv_next = (\<lambda>f z n. [])\<rparr>"

definition demo_schedule :: schedule where
  "demo_schedule = \<lparr>
     sd_action = \<lparr>ac_workflow = ''Report'', ac_args = [JInt 3], ac_id = ''report'', ac_queue = ''q'',
       ac_execution_timeout = None, ac_run_timeout = None, ac_task_timeout = None, ac_retry = None,
       ac_memo = Some [(''team'', JStr ''a'')], ac_typed = [], ac_untyped = [], ac_summary = None, ac_details = None,
       ac_priority = None\<rparr>,
     sd_spec = \<lparr>sp_calendars = [\<lparr>cs_second = [], cs_minute = [SRange 30 30 1], cs_hour = [SRange 9 17 2], cs_day_of_month = [],
       cs_month = [], cs_year = [], cs_day_of_week = [SRange 1 5 1], cs_comment = None\<rparr>], sp_intervals = [], sp_cron = [],
       sp_skip = [], sp_start_at = None, sp_end_at = None, sp_jitter = None, sp_zone = None\<rparr>,
     sd_policy = \<lparr>po_overlap = CANCEL_OTHER, po_catchup = 31536000000000, po_pause_on_failure = False\<rparr>,
     sd_state = \<lparr>ss_note = Some ''weekly'', ss_paused = True, ss_limited = False, ss_remaining = 0\<rparr>\<rparr>"

lemma demo_ok: "codec_ok (sv_codec demo_env)" "schedule_ok demo_schedule" "tz_aware (sv_now demo_env)" "iso (sv_now demo_env) \<noteq> []"
  by (auto simp: codec_ok_def demo_env_def schedule_ok_def demo_schedule_def calendar_ok_def made_range_def sa_wf_def datetime.expand)

lemma demo_row: "\<not> isl (compiled_row demo_env ''s'' demo_schedule)"
  by code_simp

lemma demo_create:
  "\<exists>row. create_schedule_row demo_env ''s'' demo_schedule True [] =
     ([CreateSchedule row, PauseSchedule ''s'', TriggerSchedule ''s''], Inr ())"
proof -
  obtain row where "compiled_row demo_env ''s'' demo_schedule = Inr row"
    using demo_row by (cases "compiled_row demo_env ''s'' demo_schedule") simp_all
  then show ?thesis
    by (simp add: create_schedule_row_def require_supported_overlap_def check_backfills_def demo_schedule_def)
qed

theorem created_schedule_reads_back_witness:
  "\<exists>ops times. create_schedule_row demo_env ''s'' demo_schedule True [] = (ops, Inr ()) \<and>
     describe_schedule demo_env (run_ops memory_schedules ops (\<lambda>_. None)) ''s'' =
       Inr \<lparr>de_id = ''s'', de_schedule = demo_schedule, de_next = times, de_created = sv_now demo_env\<rparr>"
proof -
  from demo_create obtain ops where "create_schedule_row demo_env ''s'' demo_schedule True [] = (ops, Inr ())" by blast
  from created_schedule_reads_back [where table = "\<lambda>_. None" and later = "sv_now demo_env", OF memory_schedules_documented demo_ok refl this] this
  show ?thesis by auto
qed

text \<open>The stored demo schedule, for the updates.\<close>

lemma demo_described:
  obtains row desc where "describe_schedule demo_env [''s'' \<mapsto> row] ''s'' = Inr desc"
proof -
  obtain row where "compiled_row demo_env ''s'' demo_schedule = Inr row"
    using demo_row by (cases "compiled_row demo_env ''s'' demo_schedule") simp_all
  from describe_compiled [OF demo_ok this, of "sv_now demo_env"] that [of "row\<lparr>rw_active := \<not> ss_paused (sd_state demo_schedule)\<rparr>"]
  show ?thesis by (auto simp: describe_schedule_def)
qed

theorem updated_schedule_reads_back_witness:
  "\<exists>row ops times. update_schedule demo_env [''s'' \<mapsto> row] (\<lambda>d. Some demo_schedule) ''s'' = (ops, Inr ()) \<and>
     describe_schedule demo_env (run_ops memory_schedules ops [''s'' \<mapsto> row]) ''s'' =
       Inr \<lparr>de_id = ''s'', de_schedule = demo_schedule, de_next = times, de_created = sv_now demo_env\<rparr>"
proof -
  obtain row desc where d: "describe_schedule demo_env [''s'' \<mapsto> row] ''s'' = Inr desc" by (rule demo_described)
  obtain new where "compiled_row demo_env ''s'' demo_schedule = Inr new"
    using demo_row by (cases "compiled_row demo_env ''s'' demo_schedule") simp_all
  then have "\<exists>ops. update_schedule demo_env [''s'' \<mapsto> row] (\<lambda>d. Some demo_schedule) ''s'' = (ops, Inr ())"
    using d by (simp add: update_schedule_def replace_schedule_def create_schedule_row_def require_supported_overlap_def
        check_backfills_def demo_schedule_def)
  then obtain ops where u: "update_schedule demo_env [''s'' \<mapsto> row] (\<lambda>d. Some demo_schedule) ''s'' = (ops, Inr ())" by blast
  from updated_schedule_reads_back [where later = "sv_now demo_env", OF memory_schedules_documented demo_ok d refl u] u
  show ?thesis by auto
qed

theorem refused_update_loses_schedule_witness:
  "\<exists>row ops. update_schedule demo_env [''s'' \<mapsto> row]
       (\<lambda>d. Some (demo_schedule\<lparr>sd_policy := (sd_policy demo_schedule)\<lparr>po_overlap := BUFFER_ONE\<rparr>\<rparr>)) ''s'' = (ops, Inl NotImplementedErr) \<and>
     run_ops memory_schedules ops [''s'' \<mapsto> row] ''s'' = None"
proof -
  obtain row desc where d: "describe_schedule demo_env [''s'' \<mapsto> row] ''s'' = Inr desc" by (rule demo_described)
  from refused_update_loses_schedule [where updater = "\<lambda>d. Some (demo_schedule\<lparr>sd_policy := (sd_policy demo_schedule)\<lparr>po_overlap := BUFFER_ONE\<rparr>\<rparr>)"
      and err = NotImplementedErr, OF memory_schedules_documented d refl]
  obtain ops where "update_schedule demo_env [''s'' \<mapsto> row]
       (\<lambda>d. Some (demo_schedule\<lparr>sd_policy := (sd_policy demo_schedule)\<lparr>po_overlap := BUFFER_ONE\<rparr>\<rparr>)) ''s'' = (ops, Inl NotImplementedErr)"
    and "run_ops memory_schedules ops [''s'' \<mapsto> row] = [''s'' \<mapsto> row](''s'' := None)"
    by (auto simp: require_supported_overlap_def)
  then show ?thesis by (intro exI [of _ row] exI [of _ ops]) simp
qed

end
