(* ===== verification/Convert_Types.thy ===== *)
theory Convert_Types
  imports Attributes Schedules
begin

text \<open>
  Type-hint driven decoding and JSON encoding of user values (\<open>value_to_type\<close>, \<open>AdvancedJSONEncoder\<close> of
  \<open>dbosify/converter.py\<close>). Values, type hints and the classes they name are data; the ISO and UUID readers, float
  literals and the user's own type converters are parameters. A byte is a \<open>char\<close>.
\<close>

subsection \<open>Values and hints\<close>

type_synonym bytes = string

record payload =
  pl_metadata :: "(string, bytes) dict"
  pl_data :: bytes

datatype pyval =
    VNone
  | VBool bool
  | VInt int
  | VFloat rat
  | VStr string
  | VBytes bytes
  | VDatetime datetime
  | VUuid string
  | VList "pyval list"
  | VTuple "pyval list"
  | VSet "pyval list"
  | VDeque "pyval list"
  | VDict "(pyval \<times> pyval) list"
  | VObj string "(string \<times> pyval) list"
  | VIntEnum string int
  | VStrEnum string string
  | VRaw payload
  | VOpaque string

datatype iter_kind = KList | KTuple | KSet | KDeque | KFrozenset | KSequence

datatype hint =
    TAny
  | TDatetime
  | TInt
  | TFloat
  | TBool
  | TStr
  | TBytes
  | TNone
  | TUuid
  | TVar
  | TEllipsis
  | TOther
  | TNewType hint
  | TLiteral "json list"
  | TUnion "hint list"
  | TMap "hint list"
  | TTypedDict string
  | TDataclass string
  | TIntEnum string
  | TStrEnum string
  | TIter iter_kind "hint list"

text \<open>The classes a hint names, and the readers of literals.\<close>

record type_lib =
  tl_custom :: "(hint \<Rightarrow> json \<Rightarrow> pyval result option) list"
  tl_iso :: "string \<Rightarrow> datetime option"
  tl_uuid :: "string \<Rightarrow> string option"
  tl_float :: "string \<Rightarrow> rat option"
  tl_repr :: "rat \<Rightarrow> string"
  tl_fields :: "string \<Rightarrow> (string \<times> hint \<times> pyval option) list"
  tl_keys :: "string \<Rightarrow> (string \<times> hint) list"
  tl_int_enum :: "string \<Rightarrow> int list"
  tl_str_enum :: "string \<Rightarrow> string list"
  tl_hashable :: "string \<Rightarrow> bool"

text \<open>What \<open>json.loads\<close> gives.\<close>

fun raw :: "json \<Rightarrow> pyval" where
  "raw JNull = VNone"
| "raw (JBool b) = VBool b"
| "raw (JInt i) = VInt i"
| "raw (JNum q) = VFloat q"
| "raw (JStr s) = VStr s"
| "raw (JList xs) = VList (map raw xs)"
| "raw (JObj kvs) = VDict (map (\<lambda>(k, v). (VStr k, raw v)) kvs)"

subsection \<open>Equality, hashing and dictionaries\<close>

text \<open>Python's \<open>==\<close> of hashable values: numbers by value, enum members as the value they extend.\<close>

fun eq_key :: "pyval \<Rightarrow> pyval" where
  "eq_key (VBool b) = VFloat (if b then 1 else 0)"
| "eq_key (VInt i) = VFloat (of_int i)"
| "eq_key (VIntEnum c i) = VFloat (of_int i)"
| "eq_key (VStrEnum c s) = VStr s"
| "eq_key (VTuple vs) = VTuple (map eq_key vs)"
| "eq_key v = v"

fun hashable :: "type_lib \<Rightarrow> pyval \<Rightarrow> bool" where
  "hashable L (VTuple vs) = list_all (hashable L) vs"
| "hashable L (VList vs) = False"
| "hashable L (VSet vs) = False"
| "hashable L (VDeque vs) = False"
| "hashable L (VDict kvs) = False"
| "hashable L (VObj c fs) = tl_hashable L c"
| "hashable L v = True"

fun pdict_set :: "pyval \<Rightarrow> pyval \<Rightarrow> (pyval \<times> pyval) list \<Rightarrow> (pyval \<times> pyval) list" where
  "pdict_set k v [] = [(k, v)]"
| "pdict_set k v ((k', v') # d) = (if eq_key k' = eq_key k then (k', v) # d else (k', v') # pdict_set k v d)"

fun py_set :: "pyval list \<Rightarrow> pyval list \<Rightarrow> pyval list" where
  "py_set seen [] = rev seen"
| "py_set seen (v # vs) = py_set (if eq_key v \<in> set (map eq_key seen) then seen else v # seen) vs"

text \<open>\<open>value not in type_args\<close>; the arguments of a literal are JSON scalars.\<close>

definition literal_match :: "json \<Rightarrow> json list \<Rightarrow> bool" where
  "literal_match v args \<longleftrightarrow> eq_key (raw v) \<in> set (map (eq_key \<circ> raw) args)"

subsection \<open>Decoding\<close>

definition custom_or :: "type_lib \<Rightarrow> hint \<Rightarrow> json \<Rightarrow> pyval result \<Rightarrow> pyval result" where
  "custom_or L h v r = (case List.map_filter (\<lambda>c. c h v) (tl_custom L) of [] \<Rightarrow> r | x # _ \<Rightarrow> x)"

definition as_type_error :: "'a result \<Rightarrow> 'a result" where
  "as_type_error r = (case r of Inl _ \<Rightarrow> Inl TypeError | Inr x \<Rightarrow> Inr x)"

fun first_ok :: "('a \<Rightarrow> 'b result) \<Rightarrow> 'a list \<Rightarrow> 'b result" where
  "first_ok f [] = Inl TypeError"
| "first_ok f (x # xs) = (case f x of Inr y \<Rightarrow> Inr y | Inl _ \<Rightarrow> first_ok f xs)"

text \<open>\<open>int(s)\<close>: blanks around, a sign, digits with single underscores between them.\<close>

definition int_literal :: "string \<Rightarrow> int option" where
  "int_literal s =
     (let s = strip s;
          (neg, body) = (case s of c # cs \<Rightarrow> if c = CHR ''-'' then (True, cs) else if c = CHR ''+'' then (False, cs) else (False, s)
                         | [] \<Rightarrow> (False, []));
          groups = split_at (CHR ''_'') body
      in if list_all isdigit groups
         then Some ((if neg then -1 else 1) * int (int_of_digits (concat groups))) else None)"

definition type_arg :: "hint list \<Rightarrow> nat \<Rightarrow> hint option" where
  "type_arg args i = (if i < length args \<and> args ! i \<noteq> TAny \<and> args ! i \<noteq> TVar then Some (args ! i) else None)"

text \<open>A key of a mapping, which JSON made a string, as its hint asks.\<close>

definition conv_key :: "(hint \<Rightarrow> json \<Rightarrow> pyval result) \<Rightarrow> type_lib \<Rightarrow> hint option \<Rightarrow> string \<Rightarrow> pyval result" where
  "conv_key f L kt key =
     (case kt of
        None \<Rightarrow> Inr (VStr key)
      | Some t \<Rightarrow>
          (case t of
             TInt \<Rightarrow> (case int_literal key of Some i \<Rightarrow> Inr (VInt i) | None \<Rightarrow> Inl TypeError)
           | TFloat \<Rightarrow> (case tl_float L key of Some q \<Rightarrow> Inr (VFloat q) | None \<Rightarrow> Inl TypeError)
           | TBool \<Rightarrow> if key = ''true'' then Inr (VBool True) else if key = ''false'' then Inr (VBool False) else Inl TypeError
           | TNone \<Rightarrow> if key = ''null'' then Inr VNone else Inl TypeError
           | TStr \<Rightarrow> Inr (VStr key)
           | _ \<Rightarrow> as_type_error (f t (JStr key))))"

fun conv_items ::
  "(string \<Rightarrow> pyval result) \<Rightarrow> (string \<Rightarrow> json \<Rightarrow> pyval result) \<Rightarrow> (string \<times> json) list \<Rightarrow> type_lib \<Rightarrow>
     (pyval \<times> pyval) list \<Rightarrow> (pyval \<times> pyval) list result" where
  "conv_items fk fv [] L d = Inr d"
| "conv_items fk fv ((k, v) # kvs) L d =
     bind_result (fk k) (\<lambda>key. bind_result (fv k v) (\<lambda>item.
       if hashable L key then conv_items fk fv kvs L (pdict_set key item d) else Inl TypeError))"

text \<open>The hint of the item at a position.\<close>

definition item_hint :: "iter_kind \<Rightarrow> hint list \<Rightarrow> nat \<Rightarrow> hint result" where
  "item_hint kind args i =
     (if kind \<noteq> KTuple then Inr (hd args)
      else if i < length args \<and> args ! i \<noteq> TEllipsis then Inr (args ! i)
      else if last args = TEllipsis then Inr (args ! (length args - 2))
      else Inl TypeError)"

definition raw_items :: "hint list \<Rightarrow> bool" where
  "raw_items args \<longleftrightarrow> args = [] \<or> args = [TVar] \<or> args = [TEllipsis]"

definition collect :: "type_lib \<Rightarrow> iter_kind \<Rightarrow> pyval list \<Rightarrow> pyval result" where
  "collect L kind vs =
     (case kind of
        KTuple \<Rightarrow> Inr (VTuple vs)
      | KSet \<Rightarrow> if list_all (hashable L) vs then Inr (VSet (py_set [] vs)) else Inl TypeError
      | KDeque \<Rightarrow> Inr (VDeque vs)
      | _ \<Rightarrow> Inr (VList vs))"

text \<open>The fields of a dataclass, then its constructor: a missing field needs a default.\<close>

fun conv_fields ::
  "(string \<Rightarrow> hint \<Rightarrow> json \<Rightarrow> pyval result) \<Rightarrow> (string \<times> hint \<times> pyval option) list \<Rightarrow> (string \<times> json) list \<Rightarrow>
     (string \<times> pyval option) list result" where
  "conv_fields f [] d = Inr []"
| "conv_fields f ((n, h, dflt) # fs) d =
     bind_result (case dict_get d n of None \<Rightarrow> Inr dflt
                  | Some v \<Rightarrow> bind_result (as_type_error (f n h v)) (\<lambda>x. Inr (Some x)))
       (\<lambda>x. bind_result (conv_fields f fs d) (\<lambda>xs. Inr ((n, x) # xs)))"

definition construct :: "string \<Rightarrow> (string \<times> pyval option) list \<Rightarrow> pyval result" where
  "construct c fs =
     (if list_all (\<lambda>(n, x). x \<noteq> None) fs then Inr (VObj c (map (\<lambda>(n, x). (n, the x)) fs)) else Inl TypeError)"

definition byte_of :: "json \<Rightarrow> char result" where
  "byte_of v =
     (case v of
        JInt i \<Rightarrow> if 0 \<le> i \<and> i < 256 then Inr (char_of (nat i)) else Inl ValueError
      | JBool b \<Rightarrow> Inr (char_of (if b then 1 else (0::nat)))
      | _ \<Rightarrow> Inl TypeError)"

definition as_int_value :: "json \<Rightarrow> int option" where
  "as_int_value v = (case v of JInt i \<Rightarrow> Some i | JBool b \<Rightarrow> Some (if b then 1 else 0) | _ \<Rightarrow> None)"

definition is_number :: "json \<Rightarrow> bool" where
  "is_number v \<longleftrightarrow> (case v of JInt _ \<Rightarrow> True | JNum _ \<Rightarrow> True | JBool _ \<Rightarrow> True | _ \<Rightarrow> False)"

subsection \<open>Congruence rules for the recursion through lists\<close>

lemma bind_result_cong [fundef_cong]:
  "r = r' \<Longrightarrow> (\<And>x. r' = Inr x \<Longrightarrow> f x = g x) \<Longrightarrow> bind_result r f = bind_result r' g"
  by (cases r') simp_all

lemma map_result_cong [fundef_cong]:
  "xs = ys \<Longrightarrow> (\<And>x. x \<in> set ys \<Longrightarrow> f x = g x) \<Longrightarrow> map_result f xs = map_result g ys"
  by (induction ys arbitrary: xs) auto

lemma first_ok_cong [fundef_cong]:
  "xs = ys \<Longrightarrow> (\<And>x. x \<in> set ys \<Longrightarrow> f x = g x) \<Longrightarrow> first_ok f xs = first_ok g ys"
  by (induction ys arbitrary: xs) (auto split: sum.split)

lemma conv_key_cong [fundef_cong]:
  "kt = kt' \<Longrightarrow> key = key' \<Longrightarrow> (\<And>t. kt' = Some t \<Longrightarrow> f t (JStr key') = g t (JStr key')) \<Longrightarrow> conv_key f L kt key = conv_key g L kt' key'"
proof -
  assume eq: "kt = kt'" "key = key'" and f: "\<And>t. kt' = Some t \<Longrightarrow> f t (JStr key') = g t (JStr key')"
  show "conv_key f L kt key = conv_key g L kt' key'"
  proof (cases kt')
    case (Some t)
    then have "f t (JStr key') = g t (JStr key')" by (rule f)
    then show ?thesis unfolding eq Some conv_key_def by (cases t) simp_all
  qed (simp add: eq conv_key_def)
qed

lemma conv_items_cong [fundef_cong]:
  assumes "kvs = kvs'" "d = d'" "\<And>k v. (k, v) \<in> set kvs' \<Longrightarrow> fk k = gk k" "\<And>k v. (k, v) \<in> set kvs' \<Longrightarrow> fv k v = gv k v"
  shows "conv_items fk fv kvs L d = conv_items gk gv kvs' L d'"
  using assms(3,4) unfolding assms(1,2)
proof (induction kvs' arbitrary: d')
  case (Cons kv kvs')
  obtain k v where kv: "kv = (k, v)" by (cases kv)
  have "fk k = gk k" "fv k v = gv k v" using Cons.prems unfolding kv by auto
  moreover have "conv_items fk fv kvs' L d = conv_items gk gv kvs' L d" for d
    using Cons.prems by (intro Cons.IH) auto
  ultimately show ?case by (simp add: kv cong: if_cong)
qed simp

lemma conv_fields_cong [fundef_cong]:
  assumes "fs = fs'" "d = d'" "\<And>n h dflt v. (n, h, dflt) \<in> set fs' \<Longrightarrow> dict_get d' n = Some v \<Longrightarrow> f n h v = g n h v"
  shows "conv_fields f fs d = conv_fields g fs' d'"
  using assms(3) unfolding assms(1,2)
proof (induction fs')
  case (Cons x fs')
  obtain n h dflt where x: "x = (n, h, dflt)" by (cases x) auto
  have "f n h v = g n h v" if "dict_get d' n = Some v" for v using that by (intro Cons.prems [of n h dflt]) (simp_all add: x)
  moreover have "conv_fields f fs' d' = conv_fields g fs' d'" using Cons.prems by (intro Cons.IH) auto
  ultimately show ?case by (simp add: x split: option.split)
qed simp

lemma size_in_list: "x \<in> set xs \<Longrightarrow> size (x :: hint) < Suc (size_list size xs)"
  by (simp add: size_list_estimation' less_Suc_eq_le)

lemma dict_get_json_size: "dict_get kvs k = Some v \<Longrightarrow> size v < size (JObj kvs)"
  unfolding dict_get_def by (rule map_of_size)

lemma item_json_size: "(k, v) \<in> set kvs \<Longrightarrow> size v < size (JObj kvs)"
  by (induction kvs) auto

lemmas json_sizes = item_json_size dict_get_json_size

lemma to_list_size: "to_list j = Inr js \<Longrightarrow> x \<in> set js \<Longrightarrow> size x \<le> size j"
  by (cases j) (auto dest: size_list_estimation' [of _ _ _ size] simp: size_list_estimation')

lemma type_arg_in: "type_arg args i = Some t \<Longrightarrow> t \<in> set args"
  by (auto simp: type_arg_def split: if_splits)

lemma item_hint_in: "\<not> raw_items args \<Longrightarrow> item_hint kind args i = Inr t \<Longrightarrow> t \<in> set args"
  by (auto simp: item_hint_def raw_items_def split: if_splits)

function v2t :: "type_lib \<Rightarrow> hint \<Rightarrow> json \<Rightarrow> pyval result" where
  "v2t L TAny v = custom_or L TAny v (Inr (raw v))"
| "v2t L TDatetime v = custom_or L TDatetime v
     (case v of JStr s \<Rightarrow> (case tl_iso L s of Some d \<Rightarrow> Inr (VDatetime d) | None \<Rightarrow> Inl TypeError) | _ \<Rightarrow> Inl TypeError)"
| "v2t L TInt v = custom_or L TInt v
     (if is_number v then bind_result (to_int v) (\<lambda>i. Inr (VInt i)) else Inl TypeError)"
| "v2t L TFloat v = custom_or L TFloat v
     (if is_number v then bind_result (to_float v) (\<lambda>q. Inr (VFloat q)) else Inl TypeError)"
| "v2t L TBool v = custom_or L TBool v (case v of JBool b \<Rightarrow> Inr (VBool b) | _ \<Rightarrow> Inl TypeError)"
| "v2t L TStr v = custom_or L TStr v (case v of JStr s \<Rightarrow> Inr (VStr s) | _ \<Rightarrow> Inl TypeError)"
| "v2t L TBytes v = custom_or L TBytes v
     (case v of JList xs \<Rightarrow> bind_result (map_result byte_of xs) (\<lambda>bs. Inr (VBytes bs)) | _ \<Rightarrow> Inl TypeError)"
| "v2t L TNone v = custom_or L TNone v (if v = JNull then Inr VNone else Inl TypeError)"
| "v2t L TUuid v = custom_or L TUuid v
     (case v of JStr s \<Rightarrow> (case tl_uuid L s of Some u \<Rightarrow> Inr (VUuid u) | None \<Rightarrow> Inl ValueError)
      | JNull \<Rightarrow> Inl TypeError | _ \<Rightarrow> Inl AttributeError)"
| "v2t L TVar v = custom_or L TVar v (Inl TypeError)"
| "v2t L TEllipsis v = custom_or L TEllipsis v (Inl TypeError)"
| "v2t L TOther v = custom_or L TOther v (Inl TypeError)"
| "v2t L (TNewType h) v = custom_or L (TNewType h) v (v2t L h v)"
| "v2t L (TLiteral args) v = custom_or L (TLiteral args) v (if literal_match v args then Inr (raw v) else Inl TypeError)"
| "v2t L (TUnion hs) v = custom_or L (TUnion hs) v (first_ok (\<lambda>h. v2t L h v) hs)"
| "v2t L (TMap args) v = custom_or L (TMap args) v
     (case v of
        JObj kvs \<Rightarrow> bind_result
          (conv_items (\<lambda>k. conv_key (\<lambda>t j. v2t L t j) L (type_arg args 0) k)
             (\<lambda>k x. case type_arg args 1 of None \<Rightarrow> Inr (raw x) | Some t \<Rightarrow> as_type_error (v2t L t x)) kvs L [])
          (\<lambda>d. Inr (VDict d))
      | _ \<Rightarrow> Inl TypeError)"
| "v2t L (TTypedDict c) v = custom_or L (TTypedDict c) v
     (case v of
        JObj kvs \<Rightarrow> bind_result
          (conv_items (\<lambda>k. Inr (VStr k))
             (\<lambda>k x. case dict_get (tl_keys L c) k of None \<Rightarrow> Inr (raw x) | Some t \<Rightarrow> as_type_error (v2t L t x)) kvs L [])
          (\<lambda>d. Inr (VDict d))
      | _ \<Rightarrow> Inl TypeError)"
| "v2t L (TDataclass c) v = custom_or L (TDataclass c) v
     (case v of
        JObj kvs \<Rightarrow> bind_result (conv_fields (\<lambda>n h x. v2t L h x) (tl_fields L c) kvs) (construct c)
      | _ \<Rightarrow> Inl TypeError)"
| "v2t L (TIntEnum c) v = custom_or L (TIntEnum c) v
     (case as_int_value v of
        None \<Rightarrow> Inl TypeError
      | Some i \<Rightarrow> if i \<in> set (tl_int_enum L c) then Inr (VIntEnum c i) else Inl ValueError)"
| "v2t L (TStrEnum c) v = custom_or L (TStrEnum c) v
     (case v of JStr s \<Rightarrow> if s \<in> set (tl_str_enum L c) then Inr (VStrEnum c s) else Inl ValueError | _ \<Rightarrow> Inl TypeError)"
| "v2t L (TIter kind args) v = custom_or L (TIter kind args) v
     (bind_result (to_list v) (\<lambda>js.
        if raw_items args then collect L kind (map raw js)
        else bind_result (map_result (\<lambda>(i, x).
               case item_hint kind args i of Inl err \<Rightarrow> Inl err | Inr t \<Rightarrow> as_type_error (v2t L t x)) (List.enumerate 0 js))
             (collect L kind)))"
  by pat_completeness auto
termination
proof (relation "measures [\<lambda>(L, h, v). size v, \<lambda>(L, h, v). size h]", simp_all add: size_in_list, goal_cases)
  case 1
  then show ?case using item_json_size by fastforce
next
  case 2
  then show ?case using item_json_size by fastforce
next
  case 3
  then show ?case using dict_get_json_size by fastforce
next
  case (4 kind args v js p i y t)
  from 4(3,4) have "y \<in> set js" by (auto simp: in_set_enumerate_eq)
  from to_list_size [OF 4(1) this] size_in_list [OF item_hint_in [OF 4(2,5)]] show ?case by linarith
qed

subsection \<open>What a decoded value is\<close>

text \<open>The value a JSON text denotes without a hint, and the number a JSON scalar is for Python, where a bool is one.\<close>

inductive plain :: "json \<Rightarrow> pyval \<Rightarrow> bool" where
  "plain JNull VNone"
| "plain (JBool b) (VBool b)"
| "plain (JInt i) (VInt i)"
| "plain (JNum q) (VFloat q)"
| "plain (JStr s) (VStr s)"
| "length vs = length js \<Longrightarrow> \<forall>i<length js. plain (js ! i) (vs ! i) \<Longrightarrow> plain (JList js) (VList vs)"
| "length d = length kvs \<Longrightarrow> \<forall>i<length kvs. fst (d ! i) = VStr (fst (kvs ! i)) \<and> plain (snd (kvs ! i)) (snd (d ! i)) \<Longrightarrow>
     plain (JObj kvs) (VDict d)"

fun number :: "json \<Rightarrow> rat option" where
  "number (JInt i) = Some (of_int i)"
| "number (JNum q) = Some q"
| "number (JBool b) = Some (of_bool b)"
| "number _ = None"

definition same_scalar :: "json \<Rightarrow> json \<Rightarrow> bool" where
  "same_scalar a j \<longleftrightarrow> a = j \<or> (number a \<noteq> None \<and> number a = number j)"

text \<open>
  A dictionary that gathers keys and values in order: its keys are among them, no two of them equal for Python, and it maps
  every key, up to that equality, to the value that came last.
\<close>

definition gathered :: "pyval list \<Rightarrow> pyval list \<Rightarrow> (pyval \<times> pyval) list \<Rightarrow> bool" where
  "gathered ks ws d \<longleftrightarrow> fst ` set d \<subseteq> set ks \<and> distinct (map (eq_key \<circ> fst) d) \<and>
     map_of (map (\<lambda>(k, w). (eq_key k, w)) d) = map_of (rev (zip (map eq_key ks) ws))"

text \<open>The type arguments of a mapping hint that ask for a conversion.\<close>

definition argument :: "hint list \<Rightarrow> nat \<Rightarrow> hint \<Rightarrow> bool" where
  "argument args i t \<longleftrightarrow> i < length args \<and> args ! i = t \<and> t \<noteq> TAny \<and> t \<noteq> TVar"

text \<open>What a value iterates over, the hint of the item at a position, and the container of the items.\<close>

inductive iterates :: "json \<Rightarrow> json list \<Rightarrow> bool" where
  "iterates (JList js) js"
| "iterates (JStr s) (map (\<lambda>c. JStr [c]) s)"
| "iterates (JObj kvs) (map (\<lambda>(k, x). JStr k) kvs)"

inductive position_hint :: "iter_kind \<Rightarrow> hint list \<Rightarrow> nat \<Rightarrow> hint \<Rightarrow> bool" where
  "kind \<noteq> KTuple \<Longrightarrow> position_hint kind (t # ts) i t"
| "i < length args \<Longrightarrow> args ! i \<noteq> TEllipsis \<Longrightarrow> position_hint KTuple args i (args ! i)"
| "args = ts @ [t, TEllipsis] \<Longrightarrow> i \<ge> length args \<or> args ! i = TEllipsis \<Longrightarrow> position_hint KTuple args i t"

inductive contains :: "iter_kind \<Rightarrow> pyval list \<Rightarrow> pyval \<Rightarrow> bool" where
  "contains KTuple vs (VTuple vs)"
| "contains KList vs (VList vs)"
| "contains KSequence vs (VList vs)"
| "contains KFrozenset vs (VList vs)"
| "contains KDeque vs (VDeque vs)"
| "set us \<subseteq> set vs \<Longrightarrow> eq_key ` set us = eq_key ` set vs \<Longrightarrow> distinct (map eq_key us) \<Longrightarrow> contains KSet vs (VSet us)"

text \<open>
  The values of a hint that hold the content of a JSON value: the class of the value is the one the hint names, item by item
  and in order. The decoder checks less than the hints say in three places: a frozenset hint gives a list, a tuple may stop
  short of its hint, and a TypedDict may lack required keys.
\<close>

inductive reads :: "type_lib \<Rightarrow> hint \<Rightarrow> json \<Rightarrow> pyval \<Rightarrow> bool"
    and reads_key :: "type_lib \<Rightarrow> hint \<Rightarrow> string \<Rightarrow> pyval \<Rightarrow> bool" for L where
  "c \<in> set (tl_custom L) \<Longrightarrow> c h j = Some (Inr v) \<Longrightarrow> reads L h j v"
| "plain j v \<Longrightarrow> reads L TAny j v"
| "tl_iso L s = Some d \<Longrightarrow> reads L TDatetime (JStr s) (VDatetime d)"
| "number j = Some q \<Longrightarrow> i = (if q < 0 then \<lceil>q\<rceil> else \<lfloor>q\<rfloor>) \<Longrightarrow> reads L TInt j (VInt i)"
| "number j = Some q \<Longrightarrow> reads L TFloat j (VFloat q)"
| "reads L TBool (JBool b) (VBool b)"
| "reads L TStr (JStr s) (VStr s)"
| "length bs = length js \<Longrightarrow> \<forall>i<length js. number (js ! i) = Some (of_nat (of_char (bs ! i))) \<Longrightarrow> reads L TBytes (JList js) (VBytes bs)"
| "reads L TNone JNull VNone"
| "tl_uuid L s = Some u \<Longrightarrow> reads L TUuid (JStr s) (VUuid u)"
| "reads L h j v \<Longrightarrow> reads L (TNewType h) j v"
| "plain j v \<Longrightarrow> a \<in> set args \<Longrightarrow> same_scalar a j \<Longrightarrow> reads L (TLiteral args) j v"
| "h \<in> set hs \<Longrightarrow> reads L h j v \<Longrightarrow> reads L (TUnion hs) j v"
| "length ks = length kvs \<Longrightarrow> length ws = length kvs \<Longrightarrow> gathered ks ws d \<Longrightarrow>
     \<forall>i<length kvs.
       (\<forall>t. argument args 0 t \<longrightarrow> reads_key L t (fst (kvs ! i)) (ks ! i)) \<and>
       ((\<forall>t. \<not> argument args 0 t) \<longrightarrow> ks ! i = VStr (fst (kvs ! i))) \<and>
       (\<forall>t. argument args 1 t \<longrightarrow> reads L t (snd (kvs ! i)) (ws ! i)) \<and>
       ((\<forall>t. \<not> argument args 1 t) \<longrightarrow> plain (snd (kvs ! i)) (ws ! i)) \<Longrightarrow>
     reads L (TMap args) (JObj kvs) (VDict d)"
| "length ws = length kvs \<Longrightarrow> gathered (map (\<lambda>(k, x). VStr k) kvs) ws d \<Longrightarrow>
     \<forall>i<length kvs.
       (\<forall>t. dict_get (tl_keys L c) (fst (kvs ! i)) = Some t \<longrightarrow> reads L t (snd (kvs ! i)) (ws ! i)) \<and>
       (dict_get (tl_keys L c) (fst (kvs ! i)) = None \<longrightarrow> plain (snd (kvs ! i)) (ws ! i)) \<Longrightarrow>
     reads L (TTypedDict c) (JObj kvs) (VDict d)"
| "length fs = length (tl_fields L c) \<Longrightarrow>
     \<forall>i n t dflt. i < length fs \<and> tl_fields L c ! i = (n, t, dflt) \<longrightarrow> fst (fs ! i) = n \<and>
        (dict_get kvs n = None \<longrightarrow> dflt = Some (snd (fs ! i))) \<and>
        (\<forall>x. dict_get kvs n = Some x \<longrightarrow> reads L t x (snd (fs ! i))) \<Longrightarrow>
     reads L (TDataclass c) (JObj kvs) (VObj c fs)"
| "(j = JInt i \<or> (\<exists>b. j = JBool b \<and> i = of_bool b)) \<Longrightarrow> i \<in> set (tl_int_enum L c) \<Longrightarrow> reads L (TIntEnum c) j (VIntEnum c i)"
| "s \<in> set (tl_str_enum L c) \<Longrightarrow> reads L (TStrEnum c) (JStr s) (VStrEnum c s)"
| "iterates j js \<Longrightarrow> length vs = length js \<Longrightarrow> args = [] \<or> args = [TVar] \<or> args = [TEllipsis] \<Longrightarrow>
     \<forall>i<length js. plain (js ! i) (vs ! i) \<Longrightarrow> contains kind vs v \<Longrightarrow> reads L (TIter kind args) j v"
| "iterates j js \<Longrightarrow> length vs = length js \<Longrightarrow> \<forall>i<length js. \<exists>t. position_hint kind args i t \<and> reads L t (js ! i) (vs ! i) \<Longrightarrow>
     contains kind vs v \<Longrightarrow> reads L (TIter kind args) j v"
| "int_literal s = Some i \<Longrightarrow> reads_key L TInt s (VInt i)"
| "tl_float L s = Some q \<Longrightarrow> reads_key L TFloat s (VFloat q)"
| "reads_key L TBool ''true'' (VBool True)"
| "reads_key L TBool ''false'' (VBool False)"
| "reads_key L TNone ''null'' VNone"
| "reads_key L TStr s (VStr s)"
| "t \<notin> {TInt, TFloat, TBool, TNone, TStr} \<Longrightarrow> reads L t (JStr s) k \<Longrightarrow> reads_key L t s k"

lemma plain_raw: "plain j (raw j)"
proof (induction j rule: raw.induct)
  case (6 xs)
  then show ?case by (auto intro!: plain.intros)
next
  case (7 kvs)
  then show ?case by (auto intro!: plain.intros simp: case_prod_beta) (metis nth_mem prod.collapse)
qed (auto intro: plain.intros)

lemma plain_of_raw: "raw j = v \<Longrightarrow> plain j v"
  using plain_raw [of j] by simp

lemma raw_scalar:
  "VNone = raw j \<longleftrightarrow> j = JNull" "VBool b = raw j \<longleftrightarrow> j = JBool b" "VInt i = raw j \<longleftrightarrow> j = JInt i"
  "VFloat q = raw j \<longleftrightarrow> j = JNum q" "VStr s = raw j \<longleftrightarrow> j = JStr s"
  by (cases j; auto)+

lemma raw_inject: "raw a = raw b \<Longrightarrow> a = b"
proof (induction a arbitrary: b rule: raw.induct)
  case (6 xs)
  then obtain ys where b: "b = JList ys" by (cases b) auto
  have "xs = ys" using 6 unfolding b by (auto intro!: list.inj_map_strong [of xs ys raw raw])
  then show ?case by (simp add: b)
next
  case (7 kvs)
  then obtain ys where b: "b = JObj ys" by (cases b) auto
  have "kvs = ys" using 7 unfolding b
    by (auto intro!: list.inj_map_strong [of kvs ys "\<lambda>(k, v). (VStr k, raw v)" "\<lambda>(k, v). (VStr k, raw v)"])
  then show ?case by (simp add: b)
qed (simp_all add: raw_scalar)

lemma literal_match_same: "literal_match j args \<Longrightarrow> \<exists>a\<in>set args. same_scalar a j"
proof -
  assume "literal_match j args"
  then obtain a where a: "a \<in> set args" "eq_key (raw j) = eq_key (raw a)" by (auto simp: literal_match_def)
  have "same_scalar a j" using a(2) raw_inject [of j a]
    by (cases a; cases j) (auto simp: same_scalar_def split: if_splits)
  with a(1) show ?thesis by blast
qed

lemma pdict_set_gathers:
  "map_of (map (\<lambda>(k, w). (eq_key k, w)) (pdict_set k w d)) = (map_of (map (\<lambda>(k, w). (eq_key k, w)) d))(eq_key k \<mapsto> w)"
  "fst ` set (pdict_set k w d) \<subseteq> insert k (fst ` set d)"
  "eq_key ` fst ` set (pdict_set k w d) = insert (eq_key k) (eq_key ` fst ` set d)"
  "distinct (map (eq_key \<circ> fst) d) \<Longrightarrow> distinct (map (eq_key \<circ> fst) (pdict_set k w d))"
proof -
  show images: "eq_key ` fst ` set (pdict_set k w d) = insert (eq_key k) (eq_key ` fst ` set d)" for k w d
    by (induction k w d rule: pdict_set.induct) auto
  show "map_of (map (\<lambda>(k, w). (eq_key k, w)) (pdict_set k w d)) = (map_of (map (\<lambda>(k, w). (eq_key k, w)) d))(eq_key k \<mapsto> w)"
    by (induction k w d rule: pdict_set.induct) (auto simp: fun_upd_twist)
  show "fst ` set (pdict_set k w d) \<subseteq> insert k (fst ` set d)"
    by (induction k w d rule: pdict_set.induct) auto
  show "distinct (map (eq_key \<circ> fst) d) \<Longrightarrow> distinct (map (eq_key \<circ> fst) (pdict_set k w d))"
  proof (induction k w d rule: pdict_set.induct)
    case (2 k v k' v' d)
    show ?case
    proof (cases "eq_key k' = eq_key k")
      case False
      then have "eq_key k' \<notin> eq_key ` fst ` set (pdict_set k v d)" using 2(2) images [of k v d] by (simp add: image_comp)
      then show ?thesis using False 2(1) [OF False] 2(2) by (simp add: image_comp)
    qed (use 2(2) in simp)
  qed simp
qed

lemma gathered_step:
  assumes "gathered ks ws d" "length ks = length ws"
  shows "gathered (ks @ [k]) (ws @ [w]) (pdict_set k w d)"
  using assms pdict_set_gathers(2) [of k w d] by (auto simp: gathered_def pdict_set_gathers(1,4))

lemma conv_items_gathers:
  assumes "conv_items fk fv kvs L d = Inr d'" "gathered ks ws d" "length ks = length ws"
  shows "\<exists>ks' ws'. length ks' = length kvs \<and> length ws' = length kvs \<and> gathered (ks @ ks') (ws @ ws') d' \<and>
    (\<forall>i<length kvs. fk (fst (kvs ! i)) = Inr (ks' ! i) \<and> fv (fst (kvs ! i)) (snd (kvs ! i)) = Inr (ws' ! i))"
  using assms
proof (induction fk fv kvs L d arbitrary: ks ws rule: conv_items.induct)
  case (2 fk fv k v kvs L d)
  from 2(2) obtain key item where key: "fk k = Inr key" "fv k v = Inr item" "hashable L key"
    "conv_items fk fv kvs L (pdict_set key item d) = Inr d'" by (auto simp: bind_result_Inr_iff split: if_splits)
  from 2(1) [OF key(3,4) gathered_step [OF 2(3,4)]] 2(4) obtain ks' ws' where
    r: "length ks' = length kvs" "length ws' = length kvs" "gathered (ks @ key # ks') (ws @ item # ws') d'"
    "\<forall>i<length kvs. fk (fst (kvs ! i)) = Inr (ks' ! i) \<and> fv (fst (kvs ! i)) (snd (kvs ! i)) = Inr (ws' ! i)" by auto
  show ?case
    by (rule exI [of _ "key # ks'"], rule exI [of _ "item # ws'"]) (use r key in \<open>auto simp: nth_Cons split: nat.split\<close>)
qed simp


lemma argument_iff: "argument args i t \<longleftrightarrow> type_arg args i = Some t"
  by (auto simp: argument_def type_arg_def)

lemma py_set_items:
  "set (py_set seen vs) \<subseteq> set seen \<union> set vs \<and> eq_key ` set (py_set seen vs) = eq_key ` (set seen \<union> set vs) \<and>
   (distinct (map eq_key seen) \<longrightarrow> distinct (map eq_key (py_set seen vs)))"
  by (induction seen vs rule: py_set.induct) (auto simp: rev_map [symmetric] split: if_splits)

lemma collect_contains: "collect L kind vs = Inr v \<Longrightarrow> contains kind vs v"
  using py_set_items [of "[]" vs] by (cases kind) (auto simp: collect_def intro: contains.intros split: if_splits)

lemma to_list_iterates: "to_list j = Inr js \<Longrightarrow> iterates j js"
  by (cases j) (auto intro: iterates.intros simp: comp_def case_prod_beta' [symmetric] intro!: iterates.intros(3) [of _, simplified case_prod_beta'])

lemma item_hint_position: "\<not> raw_items args \<Longrightarrow> item_hint kind args i = Inr t \<Longrightarrow> position_hint kind args i t"
proof -
  assume raw: "\<not> raw_items args" and t: "item_hint kind args i = Inr t"
  show ?thesis
  proof (cases "kind = KTuple \<and> \<not> (i < length args \<and> args ! i \<noteq> TEllipsis)")
    case True
    with t have e: "last args = TEllipsis" "t = args ! (length args - 2)" by (auto simp: item_hint_def split: if_splits)
    have len: "2 \<le> length args"
      using raw e(1) by (cases args rule: rev_cases; cases "butlast args") (auto simp: raw_items_def)
    obtain xs where xs: "args = xs @ [TEllipsis]" using raw e(1) by (cases args rule: rev_cases) (auto simp: raw_items_def)
    then obtain ys y where ys: "xs = ys @ [y]" using len by (cases xs rule: rev_cases) auto
    then have "t = y" using e(2) xs by (simp add: nth_append)
    then show ?thesis using True xs ys by (auto intro: position_hint.intros(3))
  next
    case False
    then show ?thesis using raw t
      by (cases args) (auto simp: item_hint_def raw_items_def intro: position_hint.intros(1,2) split: if_splits)
  qed
qed

lemma conv_key_reads:
  assumes "conv_key (\<lambda>t j. v2t L t j) L kt key = Inr k" "\<And>t v. kt = Some t \<Longrightarrow> v2t L t (JStr key) = Inr v \<Longrightarrow> reads L t (JStr key) v"
  shows "(\<forall>t. kt = Some t \<longrightarrow> reads_key L t key k) \<and> (kt = None \<longrightarrow> k = VStr key)"
proof (cases kt)
  case (Some t)
  have "as_type_error (v2t L t (JStr key)) = Inr k \<Longrightarrow> reads L t (JStr key) k"
    using assms(2) [OF Some] by (auto simp: as_type_error_def split: sum.splits)
  then show ?thesis using assms(1) unfolding Some conv_key_def
    by (cases t) (auto intro: reads_reads_key.intros(21-) split: option.splits if_splits)
qed (use assms(1) in \<open>auto simp: conv_key_def\<close>)

lemma custom_or_reads:
  assumes "custom_or L h j r = Inr v" "r = Inr v \<Longrightarrow> reads L h j v"
  shows "reads L h j v"
proof (cases "List.map_filter (\<lambda>c. c h j) (tl_custom L)")
  case (Cons x xs)
  then have "x \<in> set (List.map_filter (\<lambda>c. c h j) (tl_custom L))" by simp
  then obtain c where "c \<in> set (tl_custom L)" "c h j = Some x" by (auto simp: List.map_filter_def)
  then show ?thesis using assms(1) Cons by (auto simp: custom_or_def intro: reads_reads_key.intros(1))
qed (use assms in \<open>simp add: custom_or_def\<close>)

lemma as_type_error_Inr [simp]: "as_type_error r = Inr x \<longleftrightarrow> r = Inr x"
  by (cases r) (simp_all add: as_type_error_def)

lemma first_ok_Inr: "first_ok f xs = Inr y \<Longrightarrow> \<exists>x\<in>set xs. f x = Inr y"
  by (induction xs) (auto split: sum.splits)

lemma gathered_Nil: "gathered [] [] []"
  by (simp add: gathered_def)

lemma v2t_mapping_reads:
  assumes items: "conv_items (\<lambda>k. conv_key (\<lambda>t j. v2t L t j) L (type_arg args 0) k)
      (\<lambda>k x. case type_arg args 1 of None \<Rightarrow> Inr (raw x) | Some t \<Rightarrow> as_type_error (v2t L t x)) kvs L [] = Inr d"
    and key: "\<And>k x t v. (k, x) \<in> set kvs \<Longrightarrow> type_arg args 0 = Some t \<Longrightarrow> v2t L t (JStr k) = Inr v \<Longrightarrow> reads L t (JStr k) v"
    and item: "\<And>k x t v. (k, x) \<in> set kvs \<Longrightarrow> type_arg args 1 = Some t \<Longrightarrow> v2t L t x = Inr v \<Longrightarrow> reads L t x v"
  shows "reads L (TMap args) (JObj kvs) (VDict d)"
proof -
  from conv_items_gathers [OF items gathered_Nil refl] obtain ks ws where
    r: "length ks = length kvs" "length ws = length kvs" "gathered ks ws d"
      "\<And>i. i < length kvs \<Longrightarrow> conv_key (\<lambda>t j. v2t L t j) L (type_arg args 0) (fst (kvs ! i)) = Inr (ks ! i) \<and>
        (case type_arg args 1 of None \<Rightarrow> Inr (raw (snd (kvs ! i))) | Some t \<Rightarrow> as_type_error (v2t L t (snd (kvs ! i)))) = Inr (ws ! i)"
    by auto
  have "(\<forall>t. type_arg args 0 = Some t \<longrightarrow> reads_key L t (fst (kvs ! i)) (ks ! i)) \<and>
      (type_arg args 0 = None \<longrightarrow> ks ! i = VStr (fst (kvs ! i))) \<and>
      (\<forall>t. type_arg args 1 = Some t \<longrightarrow> reads L t (snd (kvs ! i)) (ws ! i)) \<and>
      (type_arg args 1 = None \<longrightarrow> plain (snd (kvs ! i)) (ws ! i))" if i: "i < length kvs" for i
  proof -
    have mem: "(fst (kvs ! i), snd (kvs ! i)) \<in> set kvs" using i by simp
    note k = conv_key_reads [OF conjunct1 [OF r(4) [OF i]] key [OF mem]]
    with r(4) [OF i] item [OF mem] show ?thesis by (cases "type_arg args 1") (auto simp: plain_of_raw)
  qed
  with r(1-3) show ?thesis by (intro reads_reads_key.intros(14)) (auto simp: argument_iff)
qed

lemma v2t_typed_dict_reads:
  assumes items: "conv_items (\<lambda>k. Inr (VStr k))
      (\<lambda>k x. case dict_get (tl_keys L c) k of None \<Rightarrow> Inr (raw x) | Some t \<Rightarrow> as_type_error (v2t L t x)) kvs L [] = Inr d"
    and item: "\<And>k x t v. (k, x) \<in> set kvs \<Longrightarrow> dict_get (tl_keys L c) k = Some t \<Longrightarrow> v2t L t x = Inr v \<Longrightarrow> reads L t x v"
  shows "reads L (TTypedDict c) (JObj kvs) (VDict d)"
proof -
  from conv_items_gathers [OF items gathered_Nil refl] obtain ks ws where
    r: "length ks = length kvs" "length ws = length kvs" "gathered ks ws d"
      "\<And>i. i < length kvs \<Longrightarrow> Inr (VStr (fst (kvs ! i))) = (Inr (ks ! i) :: pyval result) \<and>
        (case dict_get (tl_keys L c) (fst (kvs ! i)) of None \<Rightarrow> Inr (raw (snd (kvs ! i)))
         | Some t \<Rightarrow> as_type_error (v2t L t (snd (kvs ! i)))) = Inr (ws ! i)"
    by auto
  have ks: "ks = map (\<lambda>(k, x). VStr k) kvs" using r(1,4) by (intro nth_equalityI) (auto simp: case_prod_beta)
  have "(\<forall>t. dict_get (tl_keys L c) (fst (kvs ! i)) = Some t \<longrightarrow> reads L t (snd (kvs ! i)) (ws ! i)) \<and>
      (dict_get (tl_keys L c) (fst (kvs ! i)) = None \<longrightarrow> plain (snd (kvs ! i)) (ws ! i))" if i: "i < length kvs" for i
    using r(4) [OF i] item [of "fst (kvs ! i)" "snd (kvs ! i)"] i
    by (cases "dict_get (tl_keys L c) (fst (kvs ! i))") (auto simp: plain_of_raw)
  with r(2,3) show ?thesis by (intro reads_reads_key.intros(15)) (auto simp: ks)
qed

lemma conv_fields_items:
  assumes "conv_fields f specs d = Inr xs"
  shows "length xs = length specs \<and> (\<forall>i n h dflt. i < length xs \<and> specs ! i = (n, h, dflt) \<longrightarrow>
     fst (xs ! i) = n \<and> (case dict_get d n of None \<Rightarrow> snd (xs ! i) = dflt | Some v \<Rightarrow> \<exists>x. f n h v = Inr x \<and> snd (xs ! i) = Some x))"
  using assms
proof (induction f specs d arbitrary: xs rule: conv_fields.induct)
  case (2 f n h dflt fs d)
  then obtain x ys where x: "(case dict_get d n of None \<Rightarrow> Inr dflt
                  | Some v \<Rightarrow> bind_result (as_type_error (f n h v)) (\<lambda>x. Inr (Some x))) = Inr x"
    and ys: "conv_fields f fs d = Inr ys" "xs = (n, x) # ys" by (auto simp: bind_result_Inr_iff)
  have "case dict_get d n of None \<Rightarrow> x = dflt | Some v \<Rightarrow> \<exists>y. f n h v = Inr y \<and> x = Some y"
    using x by (auto simp: bind_result_Inr_iff split: option.splits)
  moreover note 2(1) [OF ys(1)]
  ultimately show ?case unfolding ys(2) by (auto simp: nth_Cons cong: option.case_cong split: nat.splits)
qed auto

lemma construct_items:
  "construct c xs = Inr v \<Longrightarrow> \<exists>fs. v = VObj c fs \<and> length fs = length xs \<and> (\<forall>i<length xs. xs ! i = (fst (fs ! i), Some (snd (fs ! i))))"
  by (auto simp: construct_def list_all_length split: if_splits prod.splits) (metis option.exhaust_sel prod.collapse)

lemma map_result_nth:
  "map_result f xs = Inr ys \<Longrightarrow> length ys = length xs \<and> (\<forall>i<length xs. f (xs ! i) = Inr (ys ! i))"
  by (induction xs arbitrary: ys) (auto simp: bind_result_Inr_iff nth_Cons split: nat.splits)

lemma v2t_dataclass_reads:
  assumes "bind_result (conv_fields (\<lambda>n h x. v2t L h x) (tl_fields L c) kvs) (construct c) = Inr v"
    and field: "\<And>n h dflt x w. (n, h, dflt) \<in> set (tl_fields L c) \<Longrightarrow> dict_get kvs n = Some x \<Longrightarrow> v2t L h x = Inr w \<Longrightarrow> reads L h x w"
  shows "reads L (TDataclass c) (JObj kvs) v"
proof -
  from assms(1) obtain xs where xs: "conv_fields (\<lambda>n h x. v2t L h x) (tl_fields L c) kvs = Inr xs" and "construct c xs = Inr v"
    by (auto simp: bind_result_Inr_iff)
  from construct_items [OF this(2)] obtain fs where fs: "v = VObj c fs" "length fs = length xs"
    "\<And>i. i < length xs \<Longrightarrow> xs ! i = (fst (fs ! i), Some (snd (fs ! i)))" by blast
  note items = conv_fields_items [OF xs]
  show ?thesis unfolding fs(1)
  proof (rule reads_reads_key.intros(16), use fs items in simp, intro allI impI, elim conjE)
    fix i n t dflt assume i: "i < length fs" and spec: "tl_fields L c ! i = (n, t, dflt)"
    have mem: "(n, t, dflt) \<in> set (tl_fields L c)" using spec i items fs(2) nth_mem [of i "tl_fields L c"] by simp
    have "fst (xs ! i) = n \<and> (case dict_get kvs n of None \<Rightarrow> snd (xs ! i) = dflt | Some v \<Rightarrow> \<exists>x. v2t L t v = Inr x \<and> snd (xs ! i) = Some x)"
      using items spec i fs(2) by simp
    then have at: "fst (fs ! i) = n"
      "case dict_get kvs n of None \<Rightarrow> Some (snd (fs ! i)) = dflt | Some v \<Rightarrow> \<exists>x. v2t L t v = Inr x \<and> Some (snd (fs ! i)) = Some x"
      using fs(3) [of i] i fs(2) by (simp_all split: option.splits)
    then show "fst (fs ! i) = n \<and> (dict_get kvs n = None \<longrightarrow> dflt = Some (snd (fs ! i))) \<and>
        (\<forall>x. dict_get kvs n = Some x \<longrightarrow> reads L t x (snd (fs ! i)))"
      using field [OF mem] by (auto split: option.splits)
  qed
qed

lemma v2t_items_reads:
  assumes "bind_result (map_result (\<lambda>(i, x). case item_hint kind args i of Inl err \<Rightarrow> Inl err | Inr t \<Rightarrow> as_type_error (v2t L t x))
      (List.enumerate 0 js)) (collect L kind) = Inr v" "\<not> raw_items args" "iterates j js"
    and item: "\<And>i t w. i < length js \<Longrightarrow> item_hint kind args i = Inr t \<Longrightarrow> v2t L t (js ! i) = Inr w \<Longrightarrow> reads L t (js ! i) w"
  shows "reads L (TIter kind args) j v"
proof -
  from assms(1) obtain vs where vs: "map_result (\<lambda>(i, x). case item_hint kind args i of Inl err \<Rightarrow> Inl err
      | Inr t \<Rightarrow> as_type_error (v2t L t x)) (List.enumerate 0 js) = Inr vs" and v: "collect L kind vs = Inr v"
    by (auto simp: bind_result_Inr_iff)
  note nth = map_result_nth [OF vs]
  have "\<exists>t. position_hint kind args i t \<and> reads L t (js ! i) (vs ! i)" if i: "i < length js" for i
  proof -
    from nth i have "(case item_hint kind args i of Inl err \<Rightarrow> Inl err | Inr t \<Rightarrow> as_type_error (v2t L t (js ! i))) = Inr (vs ! i)"
      by (auto simp: nth_enumerate_eq)
    then obtain t where t: "item_hint kind args i = Inr t" "v2t L t (js ! i) = Inr (vs ! i)" by (auto split: sum.splits)
    then show ?thesis using item [OF i t] item_hint_position [OF assms(2) t(1)] by blast
  qed
  then show ?thesis using assms(3) nth collect_contains [OF v] by (intro reads_reads_key.intros(20) [of j js vs]) auto
qed

lemma v2t_raw_items_reads:
  assumes "collect L kind (map raw js) = Inr v" "raw_items args" "iterates j js"
  shows "reads L (TIter kind args) j v"
  by (rule reads_reads_key.intros(19) [OF assms(3), of "map raw js"])
     (use assms(2) collect_contains [OF assms(1)] in \<open>auto simp: raw_items_def plain_raw\<close>)

definition plain_hint :: "hint \<Rightarrow> bool" where
  "plain_hint h \<longleftrightarrow> (case h of TNewType _ \<Rightarrow> False | TUnion _ \<Rightarrow> False | TMap _ \<Rightarrow> False | TTypedDict _ \<Rightarrow> False
     | TDataclass _ \<Rightarrow> False | TIter _ _ \<Rightarrow> False | _ \<Rightarrow> True)"

lemma byte_of_number: "byte_of j = Inr b \<Longrightarrow> number j = Some (of_nat (of_char b))"
  by (auto simp: byte_of_def split: json.splits if_splits)

lemma bytes_read: "map_result byte_of js = Inr bs \<Longrightarrow> reads L TBytes (JList js) (VBytes bs)"
  using map_result_nth [of byte_of js bs] by (auto intro!: reads_reads_key.intros(8) dest: byte_of_number)

lemma int_reads: "is_number j \<Longrightarrow> to_int j = Inr i \<Longrightarrow> reads L TInt j (VInt i)"
  by (cases j) (auto simp: is_number_def ceiling_def intro: reads_reads_key.intros(4))

lemma float_reads: "is_number j \<Longrightarrow> to_float j = Inr q \<Longrightarrow> reads L TFloat j (VFloat q)"
  by (cases j) (auto simp: is_number_def intro: reads_reads_key.intros(5))

lemma as_int_value_cases: "as_int_value j = Some i \<Longrightarrow> j = JInt i \<or> (\<exists>b. j = JBool b \<and> i = of_bool b)"
  by (cases j) (simp_all add: as_int_value_def of_bool_def)

lemma int_enum_reads: "as_int_value j = Some i \<Longrightarrow> i \<in> set (tl_int_enum L c) \<Longrightarrow> reads L (TIntEnum c) j (VIntEnum c i)"
  by (rule reads_reads_key.intros(17) [OF as_int_value_cases])

lemma literal_reads: "literal_match j args \<Longrightarrow> reads L (TLiteral args) j (raw j)"
  using literal_match_same [of j args] reads_reads_key.intros(12) [OF plain_raw] by blast

lemmas scalar_reads = reads_reads_key.intros(2,3,6,7,9,10,18) bytes_read int_reads float_reads int_enum_reads literal_reads plain_raw

lemma plain_hint_reads:
  "v2t L h j = Inr v \<Longrightarrow> plain_hint h \<Longrightarrow> reads L h j v"
  unfolding plain_hint_def
  by (cases h; hypsubst_thin; simp only: v2t.simps hint.case; (erule custom_or_reads)?)
     (auto intro: scalar_reads simp: bind_result_Inr_iff split: json.splits option.splits if_splits)


definition sample_lib :: type_lib where
  "sample_lib = \<lparr>tl_custom = [], tl_iso = (\<lambda>s. Some (Datetime s True)), tl_uuid = Some, tl_float = (\<lambda>s. None), tl_repr = (\<lambda>q. []),
     tl_fields = (\<lambda>c. [(''id'', TInt, None), (''note'', TUnion [TStr, TNone], Some VNone)]),
     tl_keys = (\<lambda>c. []), tl_int_enum = (\<lambda>c. [1, 2]), tl_str_enum = (\<lambda>c. []), tl_hashable = (\<lambda>c. False)\<rparr>"


end
