(* ===== verification/Convert_Json.thy ===== *)
theory Convert_Json
  imports Convert_Types "HOL-Library.Multiset"
begin

text \<open>
  Encoding user values to JSON (\<open>AdvancedJSONEncoder\<close> and \<open>json.dumps(..., sort_keys=True)\<close> of
  \<open>JSONPlainPayloadConverter\<close>, \<open>dbosify/converter.py\<close>) and its round trip through \<open>value_to_type\<close>. The JSON text is
  represented by the value it denotes.
\<close>

subsection \<open>Encoding\<close>

text \<open>The string a JSON object gets for a key.\<close>

definition key_string :: "type_lib \<Rightarrow> pyval \<Rightarrow> string result" where
  "key_string L k =
     (case k of
        VStr s \<Rightarrow> Inr s
      | VStrEnum c s \<Rightarrow> Inr s
      | VInt i \<Rightarrow> Inr (dec_int i)
      | VIntEnum c i \<Rightarrow> Inr (dec_int i)
      | VBool b \<Rightarrow> Inr (if b then ''true'' else ''false'')
      | VNone \<Rightarrow> Inr ''null''
      | VFloat q \<Rightarrow> Inr (tl_repr L q)
      | _ \<Rightarrow> Inl TypeError)"

definition key_text :: "pyval \<Rightarrow> string option" where
  "key_text k = (case eq_key k of VStr s \<Rightarrow> Some s | _ \<Rightarrow> None)"

definition key_number :: "pyval \<Rightarrow> rat option" where
  "key_number k = (case eq_key k of VFloat q \<Rightarrow> Some q | _ \<Rightarrow> None)"

text \<open>\<open>sorted(d.items())\<close>: all strings, all numbers, or a single key.\<close>

definition sort_items :: "(pyval \<times> 'a) list \<Rightarrow> (pyval \<times> 'a) list result" where
  "sort_items kvs =
     (if list_all (\<lambda>(k, v). key_text k \<noteq> None) kvs then Inr (sort_key (\<lambda>(k, v). the (key_text k)) kvs)
      else if list_all (\<lambda>(k, v). key_number k \<noteq> None) kvs then Inr (sort_key (\<lambda>(k, v). the (key_number k)) kvs)
      else if length kvs \<le> 1 then Inr kvs
      else Inl TypeError)"

definition json_object :: "type_lib \<Rightarrow> (pyval \<times> json) list \<Rightarrow> json result" where
  "json_object L kvs =
     bind_result (sort_items kvs) (\<lambda>kvs.
     bind_result (map_result (\<lambda>(k, v). bind_result (key_string L k) (\<lambda>s. Inr (s, v))) kvs) (\<lambda>items. Inr (JObj items)))"

definition byte_json :: "bytes \<Rightarrow> json" where
  "byte_json b = JList (map (\<lambda>c. JInt (int (of_char c))) b)"

text \<open>A bare \<open>RawValue\<close> is a dataclass to the encoder.\<close>

definition payload_json :: "payload \<Rightarrow> json" where
  "payload_json p = JObj [(''payload'', JObj [(''data'', byte_json (pl_data p)),
     (''metadata'', JObj (sort_key fst (map (\<lambda>(k, v). (k, byte_json v)) (pl_metadata p))))])]"

fun to_json :: "type_lib \<Rightarrow> pyval \<Rightarrow> json result" where
  "to_json L VNone = Inr JNull"
| "to_json L (VBool b) = Inr (JBool b)"
| "to_json L (VInt i) = Inr (JInt i)"
| "to_json L (VFloat q) = Inr (JNum q)"
| "to_json L (VStr s) = Inr (JStr s)"
| "to_json L (VBytes b) = Inr (byte_json b)"
| "to_json L (VDatetime d) = Inr (JStr (iso d))"
| "to_json L (VUuid u) = Inr (JStr u)"
| "to_json L (VList vs) = bind_result (map_result (to_json L) vs) (\<lambda>js. Inr (JList js))"
| "to_json L (VTuple vs) = bind_result (map_result (to_json L) vs) (\<lambda>js. Inr (JList js))"
| "to_json L (VSet vs) = bind_result (map_result (to_json L) vs) (\<lambda>js. Inr (JList js))"
| "to_json L (VDeque vs) = bind_result (map_result (to_json L) vs) (\<lambda>js. Inr (JList js))"
| "to_json L (VDict kvs) =
     bind_result (map_result (\<lambda>(k, v). bind_result (to_json L v) (\<lambda>j. Inr (k, j))) kvs) (json_object L)"
| "to_json L (VObj c fs) =
     bind_result (map_result (\<lambda>(n, v). bind_result (to_json L v) (\<lambda>j. Inr (VStr n, j))) fs) (json_object L)"
| "to_json L (VIntEnum c i) = Inr (JInt i)"
| "to_json L (VStrEnum c s) = Inr (JStr s)"
| "to_json L (VRaw p) = Inr (payload_json p)"
| "to_json L (VOpaque t) = Inl TypeError"

lemma map_result_perm:
  assumes "mset xs = mset ys" "map_result f xs = Inr us"
  shows "\<exists>ws. map_result f ys = Inr ws \<and> mset ws = mset us"
proof -
  have ok: "map_result f zs = Inr (map (\<lambda>z. projr (f z)) zs) \<longleftrightarrow> (\<forall>z\<in>set zs. \<not> isl (f z))" for zs
    by (induction zs) (auto simp: bind_result_def isl_def split: sum.splits)
  have all: "map_result f zs = Inr ws \<Longrightarrow> (\<forall>z\<in>set zs. \<not> isl (f z)) \<and> ws = map (\<lambda>z. projr (f z)) zs" for zs ws
    by (induction zs arbitrary: ws) (auto simp: bind_result_Inr_iff)
  from all [OF assms(2)] have "\<forall>z\<in>set ys. \<not> isl (f z)" "us = map (\<lambda>z. projr (f z)) xs"
    using mset_eq_setD [OF assms(1)] by simp_all
  with ok [of ys] assms(1) show ?thesis by (auto simp: mset_map)
qed

subsection \<open>The text does not depend on the order a dictionary was built in\<close>

lemma key_text_eq: "key_text k = Some s \<longleftrightarrow> eq_key k = VStr s"
  by (simp add: key_text_def split: pyval.split)

lemma key_number_eq: "key_number k = Some q \<longleftrightarrow> eq_key k = VFloat q"
  by (simp add: key_number_def split: pyval.split)

lemma key_inj:
  assumes "distinct (map (eq_key \<circ> fst) kvs)" "list_all (\<lambda>(k, v). f k \<noteq> None) kvs"
    and "\<And>k k' x. f k = Some x \<Longrightarrow> f k' = Some x \<Longrightarrow> eq_key k = eq_key k'"
  shows "inj_on (\<lambda>(k, v). the (f k)) (set kvs)"
proof (rule inj_onI, clarsimp)
  fix k v k' v' assume kv: "(k, v) \<in> set kvs" "(k', v') \<in> set kvs" "the (f k) = the (f k')"
  have "f k \<noteq> None" "f k' \<noteq> None" using assms(2) kv(1,2) by (auto simp: list_all_iff)
  with kv(3) assms(3) [of k _ k'] have "eq_key k = eq_key k'" by auto
  with kv(1,2) assms(1) show "k = k' \<and> v = v'"
    using distinct_map [of "eq_key \<circ> fst" kvs] inj_onD [of "eq_key \<circ> fst" "set kvs" "(k, v)" "(k', v')"] by simp
qed

lemma sort_items_perm:
  assumes "mset xs = mset ys" "distinct (map (eq_key \<circ> fst) xs)"
  shows "sort_items xs = sort_items ys"
proof -
  have set: "set xs = set ys" and len: "length xs = length ys"
    using assms(1) by (metis set_mset_mset, metis size_mset)
  have same: "sort_key (\<lambda>(k, v). the (f k)) xs = sort_key (\<lambda>(k, v). the (f k)) ys"
    if "list_all (\<lambda>(k, v). f k \<noteq> None) xs" "\<And>k k' x. f k = Some x \<Longrightarrow> f k' = Some x \<Longrightarrow> eq_key k = eq_key k'" for f :: "pyval \<Rightarrow> 'c::linorder option"
    by (rule sort_key_inj_key_eq) (use assms(1) key_inj [OF assms(2) that] in simp_all)
  have "xs = ys" if "length xs \<le> 1"
    using that assms(1) by (cases xs) (auto simp: length_Suc_conv)
  with same [of key_text] same [of key_number] show ?thesis
    by (auto simp: sort_items_def list_all_iff set len key_text_eq key_number_eq)
qed

lemma json_object_error: "json_object L kvs = Inl e \<Longrightarrow> e = TypeError"
proof -
  have "map_result (\<lambda>(k, v). bind_result (key_string L k) (\<lambda>s. Inr (s, v))) xs = Inl e \<Longrightarrow> e = TypeError" for xs :: "(pyval \<times> json) list"
    by (induction xs) (auto simp: bind_result_Inl_iff key_string_def split: pyval.splits)
  then show "json_object L kvs = Inl e \<Longrightarrow> e = TypeError"
    by (auto simp: json_object_def bind_result_Inl_iff sort_items_def split: if_splits)
qed

lemma map_result_error: "map_result f xs = Inl e \<Longrightarrow> \<exists>x\<in>set xs. f x = Inl e"
  by (induction xs) (auto simp: bind_result_Inl_iff)

lemma to_json_error: "to_json L v = Inl e \<Longrightarrow> e = TypeError"
  by (induction L v arbitrary: e rule: to_json.induct)
     (auto simp: bind_result_Inl_iff dest!: map_result_error json_object_error)

lemma json_items_keys:
  "map_result (\<lambda>(k, v). bind_result (f v) (\<lambda>j. Inr (k, j))) kvs = Inr js \<Longrightarrow> map fst js = map fst kvs"
  by (induction kvs arbitrary: js) (auto simp: bind_result_Inr_iff)

text \<open>
  Two dictionaries with the same items encode to the same JSON (or both fail), in whatever order the items were
  inserted: replays see the same bytes.
\<close>

theorem dict_json_deterministic:
  assumes "mset xs = mset ys" "distinct (map (eq_key \<circ> fst) xs)"
  shows "to_json L (VDict xs) = to_json L (VDict ys)"
proof -
  let ?f = "\<lambda>(k, v). bind_result (to_json L v) (\<lambda>j. Inr (k, j))"
  have error: "map_result ?f zs = Inl e \<Longrightarrow> e = TypeError" for zs :: "(pyval \<times> pyval) list" and e
    by (auto simp: bind_result_Inl_iff dest!: map_result_error to_json_error)
  show ?thesis
  proof (cases "map_result ?f xs")
    case (Inr us)
    from map_result_perm [OF assms(1) Inr] obtain ws where ws: "map_result ?f ys = Inr ws" "mset ws = mset us" by blast
    have "map (eq_key \<circ> fst) us = map (eq_key \<circ> fst) xs" using json_items_keys [OF Inr] by (metis map_map)
    then have "sort_items us = sort_items ws" using sort_items_perm [OF ws(2) [symmetric]] assms(2) by simp
    then show ?thesis by (simp add: Inr ws(1) json_object_def)
  next
    case (Inl e)
    moreover obtain e' where "map_result ?f ys = Inl e'"
      using map_result_perm [OF assms(1) [symmetric], of ?f] Inl by (cases "map_result ?f ys") auto
    ultimately show ?thesis using error [OF Inl] error [of ys e'] by simp
  qed
qed

theorem dict_json_deterministic_witness:
  "to_json sample_lib (VDict [(VStr ''b'', VInt 1), (VStr ''a'', VInt 2)]) =
     to_json sample_lib (VDict [(VStr ''a'', VInt 2), (VStr ''b'', VInt 1)])"
  by (rule dict_json_deterministic) simp_all

subsection \<open>What survives the round trip\<close>

fun json_sorted :: "json \<Rightarrow> bool" where
  "json_sorted (JObj kvs) \<longleftrightarrow> sorted_wrt (<) (map fst kvs) \<and> list_all (\<lambda>(k, v). json_sorted v) kvs"
| "json_sorted (JList xs) \<longleftrightarrow> list_all json_sorted xs"
| "json_sorted _ \<longleftrightarrow> True"

definition scalar :: "json \<Rightarrow> bool" where
  "scalar j \<longleftrightarrow> (case j of JList _ \<Rightarrow> False | JObj _ \<Rightarrow> False | _ \<Rightarrow> True)"

definition container :: "iter_kind \<Rightarrow> pyval list \<Rightarrow> pyval" where
  "container kind vs = (case kind of KTuple \<Rightarrow> VTuple vs | KSet \<Rightarrow> VSet vs | KDeque \<Rightarrow> VDeque vs | _ \<Rightarrow> VList vs)"

text \<open>
  The values a hint restores: dictionaries with string keys (given in key order), sets of distinct hashable members, and under a
  union no earlier alternative accepts the value's JSON.
\<close>

inductive restorable :: "type_lib \<Rightarrow> hint \<Rightarrow> pyval \<Rightarrow> bool" for L where
  "json_sorted j \<Longrightarrow> restorable L TAny (raw j)"
| "tz_aware d \<Longrightarrow> restorable L TDatetime (VDatetime d)"
| "restorable L TInt (VInt i)"
| "restorable L TFloat (VFloat q)"
| "restorable L TBool (VBool b)"
| "restorable L TStr (VStr s)"
| "restorable L TBytes (VBytes b)"
| "restorable L TNone VNone"
| "tl_uuid L u = Some u \<Longrightarrow> restorable L TUuid (VUuid u)"
| "restorable L h v \<Longrightarrow> restorable L (TNewType h) v"
| "j \<in> set args \<Longrightarrow> scalar j \<Longrightarrow> restorable L (TLiteral args) (raw j)"
| "restorable L h v \<Longrightarrow> \<forall>g\<in>set earlier. \<forall>j. to_json L v = Inr j \<longrightarrow> isl (v2t L g j) \<Longrightarrow>
     restorable L (TUnion (earlier @ h # later)) v"
| "sorted_wrt (<) (map fst kvs) \<Longrightarrow> type_arg args 0 \<in> {None, Some TStr} \<Longrightarrow>
     \<forall>k v. (k, v) \<in> set kvs \<longrightarrow> (type_arg args 1 = None \<longrightarrow> (\<exists>j. v = raw j \<and> json_sorted j)) \<and>
       (\<forall>t. type_arg args 1 = Some t \<longrightarrow> restorable L t v) \<Longrightarrow>
     restorable L (TMap args) (VDict (map (\<lambda>(k, v). (VStr k, v)) kvs))"
| "sorted_wrt (<) (map fst kvs) \<Longrightarrow>
     \<forall>k v. (k, v) \<in> set kvs \<longrightarrow> (dict_get (tl_keys L c) k = None \<longrightarrow> (\<exists>j. v = raw j \<and> json_sorted j)) \<and>
       (\<forall>t. dict_get (tl_keys L c) k = Some t \<longrightarrow> restorable L t v) \<Longrightarrow>
     restorable L (TTypedDict c) (VDict (map (\<lambda>(k, v). (VStr k, v)) kvs))"
| "distinct (map fst (tl_fields L c)) \<Longrightarrow> map fst fs = map fst (tl_fields L c) \<Longrightarrow>
     \<forall>i n h dflt. i < length fs \<and> tl_fields L c ! i = (n, h, dflt) \<longrightarrow> restorable L h (snd (fs ! i)) \<Longrightarrow>
     restorable L (TDataclass c) (VObj c fs)"
| "i \<in> set (tl_int_enum L c) \<Longrightarrow> restorable L (TIntEnum c) (VIntEnum c i)"
| "s \<in> set (tl_str_enum L c) \<Longrightarrow> restorable L (TStrEnum c) (VStrEnum c s)"
| "kind = KSet \<longrightarrow> list_all (hashable L) vs \<and> distinct (map eq_key vs) \<Longrightarrow>
     \<forall>i<length vs. (raw_items args \<and> (\<exists>j. vs ! i = raw j \<and> json_sorted j)) \<or>
       (\<not> raw_items args \<and> (\<exists>t. item_hint kind args i = Inr t \<and> restorable L t (vs ! i))) \<Longrightarrow>
     restorable L (TIter kind args) (container kind vs)"

lemma insort_key_map: "insort_key f (g x) (map g xs) = map g (insort_key (\<lambda>y. f (g y)) x xs)"
  by (induction xs) auto

lemma sort_key_map: "sort_key f (map g xs) = map g (sort_key (\<lambda>y. f (g y)) xs)"
  by (induction xs) (simp_all add: insort_key_map)

lemma json_object_strings:
  "json_object L (map (\<lambda>(n, j). (VStr n, j)) fs) = Inr (JObj (sort_key fst fs))"
proof -
  have "sort_items (map (\<lambda>(n, j). (VStr n, j)) fs) = Inr (map (\<lambda>(n, j). (VStr n, j)) (sort_key fst fs))"
    by (auto simp: sort_items_def list_all_iff key_text_def sort_key_map case_prod_beta)
  moreover have "map_result (\<lambda>(k, v). bind_result (key_string L k) (\<lambda>s. Inr (s, v))) (map (\<lambda>(n, j). (VStr n, j)) xs) = Inr xs"
    for xs :: "(string \<times> json) list"
    by (induction xs) (auto simp: key_string_def)
  ultimately show ?thesis by (simp add: json_object_def)
qed

lemma strictly_sorted: "sorted_wrt (<) (map fst xs) \<Longrightarrow> sort_key fst xs = xs \<and> distinct (map fst (xs :: (string \<times> 'a) list))"
  by (simp add: strict_sorted_iff sort_key_id_if_sorted)

lemma sorted_fields: "distinct (map fst xs) \<Longrightarrow> sorted_wrt (<) (map fst (sort_key fst (xs :: (string \<times> 'a) list)))"
  by (simp add: strict_sorted_iff) (metis distinct_sort distinct_map mset_map mset_sort mset_eq_imp_distinct_iff)

lemma raw_json: "json_sorted j \<Longrightarrow> to_json L (raw j) = Inr j"
proof (induction j)
  case (JList xs)
  then have "map_result (to_json L) (map raw xs) = Inr xs" by (induction xs) auto
  then show ?case by simp
next
  case (JObj kvs)
  have "map_result (\<lambda>(k, v). bind_result (to_json L v) (\<lambda>j. Inr (k, j))) (map (\<lambda>(k, v). (VStr k, raw v)) xs) =
      Inr (map (\<lambda>(n, j). (VStr n, j)) xs)" if "list_all (\<lambda>(k, v). to_json L (raw v) = Inr v) xs" for xs :: "(string \<times> json) list"
    using that by (induction xs) auto
  moreover have "list_all (\<lambda>(k, v). to_json L (raw v) = Inr v) kvs"
    using JObj by (force simp: list_all_iff)
  ultimately show ?case using JObj.prems by (simp add: json_object_strings strictly_sorted)
qed simp_all

lemma pdict_set_new: "eq_key k \<notin> eq_key ` fst ` set d \<Longrightarrow> pdict_set k v d = d @ [(k, v)]"
  by (induction k v d rule: pdict_set.induct) auto

lemma conv_items_strings:
  assumes "list_all2 (\<lambda>(k, x) (n, w). n = k \<and> fk k = Inr (VStr k) \<and> fv k x = Inr w) kvs ws" "distinct (map fst kvs @ map fst d)"
  shows "conv_items fk fv kvs L (map (\<lambda>(n, w). (VStr n, w)) d) = Inr (map (\<lambda>(n, w). (VStr n, w)) (d @ ws))"
  using assms
proof (induction kvs ws arbitrary: d rule: list_all2_induct)
  case (Cons kx kvs nw ws)
  obtain k x w where kx: "kx = (k, x)" "nw = (k, w)" "fk k = Inr (VStr k)" "fv k x = Inr w"
    using Cons.hyps(1) by (cases kx; cases nw) auto
  have "pdict_set (VStr k) w (map (\<lambda>(n, w). (VStr n, w)) d) = map (\<lambda>(n, w). (VStr n, w)) (d @ [(k, w)])"
    using Cons.prems kx by (subst pdict_set_new) (force simp: image_iff)+
  moreover have "distinct (map fst kvs @ map fst (d @ [(k, w)]))" using Cons.prems kx by auto
  ultimately show ?case using Cons.IH [of "d @ [(k, w)]"] kx by simp
qed simp

lemma encode_items:
  assumes "\<forall>k v. (k, v) \<in> set kvs \<longrightarrow> (\<exists>j. to_json L v = Inr j \<and> P k v j)"
  shows "\<exists>js. map_result (\<lambda>(k, v). bind_result (to_json L v) (\<lambda>j. Inr (k, j))) (map (\<lambda>(k, v). (VStr k, v)) kvs) =
      Inr (map (\<lambda>(n, j). (VStr n, j)) js) \<and> list_all2 (\<lambda>(n, j) (k, v). n = k \<and> to_json L v = Inr j \<and> P k v j) js kvs"
  using assms
proof (induction kvs)
  case (Cons kv kvs)
  obtain k v where kv: "kv = (k, v)" by (cases kv)
  with Cons.prems obtain j where j: "to_json L v = Inr j" "P k v j" by auto
  from Cons obtain js where js: "map_result (\<lambda>(k, v). bind_result (to_json L v) (\<lambda>j. Inr (k, j))) (map (\<lambda>(k, v). (VStr k, v)) kvs) =
      Inr (map (\<lambda>(n, j). (VStr n, j)) js)" "list_all2 (\<lambda>(n, j) (k, v). n = k \<and> to_json L v = Inr j \<and> P k v j) js kvs" by auto
  with j kv show ?case by (intro exI [of _ "(k, j) # js"]) simp
qed simp

lemma same_keys: "list_all2 (\<lambda>(n, j) (k, v). n = k) js kvs \<Longrightarrow> map fst js = map fst kvs"
  by (induction js kvs rule: list_all2_induct) auto

text \<open>A dictionary with string keys, encoded and decoded by its key and value readers.\<close>

lemma string_dict_roundtrip:
  assumes "sorted_wrt (<) (map fst kvs)"
    and items: "\<forall>k v. (k, v) \<in> set kvs \<longrightarrow> (\<exists>j. to_json L v = Inr j \<and> fk k = Inr (VStr k) \<and> fv k j = Inr v \<and> json_sorted j)"
  shows "\<exists>js. to_json L (VDict (map (\<lambda>(k, v). (VStr k, v)) kvs)) = Inr (JObj js) \<and> json_sorted (JObj js) \<and>
    conv_items fk fv js L [] = Inr (map (\<lambda>(k, v). (VStr k, v)) kvs)"
proof -
  from encode_items [OF items] obtain js where
    enc: "map_result (\<lambda>(k, v). bind_result (to_json L v) (\<lambda>j. Inr (k, j))) (map (\<lambda>(k, v). (VStr k, v)) kvs) =
      Inr (map (\<lambda>(n, j). (VStr n, j)) js)"
    and js: "list_all2 (\<lambda>(n, j) (k, v). n = k \<and> to_json L v = Inr j \<and> fk k = Inr (VStr k) \<and> fv k j = Inr v \<and> json_sorted j) js kvs"
    by blast
  have keys: "map fst js = map fst kvs"
    by (rule same_keys, rule list_all2_mono [OF js]) auto
  have "list_all (\<lambda>(k, v). json_sorted v) js"
    using js by (auto simp: list_all_length list_all2_conv_all_nth case_prod_beta)
  moreover have "list_all2 (\<lambda>(k, x) (n, w). n = k \<and> fk k = Inr (VStr k) \<and> fv k x = Inr w) js kvs"
    using js by (rule list_all2_mono) auto
  from conv_items_strings [OF this, of "[]" L] have "conv_items fk fv js L [] = Inr (map (\<lambda>(k, v). (VStr k, v)) kvs)"
    using assms(1) keys by (simp add: strict_sorted_iff)
  ultimately show ?thesis
    using assms(1) keys by (intro exI [of _ js]) (simp add: enc json_object_strings strictly_sorted)
qed

lemma map_result_compose: "map_result f (map g xs) = map_result (\<lambda>x. f (g x)) xs"
  by (induction xs) simp_all

lemma object_as_dict: "to_json L (VObj c fs) = to_json L (VDict (map (\<lambda>(k, v). (VStr k, v)) fs))"
  by (simp add: map_result_compose case_prod_unfold)

lemma conv_fields_found:
  "list_all2 (\<lambda>(n, h, dflt) (n', v). n' = n \<and> (\<exists>j. dict_get d n = Some j \<and> f n h j = Inr v)) specs fs \<Longrightarrow>
     conv_fields f specs d = Inr (map (\<lambda>(n, v). (n, Some v)) fs)"
  by (induction specs fs rule: list_all2_induct) (auto simp: as_type_error_def)

lemma construct_all: "construct c (map (\<lambda>(n, v). (n, Some v)) fs) = Inr (VObj c fs)"
  by (auto simp: construct_def list_all_iff case_prod_unfold comp_def)

lemma dict_get_sorted:
  assumes "distinct (map fst js)"
  shows "dict_get (sort_key fst js) n = dict_get (js :: (string \<times> 'a) list) n"
proof -
  have "distinct (map fst (sort_key fst js))" using strictly_sorted [OF sorted_fields [OF assms]] by blast
  then have "map_of (sort_key fst js) = map_of js" using assms by (simp add: map_of_inject_set)
  then show ?thesis by (simp add: dict_get_def)
qed

text \<open>A dataclass, encoded as the object of its fields and rebuilt field by field.\<close>

lemma dataclass_roundtrip:
  assumes "distinct (map fst specs)" "map fst fs = map fst specs"
    and field: "\<And>i n h dflt. i < length fs \<Longrightarrow> specs ! i = (n, h, dflt) \<Longrightarrow>
      \<exists>j. to_json L (snd (fs ! i)) = Inr j \<and> f n h j = Inr (snd (fs ! i)) \<and> json_sorted j"
  shows "\<exists>js. to_json L (VObj c fs) = Inr (JObj js) \<and> json_sorted (JObj js) \<and>
    bind_result (conv_fields f specs js) (construct c) = Inr (VObj c fs)"
proof -
  have len: "length fs = length specs" using arg_cong [OF assms(2), of length] by simp
  have name: "fst (fs ! i) = fst (specs ! i)" if "i < length fs" for i
    using assms(2) that len by (metis nth_map)
  let ?P = "\<lambda>k v j. json_sorted j \<and> (\<forall>h dflt. (k, h, dflt) \<in> set specs \<longrightarrow> f k h j = Inr v)"
  have "\<exists>j. to_json L v = Inr j \<and> ?P k v j" if "(k, v) \<in> set fs" for k v
  proof -
    from that obtain i where i: "i < length fs" "fs ! i = (k, v)" by (metis in_set_conv_nth)
    obtain n h dflt where spec: "specs ! i = (n, h, dflt)" by (cases "specs ! i")
    have n: "n = k" using name [OF i(1)] i(2) spec by simp
    have "h' = h" if "(k, h', d') \<in> set specs" for h' d'
      using that assms(1) spec n i len nth_mem [of i specs]
      by (metis eq_key_imp_eq_value prod.inject)
    with field [OF i(1) spec] i(2) n show ?thesis by auto
  qed
  then have "\<forall>k v. (k, v) \<in> set fs \<longrightarrow> (\<exists>j. to_json L v = Inr j \<and> ?P k v j)" by blast
  from encode_items [OF this] obtain js where
    enc: "map_result (\<lambda>(k, v). bind_result (to_json L v) (\<lambda>j. Inr (k, j))) (map (\<lambda>(k, v). (VStr k, v)) fs) =
      Inr (map (\<lambda>(n, j). (VStr n, j)) js)"
    and js: "list_all2 (\<lambda>(n, j) (k, v). n = k \<and> to_json L v = Inr j \<and> ?P k v j) js fs" by blast
  have keys: "map fst js = map fst fs"
    by (rule same_keys, rule list_all2_mono [OF js]) auto
  have dist: "distinct (map fst js)" using keys assms(1,2) by simp
  have sorted: "list_all (\<lambda>(k, v). json_sorted v) js"
    using js by (auto simp: list_all_length list_all2_conv_all_nth case_prod_beta)
  have "list_all2 (\<lambda>(n, h, dflt) (n', v). n' = n \<and> (\<exists>j. dict_get (sort_key fst js) n = Some j \<and> f n h j = Inr v)) specs fs"
  proof (rule list_all2_all_nthI)
    fix i assume i: "i < length specs"
    obtain n h dflt where spec: "specs ! i = (n, h, dflt)" by (cases "specs ! i")
    have "(case js ! i of (n, j) \<Rightarrow> \<lambda>(k, v). n = k \<and> to_json L v = Inr j \<and> ?P k v j) (fs ! i)"
      using js i len by (simp add: list_all2_conv_all_nth)
    then obtain j where j: "js ! i = (n, j)" "?P n (snd (fs ! i)) j"
      using name [of i] spec i len by (cases "js ! i"; cases "fs ! i") auto
    have "dict_get (sort_key fst js) n = Some j"
    proof -
      have "(n, j) \<in> set js" using j(1) i len list_all2_lengthD [OF js] nth_mem [of i js] by simp
      with dist have "dict_get js n = Some j" by (simp add: dict_get_def)
      then show ?thesis by (simp only: dict_get_sorted [OF dist])
    qed
    then show "(case specs ! i of (n, h, dflt) \<Rightarrow> \<lambda>(n', v). n' = n \<and> (\<exists>j. dict_get (sort_key fst js) n = Some j \<and> f n h j = Inr v)) (fs ! i)"
      using j spec nth_mem [OF i] name [of i] i len by (cases "fs ! i") auto
  qed (use len in simp)
  from conv_fields_found [OF this] show ?thesis
    using sorted_fields [OF dist] sorted
    by (intro exI [of _ "sort_key fst js"]) (simp add: object_as_dict enc json_object_strings construct_all list_all_iff del: to_json.simps(14))
qed

lemma py_set_distinct:
  "distinct (map eq_key (rev seen @ vs)) \<Longrightarrow> py_set seen vs = rev seen @ vs"
  by (induction seen vs rule: py_set.induct) auto

lemma collect_container:
  "(kind = KSet \<longrightarrow> list_all (hashable L) vs \<and> distinct (map eq_key vs)) \<Longrightarrow> collect L kind vs = Inr (container kind vs)"
  using py_set_distinct [of "[]" vs] by (cases kind) (simp_all add: collect_def container_def)

lemma container_json: "to_json L (container kind vs) = bind_result (map_result (to_json L) vs) (\<lambda>js. Inr (JList js))"
  by (cases kind) (simp_all add: container_def)

lemma map_result_list_all2: "map_result f xs = Inr ys \<longleftrightarrow> list_all2 (\<lambda>x y. f x = Inr y) xs ys"
  by (induction xs arbitrary: ys) (auto simp: bind_result_Inr_iff list_all2_Cons1)

lemma items_roundtrip:
  assumes set_ok: "kind = KSet \<longrightarrow> list_all (hashable L) vs \<and> distinct (map eq_key vs)"
    and items: "\<And>i. i < length vs \<Longrightarrow> \<exists>j. to_json L (vs ! i) = Inr j \<and> json_sorted j \<and>
      (if raw_items args then vs ! i = raw j else \<exists>t. item_hint kind args i = Inr t \<and> f t j = Inr (vs ! i))"
  shows "\<exists>js. to_json L (container kind vs) = Inr (JList js) \<and> json_sorted (JList js) \<and>
    (if raw_items args then collect L kind (map raw js)
     else bind_result (map_result (\<lambda>(i, x). case item_hint kind args i of Inl err \<Rightarrow> Inl err
               | Inr t \<Rightarrow> as_type_error (f t x)) (List.enumerate 0 js)) (collect L kind)) = Inr (container kind vs)"
proof -
  from items have "\<forall>i<length vs. \<exists>j. to_json L (vs ! i) = Inr j \<and> json_sorted j \<and>
      (if raw_items args then vs ! i = raw j else \<exists>t. item_hint kind args i = Inr t \<and> f t j = Inr (vs ! i))" by blast
  then obtain js where len: "length js = length vs" and js: "\<And>i. i < length vs \<Longrightarrow> to_json L (vs ! i) = Inr (js ! i) \<and> json_sorted (js ! i) \<and>
      (if raw_items args then vs ! i = raw (js ! i) else \<exists>t. item_hint kind args i = Inr t \<and> f t (js ! i) = Inr (vs ! i))"
    unfolding Skolem_list_nth by blast
  have enc: "map_result (to_json L) vs = Inr js"
    using len js by (simp add: map_result_list_all2 list_all2_conv_all_nth)
  have sorted: "list_all json_sorted js" using len js by (simp add: list_all_length)
  have raw: "map raw js = vs" if "raw_items args" using that len js by (simp add: list_eq_iff_nth_eq)
  have dec: "map_result (\<lambda>(i, x). case item_hint kind args i of Inl err \<Rightarrow> Inl err | Inr t \<Rightarrow> as_type_error (f t x))
      (List.enumerate 0 js) = Inr vs" if "\<not> raw_items args"
    using that len js by (fastforce simp: map_result_list_all2 list_all2_conv_all_nth nth_enumerate_eq split: sum.split)
  show ?thesis
    using raw dec by (intro exI [of _ js]) (simp add: container_json enc sorted collect_container [OF set_ok])
qed

text \<open>The readers of the class library: no custom converters, ISO datetimes read back.\<close>

definition plain_lib :: "type_lib \<Rightarrow> bool" where
  "plain_lib L \<longleftrightarrow> tl_custom L = [] \<and> (\<forall>d. tz_aware d \<longrightarrow> tl_iso L (iso d) = Some d)"

lemma custom_or_plain: "plain_lib L \<Longrightarrow> custom_or L h v r = r"
  by (simp add: plain_lib_def custom_or_def List.map_filter_def)

lemma bytes_roundtrip: "v2t L TBytes (byte_json b) = custom_or L TBytes (byte_json b) (Inr (VBytes b))"
proof -
  have "map_result byte_of (map (\<lambda>c. JInt (int (of_char c))) b) = Inr b"
  proof (induction b)
    case (Cons c b)
    have "of_char c < (256 :: nat)" by (simp add: of_char_def)
    with Cons show ?case by (simp add: byte_of_def)
  qed simp
  then show ?thesis by (simp add: byte_json_def)
qed

lemma scalar_sorted: "scalar j \<Longrightarrow> json_sorted j"
  by (cases j) (simp_all add: scalar_def)

lemma first_ok_skips: "\<forall>g\<in>set earlier. isl (f g) \<Longrightarrow> f h = Inr v \<Longrightarrow> first_ok f (earlier @ h # later) = Inr v"
  by (induction earlier) (auto simp: isl_def)

lemma json_roundtrip:
  assumes "plain_lib L" "restorable L h v"
  shows "\<exists>j. to_json L v = Inr j \<and> v2t L h j = Inr v \<and> json_sorted j"
  using assms(2)
proof (induction rule: restorable.induct)
  case (7 b)
  have "json_sorted (byte_json b)" by (simp add: byte_json_def list_all_iff)
  then show ?case by (simp add: bytes_roundtrip custom_or_plain [OF assms(1)] del: v2t.simps)
next
  case (12 h v earlier later)
  then obtain j where "to_json L v = Inr j" "v2t L h j = Inr v" "json_sorted j" by blast
  moreover from this(1) 12 have "\<forall>g\<in>set earlier. isl (v2t L g j)" by blast
  ultimately show ?case using first_ok_skips [of earlier "\<lambda>h. v2t L h j" h v later] by (simp add: custom_or_plain [OF assms(1)])
next
  case (13 kvs args)
  have "\<exists>js. to_json L (VDict (map (\<lambda>(k, v). (VStr k, v)) kvs)) = Inr (JObj js) \<and> json_sorted (JObj js) \<and>
    conv_items (\<lambda>k. conv_key (\<lambda>t j. v2t L t j) L (type_arg args 0) k)
      (\<lambda>k x. case type_arg args 1 of None \<Rightarrow> Inr (raw x) | Some t \<Rightarrow> as_type_error (v2t L t x)) js L [] =
      Inr (map (\<lambda>(k, v). (VStr k, v)) kvs)"
  proof (rule string_dict_roundtrip [OF 13(1)], intro allI impI)
    fix k v assume kv: "(k, v) \<in> set kvs"
    have "conv_key (\<lambda>t j. v2t L t j) L (type_arg args 0) k = Inr (VStr k)" using 13(2) by (auto simp: conv_key_def)
    then show "\<exists>j. to_json L v = Inr j \<and> conv_key (\<lambda>t j. v2t L t j) L (type_arg args 0) k = Inr (VStr k) \<and>
        (case type_arg args 1 of None \<Rightarrow> Inr (raw j) | Some t \<Rightarrow> as_type_error (v2t L t j)) = Inr v \<and> json_sorted j"
      using 13(3) kv by (cases "type_arg args 1") (auto dest!: spec [of _ k] spec [of _ v] intro: raw_json)
  qed
  then show ?case by (auto simp: custom_or_plain [OF assms(1)] simp del: to_json.simps)
next
  case (14 kvs c)
  have "\<exists>js. to_json L (VDict (map (\<lambda>(k, v). (VStr k, v)) kvs)) = Inr (JObj js) \<and> json_sorted (JObj js) \<and>
    conv_items (\<lambda>k. Inr (VStr k))
      (\<lambda>k x. case dict_get (tl_keys L c) k of None \<Rightarrow> Inr (raw x) | Some t \<Rightarrow> as_type_error (v2t L t x)) js L [] =
      Inr (map (\<lambda>(k, v). (VStr k, v)) kvs)"
  proof (rule string_dict_roundtrip [OF 14(1)], intro allI impI)
    fix k v assume kv: "(k, v) \<in> set kvs"
    then show "\<exists>j. to_json L v = Inr j \<and> Inr (VStr k) = (Inr (VStr k) :: pyval result) \<and>
        (case dict_get (tl_keys L c) k of None \<Rightarrow> Inr (raw j) | Some t \<Rightarrow> as_type_error (v2t L t j)) = Inr v \<and> json_sorted j"
      using 14(2) by (cases "dict_get (tl_keys L c) k") (auto dest!: spec [of _ k] spec [of _ v] intro: raw_json)
  qed
  then show ?case by (auto simp: custom_or_plain [OF assms(1)] simp del: to_json.simps)
next
  case (15 c fs)
  have "\<exists>js. to_json L (VObj c fs) = Inr (JObj js) \<and> json_sorted (JObj js) \<and>
    bind_result (conv_fields (\<lambda>n h x. v2t L h x) (tl_fields L c) js) (construct c) = Inr (VObj c fs)"
    using 15(3) by (intro dataclass_roundtrip 15(1,2)) blast
  then show ?case by (auto simp: custom_or_plain [OF assms(1)] simp del: to_json.simps)
next
  case (18 kind vs args)
  have "\<exists>js. to_json L (container kind vs) = Inr (JList js) \<and> json_sorted (JList js) \<and>
    (if raw_items args then collect L kind (map raw js)
     else bind_result (map_result (\<lambda>(i, x). case item_hint kind args i of Inl err \<Rightarrow> Inl err
               | Inr t \<Rightarrow> as_type_error (v2t L t x)) (List.enumerate 0 js)) (collect L kind)) = Inr (container kind vs)"
  proof (rule items_roundtrip [OF 18(1)])
    fix i assume "i < length vs"
    with 18(2) show "\<exists>j. to_json L (vs ! i) = Inr j \<and> json_sorted j \<and>
      (if raw_items args then vs ! i = raw j else \<exists>t. item_hint kind args i = Inr t \<and> v2t L t j = Inr (vs ! i))"
      by (metis raw_json)
  qed
  then show ?case by (auto simp: custom_or_plain [OF assms(1)] simp del: to_json.simps)
qed (use assms(1) in \<open>auto simp: custom_or_plain raw_json scalar_sorted literal_match_def is_number_def as_int_value_def plain_lib_def\<close>)

end
