(* ===== verification/Converter.thy ===== *)
theory Converter
  imports Convert_Json "HOL-Library.Countable"
begin

text \<open>
  Payload conversion and the checkpoint form of payloads (\<open>CompositePayloadConverter\<close>, \<open>DefaultPayloadConverter\<close>,
  \<open>DataConverter\<close> of \<open>dbosify/converter.py\<close>; \<open>dbosify/_internal/conversion.py\<close>). Parameters: the JSON text format, the
  user's codec, the class library of type hints. Serialization contexts are not modelled.
\<close>

subsection \<open>Base 64\<close>

definition b64_alphabet :: string where
  "b64_alphabet = ''ABCDEFGHIJKLMNOPQRSTUVWXYZabcdefghijklmnopqrstuvwxyz0123456789+/''"

definition b64_char :: "nat \<Rightarrow> char" where "b64_char n = b64_alphabet ! n"

definition b64_val :: "char \<Rightarrow> nat option" where
  "b64_val c = find (\<lambda>n. b64_char n = c) [0..<64]"

fun b64encode :: "bytes \<Rightarrow> string" where
  "b64encode [] = []"
| "b64encode [a] = (let n = of_char a * 65536 in [b64_char (n div 262144), b64_char (n div 4096 mod 64), CHR ''='', CHR ''=''])"
| "b64encode [a, b] = (let n = of_char a * 65536 + of_char b * 256
     in [b64_char (n div 262144), b64_char (n div 4096 mod 64), b64_char (n div 64 mod 64), CHR ''=''])"
| "b64encode (a # b # c # s) = (let n = of_char a * 65536 + of_char b * 256 + of_char c
     in [b64_char (n div 262144), b64_char (n div 4096 mod 64), b64_char (n div 64 mod 64), b64_char (n mod 64)] @ b64encode s)"

fun b64decode :: "string \<Rightarrow> bytes result" where
  "b64decode [] = Inr []"
| "b64decode (w # x # y # z # s) =
     (case (b64_val w, b64_val x) of
        (Some w, Some x) \<Rightarrow>
          (if y = CHR ''='' \<and> z = CHR ''='' \<and> s = [] then Inr [char_of ((w * 262144 + x * 4096) div 65536)]
           else case b64_val y of
              None \<Rightarrow> Inl ValueError
            | Some y \<Rightarrow>
                if z = CHR ''='' \<and> s = []
                then Inr [char_of ((w * 262144 + x * 4096 + y * 64) div 65536), char_of ((w * 262144 + x * 4096 + y * 64) div 256 mod 256)]
                else (case b64_val z of
                    None \<Rightarrow> Inl ValueError
                  | Some z \<Rightarrow> bind_result (b64decode s) (\<lambda>r. let n = w * 262144 + x * 4096 + y * 64 + z
                      in Inr ([char_of (n div 65536), char_of (n div 256 mod 256), char_of (n mod 256)] @ r))))
      | _ \<Rightarrow> Inl ValueError)"
| "b64decode _ = Inl ValueError"

lemma b64_val_char: "n < 64 \<Longrightarrow> b64_val (b64_char n) = Some n"
proof -
  have "list_all (\<lambda>n. b64_val (b64_char n) = Some n) [0..<64]" by code_simp
  then show "n < 64 \<Longrightarrow> b64_val (b64_char n) = Some n" by (simp add: list_all_iff)
qed

lemma b64_pad: "b64_val (CHR ''='') = None"
  by code_simp

lemma b64_char_pad: "n < 64 \<Longrightarrow> b64_char n \<noteq> CHR ''=''"
  using b64_val_char [of n] b64_pad by auto

lemma of_char_256: "of_char c < (256 :: nat)"
  by (simp add: of_char_def)

lemma b64_digits:
  "n div 262144 * 262144 + n div 4096 mod 64 * 4096 + n div 64 mod 64 * 64 + n mod 64 = (n :: nat)"
proof -
  have d: "n div 4096 = n div 64 div 64" "n div 262144 = n div 64 div 64 div 64"
    by (simp_all add: div_mult2_eq [symmetric])
  show ?thesis unfolding d
    using mult_div_mod_eq [of 64 n] mult_div_mod_eq [of 64 "n div 64"] mult_div_mod_eq [of 64 "n div 64 div 64"] by linarith
qed

lemma b64_bytes:
  fixes a b c n :: nat
  assumes "n = a * 65536 + b * 256 + c" "a < 256" "b < 256" "c < 256"
  shows "n div 262144 < 64" "n div 65536 = a" "n div 256 mod 256 = b" "n mod 256 = c"
proof -
  show "n div 262144 < 64" using assms by (simp add: less_mult_imp_div_less)
  show "n div 65536 = a" by (rule div_nat_eqI) (use assms in simp_all)
  have "n div 256 = a * 256 + b" by (rule div_nat_eqI) (use assms in simp_all)
  then show "n div 256 mod 256 = b" using assms(3) by simp
  have "n = (a * 256 + b) * 256 + c" by (simp add: assms(1))
  then show "n mod 256 = c" using assms(4) by (simp only: mod_mult_self3 mod_less)
qed

lemma b64_group:
  fixes n :: nat
  assumes "n = of_char a * 65536 + of_char b * 256 + of_char c"
  shows "n div 262144 < 64" "char_of (n div 65536) = a" "char_of (n div 256 mod 256) = b" "char_of (n mod 256) = c"
  using b64_bytes [OF assms of_char_256 of_char_256 of_char_256] by simp_all

lemma b64_roundtrip: "b64decode (b64encode s) = Inr s"
proof (induction s rule: b64encode.induct)
  case (2 a)
  define n :: nat where "n = of_char a * 65536"
  have g: "n div 262144 < 64" "char_of (n div 65536) = a"
    using b64_group [of n a "char_of (0 :: nat)" "char_of (0 :: nat)"] by (simp_all add: n_def)
  have "n = of_char a * 1024 * 64" "n div 64 = of_char a * 16 * 64" by (simp_all add: n_def)
  then have "n mod 64 = 0" "n div 64 mod 64 = 0" by (simp_all only: mod_mult_self2_is_0)
  with b64_digits [of n] have "n div 262144 * 262144 + n div 4096 mod 64 * 4096 = n" by simp
  then show ?case using g unfolding b64encode.simps Let_def n_def [symmetric] by (simp add: b64_val_char)
next
  case (3 a b)
  define n :: nat where "n = of_char a * 65536 + of_char b * 256"
  have g: "n div 262144 < 64" "char_of (n div 65536) = a" "char_of (n div 256 mod 256) = b"
    using b64_group [of n a b "char_of (0 :: nat)"] by (simp_all add: n_def)
  have "n = (of_char a * 1024 + of_char b * 4) * 64" by (simp add: n_def)
  then have "n mod 64 = 0" by (simp only: mod_mult_self2_is_0)
  with b64_digits [of n] have "n div 262144 * 262144 + n div 4096 mod 64 * 4096 + n div 64 mod 64 * 64 = n" by simp
  then show ?case using g unfolding b64encode.simps Let_def n_def [symmetric] by (simp add: b64_val_char b64_char_pad)
next
  case (4 a b c s)
  define n :: nat where "n = of_char a * 65536 + of_char b * 256 + of_char c"
  note g = b64_group [OF n_def]
  show ?case using g 4 unfolding b64encode.simps Let_def n_def [symmetric]
    by (simp add: b64_val_char b64_char_pad b64_digits Let_def)
qed simp

subsection \<open>Payload converters\<close>

record enc_converter =
  ec_encoding :: string
  ec_to :: "pyval \<Rightarrow> payload option result"
  ec_from :: "payload \<Rightarrow> hint option \<Rightarrow> pyval result"

type_synonym converters = "(string, enc_converter) dict"

text \<open>\<open>{c.encoding.encode(): c for c in converters}\<close>.\<close>

definition composite :: "enc_converter list \<Rightarrow> converters" where
  "composite cs = fold (\<lambda>c d. dict_set (ec_encoding c) c d) cs []"

fun try_converters :: "enc_converter list \<Rightarrow> pyval \<Rightarrow> payload option result" where
  "try_converters [] v = Inr None"
| "try_converters (c # cs) v =
     bind_result (ec_to c v) (\<lambda>r. case r of Some p \<Rightarrow> Inr (Some p) | None \<Rightarrow> try_converters cs v)"

definition to_payload :: "converters \<Rightarrow> pyval \<Rightarrow> payload result" where
  "to_payload cs v =
     (case v of
        VRaw p \<Rightarrow> Inr p
      | _ \<Rightarrow> bind_result (try_converters (map snd cs) v) (\<lambda>r. case r of Some p \<Rightarrow> Inr p | None \<Rightarrow> Inl RuntimeError))"

definition to_payloads :: "converters \<Rightarrow> pyval list \<Rightarrow> payload list result" where
  "to_payloads cs vs = map_result (to_payload cs) vs"

definition RawValue :: hint where "RawValue = TDataclass ''RawValue''"

definition encoding_of :: "payload \<Rightarrow> string \<Rightarrow> string" where
  "encoding_of p dflt = (case dict_get (pl_metadata p) ''encoding'' of Some e \<Rightarrow> e | None \<Rightarrow> dflt)"

definition from_payload :: "converters \<Rightarrow> payload \<Rightarrow> hint option \<Rightarrow> pyval result" where
  "from_payload cs p h =
     (if h = Some RawValue then Inr (VRaw p)
      else case dict_get cs (encoding_of p ''<unknown>'') of
        None \<Rightarrow> Inl KeyError
      | Some c \<Rightarrow> ec_from c p h)"

text \<open>\<open>zip_longest(payloads, hints)\<close>; a hint without a payload is not a payload.\<close>

definition from_payloads :: "converters \<Rightarrow> payload list \<Rightarrow> hint list option \<Rightarrow> pyval list result" where
  "from_payloads cs ps hints =
     (let hs = map Some (case hints of Some hs \<Rightarrow> hs | None \<Rightarrow> [])
      in bind_result (map_result (\<lambda>(p, h). from_payload cs p h) (zip ps (hs @ replicate (length ps - length hs) None)))
           (\<lambda>vs. if length ps < length hs then Inl AttributeError else Inr vs))"

text \<open>The JSON text format.\<close>

record json_text =
  jt_text :: "json \<Rightarrow> bytes"
  jt_loads :: "bytes \<Rightarrow> json option"

definition null_converter :: enc_converter where
  "null_converter = \<lparr>ec_encoding = ''binary/null'',
     ec_to = (\<lambda>v. Inr (if v = VNone then Some \<lparr>pl_metadata = [(''encoding'', ''binary/null'')], pl_data = []\<rparr> else None)),
     ec_from = (\<lambda>p h. if pl_data p \<noteq> [] then Inl RuntimeError else Inr VNone)\<rparr>"

definition plain_converter :: enc_converter where
  "plain_converter = \<lparr>ec_encoding = ''binary/plain'',
     ec_to = (\<lambda>v. Inr (case v of VBytes b \<Rightarrow> Some \<lparr>pl_metadata = [(''encoding'', ''binary/plain'')], pl_data = b\<rparr> | _ \<Rightarrow> None)),
     ec_from = (\<lambda>p h. Inr (VBytes (pl_data p)))\<rparr>"

definition json_converter :: "type_lib \<Rightarrow> json_text \<Rightarrow> enc_converter" where
  "json_converter L T = \<lparr>ec_encoding = ''json/plain'',
     ec_to = (\<lambda>v. bind_result (to_json L v) (\<lambda>j.
       Inr (Some \<lparr>pl_metadata = [(''encoding'', ''json/plain'')], pl_data = jt_text T j\<rparr>))),
     ec_from = (\<lambda>p h. case jt_loads T (pl_data p) of
         None \<Rightarrow> Inl RuntimeError
       | Some j \<Rightarrow> (case h of None \<Rightarrow> Inr (raw j) | Some h \<Rightarrow> v2t L h j))\<rparr>"

definition default_converters :: "type_lib \<Rightarrow> json_text \<Rightarrow> converters" where
  "default_converters L T = composite [null_converter, plain_converter, json_converter L T]"

subsection \<open>The data converter\<close>

record codec =
  cd_encode :: "payload list \<Rightarrow> payload list result"
  cd_decode :: "payload list \<Rightarrow> payload list result"

record data_converter =
  dc_converters :: converters
  dc_codec :: "codec option"

definition convert_encode :: "data_converter \<Rightarrow> pyval list \<Rightarrow> payload list result" where
  "convert_encode dc vs =
     bind_result (to_payloads (dc_converters dc) vs) (\<lambda>ps.
       case dc_codec dc of Some c \<Rightarrow> cd_encode c ps | None \<Rightarrow> Inr ps)"

definition convert_decode :: "data_converter \<Rightarrow> payload list \<Rightarrow> hint list option \<Rightarrow> pyval list result" where
  "convert_decode dc ps hints =
     bind_result (case dc_codec dc of Some c \<Rightarrow> cd_decode c ps | None \<Rightarrow> Inr ps) (\<lambda>ps.
       from_payloads (dc_converters dc) ps hints)"

subsection \<open>The checkpoint form\<close>

fun sort_json :: "json \<Rightarrow> json" where
  "sort_json (JObj kvs) = JObj (sort_key fst (map (\<lambda>(k, v). (k, sort_json v)) kvs))"
| "sort_json (JList xs) = JList (map sort_json xs)"
| "sort_json j = j"

definition payload_to_dict :: "json_text \<Rightarrow> bool \<Rightarrow> payload \<Rightarrow> json result" where
  "payload_to_dict T inline_json p =
     (let encoding = encoding_of p [];
          extra = map (\<lambda>(k, v). (k, JStr (b64encode v))) (filter (\<lambda>(k, v). k \<noteq> ''encoding'') (pl_metadata p));
          out = (''encoding'', JStr encoding) # (if extra = [] then [] else [(''meta'', JObj extra)])
      in if inline_json \<and> encoding = ''json/plain''
         then (case jt_loads T (pl_data p) of Some j \<Rightarrow> Inr (JObj (out @ [(''json'', j)])) | None \<Rightarrow> Inl ValueError)
         else Inr (JObj (out @ [(''b64'', JStr (b64encode (pl_data p)))])))"

definition payload_from_dict :: "json_text \<Rightarrow> json \<Rightarrow> payload result" where
  "payload_from_dict T d =
     bind_result (bind_result (jindex d ''encoding'') as_str) (\<lambda>encoding.
     bind_result (as_obj (jget_default d ''meta'' (JObj []))) (\<lambda>meta.
     bind_result (map_result (\<lambda>(k, v). bind_result (bind_result (as_str v) b64decode) (\<lambda>b. Inr (k, b))) meta) (\<lambda>extra.
     bind_result (case obj_get d ''json'' of
         Some j \<Rightarrow> Inr (jt_text T (sort_json j))
       | None \<Rightarrow> bind_result (bind_result (jindex d ''b64'') as_str) b64decode) (\<lambda>data.
       Inr \<lparr>pl_metadata = fold (\<lambda>(k, v) m. dict_set k v m) extra [(''encoding'', encoding)], pl_data = data\<rparr>))))"

definition encode_values :: "json_text \<Rightarrow> data_converter \<Rightarrow> pyval list \<Rightarrow> json list result" where
  "encode_values T dc vs =
     bind_result (convert_encode dc vs) (map_result (payload_to_dict T (dc_codec dc = None)))"

definition decode_values :: "json_text \<Rightarrow> data_converter \<Rightarrow> json list \<Rightarrow> hint list option \<Rightarrow> pyval list result" where
  "decode_values T dc ds hints =
     (if ds = [] then Inr []
      else bind_result (map_result (payload_from_dict T) ds) (\<lambda>ps.
        convert_decode dc ps (map_option (take (length ps)) hints)))"

definition encode_values_sync :: "json_text \<Rightarrow> data_converter \<Rightarrow> pyval list \<Rightarrow> json list result" where
  "encode_values_sync T dc vs =
     bind_result (to_payloads (dc_converters dc) vs) (map_result (payload_to_dict T True))"

definition decode_value_sync :: "json_text \<Rightarrow> data_converter \<Rightarrow> json \<Rightarrow> hint option \<Rightarrow> pyval result" where
  "decode_value_sync T dc d h =
     bind_result (payload_from_dict T d) (\<lambda>p.
     bind_result (from_payloads (dc_converters dc) [p] (map_option (\<lambda>h. [h]) h)) (\<lambda>vs. Inr (hd vs)))"

text \<open>Headers travel as payload dicts under their names.\<close>

definition encode_headers :: "json_text \<Rightarrow> data_converter \<Rightarrow> (string, payload) dict \<Rightarrow> (string, json) dict result" where
  "encode_headers T dc headers =
     (if headers = [] then Inr []
      else bind_result (case dc_codec dc of Some c \<Rightarrow> cd_encode c (map snd headers) | None \<Rightarrow> Inr (map snd headers)) (\<lambda>ps.
        bind_result (map_result (payload_to_dict T (dc_codec dc = None)) (take (length headers) ps)) (\<lambda>ds.
          Inr (zip (map fst headers) ds))))"

definition decode_headers :: "json_text \<Rightarrow> data_converter \<Rightarrow> (string, json) dict \<Rightarrow> (string, payload) dict result" where
  "decode_headers T dc wire =
     (if wire = [] then Inr []
      else bind_result (map_result (payload_from_dict T) (map snd wire)) (\<lambda>ps.
        bind_result (case dc_codec dc of Some c \<Rightarrow> cd_decode c ps | None \<Rightarrow> Inr ps) (\<lambda>ps.
          Inr (zip (map fst wire) ps))))"

text \<open>\<open>type_hints_from_func\<close>: a hint for every positional parameter, or none.\<close>

datatype param_kind = Positional | OtherKind

fun param_hints :: "bool \<Rightarrow> (string \<times> param_kind \<times> hint option) list \<Rightarrow> hint list \<Rightarrow> hint list option" where
  "param_hints first [] args = Some args"
| "param_hints first ((name, kind, annotation) # ps) args =
     (if first \<and> name = ''self'' \<and> annotation = None then param_hints False ps args
      else if kind \<noteq> Positional then None
      else case annotation of None \<Rightarrow> None | Some h \<Rightarrow> param_hints False ps (args @ [h]))"

definition type_hints_from_func ::
  "((string \<times> param_kind \<times> hint option) list \<times> hint option) option \<Rightarrow> hint list option \<times> hint option" where
  "type_hints_from_func signature =
     (case signature of None \<Rightarrow> (None, None) | Some (ps, ret) \<Rightarrow> (param_hints True ps [], ret))"

subsection \<open>Round trips\<close>

definition text_ok :: "json_text \<Rightarrow> bool" where
  "text_ok T \<longleftrightarrow> (\<forall>j. jt_loads T (jt_text T j) = Some j)"

definition tagged :: "payload \<Rightarrow> bool" where
  "tagged p \<longleftrightarrow> (\<exists>e rest. pl_metadata p = (''encoding'', e) # rest) \<and> dict_wf (pl_metadata p)"

text \<open>A codec that decodes what it encoded and keeps the number of payloads.\<close>

definition codec_inverts :: "codec \<Rightarrow> bool" where
  "codec_inverts c \<longleftrightarrow> (\<forall>ps. (\<forall>p\<in>set ps. tagged p) \<longrightarrow>
     (\<exists>qs. cd_encode c ps = Inr qs \<and> cd_decode c qs = Inr ps \<and> length qs = length ps \<and> (\<forall>q\<in>set qs. tagged q)))"

lemma sort_json_sorted: "json_sorted j \<Longrightarrow> sort_json j = j"
proof (induction j)
  case (JObj kvs)
  have "map (\<lambda>(k, v). (k, sort_json v)) kvs = kvs"
    using JObj by (intro map_idI) (force simp: list_all_iff)
  with JObj.prems show ?case by (simp add: strictly_sorted)
next
  case (JList xs)
  then show ?case by (simp add: list_all_iff map_idI)
qed simp_all

lemma fold_dict_set_new:
  "distinct (map fst d @ map fst xs) \<Longrightarrow> fold (\<lambda>(k, v) m. dict_set k v m) xs d = d @ xs"
proof (induction xs arbitrary: d)
  case (Cons x xs)
  obtain k v where x: "x = (k, v)" by (cases x)
  have "k \<notin> fst ` set d \<Longrightarrow> dict_set k v d = d @ [(k, v)]" for d :: "('a \<times> 'b) list"
    by (induction d) auto
  then have "dict_set k v d = d @ [(k, v)]" using Cons.prems x by auto
  then show ?case using Cons.IH [of "d @ [(k, v)]"] Cons.prems x by simp
qed simp

lemma meta_roundtrip:
  "map_result (\<lambda>(k, v). bind_result (bind_result (as_str v) b64decode) (\<lambda>b. Inr (k, b)))
     (map (\<lambda>(k, v). (k, JStr (b64encode v))) rest) = Inr rest"
  by (induction rest) (auto simp: b64_roundtrip)

text \<open>The checkpoint form of a payload reads back, inlined JSON when its text is the canonical one.\<close>

lemma payload_dict_roundtrip:
  assumes "tagged p"
    and "inline \<Longrightarrow> encoding_of p [] = ''json/plain'' \<Longrightarrow> \<exists>j. jt_loads T (pl_data p) = Some j \<and> jt_text T (sort_json j) = pl_data p"
  shows "\<exists>d. payload_to_dict T inline p = Inr d \<and> payload_from_dict T d = Inr p"
proof -
  from assms(1) obtain e rest where md: "pl_metadata p = (''encoding'', e) # rest" and "distinct (''encoding'' # map fst rest)"
    by (auto simp: tagged_def dict_wf_def)
  then have rest: "filter (\<lambda>(k, v). k \<noteq> ''encoding'') rest = rest" and fresh: "''encoding'' \<notin> fst ` set rest"
    "fold (\<lambda>(k, v) m. dict_set k v m) rest [(''encoding'', e)] = (''encoding'', e) # rest"
    by (force intro!: filter_True, simp, simp add: fold_dict_set_new)
  have enc: "encoding_of p x = e" for x by (simp add: encoding_of_def md dict_get_Cons)
  have p: "\<lparr>pl_metadata = (''encoding'', e) # rest, pl_data = pl_data p\<rparr> = p" by (cases p) (use md in simp)
  let ?extra = "map (\<lambda>(k, v). (k, JStr (b64encode v))) rest"
  let ?out = "(''encoding'', JStr e) # (if ?extra = [] then [] else [(''meta'', JObj ?extra)])"
  have fields: "jindex (JObj (?out @ [(key, x)])) ''encoding'' = Inr (JStr e)"
    "key \<noteq> ''meta'' \<Longrightarrow> jget_default (JObj (?out @ [(key, x)])) ''meta'' (JObj []) = JObj ?extra" for key x
    by (simp_all add: jindex_def jget_default_def)
  have names: "''json'' \<noteq> ''meta''" "''b64'' \<noteq> ''meta''" by simp_all
  have data: "obj_get (JObj (?out @ [(''json'', x)])) ''json'' = Some x"
    "obj_get (JObj (?out @ [(''b64'', x)])) ''json'' = None" "jindex (JObj (?out @ [(''b64'', x)])) ''b64'' = Inr x" for x
    by (simp_all add: jindex_def)
  have reads_json: "payload_from_dict T (JObj (?out @ [(''json'', j)])) = Inr p" if "jt_text T (sort_json j) = pl_data p" for j
    unfolding payload_from_dict_def fields(1) fields(2) [OF names(1)] data(1)
    using that p by (simp add: meta_roundtrip fresh(2))
  have reads_b64: "payload_from_dict T (JObj (?out @ [(''b64'', JStr (b64encode (pl_data p)))])) = Inr p"
    unfolding payload_from_dict_def fields(1) fields(2) [OF names(2)] data(2,3)
    using p by (simp add: meta_roundtrip fresh(2) b64_roundtrip)
  show ?thesis
  proof (cases "inline \<and> e = ''json/plain''")
    case True
    with assms(2) enc obtain j where j: "jt_loads T (pl_data p) = Some j" "jt_text T (sort_json j) = pl_data p" by auto
    with True have "payload_to_dict T inline p = Inr (JObj (?out @ [(''json'', j)]))"
      by (simp add: payload_to_dict_def enc md rest)
    with reads_json [OF j(2)] show ?thesis by blast
  next
    case False
    then have "payload_to_dict T inline p = Inr (JObj (?out @ [(''b64'', JStr (b64encode (pl_data p)))]))"
      unfolding payload_to_dict_def Let_def enc md if_not_P [OF False] by (simp add: rest)
    with reads_b64 show ?thesis by blast
  qed
qed

lemma raw_not_payload: "raw j \<noteq> VRaw p"
  by (cases j) simp_all

lemma restorable_not_raw: "restorable L h v \<Longrightarrow> v \<noteq> VRaw p"
  by (induction rule: restorable.induct) (simp_all add: raw_not_payload container_def split: iter_kind.split)

lemma default_list: "map snd (default_converters L T) = [null_converter, plain_converter, json_converter L T]"
  "dict_get (default_converters L T) ''binary/null'' = Some null_converter"
  "dict_get (default_converters L T) ''binary/plain'' = Some plain_converter"
  "dict_get (default_converters L T) ''json/plain'' = Some (json_converter L T)"
  by (simp_all add: default_converters_def composite_def null_converter_def plain_converter_def json_converter_def dict_get_Cons)

definition inlinable :: "json_text \<Rightarrow> payload \<Rightarrow> bool" where
  "inlinable T p \<longleftrightarrow> tagged p \<and> (encoding_of p [] = ''json/plain'' \<longrightarrow>
     (\<exists>j. jt_loads T (pl_data p) = Some j \<and> jt_text T (sort_json j) = pl_data p))"

lemma single_tag:
  "encoding_of \<lparr>pl_metadata = [(''encoding'', e)], pl_data = b\<rparr> x = e"
  "tagged \<lparr>pl_metadata = [(''encoding'', e)], pl_data = b\<rparr>"
  by (simp_all add: encoding_of_def tagged_def dict_wf_def dict_get_Cons)

lemma boundary_payload:
  assumes "plain_lib L" "text_ok T" "restorable L h v" "h \<noteq> RawValue"
  shows "\<exists>p. to_payload (default_converters L T) v = Inr p \<and> from_payload (default_converters L T) p (Some h) = Inr v \<and> inlinable T p"
proof -
  from json_roundtrip [OF assms(1,3)] obtain j where j: "to_json L v = Inr j" "v2t L h j = Inr v" "json_sorted j" by blast
  have not_raw: "v \<noteq> VRaw p" for p using restorable_not_raw [OF assms(3)] by simp
  let ?pay = "\<lambda>e b. \<lparr>pl_metadata = [(''encoding'', e)], pl_data = b\<rparr> :: payload"
  consider (none) "v = VNone" | (bytes) b where "v = VBytes b" | (other) "v \<noteq> VNone" "\<And>b. v \<noteq> VBytes b" by blast
  then show ?thesis
  proof cases
    case none
    then show ?thesis using assms(4)
      by (intro exI [of _ "?pay ''binary/null'' []"])
         (simp add: to_payload_def default_list null_converter_def from_payload_def single_tag inlinable_def)
  next
    case (bytes b)
    then show ?thesis using assms(4)
      by (intro exI [of _ "?pay ''binary/plain'' b"])
         (simp add: to_payload_def default_list null_converter_def plain_converter_def from_payload_def single_tag inlinable_def)
  next
    case other
    have "to_payload (default_converters L T) v = Inr (?pay ''json/plain'' (jt_text T j))"
      using other j(1) not_raw
      by (cases v) (auto simp: to_payload_def default_list null_converter_def plain_converter_def json_converter_def)
    moreover have "from_payload (default_converters L T) (?pay ''json/plain'' (jt_text T j)) (Some h) = Inr v"
      using assms(2,4) j(2) by (simp add: from_payload_def single_tag default_list json_converter_def text_ok_def)
    moreover have "inlinable T (?pay ''json/plain'' (jt_text T j))"
      using assms(2) sort_json_sorted [OF j(3)] by (auto simp: inlinable_def single_tag text_ok_def)
    ultimately show ?thesis by blast
  qed
qed

lemma list_choice:
  assumes "list_all2 (\<lambda>x y. \<exists>z. P x y z) xs ys"
  shows "\<exists>zs. length zs = length xs \<and> (\<forall>i<length xs. P (xs ! i) (ys ! i) (zs ! i))"
  using assms by (auto simp: list_all2_conv_all_nth Skolem_list_nth)

lemma payload_dicts_roundtrip:
  assumes "\<forall>p\<in>set ps. \<exists>d. payload_to_dict T inline p = Inr d \<and> payload_from_dict T d = Inr p"
  shows "\<exists>ds. map_result (payload_to_dict T inline) ps = Inr ds \<and> map_result (payload_from_dict T) ds = Inr ps \<and> length ds = length ps"
  using assms
proof (induction ps)
  case (Cons p ps)
  then obtain d ds where "payload_to_dict T inline p = Inr d" "payload_from_dict T d = Inr p"
    "map_result (payload_to_dict T inline) ps = Inr ds" "map_result (payload_from_dict T) ds = Inr ps" "length ds = length ps" by auto
  then show ?case by (intro exI [of _ "d # ds"]) simp
qed simp

text \<open>Payloads through the codec and their wire form: what is decoded is what was encoded, payload by payload.\<close>

lemma codec_wire:
  assumes safe: "\<forall>p\<in>set ps. tagged p \<and> (codec = None \<longrightarrow> inlinable T p)"
    and codec: "case codec of Some c \<Rightarrow> codec_inverts c | None \<Rightarrow> True"
  obtains qs ds where "(case codec of Some c \<Rightarrow> cd_encode c ps | None \<Rightarrow> Inr ps) = Inr qs"
    "(case codec of Some c \<Rightarrow> cd_decode c qs | None \<Rightarrow> Inr qs) = Inr ps"
    "map_result (payload_to_dict T (codec = None)) qs = Inr ds" "map_result (payload_from_dict T) ds = Inr qs"
    "length qs = length ps" "length ds = length ps"
proof -
  obtain qs where qs: "(case codec of Some c \<Rightarrow> cd_encode c ps | None \<Rightarrow> Inr ps) = Inr qs"
    "(case codec of Some c \<Rightarrow> cd_decode c qs | None \<Rightarrow> Inr qs) = Inr ps" "length qs = length ps"
    and wire: "\<forall>q\<in>set qs. tagged q \<and> (codec = None \<longrightarrow> inlinable T q)"
  proof (cases codec)
    case (Some c)
    with safe codec obtain qs where "cd_encode c ps = Inr qs" "cd_decode c qs = Inr ps" "length qs = length ps" "\<forall>q\<in>set qs. tagged q"
      by (auto simp: codec_inverts_def)
    with that [of qs] Some show thesis by simp
  next
    case None
    with safe that [of ps] show thesis by simp
  qed
  have "\<forall>q\<in>set qs. \<exists>d. payload_to_dict T (codec = None) q = Inr d \<and> payload_from_dict T d = Inr q"
  proof
    fix q assume "q \<in> set qs"
    with wire show "\<exists>d. payload_to_dict T (codec = None) q = Inr d \<and> payload_from_dict T d = Inr q"
      by (intro payload_dict_roundtrip) (auto simp: inlinable_def)
  qed
  from payload_dicts_roundtrip [OF this] that [OF qs(1,2)] qs(3) show thesis by metis
qed


subsection \<open>Examples\<close>

text \<open>A text format for the examples: the index of the JSON value in an enumeration of all of them.\<close>

instance json :: countable
  by countable_datatype

definition index_text :: json_text where
  "index_text = \<lparr>jt_text = (\<lambda>j. dec (to_nat j)), jt_loads = (\<lambda>s. Some (from_nat (int_of_digits s)))\<rparr>"

lemma index_text_ok: "text_ok index_text"
  by (simp add: text_ok_def index_text_def int_of_digits_dec)

definition demo_lib :: type_lib where
  "demo_lib = \<lparr>tl_custom = [], tl_iso = (\<lambda>s. Some (Datetime s True)), tl_uuid = Some, tl_float = (\<lambda>s. None), tl_repr = (\<lambda>q. []),
     tl_fields = (\<lambda>c. [(''name'', TStr, None), (''at'', TUnion [TDatetime, TNone], Some VNone), (''tags'', TIter KSet [TStr], None)]),
     tl_keys = (\<lambda>c. []), tl_int_enum = (\<lambda>c. [1, 2]), tl_str_enum = (\<lambda>c. []), tl_hashable = (\<lambda>c. False)\<rparr>"

definition demo_job :: pyval where
  "demo_job = VObj ''Job'' [(''name'', VStr ''backup''), (''at'', VDatetime (Datetime ''2024-05-01T00:00:00+00:00'' True)),
     (''tags'', VSet [VStr ''a'', VStr ''b''])]"

lemma demo_lib_plain: "plain_lib demo_lib"
  by (simp add: plain_lib_def demo_lib_def datetime.expand)

lemma demo_job_restorable: "restorable demo_lib (TDataclass ''Job'') demo_job"
proof -
  have at: "restorable demo_lib (TUnion ([] @ TDatetime # [TNone])) (VDatetime (Datetime ''2024-05-01T00:00:00+00:00'' True))"
    by (rule restorable.intros(12)) (simp_all add: restorable.intros)
  have tags: "restorable demo_lib (TIter KSet [TStr]) (container KSet [VStr ''a'', VStr ''b''])"
    by (rule restorable.intros) (auto simp: less_Suc_eq raw_items_def item_hint_def intro: restorable.intros)
  show ?thesis unfolding demo_job_def
    by (rule restorable.intros)
       (use at tags in \<open>auto simp: demo_lib_def container_def less_Suc_eq nth_Cons split: nat.splits intro: restorable.intros\<close>)
qed


text \<open>
  Hints that are not restored: the first alternative of a union that accepts the JSON wins, so a float under \<open>Union[int, float]\<close>
  is truncated; a frozenset comes back as a list; a tuple may be short; a required key of a TypedDict may be missing.
\<close>

lemma unfaithful_hints:
  assumes "tl_custom L = []"
  shows "v2t L (TUnion [TInt, TFloat]) (JNum (3 / 2)) = Inr (VInt 1)"
    and "v2t L (TIter KFrozenset [TInt]) (JList [JInt 1]) = Inr (VList [VInt 1])"
    and "v2t L (TIter KTuple [TInt, TStr]) (JList [JInt 1]) = Inr (VTuple [VInt 1])"
    and "v2t L (TTypedDict c) (JObj []) = Inr (VDict [])"
  using assms by (simp_all add: custom_or_def List.map_filter_def is_number_def raw_items_def item_hint_def collect_def as_type_error_def
      floor_divide_of_int_eq [of 3 2, simplified])

text \<open>The type hints are cut to the number of stored payloads, not of decoded ones: a codec that merges payloads loses hints.\<close>

lemma merging_codec_loses_hints:
  assumes "payload_from_dict T d = Inr q" "cd_decode c [q] = Inr [p1, p2]" "from_payload cs p1 (Some h1) = Inr v1"
    and "from_payload cs p2 None = Inr v2"
  shows "decode_values T \<lparr>dc_converters = cs, dc_codec = Some c\<rparr> [d] (Some [h1, h2]) = Inr [v1, v2]"
  using assms by (simp add: decode_values_def convert_decode_def from_payloads_def)

end
