(* ===== verification/Registry.thy ===== *)
theory Registry
  imports Converter
begin

text \<open>
  Workflow and activity registries and the scan of a workflow class (\<open>dbosify/_internal/registry.py\<close>) and
  \<open>register_worker\<close> of \<open>dbosify/_internal/dispatcher.py\<close>. A class is the list of its members with their markers, a
  function is its identity. Log lines are not modelled.
\<close>

subsection \<open>Definitions\<close>

record handler_def =
  hd_fn :: string
  hd_policy :: int
  hd_args :: "hint list option"
  hd_ret :: "hint option"
  hd_validator :: "string option"
  hd_description :: "string option"

text \<open>The key of a handler is its name, \<open>None\<close> for the dynamic one.\<close>

type_synonym handler_table = "(string option, handler_def) dict"

record workflow_def =
  wd_name :: string
  wd_class :: string
  wd_run :: string
  wd_signals :: handler_table
  wd_queries :: handler_table
  wd_updates :: handler_table
  wd_init_args :: bool
  wd_failures :: "string list"
  wd_args :: "hint list option"
  wd_ret :: "hint option"
  wd_versioning :: "int option"

record activity_def =
  ad_name :: string
  ad_fn :: string
  ad_async :: bool
  ad_args :: "hint list option"
  ad_ret :: "hint option"
  ad_dynamic :: bool

text \<open>A member: its markers, and the hints of its function. A marker \<open>Some n\<close> names a handler \<open>n\<close>.\<close>

record class_member =
  mb_name :: string
  mb_fn :: string
  mb_run :: bool
  mb_coroutine :: bool
  mb_signal :: "string option option"
  mb_signal_policy :: int
  mb_query :: "string option option"
  mb_update :: "string option option"
  mb_update_policy :: int
  mb_validator :: "string option"
  mb_hints :: "hint list option"
  mb_ret :: "hint option"
  mb_description :: "string option"

record workflow_class =
  wc_name :: string
  wc_members :: "class_member list"
  wc_init :: bool
  wc_init_hints :: "hint list option"

subsection \<open>Scanning a class\<close>

definition is_raw_value_sequence :: "hint \<Rightarrow> bool" where
  "is_raw_value_sequence h \<longleftrightarrow> h = TIter KSequence [RawValue]"

definition dynamic_handler_ok :: "hint list option \<Rightarrow> bool" where
  "dynamic_handler_ok args \<longleftrightarrow>
     (case args of Some [name, rest] \<Rightarrow> name = TStr \<and> is_raw_value_sequence rest | _ \<Rightarrow> False)"

definition dynamic_activity_ok :: "hint list option \<Rightarrow> bool" where
  "dynamic_activity_ok args \<longleftrightarrow> (case args of Some [h] \<Rightarrow> is_raw_value_sequence h | _ \<Rightarrow> False)"

definition signal_def :: "class_member \<Rightarrow> handler_def" where
  "signal_def m = \<lparr>hd_fn = mb_fn m, hd_policy = mb_signal_policy m, hd_args = mb_hints m, hd_ret = None,
     hd_validator = None, hd_description = mb_description m\<rparr>"

definition query_def :: "class_member \<Rightarrow> handler_def" where
  "query_def m = \<lparr>hd_fn = mb_fn m, hd_policy = 1, hd_args = mb_hints m, hd_ret = mb_ret m,
     hd_validator = None, hd_description = mb_description m\<rparr>"

definition update_def :: "class_member \<Rightarrow> handler_def" where
  "update_def m = \<lparr>hd_fn = mb_fn m, hd_policy = mb_update_policy m, hd_args = mb_hints m, hd_ret = mb_ret m,
     hd_validator = mb_validator m, hd_description = mb_description m\<rparr>"

text \<open>One marker of a member: a duplicate is refused, a dynamic handler needs its signature.\<close>

definition add_handler ::
  "(class_member \<Rightarrow> string option option) \<Rightarrow> (class_member \<Rightarrow> handler_def) \<Rightarrow> class_member \<Rightarrow> handler_table \<Rightarrow> handler_table result" where
  "add_handler marker build m table =
     (case marker m of
        None \<Rightarrow> Inr table
      | Some name \<Rightarrow>
          if name \<in> fst ` set table then Inl ValueError
          else if name = None \<and> \<not> dynamic_handler_ok (mb_hints m) then Inl RuntimeError
          else Inr (dict_set name (build m) table))"

record scan =
  sc_runs :: "class_member list"
  sc_signals :: handler_table
  sc_queries :: handler_table
  sc_updates :: handler_table

definition scan_member :: "class_member \<Rightarrow> scan \<Rightarrow> scan result" where
  "scan_member m s =
     bind_result (add_handler mb_signal signal_def m (sc_signals s)) (\<lambda>signals.
     bind_result (add_handler mb_query query_def m (sc_queries s)) (\<lambda>queries.
     bind_result (add_handler mb_update update_def m (sc_updates s)) (\<lambda>updates.
       Inr \<lparr>sc_runs = (if mb_run m then sc_runs s @ [m] else sc_runs s), sc_signals = signals,
         sc_queries = queries, sc_updates = updates\<rparr>)))"

fun scan_members :: "class_member list \<Rightarrow> scan \<Rightarrow> scan result" where
  "scan_members [] s = Inr s"
| "scan_members (m # ms) s = bind_result (scan_member m s) (scan_members ms)"

definition build_workflow_definition ::
  "workflow_class \<Rightarrow> string option \<Rightarrow> string list \<Rightarrow> int option \<Rightarrow> workflow_def result" where
  "build_workflow_definition c name failures versioning =
     bind_result (scan_members (wc_members c) \<lparr>sc_runs = [], sc_signals = [], sc_queries = [], sc_updates = []\<rparr>) (\<lambda>s.
       if sc_runs s = [] then Inl ValueError
       else if 1 < length (sc_runs s) then Inl ValueError
       else let run = last (sc_runs s) in
         if \<not> mb_coroutine run then Inl ValueError
         else Inr \<lparr>wd_name = (case name of Some n \<Rightarrow> n | None \<Rightarrow> wc_name c), wd_class = wc_name c, wd_run = mb_fn run,
           wd_signals = sc_signals s, wd_queries = sc_queries s, wd_updates = sc_updates s,
           wd_init_args = wc_init c, wd_failures = failures,
           wd_args = (if wc_init c then wc_init_hints c else mb_hints run), wd_ret = mb_ret run,
           wd_versioning = versioning\<rparr>)"

subsection \<open>The registries\<close>

record registry =
  rg_workflows :: "(string, workflow_def) dict"
  rg_activities :: "(string, activity_def) dict"
  rg_dynamic :: "activity_def option"
  rg_dbos :: "string list"
  rg_dispatchers :: bool
  rg_failures :: "string list"
  rg_interceptors :: "string list"
  rg_queue :: "string option"
  rg_namespace :: "string option"
  rg_deployment :: "string option"

definition empty_registry :: registry where
  "empty_registry = \<lparr>rg_workflows = [], rg_activities = [], rg_dynamic = None, rg_dbos = [], rg_dispatchers = False,
     rg_failures = [], rg_interceptors = [], rg_queue = None, rg_namespace = None, rg_deployment = None\<rparr>"

text \<open>\<open>dict.fromkeys\<close>: the first occurrences, in order.\<close>

fun first_occurrences :: "'a list \<Rightarrow> 'a list \<Rightarrow> 'a list" where
  "first_occurrences seen [] = rev seen"
| "first_occurrences seen (x # xs) = first_occurrences (if x \<in> set seen then seen else x # seen) xs"

definition add_failure_types :: "string list \<Rightarrow> registry \<Rightarrow> registry" where
  "add_failure_types types r = r\<lparr>rg_failures := first_occurrences [] (rg_failures r @ types)\<rparr>"

definition workflow_definition_of :: "workflow_def option \<Rightarrow> workflow_def result" where
  "workflow_definition_of d = (case d of None \<Rightarrow> Inl TypeError | Some d \<Rightarrow> Inr d)"

definition register_workflow :: "workflow_def \<Rightarrow> registry \<Rightarrow> registry" where
  "register_workflow d r = r\<lparr>rg_workflows := dict_set (wd_name d) d (rg_workflows r)\<rparr>"

definition register_dbos_workflow :: "string \<Rightarrow> registry \<Rightarrow> registry" where
  "register_dbos_workflow name r = (if name \<in> set (rg_dbos r) then r else r\<lparr>rg_dbos := rg_dbos r @ [name]\<rparr>)"

definition lookup_workflow :: "registry \<Rightarrow> string \<Rightarrow> workflow_def result" where
  "lookup_workflow r name = (case dict_get (rg_workflows r) name of None \<Rightarrow> Inl KeyError | Some d \<Rightarrow> Inr d)"

definition dbos_workflow_for :: "registry \<Rightarrow> string \<Rightarrow> string result" where
  "dbos_workflow_for r name = (if name \<in> set (rg_dbos r) then Inr name else Inl KeyError)"

definition register_activity :: "activity_def \<Rightarrow> registry \<Rightarrow> registry result" where
  "register_activity d r =
     (if ad_dynamic d
      then (if rg_dynamic r \<noteq> None then Inl TypeError else Inr (r\<lparr>rg_dynamic := Some d\<rparr>))
      else if dict_get (rg_activities r) (ad_name d) \<noteq> None then Inl ValueError
      else Inr (r\<lparr>rg_activities := dict_set (ad_name d) d (rg_activities r)\<rparr>))"

definition lookup_activity :: "registry \<Rightarrow> string \<Rightarrow> activity_def result" where
  "lookup_activity r name = (case dict_get (rg_activities r) name of None \<Rightarrow> Inl KeyError | Some d \<Rightarrow> Inr d)"

definition require_dynamic_activity :: "registry \<Rightarrow> activity_def result" where
  "require_dynamic_activity r = (case rg_dynamic r of None \<Rightarrow> Inl KeyError | Some d \<Rightarrow> Inr d)"

subsection \<open>Registering a worker\<close>

text \<open>What is passed as an activity: a class, a callable without a definition, or a callable with one.\<close>

datatype activity_arg = ActivityClass | UndecoratedActivity | Activity activity_def string

fun register_workflows :: "workflow_def option list \<Rightarrow> registry \<Rightarrow> registry \<times> unit result" where
  "register_workflows [] r = (r, Inr ())"
| "register_workflows (w # ws) r =
     (case workflow_definition_of w of
        Inl err \<Rightarrow> (r, Inl err)
      | Inr d \<Rightarrow> register_workflows ws (register_dbos_workflow (wd_name d) (register_workflow d r)))"

fun register_activities :: "activity_arg list \<Rightarrow> registry \<Rightarrow> registry \<times> unit result" where
  "register_activities [] r = (r, Inr ())"
| "register_activities (a # as) r =
     (case a of
        ActivityClass \<Rightarrow> (r, Inl TypeError)
      | UndecoratedActivity \<Rightarrow> (r, Inl TypeError)
      | Activity d fn \<Rightarrow>
          (case register_activity (d\<lparr>ad_fn := fn\<rparr>) r of
             Inl err \<Rightarrow> (r, Inl err)
           | Inr r1 \<Rightarrow> register_activities as r1))"

record worker_registration =
  wr_workflows :: "workflow_def option list"
  wr_activities :: "activity_arg list"
  wr_failures :: "string list"
  wr_interceptors :: "string list"
  wr_queue :: "string option"
  wr_namespace :: "string option"

definition register_worker :: "worker_registration \<Rightarrow> registry \<Rightarrow> registry \<times> unit result" where
  "register_worker w r =
     (let r1 = (if wr_failures w = [] then r else add_failure_types (wr_failures w) r);
          r2 = r1\<lparr>rg_interceptors := wr_interceptors w, rg_queue := wr_queue w, rg_namespace := wr_namespace w,
                 rg_dispatchers := True\<rparr>
      in case register_workflows (wr_workflows w) r2 of
           (r3, Inl err) \<Rightarrow> (r3, Inl err)
         | (r3, Inr _) \<Rightarrow> register_activities (wr_activities w) r3)"

subsection \<open>The scan against a reference\<close>

text \<open>The handlers of a kind, by one comprehension, and what makes a class a workflow.\<close>

definition handlers ::
  "(class_member \<Rightarrow> string option option) \<Rightarrow> (class_member \<Rightarrow> handler_def) \<Rightarrow> class_member list \<Rightarrow> handler_table" where
  "handlers marker f ms = List.map_filter (\<lambda>m. map_option (\<lambda>n. (n, f m)) (marker m)) ms"

definition handlers_ok :: "(class_member \<Rightarrow> string option option) \<Rightarrow> class_member list \<Rightarrow> bool" where
  "handlers_ok marker ms \<longleftrightarrow> distinct (List.map_filter marker ms) \<and>
     (\<forall>m\<in>set ms. marker m = Some None \<longrightarrow> dynamic_handler_ok (mb_hints m))"

definition workflow_class_ok :: "workflow_class \<Rightarrow> bool" where
  "workflow_class_ok c \<longleftrightarrow>
     (\<exists>run. filter mb_run (wc_members c) = [run] \<and> mb_coroutine run) \<and>
     handlers_ok mb_signal (wc_members c) \<and> handlers_ok mb_query (wc_members c) \<and> handlers_ok mb_update (wc_members c)"

definition definition_of :: "workflow_class \<Rightarrow> string option \<Rightarrow> string list \<Rightarrow> int option \<Rightarrow> workflow_def" where
  "definition_of c name failures versioning =
     (let run = hd (filter mb_run (wc_members c)) in
      \<lparr>wd_name = (case name of Some n \<Rightarrow> n | None \<Rightarrow> wc_name c), wd_class = wc_name c, wd_run = mb_fn run,
        wd_signals = handlers mb_signal signal_def (wc_members c), wd_queries = handlers mb_query query_def (wc_members c),
        wd_updates = handlers mb_update update_def (wc_members c), wd_init_args = wc_init c, wd_failures = failures,
        wd_args = (if wc_init c then wc_init_hints c else mb_hints run), wd_ret = mb_ret run, wd_versioning = versioning\<rparr>)"

lemma handlers_Nil [simp]: "handlers marker f [] = []"
  by (simp add: handlers_def)

lemma handlers_snoc: "handlers marker f (ms @ [m]) = handlers marker f ms @ (case marker m of None \<Rightarrow> [] | Some n \<Rightarrow> [(n, f m)])"
  by (simp add: handlers_def List.map_filter_def split: option.split)

lemma handler_names: "map fst (handlers marker f ms) = List.map_filter marker ms"
  by (induction ms) (auto simp: handlers_def List.map_filter_simps split: option.split)

lemma handlers_ok_snoc:
  "handlers_ok marker (ms @ [m]) \<longleftrightarrow> handlers_ok marker ms \<and>
     (\<forall>n. marker m = Some n \<longrightarrow> n \<notin> set (List.map_filter marker ms) \<and> (n = None \<longrightarrow> dynamic_handler_ok (mb_hints m)))"
  by (cases "marker m") (auto simp: handlers_ok_def List.map_filter_def)

lemma dict_set_snoc: "k \<notin> fst ` set d \<Longrightarrow> dict_set k v d = d @ [(k, v)]"
  by (induction d) auto

lemma add_handler_iff:
  assumes "handlers_ok marker ms"
  shows "add_handler marker f m (handlers marker f ms) = Inr t \<longleftrightarrow> handlers_ok marker (ms @ [m]) \<and> t = handlers marker f (ms @ [m])"
proof (cases "marker m")
  case (Some n)
  have names: "fst ` set (handlers marker f ms) = set (List.map_filter marker ms)"
    using arg_cong [OF handler_names [of marker f ms], of set] by simp
  show ?thesis using assms Some
    by (auto simp: add_handler_def names handlers_ok_snoc handlers_snoc dict_set_snoc)
qed (use assms in \<open>auto simp: add_handler_def handlers_ok_snoc handlers_snoc\<close>)

definition scanned :: "class_member list \<Rightarrow> scan" where
  "scanned ms = \<lparr>sc_runs = filter mb_run ms, sc_signals = handlers mb_signal signal_def ms,
     sc_queries = handlers mb_query query_def ms, sc_updates = handlers mb_update update_def ms\<rparr>"

definition scan_ok :: "class_member list \<Rightarrow> bool" where
  "scan_ok ms \<longleftrightarrow> handlers_ok mb_signal ms \<and> handlers_ok mb_query ms \<and> handlers_ok mb_update ms"

lemma scan_member_iff:
  assumes "scan_ok ms"
  shows "scan_member m (scanned ms) = Inr t \<longleftrightarrow> scan_ok (ms @ [m]) \<and> t = scanned (ms @ [m])"
  using assms by (auto simp: scan_member_def bind_result_Inr_iff scanned_def scan_ok_def add_handler_iff)

lemma scan_members_iff:
  "scan_ok ms \<Longrightarrow> scan_members ns (scanned ms) = Inr t \<longleftrightarrow> scan_ok (ms @ ns) \<and> t = scanned (ms @ ns)"
proof (induction ns arbitrary: ms)
  case (Cons n ns)
  have prefix: "scan_ok (ms @ n # ns) \<Longrightarrow> scan_ok (ms @ [n])"
    by (auto simp: scan_ok_def handlers_ok_def List.map_filter_def split: if_splits)
  show ?case
  proof (cases "scan_ok (ms @ [n])")
    case True
    with Cons show ?thesis by (simp add: bind_result_Inr_iff scan_member_iff)
  next
    case False
    with Cons.prems prefix show ?thesis by (auto simp: bind_result_Inr_iff scan_member_iff)
  qed
qed auto

text \<open>
  Claim C38. A class becomes a workflow exactly when it has one run method, a coroutine, no two handlers of a kind under one name and
  well-typed dynamic handlers; its definition then has exactly the handlers its members are marked as.
\<close>

theorem definition_built_exactly:
  "build_workflow_definition c name failures versioning = Inr d \<longleftrightarrow>
     workflow_class_ok c \<and> d = definition_of c name failures versioning"
proof -
  have start: "\<lparr>sc_runs = [], sc_signals = [], sc_queries = [], sc_updates = []\<rparr> = scanned []" and ok: "scan_ok []"
    by (simp_all add: scanned_def scan_ok_def handlers_ok_def List.map_filter_def)
  have runs: "(\<exists>run. xs = [run] \<and> P run) \<longleftrightarrow> xs \<noteq> [] \<and> \<not> 1 < length xs \<and> P (last xs)" for xs :: "class_member list" and P
    by (cases xs) auto
  have hd: "xs \<noteq> [] \<Longrightarrow> \<not> 1 < length xs \<Longrightarrow> last xs = hd xs" for xs :: "class_member list"
    by (cases xs) auto
  show ?thesis
    unfolding build_workflow_definition_def start bind_result_Inr_iff scan_members_iff [OF ok]
    by (auto simp: workflow_class_ok_def scan_ok_def scanned_def runs Let_def definition_of_def hd split: if_splits)
qed

subsection \<open>What a registration leaves\<close>

lemma register_activity_get:
  assumes "register_activity d r = Inr r'"
  shows "rg_workflows r' = rg_workflows r \<and> rg_dbos r' = rg_dbos r \<and>
    (\<forall>n x. dict_get (rg_activities r) n = Some x \<longrightarrow> dict_get (rg_activities r') n = Some x) \<and>
    (\<not> ad_dynamic d \<longrightarrow> dict_get (rg_activities r') (ad_name d) = Some d \<and> dict_get (rg_activities r) (ad_name d) = None)"
  using assms by (auto simp: register_activity_def dict_simps split: if_splits)

lemma register_activities_get:
  "register_activities as r = (r', Inr ()) \<Longrightarrow> rg_workflows r' = rg_workflows r \<and> rg_dbos r' = rg_dbos r \<and>
    (\<forall>n x. dict_get (rg_activities r) n = Some x \<longrightarrow> dict_get (rg_activities r') n = Some x) \<and>
    (\<forall>d fn. Activity d fn \<in> set as \<and> \<not> ad_dynamic d \<longrightarrow>
       dict_get (rg_activities r') (ad_name d) = Some (d\<lparr>ad_fn := fn\<rparr>) \<and> dict_get (rg_activities r) (ad_name d) = None)"
proof (induction as arbitrary: r)
  case (Cons a as)
  from Cons.prems obtain d fn r1 where a: "a = Activity d fn" and r1: "register_activity (d\<lparr>ad_fn := fn\<rparr>) r = Inr r1"
    and rest: "register_activities as r1 = (r', Inr ())" by (auto split: activity_arg.splits sum.splits)
  note step = register_activity_get [OF r1] and later = Cons.IH [OF rest]
  have "dict_get (rg_activities r) n = None" if "dict_get (rg_activities r1) n = None" for n
    using step that by (cases "dict_get (rg_activities r) n") auto
  then show ?case using step later by (auto simp: a)
qed auto

lemma register_workflows_get:
  "register_workflows ws r = (r', Inr ()) \<Longrightarrow> rg_activities r' = rg_activities r \<and>
    (\<forall>n. dict_get (rg_workflows r') n =
       (case filter (\<lambda>d. wd_name d = n) (List.map_filter (\<lambda>w. w) ws) of [] \<Rightarrow> dict_get (rg_workflows r) n | ds \<Rightarrow> Some (last ds))) \<and>
    set (rg_dbos r') = set (rg_dbos r) \<union> wd_name ` {d. Some d \<in> set ws}"
proof (induction ws arbitrary: r)
  case (Cons w ws)
  from Cons.prems obtain d where w: "w = Some d"
    and rest: "register_workflows ws (register_dbos_workflow (wd_name d) (register_workflow d r)) = (r', Inr ())"
    by (cases w) (auto simp: workflow_definition_of_def)
  let ?r1 = "register_dbos_workflow (wd_name d) (register_workflow d r)"
  have r1: "rg_activities ?r1 = rg_activities r" "dict_get (rg_workflows ?r1) n = (if n = wd_name d then Some d else dict_get (rg_workflows r) n)"
    "set (rg_dbos ?r1) = insert (wd_name d) (set (rg_dbos r))" for n
    by (auto simp: register_dbos_workflow_def register_workflow_def dict_simps)
  from Cons.IH [OF rest] show ?case
    by (auto simp: w r1 List.map_filter_simps split: list.split)
qed (auto simp: List.map_filter_simps)

text \<open>
  A worker whose registration succeeds can run what it registered: each of its workflow types resolves to the last
  definition given for it, each named activity to the callable passed, and no earlier activity is lost or replaced.
\<close>

theorem registration_resolves:
  assumes "register_worker w r = (r', Inr ())"
  shows "(\<forall>d. Some d \<in> set (wr_workflows w) \<longrightarrow> dbos_workflow_for r' (wd_name d) = Inr (wd_name d) \<and>
      lookup_workflow r' (wd_name d) = Inr (last (filter (\<lambda>e. wd_name e = wd_name d) (List.map_filter (\<lambda>x. x) (wr_workflows w))))) \<and>
    (\<forall>d fn. Activity d fn \<in> set (wr_activities w) \<and> \<not> ad_dynamic d \<longrightarrow> lookup_activity r' (ad_name d) = Inr (d\<lparr>ad_fn := fn\<rparr>)) \<and>
    (\<forall>n d. lookup_activity r n = Inr d \<longrightarrow> lookup_activity r' n = Inr d)"
proof -
  let ?r2 = "(if wr_failures w = [] then r else add_failure_types (wr_failures w) r)
    \<lparr>rg_interceptors := wr_interceptors w, rg_queue := wr_queue w, rg_namespace := wr_namespace w, rg_dispatchers := True\<rparr>"
  from assms obtain r3 where w: "register_workflows (wr_workflows w) ?r2 = (r3, Inr ())"
    and a: "register_activities (wr_activities w) r3 = (r', Inr ())"
    by (auto simp: register_worker_def Let_def split: prod.splits sum.splits)
  have r2: "rg_activities ?r2 = rg_activities r" by (simp add: add_failure_types_def)
  note wf = register_workflows_get [OF w] and act = register_activities_get [OF a]
  show ?thesis
  proof (intro conjI allI impI)
    fix d assume d: "Some d \<in> set (wr_workflows w)"
    then have "d \<in> set (List.map_filter (\<lambda>x. x) (wr_workflows w))" by (force simp: List.map_filter_def)
    then have "filter (\<lambda>e. wd_name e = wd_name d) (List.map_filter (\<lambda>x. x) (wr_workflows w)) \<noteq> []"
      by (auto simp: filter_empty_conv)
    then have "dict_get (rg_workflows r3) (wd_name d) =
        Some (last (filter (\<lambda>e. wd_name e = wd_name d) (List.map_filter (\<lambda>x. x) (wr_workflows w))))"
      using conjunct1 [OF conjunct2 [OF wf], THEN spec, of "wd_name d"]
      by (simp split: list.splits)
    then show "lookup_workflow r' (wd_name d) =
        Inr (last (filter (\<lambda>e. wd_name e = wd_name d) (List.map_filter (\<lambda>x. x) (wr_workflows w))))"
      using act by (simp add: lookup_workflow_def)
    show "dbos_workflow_for r' (wd_name d) = Inr (wd_name d)"
      using wf act d by (auto simp: dbos_workflow_for_def)
  next
    fix d fn assume "Activity d fn \<in> set (wr_activities w) \<and> \<not> ad_dynamic d"
    with act have "dict_get (rg_activities r') (ad_name d) = Some (d\<lparr>ad_fn := fn\<rparr>)" by blast
    then show "lookup_activity r' (ad_name d) = Inr (d\<lparr>ad_fn := fn\<rparr>)" by (simp add: lookup_activity_def)
  next
    fix n d assume "lookup_activity r n = Inr d"
    then have "dict_get (rg_activities r3) n = Some d" using wf r2 by (auto simp: lookup_activity_def split: option.splits)
    with act have "dict_get (rg_activities r') n = Some d" by blast
    then show "lookup_activity r' n = Inr d" by (simp add: lookup_activity_def)
  qed
qed

definition greet_workflow :: workflow_def where
  "greet_workflow = \<lparr>wd_name = ''Greet'', wd_class = ''Greet'', wd_run = ''run'', wd_signals = [], wd_queries = [], wd_updates = [],
     wd_init_args = False, wd_failures = [], wd_args = None, wd_ret = None, wd_versioning = None\<rparr>"

definition greet_activity :: activity_def where
  "greet_activity = \<lparr>ad_name = ''greet'', ad_fn = [], ad_async = True, ad_args = None, ad_ret = None, ad_dynamic = False\<rparr>"

definition greet_registration :: worker_registration where
  "greet_registration = \<lparr>wr_workflows = [Some greet_workflow], wr_activities = [Activity greet_activity ''fn''], wr_failures = [],
     wr_interceptors = [], wr_queue = Some ''q'', wr_namespace = Some ''default''\<rparr>"

lemma registration_resolves_witness:
  "lookup_activity (fst (register_worker greet_registration empty_registry)) ''greet'' = Inr (greet_activity\<lparr>ad_fn := ''fn''\<rparr>)"
proof -
  have "register_worker greet_registration empty_registry = (fst (register_worker greet_registration empty_registry), Inr ())"
    by code_simp
  note resolves = registration_resolves [OF this]
  have "Activity greet_activity ''fn'' \<in> set (wr_activities greet_registration)" "\<not> ad_dynamic greet_activity" "ad_name greet_activity = ''greet''"
    by (simp_all add: greet_registration_def greet_activity_def)
  then show ?thesis using resolves by metis
qed

end
