(* ===== verification/Worker.thy ===== *)
theory Worker
  imports Registry Namespaces
begin

text \<open>
  The worker of a process (\<open>dbosify/worker.py\<close>) with the activity state it arms (\<open>_ActivityWorkerState\<close> of
  \<open>dbosify/activity.py\<close>): construction, the configuration handed to DBOS, and the lifecycle of \<open>run\<close> and
  \<open>shutdown\<close>. DBOS itself is the configuration it was given; executors, threads and log lines are not modelled.
\<close>

subsection \<open>Configuration\<close>

datatype config_value = CNone | CStr string | CBool bool | CSerializer | COther nat

type_synonym config = "(string, config_value) dict"

datatype config_arg = Url string | Config config

definition DEFAULT_APP_VERSION :: string where "DEFAULT_APP_VERSION = ''0.1''"
definition DEFAULT_APP_NAME :: string where "DEFAULT_APP_NAME = ''dbosify''"
definition REJECTED_OPTIONS :: "string list" where
  "REJECTED_OPTIONS = [''nexus_service_handlers'', ''tuner'', ''plugins'']"

definition normalize_config :: "config_arg \<Rightarrow> config" where
  "normalize_config c =
     dict_set ''run_admin_server'' (CBool False)
       (case c of Url url \<Rightarrow> [(''name'', CStr DEFAULT_APP_NAME), (''system_database_url'', CStr url)] | Config d \<Rightarrow> d)"

definition with_default_app_version :: "config \<Rightarrow> config" where
  "with_default_app_version c =
     (if dict_get c ''application_version'' \<noteq> None then c else dict_set ''application_version'' (CStr DEFAULT_APP_VERSION) c)"

text \<open>Starts per period; a rate of one or more is rounded to whole starts per second.\<close>

definition rate_limiter :: "rat option \<Rightarrow> (int \<times> rat) option result" where
  "rate_limiter rate =
     (case rate of
        None \<Rightarrow> Inr None
      | Some q \<Rightarrow>
          if q \<le> 0 then Inl ValueError
          else if 1 \<le> q then Inr (Some (round_half_even q, 1))
          else Inr (Some (1, 1 / q)))"

record worker_args =
  wa_config :: config_arg
  wa_queue :: string
  wa_namespace :: string
  wa_workflows :: "workflow_def option list"
  wa_activities :: "activity_arg list"
  wa_failures :: "string list"
  wa_interceptors :: "string list"
  wa_converter :: nat
  wa_build_id :: "string option"
  wa_versioning :: bool
  wa_deployment :: "(string \<times> string) option"
  wa_identity :: "string option"
  wa_unsupported :: "string list"
  wa_max_tasks :: "nat option"
  wa_max_activities :: "nat option"
  wa_max_local :: "nat option"
  wa_rate :: "rat option"
  wa_queue_rate :: "rat option"

text \<open>The build id asked for: of the deployment (build id and name), else \<open>build_id\<close>.\<close>

definition explicit_build :: "worker_args \<Rightarrow> string option" where
  "explicit_build a = (case wa_deployment a of Some (build, name) \<Rightarrow> Some build | None \<Rightarrow> wa_build_id a)"

definition pin_build :: "string option \<Rightarrow> config \<Rightarrow> config result" where
  "pin_build build c =
     (case build of
        None \<Rightarrow> Inr c
      | Some b \<Rightarrow>
          if b = [] then Inl ValueError
          else if dict_get c ''application_version'' \<notin> {None, Some (CStr b)} then Inl ValueError
          else Inr (dict_set ''application_version'' (CStr b) c))"

definition worker_config :: "worker_args \<Rightarrow> config result" where
  "worker_config a =
     (let c = normalize_config (wa_config a) in
      bind_result (namespace_schema (wa_namespace a)) (\<lambda>schema.
        if (case dict_get c ''dbos_system_schema'' of None \<Rightarrow> False | Some CNone \<Rightarrow> False | Some v \<Rightarrow> v \<noteq> CStr schema)
        then Inl ValueError
        else
          let c1 = dict_set ''dbos_system_schema'' (CStr schema) (dict_set ''serializer'' CSerializer c);
              c2 = (case wa_identity a of None \<Rightarrow> c1 | Some i \<Rightarrow> dict_set ''executor_id'' (CStr i) c1)
          in bind_result (pin_build (explicit_build a) c2) (\<lambda>c3. Inr (with_default_app_version c3))))"

subsection \<open>The activity state of a worker\<close>

text \<open>Clients are numbered as they are built.\<close>

record activity_state =
  as_shutdown :: bool
  as_closed :: bool
  as_client :: "nat option"

definition fresh_activity_state :: activity_state where
  "fresh_activity_state = \<lparr>as_shutdown = False, as_closed = False, as_client = None\<rparr>"

definition as_get_client :: "nat \<Rightarrow> activity_state \<Rightarrow> nat option \<times> activity_state" where
  "as_get_client fresh s =
     (if as_closed s then (None, s)
      else case as_client s of
        Some c \<Rightarrow> (Some c, s)
      | None \<Rightarrow> (Some fresh, s\<lparr>as_client := Some fresh\<rparr>))"

definition as_close :: "activity_state \<Rightarrow> nat option \<times> activity_state" where
  "as_close s = (as_client s, s\<lparr>as_closed := True, as_client := None\<rparr>)"

subsection \<open>The process\<close>

record worker =
  wk_queue :: string
  wk_event :: "bool option"
  wk_finished :: bool
  wk_activities_only :: bool
  wk_concurrency :: "nat option"
  wk_activity_concurrency :: "nat option"
  wk_rate :: "rat option"

record process =
  pr_live :: "nat option"
  pr_workers :: "worker list"
  pr_running :: "nat list"
  pr_registry :: registry
  pr_converter :: "nat option"
  pr_dbos :: "config option"
  pr_active :: "activity_state option"
  pr_queues :: "(string \<times> nat option \<times> (int \<times> rat) option) list"
  pr_launches :: "nat list"

definition new_process :: process where
  "new_process = \<lparr>pr_live = None, pr_workers = [], pr_running = [], pr_registry = empty_registry, pr_converter = None,
     pr_dbos = None, pr_active = None, pr_queues = [], pr_launches = []\<rparr>"

text \<open>The checks before anything is changed.\<close>

definition check_args :: "worker_args \<Rightarrow> process \<Rightarrow> unit result" where
  "check_args a p =
     (if wa_queue a = [] then Inl ValueError
      else if pr_live p \<noteq> None then Inl RuntimeError
      else if wa_workflows a = [] \<and> wa_activities a = [] then Inl ValueError
      else if wa_deployment a \<noteq> None \<and> wa_build_id a \<noteq> None then Inl ValueError
      else if wa_versioning a \<and> wa_deployment a \<noteq> None then Inl ValueError
      else if wa_versioning a \<and> wa_build_id a = None then Inl ValueError
      else if list_ex (\<lambda>k. k \<in> set (wa_unsupported a)) REJECTED_OPTIONS then Inl NotImplementedErr
      else Inr ())"

definition new_worker :: "worker_args \<Rightarrow> worker" where
  "new_worker a = \<lparr>wk_queue = wa_queue a, wk_event = None, wk_finished = False,
     wk_activities_only = (wa_activities a \<noteq> [] \<and> wa_workflows a = []), wk_concurrency = wa_max_tasks a,
     wk_activity_concurrency = (if wa_max_activities a \<noteq> None then wa_max_activities a else wa_max_local a),
     wk_rate = (if wa_queue_rate a \<noteq> None then wa_queue_rate a else wa_rate a)\<rparr>"

definition config_name :: "config \<Rightarrow> string" where
  "config_name c = (case dict_get c ''name'' of Some (CStr n) \<Rightarrow> n | _ \<Rightarrow> [])"

definition construct_worker :: "worker_args \<Rightarrow> process \<Rightarrow> process \<times> nat result" where
  "construct_worker a p =
     (case check_args a p of
        Inl err \<Rightarrow> (p, Inl err)
      | Inr _ \<Rightarrow>
          let p1 = p\<lparr>pr_converter := Some (wa_converter a)\<rparr>
          in case worker_config a of
               Inl err \<Rightarrow> (p1, Inl err)
             | Inr c \<Rightarrow>
                 let name = (case wa_deployment a of Some (build, name) \<Rightarrow> name | None \<Rightarrow> config_name c);
                     r1 = (pr_registry p1)\<lparr>rg_deployment := Some name\<rparr>;
                     p2 = p1\<lparr>pr_dbos := Some c, pr_active := Some fresh_activity_state\<rparr>
                 in case register_worker \<lparr>wr_workflows = wa_workflows a, wr_activities = wa_activities a,
                        wr_failures = wa_failures a, wr_interceptors = wa_interceptors a,
                        wr_queue = Some (wa_queue a), wr_namespace = Some (wa_namespace a)\<rparr> r1 of
                      (r2, Inl err) \<Rightarrow> (p2\<lparr>pr_registry := r2\<rparr>, Inl err)
                    | (r2, Inr _) \<Rightarrow>
                        let w = length (pr_workers p)
                        in (p2\<lparr>pr_registry := r2, pr_workers := pr_workers p @ [new_worker a], pr_live := Some w\<rparr>, Inr w))"

subsection \<open>Running and shutting down\<close>

definition update_worker :: "nat \<Rightarrow> (worker \<Rightarrow> worker) \<Rightarrow> process \<Rightarrow> process" where
  "update_worker w f p = p\<lparr>pr_workers := (pr_workers p)[w := f (pr_workers p ! w)]\<rparr>"

text \<open>The \<open>finally\<close> of \<open>run\<close>.\<close>

definition run_exit :: "nat \<Rightarrow> process \<Rightarrow> process" where
  "run_exit w p =
     (let p1 = update_worker w (\<lambda>k. k\<lparr>wk_event := None, wk_finished := True\<rparr>) p
      in p1\<lparr>pr_running := removeAll w (pr_running p1), pr_active := None,
           pr_registry := (pr_registry p1)\<lparr>rg_deployment := None\<rparr>, pr_live := None\<rparr>)"

text \<open>
  \<open>run\<close> up to its wait for the shutdown event. The launch of DBOS comes before the \<open>try\<close>; the registration
  of the queue, which checks the rate, inside it.
\<close>

definition run_enter :: "nat \<Rightarrow> unit result \<Rightarrow> process \<Rightarrow> process \<times> unit result" where
  "run_enter w launch p =
     (let k = pr_workers p ! w
      in if wk_event k \<noteq> None then (p, Inl RuntimeError)
         else if wk_finished k then (p, Inl RuntimeError)
         else
           let p1 = (update_worker w (\<lambda>k. k\<lparr>wk_event := Some False\<rparr>) p)\<lparr>pr_launches := pr_launches p @ [w]\<rparr>
           in case launch of
                Inl err \<Rightarrow> (p1, Inl err)
              | Inr _ \<Rightarrow>
                  (case rate_limiter (wk_rate k) of
                     Inl err \<Rightarrow> (run_exit w p1, Inl err)
                   | Inr limiter \<Rightarrow>
                       let cap = (if wk_activities_only k then wk_activity_concurrency k else wk_concurrency k)
                       in (p1\<lparr>pr_queues := pr_queues p1 @ [(wk_queue k, cap, limiter)], pr_running := w # pr_running p1\<rparr>, Inr ())))"

definition shutdown_worker :: "nat \<Rightarrow> process \<Rightarrow> process" where
  "shutdown_worker w p =
     (let p1 = p\<lparr>pr_active := map_option (\<lambda>s. s\<lparr>as_shutdown := True\<rparr>) (pr_active p)\<rparr>
      in if wk_event (pr_workers p1 ! w) = None then p1
         else update_worker w (\<lambda>k. k\<lparr>wk_event := Some True\<rparr>) p1)"

definition is_running :: "nat \<Rightarrow> process \<Rightarrow> bool" where
  "is_running w p \<longleftrightarrow> wk_event (pr_workers p ! w) \<noteq> None"

text \<open>
  The life of a process: workers are constructed, run and shut down in any order; a run in progress ends on its shutdown event, on
  an error or by cancellation.
\<close>

inductive process_step :: "process \<Rightarrow> process \<Rightarrow> bool" where
  construct: "construct_worker a p = (p', r) \<Longrightarrow> process_step p p'"
| enter: "w < length (pr_workers p) \<Longrightarrow> run_enter w launch p = (p', r) \<Longrightarrow> process_step p p'"
| leave: "w \<in> set (pr_running p) \<Longrightarrow> process_step p (run_exit w p)"
| shutdown: "w < length (pr_workers p) \<Longrightarrow> process_step p (shutdown_worker w p)"

inductive process_reachable :: "process \<Rightarrow> process \<Rightarrow> bool" for p where
  start: "process_reachable p p"
| step: "process_reachable p q \<Longrightarrow> process_step q q' \<Longrightarrow> process_reachable p q'"

inductive_cases process_stepE: "process_step p p'"

subsection \<open>One worker at a time\<close>

text \<open>A worker is unfinished exactly while it is the live one, and has been launched exactly when it has an event or is finished.\<close>

definition worker_ok :: "process \<Rightarrow> nat \<Rightarrow> bool" where
  "worker_ok p w \<longleftrightarrow>
     (\<not> wk_finished (pr_workers p ! w) \<longleftrightarrow> pr_live p = Some w) \<and>
     (wk_event (pr_workers p ! w) \<noteq> None \<longrightarrow> \<not> wk_finished (pr_workers p ! w)) \<and>
     (w \<in> set (pr_launches p) \<longleftrightarrow> wk_event (pr_workers p ! w) \<noteq> None \<or> wk_finished (pr_workers p ! w))"

definition process_inv :: "process \<Rightarrow> bool" where
  "process_inv p \<longleftrightarrow>
     (\<forall>w < length (pr_workers p). worker_ok p w) \<and>
     (\<forall>w\<in>set (pr_running p). w < length (pr_workers p) \<and> wk_event (pr_workers p ! w) \<noteq> None) \<and>
     (\<forall>w. pr_live p = Some w \<longrightarrow> w < length (pr_workers p)) \<and>
     (\<forall>w\<in>set (pr_launches p). w < length (pr_workers p)) \<and> distinct (pr_launches p) \<and> distinct (pr_running p)"

lemma process_invI:
  assumes "\<And>w. w < length (pr_workers p) \<Longrightarrow> worker_ok p w"
    and "\<And>w. w \<in> set (pr_running p) \<Longrightarrow> w < length (pr_workers p) \<and> wk_event (pr_workers p ! w) \<noteq> None"
    and "\<And>w. pr_live p = Some w \<Longrightarrow> w < length (pr_workers p)" "\<And>w. w \<in> set (pr_launches p) \<Longrightarrow> w < length (pr_workers p)"
    and "distinct (pr_launches p)" "distinct (pr_running p)"
  shows "process_inv p"
  using assms unfolding process_inv_def by blast

lemma process_invD:
  assumes "process_inv p"
  shows "w < length (pr_workers p) \<Longrightarrow> worker_ok p w"
    and "w \<in> set (pr_running p) \<Longrightarrow> w < length (pr_workers p) \<and> wk_event (pr_workers p ! w) \<noteq> None"
    and "pr_live p = Some w \<Longrightarrow> w < length (pr_workers p)" and "w \<in> set (pr_launches p) \<Longrightarrow> w < length (pr_workers p)"
    and "distinct (pr_launches p)" and "distinct (pr_running p)"
  using assms unfolding process_inv_def by blast+

lemma new_process_inv: "process_inv new_process"
  by (simp add: process_inv_def new_process_def)

lemma update_worker_frame [simp]:
  "length (pr_workers (update_worker w f p)) = length (pr_workers p)"
  "w < length (pr_workers p) \<Longrightarrow> pr_workers (update_worker w f p) ! v = (if v = w then f (pr_workers p ! w) else pr_workers p ! v)"
  "pr_live (update_worker w f p) = pr_live p" "pr_running (update_worker w f p) = pr_running p"
  "pr_launches (update_worker w f p) = pr_launches p" "pr_registry (update_worker w f p) = pr_registry p"
  by (simp_all add: update_worker_def nth_list_update)

lemma run_exit_frame [simp]:
  "length (pr_workers (run_exit w p)) = length (pr_workers p)"
  "w < length (pr_workers p) \<Longrightarrow> pr_workers (run_exit w p) ! v =
     (if v = w then (pr_workers p ! w)\<lparr>wk_event := None, wk_finished := True\<rparr> else pr_workers p ! v)"
  "pr_live (run_exit w p) = None" "pr_running (run_exit w p) = removeAll w (pr_running p)"
  "pr_launches (run_exit w p) = pr_launches p" "rg_activities (pr_registry (run_exit w p)) = rg_activities (pr_registry p)"
  by (simp_all add: run_exit_def Let_def)

lemma construct_worker_cases:
  assumes "construct_worker a p = (p', r)"
  shows "(pr_live p' = pr_live p \<and> pr_workers p' = pr_workers p \<and> pr_running p' = pr_running p \<and> pr_launches p' = pr_launches p \<and> isl r) \<or>
    (pr_live p = None \<and> pr_live p' = Some (length (pr_workers p)) \<and> pr_workers p' = pr_workers p @ [new_worker a] \<and>
     pr_running p' = pr_running p \<and> pr_launches p' = pr_launches p \<and> r = Inr (length (pr_workers p)))"
proof (cases "check_args a p")
  case (Inl e)
  then show ?thesis using assms by (auto simp: construct_worker_def)
next
  case ok: (Inr u)
  then have live: "pr_live p = None" by (simp add: check_args_def split: if_splits)
  show ?thesis
  proof (cases "worker_config a")
    case (Inl e)
    then show ?thesis using assms ok by (auto simp: construct_worker_def)
  next
    case (Inr c)
    obtain r2 res where reg: "register_worker \<lparr>wr_workflows = wa_workflows a, wr_activities = wa_activities a,
        wr_failures = wa_failures a, wr_interceptors = wa_interceptors a, wr_queue = Some (wa_queue a),
        wr_namespace = Some (wa_namespace a)\<rparr>
        ((pr_registry p)\<lparr>rg_deployment := Some (case wa_deployment a of Some (build, name) \<Rightarrow> name | None \<Rightarrow> config_name c)\<rparr>) = (r2, res)"
      by fastforce
    show ?thesis using assms live by (cases res) (auto simp: construct_worker_def ok Inr Let_def reg)
  qed
qed

lemma run_exit_inv:
  assumes inv: "process_inv p" and w: "w < length (pr_workers p)" "wk_event (pr_workers p ! w) \<noteq> None"
  shows "process_inv (run_exit w p)"
proof -
  have live: "pr_live p = Some w" and launched: "w \<in> set (pr_launches p)"
    using process_invD(1) [OF inv w(1)] w(2) unfolding worker_ok_def by blast+
  show ?thesis
  proof (rule process_invI)
    fix v assume "v < length (pr_workers (run_exit w p))"
    with process_invD(1) [OF inv, of v] live launched w(1) show "worker_ok (run_exit w p) v"
      by (cases "v = w") (auto simp: worker_ok_def)
  next
    fix v assume "v \<in> set (pr_running (run_exit w p))"
    with process_invD(2) [OF inv, of v] w(1)
    show "v < length (pr_workers (run_exit w p)) \<and> wk_event (pr_workers (run_exit w p) ! v) \<noteq> None" by simp
  qed (use process_invD [OF inv] in \<open>simp_all add: distinct_removeAll\<close>)
qed

lemma run_entered_inv:
  assumes inv: "process_inv p" and w: "w < length (pr_workers p)" "wk_event (pr_workers p ! w) = None" "\<not> wk_finished (pr_workers p ! w)"
  shows "process_inv ((update_worker w (\<lambda>k. k\<lparr>wk_event := Some False\<rparr>) p)\<lparr>pr_launches := pr_launches p @ [w]\<rparr>)" (is "process_inv ?q")
proof (rule process_invI)
  have fresh: "w \<notin> set (pr_launches p)" using process_invD(1) [OF inv w(1)] w(2,3) by (simp add: worker_ok_def)
  show "distinct (pr_launches ?q)" using fresh process_invD(5) [OF inv] by simp
  fix v assume "v < length (pr_workers ?q)"
  with process_invD(1) [OF inv, of v] w fresh show "worker_ok ?q v" by (cases "v = w") (simp_all add: worker_ok_def)
next
  fix v assume "v \<in> set (pr_running ?q)"
  with process_invD(2) [OF inv, of v] w(1) show "v < length (pr_workers ?q) \<and> wk_event (pr_workers ?q ! v) \<noteq> None"
    by (cases "v = w") auto
qed (use process_invD [OF inv] w(1) in auto)

lemma run_enter_refused:
  "wk_event (pr_workers p ! w) \<noteq> None \<or> wk_finished (pr_workers p ! w) \<Longrightarrow> run_enter w launch p = (p, Inl RuntimeError)"
  by (auto simp add: run_enter_def Let_def simp del: not_None_eq)

text \<open>A launch that fails returns after the run is entered; a launch that succeeds runs, or leaves at once on a bad rate.\<close>

lemma run_enter_cases:
  assumes "run_enter w launch p = (p', r)"
  obtains (refused) "p' = p" "r = Inl RuntimeError"
  | (launch_failed) err where "wk_event (pr_workers p ! w) = None" "\<not> wk_finished (pr_workers p ! w)" "launch = Inl err" "r = Inl err"
      "p' = (update_worker w (\<lambda>k. k\<lparr>wk_event := Some False\<rparr>) p)\<lparr>pr_launches := pr_launches p @ [w]\<rparr>"
  | (left) "wk_event (pr_workers p ! w) = None" "\<not> wk_finished (pr_workers p ! w)" "launch = Inr ()" "r = Inl ValueError"
      "p' = run_exit w ((update_worker w (\<lambda>k. k\<lparr>wk_event := Some False\<rparr>) p)\<lparr>pr_launches := pr_launches p @ [w]\<rparr>)"
  | (running) q where "wk_event (pr_workers p ! w) = None" "\<not> wk_finished (pr_workers p ! w)" "launch = Inr ()" "r = Inr ()"
      "p' = ((update_worker w (\<lambda>k. k\<lparr>wk_event := Some False\<rparr>) p)\<lparr>pr_launches := pr_launches p @ [w]\<rparr>)\<lparr>pr_queues := q, pr_running := w # pr_running p\<rparr>"
proof (cases "wk_event (pr_workers p ! w) \<noteq> None \<or> wk_finished (pr_workers p ! w)")
  case True
  then show thesis using assms refused by (simp add: run_enter_refused)
next
  case False
  then have idle: "wk_event (pr_workers p ! w) = None" "\<not> wk_finished (pr_workers p ! w)" by simp_all
  show thesis
  proof (cases launch)
    case (Inl err)
    show thesis by (rule launch_failed [of err]) (use assms idle Inl in \<open>simp_all add: run_enter_def Let_def\<close>)
  next
    case (Inr u)
    show thesis
    proof (cases "rate_limiter (wk_rate (pr_workers p ! w))")
      case (Inl err)
      then have "err = ValueError" by (simp add: rate_limiter_def split: option.splits if_splits)
      then show thesis by (intro left) (use assms idle Inl Inr in \<open>simp_all add: run_enter_def Let_def\<close>)
    next
      case lim: (Inr limiter)
      show thesis by (rule running [of "pr_queues p'"]) (use assms idle lim Inr in \<open>auto simp: run_enter_def Let_def\<close>)
    qed
  qed
qed

lemma construct_inv:
  assumes inv: "process_inv p" and new: "construct_worker a p = (p', r)"
  shows "process_inv p'"
  using construct_worker_cases [OF new]
proof
  assume same: "pr_live p' = pr_live p \<and> pr_workers p' = pr_workers p \<and> pr_running p' = pr_running p \<and> pr_launches p' = pr_launches p \<and> isl r"
  then have "worker_ok p' w = worker_ok p w" for w by (simp add: worker_ok_def)
  with same inv show ?thesis by (simp add: process_inv_def)
next
  assume made: "pr_live p = None \<and> pr_live p' = Some (length (pr_workers p)) \<and> pr_workers p' = pr_workers p @ [new_worker a] \<and>
     pr_running p' = pr_running p \<and> pr_launches p' = pr_launches p \<and> r = Inr (length (pr_workers p))"
  show ?thesis
  proof (rule process_invI)
    fix v assume v: "v < length (pr_workers p')"
    show "worker_ok p' v"
    proof (cases "v = length (pr_workers p)")
      case True
      then have "v \<notin> set (pr_launches p)" using process_invD(4) [OF inv] by blast
      then show ?thesis using True made by (simp add: worker_ok_def new_worker_def)
    next
      case False
      then have "v < length (pr_workers p)" using v made by simp
      then show ?thesis using process_invD(1) [OF inv, of v] made by (auto simp: worker_ok_def nth_append)
    qed
  next
    fix v assume "v \<in> set (pr_running p')"
    then show "v < length (pr_workers p') \<and> wk_event (pr_workers p' ! v) \<noteq> None"
      using process_invD(2) [OF inv, of v] made by (simp add: nth_append)
  qed (use made process_invD [OF inv] in \<open>auto intro: less_SucI\<close>)
qed

lemma shutdown_worker_frame [simp]:
  "length (pr_workers (shutdown_worker w p)) = length (pr_workers p)"
  "w < length (pr_workers p) \<Longrightarrow> pr_workers (shutdown_worker w p) ! v =
     (if v = w \<and> wk_event (pr_workers p ! w) \<noteq> None then (pr_workers p ! w)\<lparr>wk_event := Some True\<rparr> else pr_workers p ! v)"
  "pr_live (shutdown_worker w p) = pr_live p" "pr_running (shutdown_worker w p) = pr_running p"
  "pr_launches (shutdown_worker w p) = pr_launches p" "pr_registry (shutdown_worker w p) = pr_registry p"
  by (simp_all add: shutdown_worker_def Let_def update_worker_def nth_list_update)

lemma shutdown_inv:
  assumes inv: "process_inv p" and w: "w < length (pr_workers p)"
  shows "process_inv (shutdown_worker w p)"
proof (rule process_invI)
  fix v assume "v < length (pr_workers (shutdown_worker w p))"
  with process_invD(1) [OF inv, of v] w show "worker_ok (shutdown_worker w p) v"
    by (cases "v = w \<and> wk_event (pr_workers p ! w) \<noteq> None") (auto simp: worker_ok_def)
next
  fix v assume "v \<in> set (pr_running (shutdown_worker w p))"
  with process_invD(2) [OF inv, of v] w
  show "v < length (pr_workers (shutdown_worker w p)) \<and> wk_event (pr_workers (shutdown_worker w p) ! v) \<noteq> None" by auto
qed (use process_invD [OF inv] in simp_all)

lemma started_inv:
  assumes inv: "process_inv p" and w: "w < length (pr_workers p)" "wk_event (pr_workers p ! w) = None" "\<not> wk_finished (pr_workers p ! w)"
  shows "process_inv (((update_worker w (\<lambda>k. k\<lparr>wk_event := Some False\<rparr>) p)\<lparr>pr_launches := pr_launches p @ [w]\<rparr>)\<lparr>pr_queues := q, pr_running := w # pr_running p\<rparr>)"
    (is "process_inv ?q")
proof -
  let ?e = "(update_worker w (\<lambda>k. k\<lparr>wk_event := Some False\<rparr>) p)\<lparr>pr_launches := pr_launches p @ [w]\<rparr>"
  have e: "process_inv ?e" by (rule run_entered_inv [OF inv w])
  have fresh: "w \<notin> set (pr_running p)" using process_invD(2) [OF inv] w(2) by blast
  show ?thesis
  proof (rule process_invI)
    fix v assume "v < length (pr_workers ?q)"
    with process_invD(1) [OF e, of v] show "worker_ok ?q v" by (simp add: worker_ok_def)
  next
    fix v assume "v \<in> set (pr_running ?q)"
    with process_invD(2) [OF e, of v] w(1) show "v < length (pr_workers ?q) \<and> wk_event (pr_workers ?q ! v) \<noteq> None"
      by (cases "v = w") auto
  qed (use process_invD [OF e] fresh in simp_all)
qed

lemma process_step_inv:
  assumes inv: "process_inv p" and "process_step p p'"
  shows "process_inv p'"
  using assms(2)
proof cases
  case (construct a r)
  then show ?thesis using construct_inv [OF inv] by blast
next
  case (enter w launch r)
  from \<open>run_enter w launch p = (p', r)\<close> show ?thesis
  proof (cases rule: run_enter_cases)
    case refused then show ?thesis using inv by simp
  next
    case (launch_failed err)
    then show ?thesis using run_entered_inv [OF inv \<open>w < _\<close>] by simp
  next
    case left
    let ?e = "(update_worker w (\<lambda>k. k\<lparr>wk_event := Some False\<rparr>) p)\<lparr>pr_launches := pr_launches p @ [w]\<rparr>"
    have "process_inv ?e" by (rule run_entered_inv [OF inv \<open>w < _\<close> left(1,2)])
    moreover have "w < length (pr_workers ?e)" "wk_event (pr_workers ?e ! w) \<noteq> None" using \<open>w < _\<close> by simp_all
    ultimately show ?thesis unfolding left(5) by (rule run_exit_inv)
  next
    case (running q)
    show ?thesis unfolding running(5) by (rule started_inv [OF inv \<open>w < _\<close> running(1,2)])
  qed
next
  case (leave w)
  with process_invD(2) [OF inv, of w] show ?thesis by (simp add: run_exit_inv [OF inv])
next
  case (shutdown w)
  then show ?thesis using shutdown_inv [OF inv] by simp
qed

lemma process_reachable_inv:
  assumes "process_reachable p q" "process_inv p"
  shows "process_inv q"
  using assms by (induction rule: process_reachable.induct) (auto intro: process_step_inv)


lemma running_is_live:
  assumes inv: "process_inv p" and w: "w \<in> set (pr_running p)"
  shows "pr_live p = Some w" "wk_event (pr_workers p ! w) \<noteq> None"
  using process_invD(2) [OF inv w] process_invD(1) [OF inv, of w] unfolding worker_ok_def by blast+

lemma live_refuses:
  "pr_live p \<noteq> None \<Longrightarrow> construct_worker a p = (p, Inl (if wa_queue a = [] then ValueError else RuntimeError))"
  by (simp add: construct_worker_def check_args_def)

text \<open>
  Claim C27. In every process, whatever workers are constructed, run and shut down in whatever order, at most one run is in
  progress, its worker is the live one, no worker is launched twice, and constructing another beside the live one is refused
  and changes nothing.
\<close>

theorem one_worker_at_a_time:
  assumes "process_reachable new_process p"
  shows "length (pr_running p) \<le> 1 \<and> (\<forall>w\<in>set (pr_running p). pr_live p = Some w \<and> is_running w p) \<and> distinct (pr_launches p) \<and>
    (pr_live p \<noteq> None \<longrightarrow> construct_worker a p = (p, Inl (if wa_queue a = [] then ValueError else RuntimeError)))"
proof -
  have inv: "process_inv p" by (rule process_reachable_inv [OF assms new_process_inv])
  have live: "pr_live p = Some w \<and> is_running w p" if "w \<in> set (pr_running p)" for w
    using running_is_live [OF inv that] by (simp add: is_running_def)
  have "card (set (pr_running p)) \<le> card (set_option (pr_live p))"
    using live by (intro card_mono) auto
  then have "length (pr_running p) \<le> 1"
    using distinct_card [OF process_invD(6) [OF inv]] by (cases "pr_live p") auto
  then show ?thesis using live process_invD(5) [OF inv] live_refuses [of p a] by blast
qed

subsection \<open>A launch that fails\<close>

definition wedged :: "nat \<Rightarrow> process \<Rightarrow> bool" where
  "wedged w p \<longleftrightarrow> process_inv p \<and> pr_live p = Some w \<and> is_running w p \<and> pr_running p = []"

lemma wedged_refuses:
  assumes "wedged w p"
  shows "construct_worker a p = (p, Inl (if wa_queue a = [] then ValueError else RuntimeError))"
    and "v < length (pr_workers p) \<Longrightarrow> run_enter v launch p = (p, Inl RuntimeError)"
proof -
  from assms have inv: "process_inv p" and live: "pr_live p = Some w" "is_running w p" by (auto simp: wedged_def)
  then show "construct_worker a p = (p, Inl (if wa_queue a = [] then ValueError else RuntimeError))"
    by (intro live_refuses) simp
  assume v: "v < length (pr_workers p)"
  have "v \<noteq> w \<Longrightarrow> wk_finished (pr_workers p ! v)"
    using process_invD(1) [OF inv v] live by (auto simp: worker_ok_def)
  then show "run_enter v launch p = (p, Inl RuntimeError)"
    using live by (intro run_enter_refused) (auto simp: is_running_def)
qed

lemma wedged_step:
  assumes w: "wedged w p" and "process_step p p'"
  shows "wedged w p'"
  using assms(2)
proof cases
  case (construct a r)
  then show ?thesis using wedged_refuses(1) [OF w] w by simp
next
  case (enter v launch r)
  then show ?thesis using wedged_refuses(2) [OF w] w by simp
next
  case (leave v)
  then show ?thesis using w by (simp add: wedged_def)
next
  case (shutdown v)
  then have "process_inv p'" using shutdown_inv w by (simp add: wedged_def)
  moreover have "is_running w p'" using w shutdown by (auto simp: wedged_def is_running_def)
  ultimately show ?thesis using w shutdown by (simp add: wedged_def)
qed

lemma wedged_forever: "process_reachable p q \<Longrightarrow> wedged w p \<Longrightarrow> wedged w q"
  by (induction rule: process_reachable.induct) (auto intro: wedged_step)

text \<open>
  Claim C37. When launching DBOS fails, the process is wedged: the worker reports running for ever though no run is in progress, and
  whatever is tried afterwards, shutting it down included, every run and every new worker is refused.
\<close>

theorem failed_launch_wedges:
  assumes "process_reachable new_process p" and w: "w < length (pr_workers p)" "\<not> is_running w p" "\<not> wk_finished (pr_workers p ! w)"
    and failed: "run_enter w (Inl err) p = (p', r)" and later: "process_reachable p' q"
  shows "r = Inl err \<and> is_running w q \<and> pr_running q = [] \<and>
    (\<forall>v < length (pr_workers q). run_enter v launch q = (q, Inl RuntimeError)) \<and>
    (\<forall>a. construct_worker a q = (q, Inl (if wa_queue a = [] then ValueError else RuntimeError)))"
proof -
  have inv: "process_inv p" by (rule process_reachable_inv [OF assms(1) new_process_inv])
  have idle: "wk_event (pr_workers p ! w) = None" using w(2) by (simp add: is_running_def)
  then have p': "p' = (update_worker w (\<lambda>k. k\<lparr>wk_event := Some False\<rparr>) p)\<lparr>pr_launches := pr_launches p @ [w]\<rparr>" and r: "r = Inl err"
    using failed w(3) by (simp_all add: run_enter_def Let_def)
  have live: "pr_live p = Some w" using process_invD(1) [OF inv w(1)] w(3) by (simp add: worker_ok_def)
  have "pr_running p = []"
    using running_is_live [OF inv] live idle by (cases "pr_running p") fastforce+
  then have "wedged w p'"
    using run_entered_inv [OF inv w(1) idle w(3)] live w(1) by (simp add: wedged_def p' is_running_def)
  from wedged_forever [OF later this] show ?thesis
    using r wedged_refuses [of w q] by (simp add: wedged_def)
qed


subsection \<open>The configuration handed to DBOS\<close>

lemma pin_build_Inr_iff:
  "pin_build build c = Inr c' \<longleftrightarrow>
     (case build of None \<Rightarrow> c' = c
      | Some b \<Rightarrow> b \<noteq> [] \<and> dict_get c ''application_version'' \<in> {None, Some (CStr b)} \<and> c' = dict_set ''application_version'' (CStr b) c)"
  by (auto simp: pin_build_def split: option.split)

text \<open>
  The configuration a worker hands to DBOS serves its namespace's schema with the plain serializer and no admin server; its
  application version is the build asked for, else the version the caller set, else the constant default; its executor is the
  identity given; and everything else the caller configured is passed on untouched.
\<close>

theorem worker_config_pins:
  assumes "worker_config a = Inr c"
  shows "(\<exists>schema. namespace_schema (wa_namespace a) = Inr schema \<and> dict_get c ''dbos_system_schema'' = Some (CStr schema)) \<and>
    dict_get c ''serializer'' = Some CSerializer \<and> dict_get c ''run_admin_server'' = Some (CBool False) \<and>
    dict_get c ''application_version'' =
      (case (explicit_build a, dict_get (normalize_config (wa_config a)) ''application_version'') of
         (Some build, _) \<Rightarrow> Some (CStr build) | (None, Some v) \<Rightarrow> Some v | (None, None) \<Rightarrow> Some (CStr ''0.1'')) \<and>
    dict_get c ''executor_id'' =
      (case wa_identity a of Some i \<Rightarrow> Some (CStr i) | None \<Rightarrow> dict_get (normalize_config (wa_config a)) ''executor_id'') \<and>
    (\<forall>k. k \<notin> {''dbos_system_schema'', ''serializer'', ''application_version'', ''executor_id''} \<longrightarrow>
       dict_get c k = dict_get (normalize_config (wa_config a)) k)"
proof -
  let ?n = "normalize_config (wa_config a)"
  have admin: "dict_get ?n ''run_admin_server'' = Some (CBool False)" by (simp add: normalize_config_def dict_simps)
  from assms obtain schema c3 where schema: "namespace_schema (wa_namespace a) = Inr schema" and c: "c = with_default_app_version c3"
    and c3: "pin_build (explicit_build a) (case wa_identity a of
        None \<Rightarrow> dict_set ''dbos_system_schema'' (CStr schema) (dict_set ''serializer'' CSerializer ?n)
      | Some i \<Rightarrow> dict_set ''executor_id'' (CStr i) (dict_set ''dbos_system_schema'' (CStr schema) (dict_set ''serializer'' CSerializer ?n))) = Inr c3"
    by (auto simp: worker_config_def Let_def bind_result_Inr_iff split: if_splits)
  show ?thesis
    using c3 schema admin
    by (auto simp: c pin_build_Inr_iff with_default_app_version_def DEFAULT_APP_VERSION_def dict_simps split: option.splits)
qed

subsection \<open>Activities outlive their worker\<close>

lemma register_activities_keep:
  "dict_get (rg_activities r) n \<noteq> None \<Longrightarrow> dict_get (rg_activities (fst (register_activities as r))) n \<noteq> None"
proof (induction as arbitrary: r)
  case (Cons a as)
  show ?case
  proof (cases a)
    case (Activity d fn)
    then show ?thesis using Cons
      by (cases "register_activity (d\<lparr>ad_fn := fn\<rparr>) r") (auto simp: register_activity_def dict_simps split: if_splits)
  qed (use Cons.prems in simp_all)
qed simp

lemma register_workflows_keep: "rg_activities (fst (register_workflows ws r)) = rg_activities r"
  by (induction ws arbitrary: r) (auto simp: register_dbos_workflow_def register_workflow_def split: sum.split)

lemma register_worker_keep:
  assumes "dict_get (rg_activities r) n \<noteq> None"
  shows "dict_get (rg_activities (fst (register_worker w r))) n \<noteq> None"
proof -
  let ?r2 = "(if wr_failures w = [] then r else add_failure_types (wr_failures w) r)
    \<lparr>rg_interceptors := wr_interceptors w, rg_queue := wr_queue w, rg_namespace := wr_namespace w, rg_dispatchers := True\<rparr>"
  have r2: "rg_activities ?r2 = rg_activities r" by (simp add: add_failure_types_def)
  obtain r3 res where r3: "register_workflows (wr_workflows w) ?r2 = (r3, res)" by fastforce
  with register_workflows_keep [of "wr_workflows w" ?r2] r2 have "rg_activities r3 = rg_activities r" by simp
  then show ?thesis
    using assms register_activities_keep [of r3 n "wr_activities w"] r3
    by (cases res) (simp_all add: register_worker_def Let_def)
qed

lemma construct_worker_registry:
  obtains "pr_registry (fst (construct_worker a p)) = pr_registry p" "isl (snd (construct_worker a p))"
  | w x where "pr_registry (fst (construct_worker a p)) = fst (register_worker w ((pr_registry p)\<lparr>rg_deployment := x\<rparr>))"
    "wr_activities w = wa_activities a" "isl (snd (construct_worker a p)) \<longleftrightarrow> isl (snd (register_worker w ((pr_registry p)\<lparr>rg_deployment := x\<rparr>)))"
proof (cases "check_args a p")
  case (Inl e)
  then show thesis using that(1) by (simp add: construct_worker_def)
next
  case ok: (Inr u)
  show thesis
  proof (cases "worker_config a")
    case (Inl e)
    then show thesis using that(1) ok by (simp add: construct_worker_def)
  next
    case (Inr c)
    let ?w = "\<lparr>wr_workflows = wa_workflows a, wr_activities = wa_activities a, wr_failures = wa_failures a,
        wr_interceptors = wa_interceptors a, wr_queue = Some (wa_queue a), wr_namespace = Some (wa_namespace a)\<rparr>"
    let ?x = "Some (case wa_deployment a of Some (build, name) \<Rightarrow> name | None \<Rightarrow> config_name c)"
    obtain r2 res where reg: "register_worker ?w ((pr_registry p)\<lparr>rg_deployment := ?x\<rparr>) = (r2, res)" by fastforce
    show thesis
      by (rule that(2) [of ?w ?x]; cases res) (simp_all add: construct_worker_def ok Inr Let_def reg)
  qed
qed

lemma construct_keeps_activity:
  assumes "dict_get (rg_activities (pr_registry p)) n \<noteq> None"
  shows "dict_get (rg_activities (pr_registry (fst (construct_worker a p)))) n \<noteq> None"
proof (cases rule: construct_worker_registry [of a p])
  case 1
  with assms show ?thesis by simp
next
  case (2 w x)
  with assms register_worker_keep [of "(pr_registry p)\<lparr>rg_deployment := x\<rparr>" n w] show ?thesis by simp
qed

lemma run_enter_registry:
  assumes "run_enter w launch p = (p', r)"
  shows "rg_activities (pr_registry p') = rg_activities (pr_registry p)"
  using assms by (cases rule: run_enter_cases) simp_all

lemma process_keeps_activity:
  assumes "process_reachable p q" "dict_get (rg_activities (pr_registry p)) n \<noteq> None"
  shows "dict_get (rg_activities (pr_registry q)) n \<noteq> None"
  using assms
proof (induction rule: process_reachable.induct)
  case (step q q')
  from \<open>process_step q q'\<close> show ?case
  proof cases
    case (construct a r)
    with construct_keeps_activity [OF step.IH [OF step.prems], of a] show ?thesis by simp
  next
    case (enter w launch r)
    with run_enter_registry [of w launch q q' r] step.IH [OF step.prems] show ?thesis by simp
  qed (use step.IH [OF step.prems] in simp_all)
qed

lemma register_worker_activities:
  assumes "register_worker w r = (r', Inr u)"
  obtains r3 where "rg_activities r3 = rg_activities r" "register_activities (wr_activities w) r3 = (r', Inr ())"
proof -
  let ?r2 = "(if wr_failures w = [] then r else add_failure_types (wr_failures w) r)
    \<lparr>rg_interceptors := wr_interceptors w, rg_queue := wr_queue w, rg_namespace := wr_namespace w, rg_dispatchers := True\<rparr>"
  have r2: "rg_activities ?r2 = rg_activities r" by (simp add: add_failure_types_def)
  obtain r3 res where r3: "register_workflows (wr_workflows w) ?r2 = (r3, res)" by fastforce
  then have "rg_activities r3 = rg_activities r" using register_workflows_keep [of "wr_workflows w" ?r2] r2 by simp
  moreover have "register_activities (wr_activities w) r3 = (r', Inr ())"
    using assms r3 by (cases res) (simp_all add: register_worker_def Let_def)
  ultimately show thesis by (rule that)
qed

text \<open>A construction that succeeds found none of its named activities registered, and leaves them all registered.\<close>

lemma constructed_activities:
  assumes new: "construct_worker a p = (p', Inr w)" and act: "Activity d fn \<in> set (wa_activities a)" "\<not> ad_dynamic d"
  shows "dict_get (rg_activities (pr_registry p)) (ad_name d) = None"
    and "dict_get (rg_activities (pr_registry p')) (ad_name d) \<noteq> None"
proof -
  have "dict_get (rg_activities (pr_registry p)) (ad_name d) = None \<and> dict_get (rg_activities (pr_registry p')) (ad_name d) \<noteq> None"
  proof (cases rule: construct_worker_registry [of a p])
    case 1
    with new show ?thesis by simp
  next
    case (2 k x)
    let ?r = "(pr_registry p)\<lparr>rg_deployment := x\<rparr>"
    have "register_worker k ?r = (pr_registry p', Inr ())"
      using 2(1,3) new by (cases "register_worker k ?r"; cases "snd (register_worker k ?r)") auto
    then obtain r3 where "rg_activities r3 = rg_activities (pr_registry p)"
        and "register_activities (wa_activities a) r3 = (pr_registry p', Inr ())"
      using 2(2) by (auto elim: register_worker_activities)
    with register_activities_get [of "wa_activities a" r3 "pr_registry p'"] act show ?thesis by auto
  qed
  then show "dict_get (rg_activities (pr_registry p)) (ad_name d) = None"
    and "dict_get (rg_activities (pr_registry p')) (ad_name d) \<noteq> None" by simp_all
qed

text \<open>
  An activity registered under a name stays registered for the life of the process: after its worker has run and shut down
  cleanly, constructing another worker with an activity of that name is still refused.
\<close>

theorem activities_outlive_their_worker:
  assumes first: "construct_worker a p = (p', Inr w)" "Activity d fn \<in> set (wa_activities a)" "\<not> ad_dynamic d"
    and later: "process_reachable p' q"
    and second: "Activity e g \<in> set (wa_activities b)" "\<not> ad_dynamic e" "ad_name e = ad_name d"
  shows "isl (snd (construct_worker b q))"
proof (rule ccontr)
  assume "\<not> isl (snd (construct_worker b q))"
  then obtain q' v where "construct_worker b q = (q', Inr v)"
    by (cases "construct_worker b q"; cases "snd (construct_worker b q)") auto
  then have "dict_get (rg_activities (pr_registry q)) (ad_name d) = None"
    using constructed_activities(1) second by metis
  then show False using process_keeps_activity [OF later constructed_activities(2) [OF first]] by simp
qed

subsection \<open>Concrete processes\<close>

definition greet_worker :: worker_args where
  "greet_worker = \<lparr>wa_config = Url ''postgres://db'', wa_queue = ''q'', wa_namespace = ''default'', wa_workflows = [Some greet_workflow],
     wa_activities = [Activity greet_activity ''fn''], wa_failures = [], wa_interceptors = [], wa_converter = 0,
     wa_build_id = Some ''b1'', wa_versioning = False, wa_deployment = None, wa_identity = Some ''host'', wa_unsupported = [],
     wa_max_tasks = None, wa_max_activities = Some 4, wa_max_local = None, wa_rate = None, wa_queue_rate = None\<rparr>"

definition greeting :: process where
  "greeting = fst (construct_worker greet_worker new_process)"

lemma construct_greeting: "construct_worker greet_worker new_process = (greeting, Inr 0)"
proof -
  have "snd (construct_worker greet_worker new_process) = Inr 0" by code_simp
  then show ?thesis by (metis greeting_def prod.collapse)
qed

lemma greeting_reachable: "process_reachable new_process greeting"
  by (rule process_reachable.step [OF process_reachable.start process_step.construct [OF construct_greeting]])

lemma greeting_idle: "0 < length (pr_workers greeting)" "\<not> is_running 0 greeting" "\<not> wk_finished (pr_workers greeting ! 0)"
  "wk_event (pr_workers greeting ! 0) = None" "wk_rate (pr_workers greeting ! 0) = None"
  by code_simp+

lemma one_worker_at_a_time_witness:
  "length (pr_running greeting) \<le> 1 \<and> construct_worker greet_worker greeting = (greeting, Inl RuntimeError)"
proof -
  have "pr_live greeting \<noteq> None" "wa_queue greet_worker \<noteq> []" by code_simp+
  then show ?thesis using one_worker_at_a_time [OF greeting_reachable, of greet_worker] by simp
qed

lemma failed_launch_wedges_witness:
  "is_running 0 (shutdown_worker 0 (fst (run_enter 0 (Inl RuntimeError) greeting)))"
proof -
  let ?p = "fst (run_enter 0 (Inl RuntimeError) greeting)"
  have failed: "run_enter 0 (Inl RuntimeError) greeting = (?p, snd (run_enter 0 (Inl RuntimeError) greeting))" by simp
  have "0 < length (pr_workers ?p)" by code_simp
  then have "process_reachable ?p (shutdown_worker 0 ?p)"
    by (rule process_reachable.step [OF process_reachable.start process_step.shutdown])
  from failed_launch_wedges [OF greeting_reachable greeting_idle(1-3) failed this] show ?thesis by blast
qed

lemma worker_config_pins_witness:
  "\<exists>c. worker_config greet_worker = Inr c \<and> dict_get c ''serializer'' = Some CSerializer"
proof -
  have "\<not> isl (worker_config greet_worker)" by code_simp
  then obtain c where "worker_config greet_worker = Inr c" by (cases "worker_config greet_worker") auto
  with worker_config_pins [OF this] show ?thesis by blast
qed

lemma activities_outlive_their_worker_witness:
  "\<exists>q. process_reachable greeting q \<and> pr_live q = None \<and> isl (snd (construct_worker greet_worker q))"
proof -
  let ?p = "fst (run_enter 0 (Inr ()) greeting)"
  have run: "run_enter 0 (Inr ()) greeting = (?p, snd (run_enter 0 (Inr ()) greeting))" by simp
  have running: "0 \<in> set (pr_running ?p)" using greeting_idle by (simp add: run_enter_def Let_def rate_limiter_def)
  have "process_reachable greeting (run_exit 0 ?p)"
    by (rule process_reachable.step [OF process_reachable.step [OF process_reachable.start
        process_step.enter [OF greeting_idle(1) run]] process_step.leave [OF running]])
  moreover have "Activity greet_activity ''fn'' \<in> set (wa_activities greet_worker)" "\<not> ad_dynamic greet_activity"
    by (simp_all add: greet_worker_def greet_activity_def)
  ultimately have "isl (snd (construct_worker greet_worker (run_exit 0 ?p)))"
    by (intro activities_outlive_their_worker [OF construct_greeting, of greet_activity "''fn''" _ greet_activity "''fn''"]) simp_all
  with \<open>process_reachable greeting (run_exit 0 ?p)\<close> show ?thesis by (intro exI [of _ "run_exit 0 ?p"]) simp
qed

end
