(* ===== verification/Replay.thy ===== *)
theory Replay
  imports Client_Handle Dispatcher Interp_Close Registry
begin

text \<open>
  Verification by replay (\<open>dbosify/_internal/replay.py\<close>) and \<open>fetch_history\<close> of \<open>dbosify/client.py\<close>: the history of a run,
  the scratch fork, the verdict on how the fork ended, and the \<open>Replayer\<close>. The world and its DBOS calls are those of
  \<open>Client_Handle\<close>; how the scratch run ends is what the dispatcher (\<open>Dispatcher\<close>) makes of the interpreter's end.
\<close>

subsection \<open>Histories\<close>

record history =
  hi_workflow :: string
  hi_run :: string
  hi_type :: string
  hi_input :: json
  hi_steps :: "nat list"
  hi_status :: "execution_status option"
  hi_attributes :: jdict
  hi_version :: "string option"

definition replay_horizon :: "history \<Rightarrow> nat" where
  "replay_horizon h = Max (insert 0 (set (hi_steps h)))"

text \<open>The columns of a status row that only a history reads.\<close>

record row_info =
  ri_name :: "string option"
  ri_input :: json
  ri_attributes :: "jdict option"
  ri_version :: "string option"

definition workflow_type_of :: "string option \<Rightarrow> string" where
  "workflow_type_of name =
     (let n = (case name of Some n \<Rightarrow> n | None \<Rightarrow> [])
      in if prefix ''wf:'' n then drop 3 n else n)"

definition fetch_history :: "'w dbos \<Rightarrow> ('w \<Rightarrow> string \<Rightarrow> row_info) \<Rightarrow> handle \<Rightarrow> ('w, history) act" where
  "fetch_history c info h =
     act_bind (target_of c (h_id h) (h_run_id h)) (\<lambda>dbos_id.
     act_bind (status_of c dbos_id) (\<lambda>row.
     act_bind (act_lift (execution_status_of row)) (\<lambda>status w.
       let i = info w dbos_id
       in act_lift (Inr \<lparr>hi_workflow = h_id h, hi_run = dbos_id, hi_type = workflow_type_of (ri_name i), hi_input = ri_input i,
            hi_steps = db_steps c dbos_id w, hi_status = Some status,
            hi_attributes = (case ri_attributes i of Some a \<Rightarrow> a | None \<Rightarrow> []), hi_version = ri_version i\<rparr>) w)))"

subsection \<open>One replay\<close>

datatype replay_failure = CannotReplay | Nondeterminism string

definition divergence_message :: "json \<Rightarrow> string" where
  "divergence_message env =
     (case jget_default env ''message'' (JStr ''nondeterministic replay'') of JStr s \<Rightarrow> s | _ \<Rightarrow> [])"

text \<open>What the end of the scratch run says; an error \<open>replay_one\<close> does not catch passes.\<close>

definition replay_verdict :: "awaited \<Rightarrow> replay_failure option client_result" where
  "replay_verdict outcome =
     (case outcome of
        Returned _ \<Rightarrow> Inr None
      | AwaitRaised (SerializedWorkflowCancellation _) \<Rightarrow> Inr None
      | AwaitRaised (SerializedWorkflowFailure env) \<Rightarrow>
          Inr (if jget env ''type'' = JStr NONDETERMINISM_MARKER then Some (Nondeterminism (divergence_message env)) else None)
      | AwaitRaised (SerializedContinueAsNew _) \<Rightarrow> Inr None
      | AwaitRaised (OtherError typ msg) \<Rightarrow>
          if typ \<in> {''DBOSUnexpectedStepError'', ''NondeterminismError''} then Inr (Some (Nondeterminism msg))
          else Inl (ForeignFailure typ msg)
      | AwaitCancelled \<Rightarrow> Inl (ForeignFailure ''DBOSAwaitedWorkflowCancelledError'' ''''))"

definition not_replayable :: "execution_status option \<Rightarrow> bool" where
  "not_replayable status \<longleftrightarrow> status \<in> {Some TERMINATED, Some TIMED_OUT, Some CONTINUED_AS_NEW}"

definition replay_one :: "'w dbos \<Rightarrow> string \<Rightarrow> history \<Rightarrow> ('w, replay_failure option) act" where
  "replay_one c token h w =
     (if not_replayable (hi_status h) then act_lift (Inr (Some CannotReplay)) w
      else
        let (scratch, w1) = start_replay_fork c (hi_run h) (hi_steps h) Verify token w
        in case db_await c scratch w1 of
             None \<Rightarrow> None
           | Some (outcome, w2) \<Rightarrow> Some (replay_verdict outcome, db_delete c scratch w2))"

subsection \<open>The replayer\<close>

fun replayer_names :: "registry \<Rightarrow> Registry.workflow_def option list \<Rightarrow> string list result" where
  "replayer_names r [] = Inr []"
| "replayer_names r (w # ws) =
     bind_result (workflow_definition_of w) (\<lambda>d.
       if Registry.wd_name d \<notin> set (rg_dbos r) then Inl RuntimeError
       else bind_result (replayer_names r ws) (\<lambda>names. Inr (Registry.wd_name d # names)))"

definition new_replayer :: "registry \<Rightarrow> Registry.workflow_def option list \<Rightarrow> string list result" where
  "new_replayer r workflows = (if workflows = [] then Inl ValueError else replayer_names r workflows)"

text \<open>A replay failure that is raised, or another error of the replay.\<close>

datatype replay_raise = ReplayFailed replay_failure | ReplayError client_error

definition replay_workflow ::
  "'w dbos \<Rightarrow> string \<Rightarrow> bool \<Rightarrow> history \<Rightarrow> 'w \<Rightarrow> ((replay_raise + history \<times> replay_failure option) \<times> 'w) option" where
  "replay_workflow c token raise_on_failure h w =
     map_option (\<lambda>(r, w1). (case r of
         Inl err \<Rightarrow> Inl (ReplayError err)
       | Inr failure \<Rightarrow>
           (case failure of
              Some f \<Rightarrow> if raise_on_failure then Inl (ReplayFailed f) else Inr (h, failure)
            | None \<Rightarrow> Inr (h, failure)), w1)) (replay_one c token h w)"

text \<open>The failures by run, in the order of a dict, and the first one.\<close>

fun replay_all ::
  "'w dbos \<Rightarrow> (string \<times> history) list \<Rightarrow> (string, replay_failure) dict \<times> replay_failure option \<Rightarrow>
     ('w, (string, replay_failure) dict \<times> replay_failure option) act" where
  "replay_all c [] acc w = act_lift (Inr acc) w"
| "replay_all c ((token, h) # hs) acc w =
     act_bind (replay_one c token h) (\<lambda>failure.
       replay_all c hs (case failure of
           None \<Rightarrow> acc
         | Some f \<Rightarrow> (dict_set (hi_run h) f (fst acc), case snd acc of None \<Rightarrow> Some f | Some g \<Rightarrow> Some g))) w"

definition replay_workflows ::
  "'w dbos \<Rightarrow> bool \<Rightarrow> (string \<times> history) list \<Rightarrow> 'w \<Rightarrow> ((replay_raise + (string, replay_failure) dict) \<times> 'w) option" where
  "replay_workflows c raise_on_failure hs w =
     map_option (\<lambda>(r, w1). (case r of
         Inl err \<Rightarrow> Inl (ReplayError err)
       | Inr (failures, first) \<Rightarrow>
           (case first of
              Some f \<Rightarrow> if raise_on_failure then Inl (ReplayFailed f) else Inr failures
            | None \<Rightarrow> Inr failures), w1)) (replay_all c hs ([], None) w)"

subsection \<open>The verdict\<close>

text \<open>What waiting for a recorded outcome gives; a failure that carries the marker as its own type.\<close>

definition awaited_of :: "stored \<Rightarrow> awaited" where
  "awaited_of st = (case st of Value j \<Rightarrow> Returned j | stored.Raised err \<Rightarrow> AwaitRaised err)"

definition poses_as_divergence :: "json exc \<Rightarrow> bool" where
  "poses_as_divergence err \<longleftrightarrow>
     (case exc_kind err of
        ApplicationError _ _ typ _ _ _ \<Rightarrow> typ = Some NONDETERMINISM_MARKER
      | OtherFailure name _ \<Rightarrow> name = NONDETERMINISM_MARKER
      | _ \<Rightarrow> False)"

definition verdict_of_end :: "loop_end \<Rightarrow> replay_failure option client_result" where
  "verdict_of_end end =
     (case end of
        LoopDiverged msg \<Rightarrow> Inr (Some (Nondeterminism msg))
      | LoopExc err \<Rightarrow>
          if is_divergence err then Inr (Some (Nondeterminism (exc_str err)))
          else (case exc_kind err of
                  OtherException name msg \<Rightarrow> Inl (ForeignFailure name msg)
                | AsyncioCancelled \<Rightarrow> Inl (ForeignFailure ''CancelledError'' '''')
                | _ \<Rightarrow> Inr None)
      | _ \<Rightarrow> Inr None)"

lemma verify_id: "replay_scratch_mode (replay_scratch_id run Verify token) = Some Verify"
  by (simp add: replay_scratch_mode_def replay_scratch_id_def)

lemma fork_id: "fst (start_replay_fork c run steps Verify token w) = replay_scratch_id run Verify token"
  by (simp add: start_replay_fork_def Let_def)

lemma jget_dict_set: "jget (JObj (dict_set k v d)) k' = (if k' = k then v else jget (JObj d) k')"
  by (simp add: jget_def map_of_dict_set)

lemma jget_env_type:
  "jget (JObj (kind_env enc k @ trace_env t @ [(''cause'', x)])) ''type'' =
     (case k of ApplicationError _ _ typ _ _ _ \<Rightarrow> json_of_option JStr typ | OtherFailure name _ \<Rightarrow> JStr name
      | OtherException name _ \<Rightarrow> JStr name | AsyncioCancelled \<Rightarrow> JStr ''CancelledError'' | _ \<Rightarrow> JNull)"
  by (cases k) (auto simp: jget_def trace_env_def split: option.splits)

lemma failure_envelope_type:
  assumes "is_FailureError (exc_kind err)" "\<not> poses_as_divergence err"
  shows "jget (JObj (with_new_run (failure_envelope e err) run)) ''type'' \<noteq> JStr NONDETERMINISM_MARKER"
proof -
  obtain k c ctx suppress trace fl where err: "err = Exc k c ctx suppress trace fl" by (cases err)
  have "jget (JObj (failure_envelope e err)) ''type'' \<noteq> JStr NONDETERMINISM_MARKER"
    using assms unfolding err failure_envelope_def serialize_failure.simps json.case jget_env_type
    by (cases k) (auto simp: poses_as_divergence_def json_of_option_def split: option.splits)
  then show ?thesis by (simp add: with_new_run_def jget_dict_set split: option.split)
qed

lemma record_divergence_verdict:
  assumes "replay_scratch_mode (de_workflow_id e) \<noteq> None"
  shows "replay_verdict (awaited_of (record_divergence e original msg)) = Inr (Some (Nondeterminism msg))"
  using assms
  by (auto simp: replay_verdict_def awaited_of_def record_divergence_def jget_def jget_default_def divergence_message_def)

lemma end_verdict:
  assumes closed: "dispatch_end e t args meta unconsumed end cancelled = (ops, Inr st)"
    and scratch: "replay_scratch_mode (de_workflow_id e) \<noteq> None"
    and honest: "\<And>err. end = LoopExc err \<Longrightarrow> \<not> poses_as_divergence err"
  shows "replay_verdict (awaited_of st) = verdict_of_end end"
proof (cases "end")
  case (LoopValue v)
  then have "st = Value (de_enc e v)"
    using arg_cong [OF closed, of snd]
    by (simp add: dispatch_end_def hop_return_def snd_hop_bind) (auto simp: bind_result_Inr_iff)
  then show ?thesis using LoopValue by (simp add: replay_verdict_def awaited_of_def verdict_of_end_def)
next
  case (LoopDiverged msg)
  then have "st = record_divergence e (OtherError ''NondeterminismError'' msg) msg"
    using closed by (simp add: dispatch_end_def hop_return_def)
  then show ?thesis using LoopDiverged record_divergence_verdict [OF scratch] by (simp add: verdict_of_end_def)
next
  case (LoopExc err)
  consider (div) "is_divergence err" | (raw) "\<not> is_divergence err" "\<not> is_FailureError (exc_kind err)"
    | (failed) "\<not> is_divergence err" "is_FailureError (exc_kind err)" by blast
  then show ?thesis
  proof cases
    case div
    then have "st = record_divergence e (raw_error err) (exc_str err)"
      using closed LoopExc by (simp add: dispatch_end_def hop_return_def)
    then show ?thesis using LoopExc div record_divergence_verdict [OF scratch] by (simp add: verdict_of_end_def)
  next
    case raw
    then have "st = stored.Raised (raw_error err)"
      using closed LoopExc by (simp add: dispatch_end_def hop_return_def)
    then show ?thesis using LoopExc raw
      by (cases "exc_kind err") (auto simp: replay_verdict_def awaited_of_def verdict_of_end_def raw_error_def is_divergence_def)
  next
    case failed
    then obtain run where st: "st = stored.Raised (SerializedWorkflowFailure (JObj (with_new_run (failure_envelope e err) run)))"
      using arg_cong [OF closed, of snd] LoopExc
      by (auto simp: dispatch_end_def hop_return_def snd_hop_bind bind_result_Inr_iff Let_def)
    have "verdict_of_end end = Inr None"
      using failed LoopExc by (cases "exc_kind err") (simp_all add: verdict_of_end_def)
    then show ?thesis
      using failure_envelope_type [OF failed(2) honest [OF LoopExc], of e run]
      by (simp add: st replay_verdict_def awaited_of_def)
  qed
qed (use closed in \<open>auto simp: dispatch_end_def hop_return_def hop_lift_def replay_verdict_def awaited_of_def verdict_of_end_def\<close>)



subsection \<open>A faithful replay that is refused\<close>

text \<open>Every close of a cron run that returned reads the inbox at least once.\<close>

lemma cron_close_calls:
  assumes "m_cron meta = Some cron" "dispatch_end e t args meta unconsumed (LoopValue v) cancelled = (ops, r)"
  shows "ops \<noteq> []"
  using assms
  by (auto simp: dispatch_end_def hop_bind_def continue_after_success_def drain_unconsumed_def Let_def split: prod.splits sum.splits)

text \<open>
  Claim C29. Verification condemns unchanged code: a cron run that returned makes DBOS calls after its interpreter's last step (it reads
  the rest of its inbox), so its history reaches beyond that step, and the replay of the very same execution is reported as
  non-determinism for having finished early. The hypotheses are that DBOS records a call made after the step \<open>n\<close> behind it, and that
  the fork replays the same code to the same result with the same steps.
\<close>

theorem cron_replay_condemned:
  assumes original: "m_cron meta = Some cron" "dispatch_end e t args meta unconsumed (LoopValue v) cancelled = (ops, Inr st)"
    and recorded: "ops \<noteq> [] \<longrightarrow> (\<exists>k\<in>set (hi_steps h). n < k)"
    and replay: "i_outcome s = Some (OkOutcome v)" "i_replay_mode s = Some Verify" "i_replay_horizon s = replay_horizon h"
      "history_length re s = n"
    and "\<not> not_replayable (hi_status h)"
    and fork: "start_replay_fork c (hi_run h) (hi_steps h) Verify token w = (scratch, w1)"
    and ran: "de_workflow_id e' = scratch"
      "dispatch_end e' t args meta unconsumed' (loop_end_of e' (execution_of re s)) cancelled' = (ops', Inr st')"
    and awaited: "db_await c scratch w1 = Some (awaited_of st', w2)"
  shows "replay_one c token h w = Some (Inr (Some (Nondeterminism (de_divergence e'))), db_delete c scratch w2)"
proof -
  obtain k where "k \<in> set (hi_steps h)" "n < k" using recorded cron_close_calls [OF original] by blast
  then have "n < replay_horizon h" by (auto simp: replay_horizon_def intro: less_le_trans [OF _ Max_ge])
  then have diverged: "loop_end_of e' (execution_of re s) = LoopDiverged (de_divergence e')"
    using replay by (simp add: execution_of_def)
  have "replay_scratch_mode (de_workflow_id e') \<noteq> None"
    using fork fork_id [of c "hi_run h" "hi_steps h" token w] by (simp add: ran(1) verify_id)
  then have "replay_verdict (awaited_of st') = Inr (Some (Nondeterminism (de_divergence e')))"
    using end_verdict [OF ran(2)] by (simp add: diverged verdict_of_end_def)
  then show ?thesis using assms(8) by (simp add: replay_one_def fork awaited)
qed

subsection \<open>The replayer and the worker\<close>

lemma replayer_names_known:
  assumes "\<And>d. Some d \<in> set ws \<Longrightarrow> Registry.wd_name d \<in> set (rg_dbos r)" "None \<notin> set ws"
  shows "replayer_names r ws = Inr (map (\<lambda>w. Registry.wd_name (the w)) ws)"
  using assms
proof (induction ws)
  case (Cons w ws)
  then obtain d where "w = Some d" by (cases w) auto
  with Cons show ?case by (simp add: workflow_definition_of_def)
qed simp

lemma registered_not_none: "register_workflows ws r = (r', Inr ()) \<Longrightarrow> None \<notin> set ws"
  by (induction ws arbitrary: r) (auto simp: workflow_definition_of_def split: sum.splits option.splits)

text \<open>
  A \<open>Replayer\<close> can be built for any of the workflow types a worker of the process registered, and for no class that is not a
  workflow or that no worker registered.
\<close>

theorem replayer_accepts_registered:
  assumes "register_worker k r = (r', Inr ())" and "ws \<noteq> []"
  shows "(set ws \<subseteq> set (wr_workflows k) \<longrightarrow> new_replayer r' ws = Inr (map (\<lambda>w. Registry.wd_name (the w)) ws)) \<and>
    (None \<in> set ws \<or> (\<exists>d. Some d \<in> set ws \<and> Registry.wd_name d \<notin> set (rg_dbos r')) \<longrightarrow> isl (new_replayer r' ws))"
proof (intro conjI impI)
  let ?r2 = "(if wr_failures k = [] then r else add_failure_types (wr_failures k) r)
    \<lparr>rg_interceptors := wr_interceptors k, rg_queue := wr_queue k, rg_namespace := wr_namespace k, rg_dispatchers := True\<rparr>"
  from assms(1) obtain r3 where w: "register_workflows (wr_workflows k) ?r2 = (r3, Inr ())"
    and a: "register_activities (wr_activities k) r3 = (r', Inr ())"
    by (auto simp: register_worker_def Let_def split: prod.splits sum.splits)
  have known: "Registry.wd_name d \<in> set (rg_dbos r')" if "Some d \<in> set (wr_workflows k)" for d
    using register_workflows_get [OF w] register_activities_get [OF a] that by auto
  assume "set ws \<subseteq> set (wr_workflows k)"
  then have "replayer_names r' ws = Inr (map (\<lambda>w. Registry.wd_name (the w)) ws)"
    using known registered_not_none [OF w] by (intro replayer_names_known) auto
  then show "new_replayer r' ws = Inr (map (\<lambda>w. Registry.wd_name (the w)) ws)" using assms(2) by (simp add: new_replayer_def)
next
  assume bad: "None \<in> set ws \<or> (\<exists>d. Some d \<in> set ws \<and> Registry.wd_name d \<notin> set (rg_dbos r'))"
  then have "isl (replayer_names r' ws)"
  proof (induction ws)
    case (Cons w ws)
    then show ?case
      by (cases w; cases "replayer_names r' ws") (auto simp: workflow_definition_of_def)
  qed simp
  then show "isl (new_replayer r' ws)" using assms(2) by (simp add: new_replayer_def)
qed

subsection \<open>Concrete replays\<close>

text \<open>A world of existing runs, in which a fork of a run ends with a given outcome.\<close>

definition ends_with :: "stored \<Rightarrow> string list dbos" where
  "ends_with st = \<lparr>db_clock = (\<lambda>_. 0), db_list = (\<lambda>_ _. []), db_send = (\<lambda>_ _ w. w), db_cancel = (\<lambda>_ w. w), db_enqueue = (\<lambda>_ _ w. w),
     db_event = (\<lambda>_ _ _ w. (None, w)), db_await = (\<lambda>_ w. Some (awaited_of st, w)), db_steps = (\<lambda>_ _. [1, 2]),
     db_fork = (\<lambda>_ _ scratch w. scratch # w), db_ends_first = (\<lambda>_ _. None), db_settles = (\<lambda>_ _ w. (True, w)),
     db_delete = (\<lambda>run w. removeAll run w), db_cron = \<lparr>cron_zone = (\<lambda>_. True), cron_valid = (\<lambda>_. True), cron_next = (\<lambda>_ _ _. 0)\<rparr>,
     db_enc = id, db_dec = Inr, db_detail = id\<rparr>"

definition closed_history :: "nat list \<Rightarrow> history" where
  "closed_history steps = \<lparr>hi_workflow = ''w'', hi_run = ''w'', hi_type = ''T'', hi_input = JNull, hi_steps = steps,
     hi_status = Some COMPLETED, hi_attributes = [], hi_version = None\<rparr>"

definition scratch_disp :: disp_env where
  "scratch_disp = local_disp\<lparr>de_workflow_id := replay_scratch_id ''w'' Verify ''0''\<rparr>"

lemma scratch_fork:
  "start_replay_fork (ends_with st) ''w'' steps Verify ''0'' [''w''] = (replay_scratch_id ''w'' Verify ''0'', [replay_scratch_id ''w'' Verify ''0'', ''w''])"
  by (simp add: start_replay_fork_def ends_with_def Let_def)

lemma scratch_fresh: "replay_scratch_id ''w'' Verify ''0'' \<noteq> ''w''"
  by (simp add: replay_scratch_id_def VERIFY_SEPARATOR_def)

lemma scratch_gone: "removeAll (replay_scratch_id ''w'' Verify ''0'') [replay_scratch_id ''w'' Verify ''0'', ''w''] = [''w'']"
  by (simp add: scratch_fresh)

lemma diverged_record:
  "dispatch_end scratch_disp t args meta unconsumed (LoopDiverged msg) cancelled =
     ([], Inr (record_divergence scratch_disp (OtherError ''NondeterminismError'' msg) msg))"
  by (simp add: dispatch_end_def hop_return_def)


text \<open>A cron run whose interpreter ended at step two and whose close read its empty inbox as step three.\<close>

definition cron_meta :: run_meta where "cron_meta = default_meta\<lparr>m_cron := Some ''hourly''\<rparr>"

definition replayed :: interp where
  "replayed = (new_interp ''w--v0'' plain_defn None None None)\<lparr>i_outcome := Some (OkOutcome (JInt 1)), i_replay_mode := Some Verify,
     i_replay_horizon := 3, i_log := [SetEvent ''a'' JNull, SetEvent ''b'' JNull]\<rparr>"

lemma cron_replay_condemned_witness:
  "\<exists>st. replay_one (ends_with st) ''0'' (closed_history [2, 3]) [''w''] = Some (Inr (Some (Nondeterminism ''replay'')), [''w''])"
proof -
  let ?fin = "loop_end_of scratch_disp (execution_of plain_env replayed)"
  let ?st = "record_divergence scratch_disp (OtherError ''NondeterminismError'' ''replay'') ''replay''"
  have h: "\<not> not_replayable (hi_status (closed_history [2, 3]))" "hi_run (closed_history [2, 3]) = ''w''"
    "replay_horizon (closed_history [2, 3]) = 3" "\<exists>k\<in>set (hi_steps (closed_history [2, 3])). 2 < k"
    by (simp_all add: closed_history_def not_replayable_def replay_horizon_def)
  have ran: "de_workflow_id scratch_disp = replay_scratch_id ''w'' Verify ''0''" "de_divergence scratch_disp = ''replay''"
    by (simp_all add: scratch_disp_def local_disp_def)
  have replay: "i_outcome replayed = Some (OkOutcome (JInt 1))" "i_replay_mode replayed = Some Verify" "i_replay_horizon replayed = 3"
    "history_length plain_env replayed = 2"
    by (simp_all add: replayed_def history_length_def plain_env_def)
  have scratch_end: "dispatch_end scratch_disp ''T'' [] cron_meta [] ?fin False = ([], Inr ?st)"
    by (simp add: execution_of_def replay diverged_record ran(2))
  have "\<exists>ops st. dispatch_end local_disp ''T'' [] cron_meta [] (LoopValue (JInt 1)) True = (ops, Inr st)"
    by (simp add: dispatch_end_def cron_meta_def continue_after_success_def drain_unconsumed_def hop_bind_def hop_return_def)
  then obtain ops st where original: "dispatch_end local_disp ''T'' [] cron_meta [] (LoopValue (JInt 1)) True = (ops, Inr st)" by blast
  have awaited: "db_await (ends_with ?st) run w = Some (awaited_of ?st, w)" for run w by (simp add: ends_with_def)
  have delete: "db_delete (ends_with ?st) run w = removeAll run w" for run w by (simp add: ends_with_def)
  have fork: "start_replay_fork (ends_with ?st) (hi_run (closed_history [2, 3])) (hi_steps (closed_history [2, 3])) Verify ''0'' [''w''] =
      (replay_scratch_id ''w'' Verify ''0'', [replay_scratch_id ''w'' Verify ''0'', ''w''])"
    by (simp add: h(2) scratch_fork)
  have "replay_one (ends_with ?st) ''0'' (closed_history [2, 3]) [''w''] =
      Some (Inr (Some (Nondeterminism (de_divergence scratch_disp))), removeAll (replay_scratch_id ''w'' Verify ''0'') [replay_scratch_id ''w'' Verify ''0'', ''w''])"
    unfolding delete [symmetric]
    by (rule cron_replay_condemned [OF _ original _ replay(1,2) _ replay(4) h(1) fork ran(1) scratch_end awaited])
      (use h replay in \<open>simp_all add: cron_meta_def\<close>)
  then show ?thesis using scratch_gone ran(2) by auto
qed

lemma replayer_accepts_registered_witness:
  "new_replayer (fst (register_worker greet_registration empty_registry)) [Some greet_workflow] = Inr [''Greet'']"
proof -
  have "register_worker greet_registration empty_registry = (fst (register_worker greet_registration empty_registry), Inr ())"
    by code_simp
  from replayer_accepts_registered [OF this, of "[Some greet_workflow]"] show ?thesis
    by (simp add: greet_registration_def greet_workflow_def)
qed

end
