(* ===== verification/Child_Wait.thy ===== *)
theory Child_Wait
  imports Client_Replies Interp_Deliver
begin

text \<open>
  How a workflow waits for what it started: the steps \<open>_await_child_result\<close> and \<open>_await_activity_result\<close> of
  \<open>dbosify/_internal/interpreter.py\<close>, which follow a child's run chain and record the outcome as an envelope, and what the
  delivery of that envelope makes of the parent's future. The world and its DBOS calls are those of \<open>Client_Handle\<close>; \<open>enc\<close> encodes
  the details of a failure and \<open>err_text\<close> is the text of a Python error.
\<close>

subsection \<open>The waits\<close>

datatype child_end =
    ChildReturned json
  | ChildCancelled json
  | ChildFailed json
  | ChildTerminated
  | ChildError string string

definition child_error :: "(py_error \<Rightarrow> string) \<Rightarrow> py_error \<Rightarrow> child_end" where
  "child_error err_text err = ChildError (error_name err) (err_text err)"

text \<open>A failed or cancelled run with a successor is followed, as a continued one.\<close>

definition child_next :: "(py_error \<Rightarrow> string) \<Rightarrow> awaited \<Rightarrow> child_end + string" where
  "child_next err_text outcome =
     (let follow = (\<lambda>env end. if jget env ''new_run_id'' = JNull then Inl end
        else (case as_str (jget env ''new_run_id'') of Inl err \<Rightarrow> Inl (child_error err_text err) | Inr run \<Rightarrow> Inr run))
      in case outcome of
           Returned raw \<Rightarrow> Inl (ChildReturned raw)
         | AwaitRaised (SerializedContinueAsNew env) \<Rightarrow>
             (case bind_result (jindex env ''new_run_id'') as_str of Inl err \<Rightarrow> Inl (child_error err_text err) | Inr run \<Rightarrow> Inr run)
         | AwaitRaised (SerializedWorkflowFailure env) \<Rightarrow> follow env (ChildFailed env)
         | AwaitRaised (SerializedWorkflowCancellation env) \<Rightarrow> follow env (ChildCancelled env)
         | AwaitRaised (OtherError typ msg) \<Rightarrow> Inl (ChildError typ msg)
         | AwaitCancelled \<Rightarrow> Inl ChildTerminated)"

partial_function (option) child_wait :: "'w dbos \<Rightarrow> (py_error \<Rightarrow> string) \<Rightarrow> string \<Rightarrow> 'w \<Rightarrow> (child_end \<times> 'w) option" where
  "child_wait c err_text run w =
     (case db_await c run w of
        None \<Rightarrow> None
      | Some (outcome, w1) \<Rightarrow>
          (case child_next err_text outcome of
             Inl end \<Rightarrow> Some (end, w1)
           | Inr successor \<Rightarrow> child_wait c err_text successor w1))"

definition ended :: "json \<Rightarrow> jdict \<Rightarrow> rat \<Rightarrow> json" where
  "ended ok parts now = JObj ((''ok'', ok) # parts @ [(''ended_at'', JNum now)])"

definition child_envelope :: "(json list \<Rightarrow> json list) \<Rightarrow> rat \<Rightarrow> child_end \<Rightarrow> json" where
  "child_envelope enc now end =
     (case end of
        ChildReturned raw \<Rightarrow> ended (JBool True) [(''result'', raw)] now
      | ChildCancelled env \<Rightarrow> ended (JBool False) [(''cancelled'', JBool True), (''failure'', env)] now
      | ChildFailed env \<Rightarrow> ended (JBool False) [(''failure'', env)] now
      | ChildTerminated \<Rightarrow>
          ended (JBool False) [(''failure'', serialize_failure enc (new_exc (TerminatedError ''Child workflow terminated'' [])))] now
      | ChildError typ msg \<Rightarrow>
          ended (JBool False) [(''failure'', serialize_failure enc (new_exc (OtherException typ msg)))] now)"

definition child_result_step ::
  "'w dbos \<Rightarrow> (py_error \<Rightarrow> string) \<Rightarrow> (json list \<Rightarrow> json list) \<Rightarrow> string \<Rightarrow> 'w \<Rightarrow> (json \<times> 'w) option" where
  "child_result_step c err_text enc child_id w =
     map_option (\<lambda>(end, w1). (child_envelope enc (db_clock c w1) end, w1)) (child_wait c err_text child_id w)"

text \<open>The wait for a queued activity: its workflow returns the envelope itself. \<open>dict_str\<close> is \<open>str\<close> of a dict.\<close>

fun raised_class :: "ledger_error \<Rightarrow> string" where
  "raised_class (SerializedContinueAsNew _) = ''SerializedContinueAsNew''"
| "raised_class (SerializedWorkflowFailure _) = ''SerializedWorkflowFailure''"
| "raised_class (SerializedWorkflowCancellation _) = ''SerializedWorkflowCancellation''"
| "raised_class (OtherError typ _) = typ"

fun raised_text :: "(json \<Rightarrow> string) \<Rightarrow> ledger_error \<Rightarrow> string" where
  "raised_text dict_str (SerializedContinueAsNew env) = dict_str env"
| "raised_text dict_str (SerializedWorkflowFailure env) =
     (case jget_default env ''message'' (JStr ''workflow failed'') of JStr s \<Rightarrow> s | j \<Rightarrow> dict_str j)"
| "raised_text dict_str (SerializedWorkflowCancellation env) =
     (case jget_default env ''message'' (JStr ''workflow failed'') of JStr s \<Rightarrow> s | j \<Rightarrow> dict_str j)"
| "raised_text dict_str (OtherError _ msg) = msg"

definition activity_result_step ::
  "'w dbos \<Rightarrow> (json \<Rightarrow> string) \<Rightarrow> (json list \<Rightarrow> json list) \<Rightarrow> string \<Rightarrow> 'w \<Rightarrow> (json \<times> 'w) option" where
  "activity_result_step c dict_str enc activity_id w =
     map_option (\<lambda>(outcome, w1).
       let failed = (\<lambda>k. ended (JBool False) [(''failure'', serialize_failure enc (new_exc k))] (db_clock c w1)) in
       (case outcome of
          Returned envelope \<Rightarrow> envelope
        | AwaitCancelled \<Rightarrow> failed (CancelledError ''Activity cancelled'' [])
        | AwaitRaised err \<Rightarrow> failed (OtherException (raised_class err) (raised_text dict_str err)), w1))
       (db_await c activity_id w)"

subsection \<open>The parent learns what a client learns\<close>

text \<open>A client and a parent go on from a run to the same successor, or both end at it.\<close>

lemma same_successor:
  "(case after_run c True outcome of Inr s \<Rightarrow> Some s | Inl _ \<Rightarrow> None) = (case child_next err_text outcome of Inr s \<Rightarrow> Some s | Inl _ \<Rightarrow> None)"
  by (cases outcome)
    (auto simp: after_run_def child_next_def after_failure_def Let_def split: ledger_error.splits sum.splits)

text \<open>Where following the chain of a run stops, and with what.\<close>

inductive chain_ends :: "'w dbos \<Rightarrow> string \<Rightarrow> 'w \<Rightarrow> awaited \<Rightarrow> 'w \<Rightarrow> bool" for c where
  stop: "db_await c run w = Some (outcome, w1) \<Longrightarrow> after_run c True outcome = Inl res \<Longrightarrow> chain_ends c run w outcome w1"
| hop: "db_await c run w = Some (hop, w1) \<Longrightarrow> after_run c True hop = Inr successor \<Longrightarrow> chain_ends c successor w1 outcome w2 \<Longrightarrow>
     chain_ends c run w outcome w2"

lemma child_next_hop: "child_next err_text outcome = Inr s \<longleftrightarrow> after_run c True outcome = Inr s"
  using same_successor [of c outcome err_text] by (auto split: sum.splits)

lemma result_loop_chain: "chain_ends c run w outcome w' \<Longrightarrow> after_run c True outcome = Inl res \<Longrightarrow> result_loop c True run w = Some (res, w')"
proof (induction rule: chain_ends.induct)
  case (stop run w outcome w1 r)
  then show ?case by (simp add: result_loop.simps [of c True run])
next
  case (hop run w h w1 successor outcome w2)
  then show ?case by (simp add: result_loop.simps [of c True run])
qed

lemma child_wait_chain:
  "chain_ends c run w outcome w' \<Longrightarrow> child_next err_text outcome = Inl end \<Longrightarrow> child_wait c err_text run w = Some (end, w')"
proof (induction rule: chain_ends.induct)
  case (stop run w outcome w1 r)
  then show ?case by (simp add: child_wait.simps [of c err_text run])
next
  case (hop run w h w1 successor outcome w2)
  then have "child_next err_text h = Inr successor" by (simp add: child_next_hop [of err_text h successor c])
  with hop show ?case by (simp add: child_wait.simps [of c err_text run])
qed

lemma chain_ends_next: "chain_ends c run w outcome w' \<Longrightarrow> \<exists>res. after_run c True outcome = Inl res"
  by (induction rule: chain_ends.induct) auto

lemma result_loop_ends:
  fixes c :: "'a dbos"
  shows "result_loop c True run w = Some y \<Longrightarrow> \<exists>outcome. chain_ends c run w outcome (snd y)"
proof -
  let ?P = "\<lambda>(c' :: 'a dbos) follow run w (y :: json client_result \<times> 'a). follow \<longrightarrow> (\<exists>outcome. chain_ends c' run w outcome (snd y))"
  have "?P c' follow run w y" if "result_loop c' follow run w = Some y" for c' follow run w y
  proof (rule result_loop.raw_induct [where P = ?P, OF _ that])
    fix loop :: "'a dbos \<Rightarrow> bool \<Rightarrow> string \<Rightarrow> 'a \<Rightarrow> (json client_result \<times> 'a) option" and c' follow run w y
    assume IH: "\<And>c' follow run w y. loop c' follow run w = Some y \<Longrightarrow> follow \<longrightarrow> (\<exists>outcome. chain_ends c' run w outcome (snd y))"
      and s: "(case db_await c' run w of None \<Rightarrow> None
        | Some (outcome, w1) \<Rightarrow> (case after_run c' follow outcome of Inl res \<Rightarrow> Some (res, w1)
          | Inr successor \<Rightarrow> loop c' follow successor w1)) = Some y"
    show "follow \<longrightarrow> (\<exists>outcome. chain_ends c' run w outcome (snd y))"
    proof
      assume follow
      from s obtain hop w1 where a: "db_await c' run w = Some (hop, w1)" by (auto split: option.splits)
      show "\<exists>outcome. chain_ends c' run w outcome (snd y)"
      proof (cases "after_run c' True hop")
        case (Inl res)
        with s a \<open>follow\<close> have "y = (res, w1)" by simp
        with a Inl show ?thesis by (auto intro: chain_ends.stop)
      next
        case (Inr successor)
        with s a \<open>follow\<close> have "loop c' follow successor w1 = Some y" by simp
        from IH [OF this] \<open>follow\<close> show ?thesis by (auto intro: chain_ends.hop [OF a Inr])
      qed
    qed
  qed
  then show "result_loop c True run w = Some y \<Longrightarrow> \<exists>outcome. chain_ends c run w outcome (snd y)" by blast
qed

lemma child_wait_ends:
  fixes c :: "'a dbos"
  assumes "child_wait c err_text run w = Some y"
  shows "\<exists>outcome. chain_ends c run w outcome (snd y)"
proof (rule child_wait.raw_induct [where P = "\<lambda>c err_text run w y. \<exists>outcome. chain_ends c run w outcome (snd y)", OF _ assms])
  fix loop :: "'a dbos \<Rightarrow> (py_error \<Rightarrow> string) \<Rightarrow> string \<Rightarrow> 'a \<Rightarrow> (child_end \<times> 'a) option" and c err_text run w y
  assume IH: "\<And>c err_text run w y. loop c err_text run w = Some y \<Longrightarrow> \<exists>outcome. chain_ends c run w outcome (snd y)"
    and s: "(case db_await c run w of None \<Rightarrow> None
      | Some (outcome, w1) \<Rightarrow> (case child_next err_text outcome of Inl end \<Rightarrow> Some (end, w1)
        | Inr successor \<Rightarrow> loop c err_text successor w1)) = Some y"
  from s obtain hop w1 where a: "db_await c run w = Some (hop, w1)" by (auto split: option.splits)
  show "\<exists>outcome. chain_ends c run w outcome (snd y)"
  proof (cases "after_run c True hop")
    case (Inl res)
    then obtain ce where "child_next err_text hop = Inl ce" using child_next_hop [of err_text hop _ c] by (cases "child_next err_text hop") auto
    with s a have "snd y = w1" by auto
    with a Inl show ?thesis by (auto intro: chain_ends.stop)
  next
    case (Inr successor)
    then have "child_next err_text hop = Inr successor" by (simp add: child_next_hop [of err_text hop successor c])
    with s a have "loop c err_text successor w1 = Some y" by simp
    from IH [OF this] show ?thesis by (auto intro: chain_ends.hop [OF a Inr])
  qed
qed

lemma same_termination: "child_wait c err_text run w = None \<longleftrightarrow> result_loop c True run w = None"
proof -
  have "child_wait c err_text run w \<noteq> None \<longleftrightarrow> result_loop c True run w \<noteq> None"
  proof
    assume "child_wait c err_text run w \<noteq> None"
    then obtain outcome w' where ends: "chain_ends c run w outcome w'" using child_wait_ends by fastforce
    with chain_ends_next [OF ends] show "result_loop c True run w \<noteq> None" by (auto dest: result_loop_chain)
  next
    assume "result_loop c True run w \<noteq> None"
    then obtain outcome w' where ends: "chain_ends c run w outcome w'" using result_loop_ends by fastforce
    from chain_ends_next [OF this] obtain res where "after_run c True outcome = Inl res" by blast
    then obtain ce where "child_next err_text outcome = Inl ce"
      using child_next_hop [of err_text outcome _ c] by (cases "child_next err_text outcome") auto
    with child_wait_chain [OF ends] show "child_wait c err_text run w \<noteq> None" by simp
  qed
  then show ?thesis by blast
qed

lemma chain_ends_unique: "chain_ends c run w o1 w1 \<Longrightarrow> chain_ends c run w o2 w2 \<Longrightarrow> o1 = o2 \<and> w1 = w2"
proof (induction arbitrary: o2 w2 rule: chain_ends.induct)
  case (stop run w outcome w1 res)
  from stop(3) show ?case using stop(1,2) by cases auto
next
  case (hop run w h w1 successor outcome w2 o2 w2')
  from hop.prems show ?case
  proof cases
    case (stop res)
    then show ?thesis using hop.hyps(1,2) by simp
  next
    case (hop h' v1 successor')
    then have "chain_ends c successor w1 o2 w2'" using \<open>db_await c run w = Some (h, w1)\<close> \<open>after_run c True h = Inr successor\<close> by simp
    then show ?thesis by (rule \<open>\<And>o2 w2'. chain_ends c successor w1 o2 w2' \<Longrightarrow> outcome = o2 \<and> w2 = w2'\<close>)
  qed
qed

text \<open>What the delivery of the envelope makes of the child's result future.\<close>

definition child_failure :: "interp \<Rightarrow> child_exec \<Rightarrow> json exc \<Rightarrow> fut_state" where
  "child_failure s ch why = Rejected (raise_from (ChildWorkflowError ''Child workflow execution failed''
     (i_namespace s) (ce_id ch) (ce_id ch) (ce_type ch) 0 0 None) why)"

lemma advance_time_frame [simp]:
  "i_futs (advance_time t s) = i_futs s" "i_children (advance_time t s) = i_children s" "i_namespace (advance_time t s) = i_namespace s"
  by (simp_all add: advance_time_def split: option.split)

lemma ended_fields [simp]:
  "jindex (ended ok parts now) ''ok'' = Inr ok"
  "jindex (ended (JBool True) [(''result'', raw)] now) ''result'' = Inr raw"
  "jindex (ended (JBool False) [(''failure'', f)] now) ''failure'' = Inr f"
  "jindex (ended (JBool False) [(''cancelled'', x), (''failure'', f)] now) ''failure'' = Inr f"
  by (simp_all add: ended_def jindex_def)

lemma deliver_ok:
  assumes "dict_get (i_children s) sq = Some ch" "i_futs s (ce_result_future ch) = Pending"
  shows "i_futs (fst (deliver_child_event e sq (child_envelope enc now (ChildReturned raw)) s)) (ce_result_future ch) = Resolved (env_dec e raw)"
  using assms by (simp add: deliver_child_event_def child_envelope_def settle_def complete_future_def Let_def)

lemma deliver_failure:
  assumes "dict_get (i_children s) sq = Some ch" "i_futs s (ce_result_future ch) = Pending"
    and "jindex m ''ok'' = Inr (JBool False)" "jindex m ''failure'' = Inr f" "deserialize_failure (env_dec e) f = Inr x"
  shows "i_futs (fst (deliver_child_event e sq m s)) (ce_result_future ch) = child_failure s ch x"
  using assms by (simp add: deliver_child_event_def settle_def complete_future_def child_failure_def Let_def)


lemma recorded_error:
  assumes "\<And>vs. map (env_dec e) (enc vs) = vs"
  shows "\<exists>x. deserialize_failure (env_dec e) (serialize_failure enc (new_exc k)) = Inr x \<and> exc_kind x = recorded_kind k"
proof -
  obtain x where x: "deserialize_failure (env_dec e) (serialize_failure enc (new_exc k)) = Inr x"
    and chain: "exc_chain x = map recorded_kind (exc_chain (new_exc k))"
    using detail_codec.deserialize_serialize [OF detail_codec.intro, OF assms] by blast
  from chain have "exc_kind x = recorded_kind k" by (cases x) (simp add: new_exc_def)
  with x show ?thesis by blast
qed

text \<open>The future of a child, as what a client learns tells it.\<close>

definition child_future_of :: "env \<Rightarrow> interp \<Rightarrow> child_exec \<Rightarrow> json client_result \<Rightarrow> fut_state \<Rightarrow> bool" where
  "child_future_of e s ch res fut \<longleftrightarrow>
     (case res of
        Inr v \<Rightarrow> fut = Resolved v
      | Inl (WorkflowFailure x) \<Rightarrow> fut = child_failure s ch x
      | Inl WorkflowTerminated \<Rightarrow> (\<exists>x. fut = child_failure s ch x \<and> exc_kind x = TerminatedError ''Child workflow terminated'' [])
      | Inl (ForeignFailure typ msg) \<Rightarrow>
          (\<exists>x. fut = child_failure s ch x \<and> exc_kind x = ApplicationError msg [] (Some typ) False None UNSPECIFIED)
      | _ \<Rightarrow> True)"

lemma delivered_end:
  assumes ch: "dict_get (i_children s) sq = Some ch" "i_futs s (ce_result_future ch) = Pending"
    and codec: "\<And>vs. map (env_dec e) (enc vs) = vs" "db_detail c = env_dec e" "\<And>raw. db_dec c raw = Inr (env_dec e raw)"
    and ends: "after_run c True outcome = Inl res" "child_next err_text outcome = Inl ce"
  shows "child_future_of e s ch res (i_futs (fst (deliver_child_event e sq (child_envelope enc now ce) s)) (ce_result_future ch))"
proof -
  have failed: "child_future_of e s ch (Inl (WorkflowFailure x))
      (i_futs (fst (deliver_child_event e sq m s)) (ce_result_future ch))"
    if "jindex m ''ok'' = Inr (JBool False)" "jindex m ''failure'' = Inr f" "deserialize_failure (env_dec e) f = Inr x" for m f x
    by (simp add: child_future_of_def deliver_failure [OF ch that])
  have own: "\<exists>x. i_futs (fst (deliver_child_event e sq (ended (JBool False) [(''failure'', serialize_failure enc (new_exc k))] now) s))
      (ce_result_future ch) = child_failure s ch x \<and> exc_kind x = recorded_kind k" for k
    using recorded_error [where e = e and enc = enc and k = k, OF codec(1)] deliver_failure [OF ch, of "ended (JBool False) [(''failure'', serialize_failure enc (new_exc k))] now"]
    by auto
  show ?thesis
  proof (cases outcome)
    case (Returned raw)
    then show ?thesis using ends deliver_ok [OF ch, of e enc now raw]
      by (auto simp: after_run_def child_next_def codec(3) child_future_of_def)
  next
    case AwaitCancelled
    then show ?thesis using ends own [of "TerminatedError ''Child workflow terminated'' []"]
      by (auto simp: after_run_def child_next_def child_future_of_def child_envelope_def)
  next
    case (AwaitRaised err)
    show ?thesis
    proof (cases err)
      case (OtherError cls msg)
      then show ?thesis using ends AwaitRaised own [of "OtherException cls msg"]
        by (auto simp: after_run_def child_next_def child_future_of_def child_envelope_def)
    next
      case (SerializedContinueAsNew env)
      then show ?thesis using ends AwaitRaised
        by (auto simp: after_run_def child_future_of_def split: sum.splits)
    next
      case (SerializedWorkflowFailure env)
      then show ?thesis using ends AwaitRaised failed [of "child_envelope enc now ce" env]
        by (auto simp: after_run_def after_failure_def child_next_def Let_def codec(2) child_envelope_def child_future_of_def split: sum.splits if_splits)
    next
      case (SerializedWorkflowCancellation env)
      then show ?thesis using ends AwaitRaised failed [of "child_envelope enc now ce" env]
        by (auto simp: after_run_def after_failure_def child_next_def Let_def codec(2) child_envelope_def child_future_of_def split: sum.splits if_splits)
    qed
  qed
qed

text \<open>
  Claim C16. A parent learns of a child exactly what a client awaiting the child's run chain learns: the wait of the one returns exactly
  when that of the other does, in the same world, and the delivery of its envelope resolves the child's future with the client's
  value, or rejects it with a child failure caused by the client's failure, termination or foreign error.
\<close>

theorem parent_learns_what_client_learns:
  assumes ch: "dict_get (i_children s) sq = Some ch" "i_futs s (ce_result_future ch) = Pending"
    and codec: "\<And>vs. map (env_dec e) (enc vs) = vs" "db_detail c = env_dec e" "\<And>raw. db_dec c raw = Inr (env_dec e raw)"
  shows "(child_result_step c err_text enc (ce_id ch) w = None \<longleftrightarrow> result_loop c True (ce_id ch) w = None) \<and>
    (\<forall>m w1 res w2. child_result_step c err_text enc (ce_id ch) w = Some (m, w1) \<and> result_loop c True (ce_id ch) w = Some (res, w2) \<longrightarrow>
       w1 = w2 \<and> child_future_of e s ch res (i_futs (fst (deliver_child_event e sq m s)) (ce_result_future ch)))"
proof (intro conjI allI impI)
  show "child_result_step c err_text enc (ce_id ch) w = None \<longleftrightarrow> result_loop c True (ce_id ch) w = None"
    using same_termination [of c err_text "ce_id ch" w] by (simp add: child_result_step_def)
next
  fix m w1 res w2
  assume both: "child_result_step c err_text enc (ce_id ch) w = Some (m, w1) \<and> result_loop c True (ce_id ch) w = Some (res, w2)"
  then obtain ce where wait: "child_wait c err_text (ce_id ch) w = Some (ce, w1)" and m: "m = child_envelope enc (db_clock c w1) ce"
    by (auto simp: child_result_step_def)
  obtain outcome where ends: "chain_ends c (ce_id ch) w outcome w2" using result_loop_ends both by fastforce
  from chain_ends_next [OF ends] obtain res' where res': "after_run c True outcome = Inl res'" by blast
  then obtain ce' where ce': "child_next err_text outcome = Inl ce'"
    using child_next_hop [of err_text outcome _ c] by (cases "child_next err_text outcome") auto
  have same: "res' = res" "ce' = ce" "w1 = w2"
    using result_loop_chain [OF ends res'] child_wait_chain [OF ends ce'] both wait by simp_all
  then show "w1 = w2" and "child_future_of e s ch res (i_futs (fst (deliver_child_event e sq m s)) (ce_result_future ch))"
    using delivered_end [OF ch codec] res' ce' by (simp_all add: m)
qed

definition waiting_child :: child_exec where
  "waiting_child = \<lparr>ce_seq = 1, ce_type = ''T'', ce_id = ''W'', ce_args = [], ce_task_queue = None, ce_policy = 1, ce_cancellation = 0,
     ce_start_future = 0, ce_result_future = 7, ce_memo = None, ce_sa = None, ce_started = True, ce_headers = [],
     ce_run_timeout = None, ce_retry_policy = None\<rparr>"

definition waiting_parent :: interp where
  "waiting_parent = (new_interp ''P'' plain_defn None None None)\<lparr>i_children := [(1, waiting_child)], i_futs := (\<lambda>_. Pending)\<rparr>"

text \<open>The child continued as new once and returned three from its second run.\<close>

lemma parent_learns_what_client_learns_witness:
  "\<exists>m w. child_result_step clocked (\<lambda>_. []) (\<lambda>vs. vs) ''W'' 0 = Some (m, w) \<and>
     i_futs (fst (deliver_child_event plain_env 1 m waiting_parent)) 7 = Resolved (JInt 3)"
proof -
  have ch: "dict_get (i_children waiting_parent) 1 = Some waiting_child" "i_futs waiting_parent (ce_result_future waiting_child) = Pending"
    by (simp_all add: waiting_parent_def dict_get_def)
  have codec: "map (env_dec plain_env) vs = vs" "db_detail clocked = env_dec plain_env" "db_dec clocked raw = Inr (env_dec plain_env raw)"
    for vs raw by (simp_all add: plain_env_def clocked_def id_def)
  have "run_dbos_id ''W'' 1 \<noteq> ''W''" by (simp add: run_dbos_id_def RUN_SEPARATOR_def)
  then have awaits: "db_await clocked ''W'' w = Some (AwaitRaised (SerializedContinueAsNew (JObj [(''new_run_id'', JStr (run_dbos_id ''W'' 1))])), w)"
    "db_await clocked (run_dbos_id ''W'' 1) w = Some (Returned (JInt 3), w)" for w by (simp_all add: clocked_def)
  have "result_loop clocked True (run_dbos_id ''W'' 1) 0 = Some (Inr (JInt 3), 0)"
    by (subst result_loop.simps) (simp add: awaits after_run_def codec(3) plain_env_def del: One_nat_def)
  then have client: "result_loop clocked True ''W'' 0 = Some (Inr (JInt 3), 0)"
    by (subst result_loop.simps) (simp add: awaits after_run_def jindex_def del: One_nat_def)
  note learns = parent_learns_what_client_learns [where enc = "\<lambda>vs. vs", OF ch codec, where w = 0 and err_text = "\<lambda>_. []"]
  have id: "ce_id waiting_child = ''W''" "ce_result_future waiting_child = 7" by (simp_all add: waiting_child_def)
  obtain m w where "child_result_step clocked (\<lambda>_. []) (\<lambda>vs. vs) ''W'' 0 = Some (m, w)" using learns client by (auto simp: id)
  with learns client show ?thesis by (auto simp: id child_future_of_def)
qed

end
