(* ===== verification/Activity_Context.thy ===== *)
theory Activity_Context
  imports Client_Handle Worker
begin

text \<open>
  What a running activity sees (\<open>dbosify/activity.py\<close>): its info, heartbeats, cancellation, and the worker-process registries behind
  them (\<open>_live_attempts\<close>, \<open>_heartbeat_store\<close>, \<open>_cancel_requested_keys\<close>) with \<open>_register_attempt\<close>, \<open>_unregister_attempt\<close>,
  \<open>_request_cancel\<close> and \<open>_forget_attempt_state\<close>. Contexts are numbered as they are built; an attempt's key is its run id and sequence
  number. Interceptors, polling waits and thread locks are not modelled.
\<close>

subsection \<open>The registries\<close>

type_synonym attempt_key = "string \<times> int"

record attempt_context =
  cx_key :: "attempt_key option"
  cx_async :: bool
  cx_cancelled :: bool
  cx_last :: "json list"
  cx_last_at :: rat
  cx_client :: "nat option"

record attempts =
  at_contexts :: "nat \<Rightarrow> attempt_context"
  at_live :: "(attempt_key, nat) dict"
  at_store :: "(attempt_key, json list) dict"
  at_requested :: "attempt_key list"

definition update_context :: "nat \<Rightarrow> (attempt_context \<Rightarrow> attempt_context) \<Rightarrow> attempts \<Rightarrow> attempts" where
  "update_context c f s = s\<lparr>at_contexts := (at_contexts s)(c := f (at_contexts s c))\<rparr>"

definition set_cancelled :: "nat \<Rightarrow> attempts \<Rightarrow> attempts" where
  "set_cancelled c = update_context c (\<lambda>x. x\<lparr>cx_cancelled := True\<rparr>)"

definition register_attempt :: "attempt_key \<Rightarrow> nat \<Rightarrow> attempts \<Rightarrow> attempts" where
  "register_attempt k c s =
     (let s1 = s\<lparr>at_live := dict_set k c (at_live s)\<rparr>
      in if k \<in> set (at_requested s1)
         then (set_cancelled c s1)\<lparr>at_requested := removeAll k (at_requested s1)\<rparr> else s1)"

definition unregister_attempt :: "attempt_key \<Rightarrow> nat \<Rightarrow> attempts \<Rightarrow> attempts" where
  "unregister_attempt k c s =
     (if dict_get (at_live s) k = Some c then s\<lparr>at_live := dict_del k (at_live s)\<rparr> else s)"

definition request_cancel :: "attempt_key \<Rightarrow> attempts \<Rightarrow> attempts" where
  "request_cancel k s =
     (let s1 = s\<lparr>at_requested := (if k \<in> set (at_requested s) then at_requested s else k # at_requested s)\<rparr>
      in case dict_get (at_live s1) k of None \<Rightarrow> s1 | Some c \<Rightarrow> set_cancelled c s1)"

definition forget_attempt_state :: "attempt_key \<Rightarrow> attempts \<Rightarrow> attempts" where
  "forget_attempt_state k s = s\<lparr>at_store := dict_del k (at_store s)\<rparr>"

text \<open>\<open>_root_heartbeat\<close> at a time; the heartbeat an external completer sends for a parked activity.\<close>

definition root_heartbeat :: "nat \<Rightarrow> json list \<Rightarrow> rat \<Rightarrow> attempts \<Rightarrow> attempts \<times> (json exc + unit)" where
  "root_heartbeat c details now s =
     (let s1 = update_context c (\<lambda>x. x\<lparr>cx_last := details, cx_last_at := now\<rparr>) s; x = at_contexts s1 c
      in if cx_cancelled x then (s1, Inl (new_exc (CancelledError ''Activity cancelled'' [])))
         else (case cx_key x of
                 None \<Rightarrow> s1
               | Some k \<Rightarrow> s1\<lparr>at_store := dict_set k details (at_store s1)\<rparr>, Inr ()))"

definition store_heartbeat :: "attempt_key \<Rightarrow> json list \<Rightarrow> attempts \<Rightarrow> attempts" where
  "store_heartbeat k details s = s\<lparr>at_store := dict_set k details (at_store s)\<rparr>"

subsection \<open>What user code reads\<close>

definition in_context :: "nat option \<Rightarrow> attempts \<Rightarrow> attempt_context result" where
  "in_context current s = (case current of None \<Rightarrow> Inl RuntimeError | Some c \<Rightarrow> Inr (at_contexts s c))"

definition is_cancelled :: "nat option \<Rightarrow> attempts \<Rightarrow> bool result" where
  "is_cancelled current s = bind_result (in_context current s) (\<lambda>x. Inr (cx_cancelled x))"

text \<open>The worker state is the one the context captured, or its own event and no client in a test.\<close>

definition is_worker_shutdown :: "nat option \<Rightarrow> activity_state option \<Rightarrow> bool \<Rightarrow> attempts \<Rightarrow> bool result" where
  "is_worker_shutdown current state own_event s =
     bind_result (in_context current s) (\<lambda>x. Inr (case state of Some ws \<Rightarrow> as_shutdown ws | None \<Rightarrow> own_event))"

definition activity_client ::
  "nat option \<Rightarrow> nat \<Rightarrow> activity_state option \<Rightarrow> attempts \<Rightarrow> nat result \<times> activity_state option" where
  "activity_client current fresh state s =
     (case in_context current s of
        Inl err \<Rightarrow> (Inl err, state)
      | Inr x \<Rightarrow>
          if \<not> cx_async x then (Inl RuntimeError, state)
          else case cx_client x of
            Some c \<Rightarrow> (Inr c, state)
          | None \<Rightarrow>
              (case state of
                 None \<Rightarrow> (Inl RuntimeError, None)
               | Some ws \<Rightarrow>
                   (case as_get_client fresh ws of
                      (None, ws1) \<Rightarrow> (Inl RuntimeError, Some ws1)
                    | (Some c, ws1) \<Rightarrow> (Inr c, Some ws1))))"

subsection \<open>The info of an attempt\<close>

definition DEFAULT_NAMESPACE :: string where "DEFAULT_NAMESPACE = ''default''"

record activity_info =
  ai_activity_id :: string
  ai_activity_type :: string
  ai_attempt :: int
  ai_heartbeat_details :: "json list"
  ai_heartbeat_timeout :: "timedelta option"
  ai_namespace :: string
  ai_schedule_to_close :: "timedelta option"
  ai_start_to_close :: "timedelta option"
  ai_task_queue :: string
  ai_task_token :: "json option"
  ai_workflow_id :: string
  ai_run_id :: string
  ai_workflow_type :: string
  ai_retry_policy :: "retry_policy option"

text \<open>\<open>str(meta.get(field, ""))\<close>, for the strings every sender writes.\<close>

definition meta_str :: "json \<Rightarrow> string \<Rightarrow> string" where
  "meta_str m field = (case jget_default m field (JStr []) of JStr s \<Rightarrow> s | _ \<Rightarrow> [])"

definition meta_timedelta :: "json \<Rightarrow> string \<Rightarrow> timedelta option result" where
  "meta_timedelta m field = bind_result (optional to_float (jget m field)) (\<lambda>q. Inr (map_option timedelta_seconds q))"

definition task_token :: "json \<Rightarrow> json" where
  "task_token m =
     JObj ([(''run'', JStr (meta_str m ''workflow_run_id'')), (''aid'', JStr (meta_str m ''activity_id''))] @
       (if truthy (jget m ''queued_activity_dbos_id'') then [(''qwf'', JStr (meta_str m ''queued_activity_dbos_id''))] else []))"

definition make_info :: "string option \<Rightarrow> json \<Rightarrow> attempts \<Rightarrow> activity_info result" where
  "make_info namespace m s =
     bind_result (optional to_int (jget m ''seq'')) (\<lambda>seq.
     bind_result (to_int (jget_default m ''attempt'' (JInt 1))) (\<lambda>att.
     bind_result (meta_timedelta m ''heartbeat_timeout'') (\<lambda>hb.
     bind_result (meta_timedelta m ''schedule_to_close'') (\<lambda>s2c.
     bind_result (meta_timedelta m ''start_to_close'') (\<lambda>st2c.
     bind_result (if truthy (jget m ''retry_policy'')
                  then bind_result (deserialize_retry_policy (jget m ''retry_policy'')) (\<lambda>p. Inr (Some p)) else Inr None) (\<lambda>policy.
       Inr \<lparr>ai_activity_id = meta_str m ''activity_id'', ai_activity_type = meta_str m ''activity_type'', ai_attempt = att,
         ai_heartbeat_details = (case seq of None \<Rightarrow> [] | Some q \<Rightarrow>
            (case dict_get (at_store s) (meta_str m ''workflow_run_id'', q) of Some ds \<Rightarrow> ds | None \<Rightarrow> [])),
         ai_heartbeat_timeout = hb,
         ai_namespace = (case namespace of Some n \<Rightarrow> if n = [] then DEFAULT_NAMESPACE else n | None \<Rightarrow> DEFAULT_NAMESPACE),
         ai_schedule_to_close = s2c, ai_start_to_close = st2c, ai_task_queue = meta_str m ''task_queue'',
         ai_task_token = (case seq of None \<Rightarrow> None | Some _ \<Rightarrow> Some (task_token m)),
         ai_workflow_id = meta_str m ''workflow_id'', ai_run_id = meta_str m ''workflow_run_id'',
         ai_workflow_type = meta_str m ''workflow_type'', ai_retry_policy = policy\<rparr>))))))"

text \<open>The context of an attempt, numbered next and captured with the key of its metadata.\<close>

definition new_context :: "bool \<Rightarrow> json \<Rightarrow> rat \<Rightarrow> attempt_context result" where
  "new_context is_async m now =
     bind_result (to_int (jget_default m ''seq'' (JInt (- 1)))) (\<lambda>q.
       Inr \<lparr>cx_key = Some (meta_str m ''workflow_run_id'', q), cx_async = is_async, cx_cancelled = False, cx_last = [],
            cx_last_at = now, cx_client = None\<rparr>)"

subsection \<open>Cancellation reaches the attempt it is meant for\<close>

text \<open>What may happen to the registries, in any order.\<close>

datatype attempt_op =
    Enter attempt_key nat
  | Leave attempt_key nat
  | Ask attempt_key
  | Forget attempt_key
  | Beat nat "json list" rat
  | Remember attempt_key "json list"

fun attempt_step_of :: "attempt_op \<Rightarrow> attempts \<Rightarrow> attempts" where
  "attempt_step_of (Enter k c) s = register_attempt k c s"
| "attempt_step_of (Leave k c) s = unregister_attempt k c s"
| "attempt_step_of (Ask k) s = request_cancel k s"
| "attempt_step_of (Forget k) s = forget_attempt_state k s"
| "attempt_step_of (Beat c details now) s = fst (root_heartbeat c details now s)"
| "attempt_step_of (Remember k details) s = store_heartbeat k details s"

definition run_ops :: "attempt_op list \<Rightarrow> attempts \<Rightarrow> attempts" where
  "run_ops ops s = fold attempt_step_of ops s"

text \<open>A request is pending when no attempt has been registered under its key since.\<close>

definition pending :: "attempt_key \<Rightarrow> attempt_op list \<Rightarrow> bool" where
  "pending k ops \<longleftrightarrow> (\<exists>a b. ops = a @ Ask k # b \<and> (\<forall>c. Enter k c \<notin> set b))"

lemma pending_Nil [simp]: "\<not> pending k []"
  by (simp add: pending_def)

lemma pending_snoc: "pending k (ops @ [x]) \<longleftrightarrow> x = Ask k \<or> (pending k ops \<and> (\<forall>c. x \<noteq> Enter k c))"
proof
  assume "pending k (ops @ [x])"
  then obtain a b where ab: "ops @ [x] = a @ Ask k # b" "\<forall>c. Enter k c \<notin> set b" by (auto simp: pending_def)
  show "x = Ask k \<or> (pending k ops \<and> (\<forall>c. x \<noteq> Enter k c))"
  proof (cases b rule: rev_cases)
    case (snoc b' y)
    with ab have "ops = a @ Ask k # b'" "y = x" "\<forall>c. Enter k c \<notin> set b'" "\<forall>c. x \<noteq> Enter k c" by auto
    then show ?thesis unfolding pending_def by blast
  qed (use ab in simp)
next
  assume r: "x = Ask k \<or> (pending k ops \<and> (\<forall>c. x \<noteq> Enter k c))"
  then show "pending k (ops @ [x])"
  proof
    assume "x = Ask k"
    then show ?thesis unfolding pending_def by (intro exI [of _ ops] exI [of _ "[]"]) simp
  next
    assume p: "pending k ops \<and> (\<forall>c. x \<noteq> Enter k c)"
    then obtain a b where "ops = a @ Ask k # b" "\<forall>c. Enter k c \<notin> set b" by (auto simp: pending_def)
    with p show ?thesis unfolding pending_def by (intro exI [of _ a] exI [of _ "b @ [x]"]) auto
  qed
qed

lemma run_ops_snoc [simp]: "run_ops (ops @ [x]) s = attempt_step_of x (run_ops ops s)"
  by (simp add: run_ops_def)

lemma run_ops_Nil [simp]: "run_ops [] s = s"
  by (simp add: run_ops_def)

lemma set_cancelled_frame [simp]:
  "at_live (set_cancelled c s) = at_live s" "at_requested (set_cancelled c s) = at_requested s" "at_store (set_cancelled c s) = at_store s"
  "cx_cancelled (at_contexts (set_cancelled c s) d) \<longleftrightarrow> d = c \<or> cx_cancelled (at_contexts s d)"
  "cx_key (at_contexts (set_cancelled c s) d) = cx_key (at_contexts s d)"
  by (simp_all add: set_cancelled_def update_context_def)

lemma requested_step:
  "set (at_requested (attempt_step_of x s)) =
     (case x of Ask k \<Rightarrow> insert k (set (at_requested s)) | Enter k c \<Rightarrow> set (at_requested s) - {k} | _ \<Rightarrow> set (at_requested s))"
  by (cases x)
    (auto simp: register_attempt_def unregister_attempt_def request_cancel_def forget_attempt_state_def root_heartbeat_def
       store_heartbeat_def update_context_def Let_def split: option.split)

lemma requested_pending: "at_requested s = [] \<Longrightarrow> k \<in> set (at_requested (run_ops ops s)) \<longleftrightarrow> pending k ops"
proof (induction ops rule: rev_induct)
  case (snoc x ops)
  then show ?case unfolding run_ops_snoc requested_step pending_snoc by (cases x) auto
qed simp

text \<open>While a context is registered, its flag is what it was or a request for its key.\<close>

lemma live_step:
  assumes "dict_get (at_live s) k = Some c" "\<And>k'. dict_get (at_live s) k' = Some c \<Longrightarrow> k' = k"
    and "\<And>d. x \<noteq> Enter k d" "x \<noteq> Leave k c" "\<And>k'. x \<noteq> Enter k' c"
  shows "dict_get (at_live (attempt_step_of x s)) k = Some c \<and>
    (\<forall>k'. dict_get (at_live (attempt_step_of x s)) k' = Some c \<longrightarrow> k' = k) \<and>
    (cx_cancelled (at_contexts (attempt_step_of x s) c) \<longleftrightarrow> cx_cancelled (at_contexts s c) \<or> x = Ask k)"
proof (cases x)
  case (Enter k' d)
  then have "d \<noteq> c" "k' \<noteq> k" using assms(3,5) by blast+
  then show ?thesis using assms(1) by (auto dest: assms(2) simp: Enter register_attempt_def Let_def dict_simps split: if_splits)
next
  case (Leave k' d)
  then show ?thesis using assms(1,3-) by (auto dest: assms(2) simp: unregister_attempt_def dict_simps split: if_splits)
next
  case (Ask k')
  then show ?thesis using assms(1,3-) by (auto dest: assms(2) simp: request_cancel_def Let_def split: option.splits)
qed (use assms(1,3-) in \<open>auto dest: assms(2) simp: forget_attempt_state_def root_heartbeat_def store_heartbeat_def update_context_def Let_def split: option.splits\<close>)

lemma live_run:
  assumes "dict_get (at_live s) k = Some c" "\<And>k'. dict_get (at_live s) k' = Some c \<Longrightarrow> k' = k"
    and "\<And>d. Enter k d \<notin> set ops" "Leave k c \<notin> set ops" "\<And>k'. Enter k' c \<notin> set ops"
  shows "dict_get (at_live (run_ops ops s)) k = Some c \<and> (\<forall>k'. dict_get (at_live (run_ops ops s)) k' = Some c \<longrightarrow> k' = k) \<and>
    (cx_cancelled (at_contexts (run_ops ops s) c) \<longleftrightarrow> cx_cancelled (at_contexts s c) \<or> Ask k \<in> set ops)"
  using assms(3-)
proof (induction ops rule: rev_induct)
  case Nil
  show ?case using assms(1) by (simp add: run_ops_def) (blast dest: assms(2))
next
  case (snoc x ops)
  have old: "Enter k d \<notin> set ops" "Leave k c \<notin> set ops" "Enter k' c \<notin> set ops" for d k'
    using snoc.prems(1) [of d] snoc.prems(2) snoc.prems(3) [of k'] by simp_all
  have x: "x \<noteq> Enter k d" "x \<noteq> Leave k c" "x \<noteq> Enter k' c" for d k'
    using snoc.prems(1) [of d] snoc.prems(2) snoc.prems(3) [of k'] by auto
  from snoc.IH [OF old] have ih: "dict_get (at_live (run_ops ops s)) k = Some c"
      "\<And>k'. dict_get (at_live (run_ops ops s)) k' = Some c \<Longrightarrow> k' = k"
      "cx_cancelled (at_contexts (run_ops ops s) c) \<longleftrightarrow> cx_cancelled (at_contexts s c) \<or> Ask k \<in> set ops" by blast+
  have "Ask k \<in> set (ops @ [x]) \<longleftrightarrow> Ask k \<in> set ops \<or> x = Ask k" by auto
  with live_step [OF ih(1,2) x(1,2,3)] ih(3) show ?case unfolding run_ops_snoc by blast
qed

text \<open>A context that is registered nowhere keeps its flag.\<close>

lemma absent_step:
  assumes "\<And>k. dict_get (at_live s) k \<noteq> Some c" "\<And>k. x \<noteq> Enter k c"
  shows "dict_get (at_live (attempt_step_of x s)) k \<noteq> Some c \<and>
    (cx_cancelled (at_contexts (attempt_step_of x s) c) \<longleftrightarrow> cx_cancelled (at_contexts s c))"
proof (cases x)
  case (Enter k' d)
  then have "d \<noteq> c" using assms(2) by blast
  then show ?thesis using assms(1) by (auto simp: Enter register_attempt_def Let_def dict_simps split: if_splits)
next
  case (Leave k' d)
  then show ?thesis using assms(1) by (auto simp: unregister_attempt_def dict_simps split: if_splits)
next
  case (Ask k')
  then show ?thesis using assms(1) [of k] assms(1) [of k'] by (auto simp: request_cancel_def Let_def split: option.splits)
qed (use assms(1) [of k] in \<open>auto simp: forget_attempt_state_def root_heartbeat_def store_heartbeat_def update_context_def Let_def split: option.splits\<close>)

lemma absent_run:
  assumes "\<And>k. dict_get (at_live s) k \<noteq> Some c" "\<And>k. Enter k c \<notin> set ops"
  shows "(\<forall>k. dict_get (at_live (run_ops ops s)) k \<noteq> Some c) \<and>
    (cx_cancelled (at_contexts (run_ops ops s) c) \<longleftrightarrow> cx_cancelled (at_contexts s c))"
  using assms(2)
proof (induction ops rule: rev_induct)
  case Nil
  show ?case using assms(1) by simp
next
  case (snoc x ops)
  have old: "Enter k c \<notin> set ops" and x: "x \<noteq> Enter k c" for k using snoc.prems [of k] by auto
  from snoc.IH [OF old] have ih: "dict_get (at_live (run_ops ops s)) k \<noteq> Some c"
      "cx_cancelled (at_contexts (run_ops ops s) c) \<longleftrightarrow> cx_cancelled (at_contexts s c)" for k by blast+
  from absent_step [OF ih(1) x] ih(2) show ?case unfolding run_ops_snoc by blast
qed

definition no_attempts :: "(nat \<Rightarrow> attempt_context) \<Rightarrow> attempts" where
  "no_attempts ctxs = \<lparr>at_contexts = ctxs, at_live = [], at_store = [], at_requested = []\<rparr>"

lemma run_ops_append: "run_ops (a @ b) s = run_ops b (run_ops a s)"
  by (simp add: run_ops_def)

text \<open>
  Claim C39. A cancellation request reaches the attempt it is meant for and no other: whatever happened before and since, an attempt that
  is registered and has not left is marked cancelled exactly when a request for its key came since it was registered, or before that
  and after every earlier attempt under the key was registered; the unwinding of an earlier attempt never takes its place.
\<close>

theorem cancel_reaches_attempt:
  assumes "\<And>k'. Enter k' c \<notin> set before" "\<And>k'. Enter k' c \<notin> set since" "\<And>d. Enter k d \<notin> set since" "Leave k c \<notin> set since"
    and "\<not> cx_cancelled (ctxs c)"
  shows "dict_get (at_live (run_ops (before @ Enter k c # since) (no_attempts ctxs))) k = Some c \<and>
    (cx_cancelled (at_contexts (run_ops (before @ Enter k c # since) (no_attempts ctxs)) c) \<longleftrightarrow>
       pending k before \<or> Ask k \<in> set since)"
proof -
  let ?s = "run_ops before (no_attempts ctxs)" and ?e = "register_attempt k c (run_ops before (no_attempts ctxs))"
  have "dict_get (at_live (no_attempts ctxs)) k' \<noteq> Some c" for k' by (simp add: no_attempts_def dict_get_def)
  note fresh = absent_run [OF this assms(1)]
  have "k \<in> set (at_requested ?s) \<longleftrightarrow> pending k before" by (rule requested_pending) (simp add: no_attempts_def)
  then have flag: "cx_cancelled (at_contexts ?e c) \<longleftrightarrow> pending k before"
    using fresh assms(5) by (auto simp: register_attempt_def Let_def no_attempts_def)
  have live: "dict_get (at_live ?e) k = Some c" by (simp add: register_attempt_def Let_def dict_simps)
  have only: "k' = k" if "dict_get (at_live ?e) k' = Some c" for k'
    using that conjunct1 [OF fresh, rule_format, of k'] by (auto simp: register_attempt_def Let_def dict_simps split: if_splits)
  have "run_ops (before @ Enter k c # since) (no_attempts ctxs) = run_ops since ?e"
    by (simp add: run_ops_def)
  with live_run [OF live only assms(3,4,2)] flag show ?thesis by simp
qed

text \<open>A request answered by a live attempt stays recorded after the attempt is over, and cancels the next one under its key.\<close>

lemma answered_request_lingers:
  "k \<in> set (at_requested (run_ops (before @ [Enter k c, Ask k, Leave k c, Forget k]) (no_attempts ctxs)))"
proof -
  have "pending k (before @ [Enter k c, Ask k, Leave k c, Forget k])"
    unfolding pending_def by (intro exI [of _ "before @ [Enter k c]"] exI [of _ "[Leave k c, Forget k]"]) simp
  then show ?thesis by (subst requested_pending) (simp_all add: no_attempts_def)
qed

subsection \<open>Heartbeats reach the next attempt\<close>

lemma key_step: "cx_key (at_contexts (attempt_step_of x s) c) = cx_key (at_contexts s c)"
  by (cases x)
    (auto simp: register_attempt_def unregister_attempt_def request_cancel_def forget_attempt_state_def root_heartbeat_def
       store_heartbeat_def update_context_def Let_def split: option.split)

lemma key_run: "cx_key (at_contexts (run_ops ops s) c) = cx_key (at_contexts s c)"
  by (induction ops rule: rev_induct) (simp_all add: key_step del: attempt_step_of.simps)

lemma store_step:
  assumes "x \<noteq> Forget k" "\<And>ds. x \<noteq> Remember k ds" "\<And>c ds t. x = Beat c ds t \<Longrightarrow> cx_key (at_contexts s c) \<noteq> Some k"
  shows "dict_get (at_store (attempt_step_of x s)) k = dict_get (at_store s) k"
  using assms
  by (cases x)
    (auto simp: register_attempt_def unregister_attempt_def request_cancel_def forget_attempt_state_def root_heartbeat_def
       store_heartbeat_def update_context_def Let_def dict_simps split: option.split)

lemma store_run:
  assumes "Forget k \<notin> set ops" "\<And>ds. Remember k ds \<notin> set ops" "\<And>c ds t. Beat c ds t \<in> set ops \<Longrightarrow> cx_key (at_contexts s c) \<noteq> Some k"
  shows "dict_get (at_store (run_ops ops s)) k = dict_get (at_store s) k"
  using assms
proof (induction ops rule: rev_induct)
  case (snoc x ops)
  have ih: "dict_get (at_store (run_ops ops s)) k = dict_get (at_store s) k" by (rule snoc.IH) (use snoc.prems in auto)
  have "dict_get (at_store (attempt_step_of x (run_ops ops s))) k = dict_get (at_store (run_ops ops s)) k"
    by (rule store_step) (use snoc.prems in \<open>auto simp: key_run\<close>)
  with ih show ?case by simp
qed simp

text \<open>
  A heartbeat is not lost between attempts: the details an attempt beat last, before it was cancelled, are the heartbeat
  details in the info of the attempts under its key built afterwards, until the activity is resolved; a beat of a cancelled attempt
  raises and leaves the recorded details alone.
\<close>

theorem heartbeat_reaches_next_attempt:
  assumes key: "cx_key (at_contexts s c) = Some (meta_str m ''workflow_run_id'', q)" and seq: "jget m ''seq'' = JInt q"
    and since: "Forget (meta_str m ''workflow_run_id'', q) \<notin> set since" "\<And>ds. Remember (meta_str m ''workflow_run_id'', q) ds \<notin> set since"
      "\<And>d ds t. Beat d ds t \<in> set since \<Longrightarrow> cx_key (at_contexts s d) \<noteq> Some (meta_str m ''workflow_run_id'', q)"
  shows "(\<not> cx_cancelled (at_contexts s c) \<and> make_info ns m (run_ops (Beat c details now # since) s) = Inr i \<longrightarrow>
      ai_heartbeat_details i = details) \<and>
    (cx_cancelled (at_contexts s c) \<longrightarrow> isl (snd (root_heartbeat c details now s)) \<and> at_store (fst (root_heartbeat c details now s)) = at_store s)"
proof (intro conjI impI)
  let ?k = "(meta_str m ''workflow_run_id'', q)" and ?b = "fst (root_heartbeat c details now s)"
  assume a: "\<not> cx_cancelled (at_contexts s c) \<and> make_info ns m (run_ops (Beat c details now # since) s) = Inr i"
  have "dict_get (at_store ?b) ?k = Some details"
    using a key by (simp add: root_heartbeat_def update_context_def Let_def dict_simps)
  moreover have "cx_key (at_contexts ?b d) = cx_key (at_contexts s d)" for d
    using key_step [of "Beat c details now" s d] by simp
  ultimately have "dict_get (at_store (run_ops (Beat c details now # since) s)) ?k = Some details"
    using store_run [OF since(1,2), of ?b] since(3) by (simp add: run_ops_def)
  then show "ai_heartbeat_details i = details"
    using a by (auto simp: make_info_def seq optional_def bind_result_Inr_iff)
qed (auto simp: root_heartbeat_def update_context_def Let_def)

subsection \<open>The task token\<close>

text \<open>
  The task token in an activity's info leads a client back to it: read back, it names the activity, and completing through it
  sends to the workflow of a queued activity on the completion topic, and else to the run's inbox.
\<close>

theorem task_token_routes_back:
  assumes "make_info ns m s = Inr i" "ai_task_token i = Some tok"
  shows "\<exists>r. reference_of_token tok = Inr r \<and> ar_activity r = ai_activity_id i \<and>
    (if truthy (jget m ''queued_activity_dbos_id'')
     then activity_target c r w = Some (Inr (meta_str m ''queued_activity_dbos_id''), w) \<and> completion_topic r = ASYNC_COMPLETE_TOPIC
     else activity_target c r w = Some (Inr (ai_run_id i), w) \<and> completion_topic r = INBOX_TOPIC)"
proof -
  have "tok = task_token m" and "ai_activity_id i = meta_str m ''activity_id''" and "ai_run_id i = meta_str m ''workflow_run_id''"
    using assms by (auto simp: make_info_def bind_result_Inr_iff split: option.splits)
  then show ?thesis
    by (auto simp: task_token_def reference_of_token_def jindex_def jget_def optional_def activity_target_def completion_topic_def
        act_lift_def target_of_def resolve_dbos_id_def lift_py_def)
qed

subsection \<open>Concrete attempts\<close>

definition first_key :: attempt_key where "first_key = (''run'', 3)"

definition parked_meta :: json where
  "parked_meta = JObj [(''workflow_run_id'', JStr ''run''), (''seq'', JInt 3), (''activity_id'', JStr ''a3''),
     (''queued_activity_dbos_id'', JStr ''run--a3'')]"

definition fresh_contexts :: "nat \<Rightarrow> attempt_context" where
  "fresh_contexts _ = \<lparr>cx_key = Some first_key, cx_async = True, cx_cancelled = False, cx_last = [], cx_last_at = 0, cx_client = None\<rparr>"

text \<open>A request before the attempt is registered reaches it.\<close>

lemma cancel_reaches_attempt_witness:
  "cx_cancelled (at_contexts (run_ops [Ask first_key, Enter first_key 1] (no_attempts fresh_contexts)) 1)"
proof -
  have "pending first_key [Ask first_key]" unfolding pending_def by (intro exI [of _ "[]"]) simp
  then show ?thesis
    using cancel_reaches_attempt [where before = "[Ask first_key]" and since = "[]" and k = first_key and c = 1 and ctxs = fresh_contexts]
    by (simp add: fresh_contexts_def run_ops_def)
qed

lemma queued_info:
  "\<exists>i. make_info None parked_meta s = Inr i"
  by (simp add: make_info_def parked_meta_def jget_def jget_default_def optional_def meta_timedelta_def)

lemma heartbeat_reaches_next_attempt_witness:
  "\<exists>i. make_info None parked_meta (run_ops [Beat 1 [JInt 5] 2] (no_attempts fresh_contexts)) = Inr i \<and> ai_heartbeat_details i = [JInt 5]"
proof -
  have key: "cx_key (at_contexts (no_attempts fresh_contexts) 1) = Some (meta_str parked_meta ''workflow_run_id'', 3)"
    and seq: "jget parked_meta ''seq'' = JInt 3" and on: "\<not> cx_cancelled (at_contexts (no_attempts fresh_contexts) 1)"
    by (simp_all add: no_attempts_def fresh_contexts_def first_key_def meta_str_def parked_meta_def jget_def jget_default_def)
  obtain i where "make_info None parked_meta (run_ops [Beat 1 [JInt 5] 2] (no_attempts fresh_contexts)) = Inr i"
    using queued_info by blast
  with heartbeat_reaches_next_attempt [OF key seq, where since = "[]" and details = "[JInt 5]" and now = 2 and ns = None and i = i] on
  show ?thesis by simp
qed

lemma task_token_routes_back_witness:
  "\<exists>i tok r. make_info None parked_meta (no_attempts fresh_contexts) = Inr i \<and> ai_task_token i = Some tok \<and>
     reference_of_token tok = Inr r \<and> completion_topic r = ASYNC_COMPLETE_TOPIC"
proof -
  obtain i where i: "make_info None parked_meta (no_attempts fresh_contexts) = Inr i" using queued_info by blast
  then have tok: "ai_task_token i = Some (task_token parked_meta)"
    by (auto simp: make_info_def parked_meta_def jget_def jget_default_def optional_def meta_timedelta_def)
  have "truthy (jget parked_meta ''queued_activity_dbos_id'')" by (simp add: parked_meta_def jget_def)
  then have "\<exists>r. reference_of_token (task_token parked_meta) = Inr r \<and> completion_topic r = ASYNC_COMPLETE_TOPIC"
    using task_token_routes_back [OF i tok, of "c :: unit dbos" "()" for c] by auto
  with i tok show ?thesis by blast
qed

end
