(* ===== verification/Decorators.thy ===== *)
theory Decorators
  imports Registry
begin

text \<open>
  The definition decorators of \<open>dbosify/workflow.py\<close>: what \<open>run\<close>, \<open>signal\<close>, \<open>query\<close>, \<open>update\<close>, \<open>validator\<close> and \<open>init\<close>
  mark a method with, and \<open>defn\<close> over a class body. A method carries one decorator; stacked decorators are not modelled.
\<close>

subsection \<open>Decorators\<close>

text \<open>A function of a class body. Its name is \<open>__name__\<close>, the attribute it is bound to.\<close>

record class_method =
  mt_name :: string
  mt_fn :: string
  mt_coroutine :: bool
  mt_hints :: "hint list option"
  mt_ret :: "hint option"

text \<open>The arguments of a handler decorator: the name, \<open>dynamic\<close>, the unfinished policy and the description.\<close>

record handler_args =
  ha_name :: "string option"
  ha_dynamic :: bool
  ha_policy :: int
  ha_description :: "string option"

datatype decorator =
    Undecorated
  | RunMark
  | SignalMark handler_args
  | QueryMark handler_args
  | UpdateMark handler_args "class_method option"

definition plain_member :: "class_method \<Rightarrow> class_member" where
  "plain_member m = \<lparr>mb_name = mt_name m, mb_fn = mt_fn m, mb_run = False, mb_coroutine = mt_coroutine m, mb_signal = None,
     mb_signal_policy = 1, mb_query = None, mb_update = None, mb_update_policy = 1, mb_validator = None,
     mb_hints = mt_hints m, mb_ret = mt_ret m, mb_description = None\<rparr>"

text \<open>The check made when the decorator is called, and the marker it sets.\<close>

definition check_names :: "handler_args \<Rightarrow> unit result" where
  "check_names a = (if ha_name a \<noteq> None \<and> ha_dynamic a then Inl RuntimeError else Inr ())"

definition marker :: "handler_args \<Rightarrow> class_method \<Rightarrow> string option" where
  "marker a m = (if ha_dynamic a then None else Some (case ha_name a of Some n \<Rightarrow> n | None \<Rightarrow> mt_name m))"

definition run_method :: "class_method \<Rightarrow> class_member result" where
  "run_method m = (if \<not> mt_coroutine m then Inl ValueError else Inr ((plain_member m)\<lparr>mb_run := True\<rparr>))"

definition signal_method :: "handler_args \<Rightarrow> class_method \<Rightarrow> class_member result" where
  "signal_method a m = bind_result (check_names a) (\<lambda>_.
     Inr ((plain_member m)\<lparr>mb_signal := Some (marker a m), mb_signal_policy := ha_policy a, mb_description := ha_description a\<rparr>))"

definition query_method :: "handler_args \<Rightarrow> class_method \<Rightarrow> class_member result" where
  "query_method a m = bind_result (check_names a) (\<lambda>_.
     if mt_coroutine m then Inl ValueError
     else Inr ((plain_member m)\<lparr>mb_query := Some (marker a m), mb_description := ha_description a\<rparr>))"

text \<open>\<open>_UpdateMethod\<close> and its \<open>validator\<close>.\<close>

definition update_method :: "handler_args \<Rightarrow> class_method \<Rightarrow> class_member result" where
  "update_method a m = bind_result (check_names a) (\<lambda>_.
     Inr ((plain_member m)\<lparr>mb_update := Some (marker a m), mb_update_policy := ha_policy a, mb_description := ha_description a\<rparr>))"

definition with_validator :: "class_method \<Rightarrow> class_member \<Rightarrow> class_member result" where
  "with_validator v m = (if mt_coroutine v then Inl ValueError else Inr (m\<lparr>mb_validator := Some (mt_fn v)\<rparr>))"

fun decorate :: "decorator \<Rightarrow> class_method \<Rightarrow> class_member result" where
  "decorate Undecorated m = Inr (plain_member m)"
| "decorate RunMark m = run_method m"
| "decorate (SignalMark a) m = signal_method a m"
| "decorate (QueryMark a) m = query_method a m"
| "decorate (UpdateMark a v) m =
     bind_result (update_method a m) (case v of None \<Rightarrow> Inr | Some v \<Rightarrow> with_validator v)"

definition init_method :: "class_method \<Rightarrow> hint list option result" where
  "init_method m = (if mt_name m \<noteq> ''__init__'' then Inl ValueError else Inr (mt_hints m))"

text \<open>
  A class body, its decorators run from top to bottom. A name bound twice keeps its last function, and
  \<open>inspect.getmembers\<close> lists the members by name. \<open>cb_init\<close> is a method marked \<open>init\<close>.
\<close>

record class_body =
  cb_name :: string
  cb_init :: "class_method option"
  cb_methods :: "(decorator \<times> class_method) list"

definition class_members :: "class_member list \<Rightarrow> class_member list" where
  "class_members cs = sort_key mb_name (map snd (fold (\<lambda>c. dict_set (mb_name c) c) cs []))"

text \<open>\<open>defn\<close>: the decorator expression is evaluated before the class body.\<close>

definition defn :: "bool \<Rightarrow> string option \<Rightarrow> string list \<Rightarrow> int \<Rightarrow> class_body \<Rightarrow> workflow_def result" where
  "defn dynamic name failures versioning b =
     (if dynamic then Inl NotImplementedErr
      else bind_result (case cb_init b of None \<Rightarrow> Inr None | Some i \<Rightarrow> bind_result (init_method i) (Inr \<circ> Some)) (\<lambda>init.
           bind_result (map_result (\<lambda>(d, m). decorate d m) (cb_methods b)) (\<lambda>members.
             build_workflow_definition
               \<lparr>wc_name = cb_name b, wc_members = class_members members, wc_init = (init \<noteq> None),
                 wc_init_hints = (case init of Some h \<Rightarrow> h | None \<Rightarrow> None)\<rparr>
               name failures (Some versioning))))"

subsection \<open>Properties\<close>

lemmas decorator_defs = run_method_def signal_method_def query_method_def update_method_def with_validator_def check_names_def

text \<open>What a decorator accepts.\<close>

fun decorator_ok :: "decorator \<Rightarrow> class_method \<Rightarrow> bool" where
  "decorator_ok Undecorated m = True"
| "decorator_ok RunMark m = mt_coroutine m"
| "decorator_ok (SignalMark a) m = (ha_name a = None \<or> \<not> ha_dynamic a)"
| "decorator_ok (QueryMark a) m = ((ha_name a = None \<or> \<not> ha_dynamic a) \<and> \<not> mt_coroutine m)"
| "decorator_ok (UpdateMark a v) m =
     ((ha_name a = None \<or> \<not> ha_dynamic a) \<and> (case v of None \<Rightarrow> True | Some v \<Rightarrow> \<not> mt_coroutine v))"

text \<open>The member a legal decorator makes.\<close>

fun member_of :: "decorator \<times> class_method \<Rightarrow> class_member" where
  "member_of (d, m) = (case d of
     Undecorated \<Rightarrow> plain_member m
   | RunMark \<Rightarrow> (plain_member m)\<lparr>mb_run := True\<rparr>
   | SignalMark a \<Rightarrow> (plain_member m)\<lparr>mb_signal := Some (marker a m), mb_signal_policy := ha_policy a, mb_description := ha_description a\<rparr>
   | QueryMark a \<Rightarrow> (plain_member m)\<lparr>mb_query := Some (marker a m), mb_description := ha_description a\<rparr>
   | UpdateMark a v \<Rightarrow> (plain_member m)\<lparr>mb_update := Some (marker a m), mb_update_policy := ha_policy a,
       mb_description := ha_description a, mb_validator := map_option mt_fn v\<rparr>)"

lemma decorate_iff: "decorate d m = Inr c \<longleftrightarrow> decorator_ok d m \<and> c = member_of (d, m)"
  by (cases d) (auto simp: decorator_defs plain_member_def split: option.splits)

lemma map_decorate_iff:
  "map_result (\<lambda>(d, m). decorate d m) ms = Inr cs \<longleftrightarrow> (\<forall>(d, m)\<in>set ms. decorator_ok d m) \<and> cs = map member_of ms"
  by (induction ms arbitrary: cs) (auto simp: bind_result_Inr_iff decorate_iff)

text \<open>The class of a body of legal decorators.\<close>

definition class_of :: "class_body \<Rightarrow> workflow_class" where
  "class_of b = \<lparr>wc_name = cb_name b, wc_members = class_members (map member_of (cb_methods b)),
     wc_init = (cb_init b \<noteq> None), wc_init_hints = (case cb_init b of Some i \<Rightarrow> mt_hints i | None \<Rightarrow> None)\<rparr>"

definition body_ok :: "class_body \<Rightarrow> bool" where
  "body_ok b \<longleftrightarrow> (\<forall>(d, m)\<in>set (cb_methods b). decorator_ok d m) \<and>
     (case cb_init b of Some i \<Rightarrow> mt_name i = ''__init__'' | None \<Rightarrow> True)"

lemma member_bindings:
  "snd ` set (fold (\<lambda>c. dict_set (mb_name c) c) cs d) \<subseteq> set cs \<union> snd ` set d"
proof (induction cs arbitrary: d)
  case (Cons c cs)
  have "(k, x) \<in> set (dict_set (mb_name c) c d) \<Longrightarrow> x = c \<or> (k, x) \<in> set d" for k x
    by (induction d) (auto split: if_splits)
  then have "snd ` set (dict_set (mb_name c) c d) \<subseteq> insert c (snd ` set d)" by force
  with Cons [of "dict_set (mb_name c) c d"] show ?case by auto
qed simp

lemma class_members_subset: "set (class_members cs) \<subseteq> set cs"
  using member_bindings [of cs "[]"] by (simp add: class_members_def)

lemma defn_iff:
  "defn dynamic name failures versioning b = Inr d \<longleftrightarrow>
     \<not> dynamic \<and> body_ok b \<and> workflow_class_ok (class_of b) \<and> d = definition_of (class_of b) name failures (Some versioning)"
  by (cases "cb_init b")
     (auto simp: defn_def body_ok_def class_of_def init_method_def bind_result_Inr_iff map_decorate_iff
       definition_built_exactly)

lemma member_marks:
  "mb_fn (member_of (deco, m)) = mt_fn m" "mb_coroutine (member_of (deco, m)) = mt_coroutine m"
  "mb_run (member_of (deco, m)) \<longleftrightarrow> deco = RunMark"
  "mb_query (member_of (deco, m)) = (case deco of QueryMark a \<Rightarrow> Some (marker a m) | _ \<Rightarrow> None)"
  "mb_signal (member_of (deco, m)) = (case deco of SignalMark a \<Rightarrow> Some (marker a m) | _ \<Rightarrow> None)"
  "mb_update (member_of (deco, m)) = (case deco of UpdateMark a v \<Rightarrow> Some (marker a m) | _ \<Rightarrow> None)"
  "mb_validator (member_of (deco, m)) = (case deco of UpdateMark a v \<Rightarrow> map_option mt_fn v | _ \<Rightarrow> None)"
  by (cases deco; simp add: plain_member_def)+

lemma class_member:
  assumes "body_ok b" "c \<in> set (wc_members (class_of b))"
  obtains deco m where "(deco, m) \<in> set (cb_methods b)" "decorator_ok deco m" "c = member_of (deco, m)"
proof -
  from assms(2) class_members_subset [of "map member_of (cb_methods b)"] have "c \<in> member_of ` set (cb_methods b)"
    by (auto simp: class_of_def)
  then obtain deco m where "(deco, m) \<in> set (cb_methods b)" "c = member_of (deco, m)" by (force simp del: member_of.simps)
  with assms(1) that show ?thesis unfolding body_ok_def by blast
qed

lemma handler_member:
  assumes "body_ok b" "(n, h) \<in> set (handlers mk f (wc_members (class_of b)))"
  obtains deco m where "(deco, m) \<in> set (cb_methods b)" "decorator_ok deco m"
    "mk (member_of (deco, m)) = Some n" "h = f (member_of (deco, m))"
proof -
  from assms(2) obtain c where c: "c \<in> set (wc_members (class_of b))" "mk c = Some n" "h = f c"
    by (auto simp: handlers_def List.map_filter_def)
  from class_member [OF assms(1) c(1)] c(2,3) that show ?thesis by blast
qed

text \<open>
  The name a decorator gives its handler: an explicit \<open>name\<close> is the name, a dynamic handler has none, and otherwise it is
  the name of the function.
\<close>

definition name_given :: "handler_args \<Rightarrow> class_method \<Rightarrow> string option \<Rightarrow> bool" where
  "name_given a m n \<longleftrightarrow>
     (\<forall>x. ha_name a = Some x \<longrightarrow> n = Some x) \<and>
     (ha_dynamic a \<longrightarrow> n = None) \<and>
     (ha_name a = None \<and> \<not> ha_dynamic a \<longrightarrow> n = Some (mt_name m))"

lemma marker_given: "ha_name a = None \<or> \<not> ha_dynamic a \<Longrightarrow> name_given a m (marker a m)"
  by (auto simp: name_given_def marker_def)

lemma handler_marked:
  assumes "body_ok b"
  shows "(n, h) \<in> set (handlers mb_signal signal_def (wc_members (class_of b))) \<Longrightarrow>
      \<exists>a m. (SignalMark a, m) \<in> set (cb_methods b) \<and> hd_fn h = mt_fn m \<and> name_given a m n"
    and "(n, h) \<in> set (handlers mb_query query_def (wc_members (class_of b))) \<Longrightarrow>
      \<exists>a m. (QueryMark a, m) \<in> set (cb_methods b) \<and> \<not> mt_coroutine m \<and> hd_fn h = mt_fn m \<and> name_given a m n"
    and "(n, h) \<in> set (handlers mb_update update_def (wc_members (class_of b))) \<Longrightarrow>
      \<exists>a v m. (UpdateMark a v, m) \<in> set (cb_methods b) \<and> hd_fn h = mt_fn m \<and> name_given a m n \<and>
        hd_validator h = map_option mt_fn v \<and> (case v of Some w \<Rightarrow> \<not> mt_coroutine w | None \<Rightarrow> True)"
proof -
  assume "(n, h) \<in> set (handlers mb_signal signal_def (wc_members (class_of b)))"
  then obtain deco m where "(deco, m) \<in> set (cb_methods b)" "decorator_ok deco m"
      "mb_signal (member_of (deco, m)) = Some n" "h = signal_def (member_of (deco, m))"
    by (rule handler_member [OF assms])
  then show "\<exists>a m. (SignalMark a, m) \<in> set (cb_methods b) \<and> hd_fn h = mt_fn m \<and> name_given a m n"
    by (cases deco) (auto simp: signal_def_def member_marks intro: marker_given simp del: member_of.simps)
next
  assume "(n, h) \<in> set (handlers mb_query query_def (wc_members (class_of b)))"
  then obtain deco m where "(deco, m) \<in> set (cb_methods b)" "decorator_ok deco m"
      "mb_query (member_of (deco, m)) = Some n" "h = query_def (member_of (deco, m))"
    by (rule handler_member [OF assms])
  then show "\<exists>a m. (QueryMark a, m) \<in> set (cb_methods b) \<and> \<not> mt_coroutine m \<and> hd_fn h = mt_fn m \<and> name_given a m n"
    by (cases deco) (auto simp: query_def_def member_marks intro: marker_given simp del: member_of.simps)
next
  assume "(n, h) \<in> set (handlers mb_update update_def (wc_members (class_of b)))"
  then obtain deco m where "(deco, m) \<in> set (cb_methods b)" "decorator_ok deco m"
      "mb_update (member_of (deco, m)) = Some n" "h = update_def (member_of (deco, m))"
    by (rule handler_member [OF assms])
  then show "\<exists>a v m. (UpdateMark a v, m) \<in> set (cb_methods b) \<and> hd_fn h = mt_fn m \<and> name_given a m n \<and>
        hd_validator h = map_option mt_fn v \<and> (case v of Some w \<Rightarrow> \<not> mt_coroutine w | None \<Rightarrow> True)"
    by (cases deco) (auto simp: update_def_def member_marks intro: marker_given simp del: member_of.simps)
qed

text \<open>
  Claim C40. The signals, queries and updates of a decorated workflow are the decorated functions of its class under the
  names the decorators gave: an explicit name, none for a dynamic handler, and otherwise the name of the function. Queries
  and validators are synchronous, and the run method is a decorated coroutine.
\<close>

theorem decorated_workflow_well_formed:
  assumes "defn dynamic name failures versioning b = Inr d"
  shows "(\<forall>(n, h)\<in>set (wd_signals d). \<exists>a m. (SignalMark a, m) \<in> set (cb_methods b) \<and> hd_fn h = mt_fn m \<and> name_given a m n) \<and>
    (\<forall>(n, h)\<in>set (wd_queries d). \<exists>a m. (QueryMark a, m) \<in> set (cb_methods b) \<and> \<not> mt_coroutine m \<and>
       hd_fn h = mt_fn m \<and> name_given a m n) \<and>
    (\<forall>(n, h)\<in>set (wd_updates d). \<exists>a v m. (UpdateMark a v, m) \<in> set (cb_methods b) \<and> hd_fn h = mt_fn m \<and> name_given a m n \<and>
       hd_validator h = map_option mt_fn v \<and> (case v of Some w \<Rightarrow> \<not> mt_coroutine w | None \<Rightarrow> True)) \<and>
    (\<exists>m. (RunMark, m) \<in> set (cb_methods b) \<and> mt_coroutine m \<and> wd_run d = mt_fn m)"
proof -
  have body: "body_ok b" "workflow_class_ok (class_of b)" "d = definition_of (class_of b) name failures (Some versioning)"
    using assms by (simp_all add: defn_iff)
  have tables: "wd_signals d = handlers mb_signal signal_def (wc_members (class_of b))"
      "wd_queries d = handlers mb_query query_def (wc_members (class_of b))"
      "wd_updates d = handlers mb_update update_def (wc_members (class_of b))"
      "wd_run d = mb_fn (hd (filter mb_run (wc_members (class_of b))))"
    by (simp_all add: body(3) definition_of_def Let_def)
  obtain c where c: "filter mb_run (wc_members (class_of b)) = [c]" "mb_coroutine c"
    using body(2) by (auto simp: workflow_class_ok_def)
  then have "c \<in> set (wc_members (class_of b))" "mb_run c" "wd_run d = mb_fn c"
    by (auto simp: tables(4) dest: filter_eq_ConsD)
  moreover obtain deco m where "(deco, m) \<in> set (cb_methods b)" "c = member_of (deco, m)"
    by (rule class_member [OF body(1) calculation(1)])
  ultimately have "\<exists>m. (RunMark, m) \<in> set (cb_methods b) \<and> mt_coroutine m \<and> wd_run d = mt_fn m"
    using c(2) by (auto simp: member_marks simp del: member_of.simps)
  with handler_marked [OF body(1)] show ?thesis unfolding tables by blast
qed

text \<open>A workflow with a run method, a query and an update with a validator.\<close>

definition order_method :: "string \<Rightarrow> bool \<Rightarrow> class_method" where
  "order_method n coroutine = \<lparr>mt_name = n, mt_fn = n, mt_coroutine = coroutine, mt_hints = Some [], mt_ret = None\<rparr>"

definition no_args :: handler_args where
  "no_args = \<lparr>ha_name = None, ha_dynamic = False, ha_policy = 1, ha_description = None\<rparr>"

definition order_body :: class_body where
  "order_body = \<lparr>cb_name = ''Order'', cb_init = None, cb_methods =
     [(RunMark, order_method ''run'' True), (QueryMark (no_args\<lparr>ha_name := Some ''status''\<rparr>), order_method ''state'' False),
      (UpdateMark no_args (Some (order_method ''check'' False)), order_method ''amend'' True)]\<rparr>"

theorem decorated_workflow_well_formed_witness:
  "\<exists>d. defn False None [] 0 order_body = Inr d \<and> wd_run d = ''run'' \<and> map fst (wd_queries d) = [Some ''status'']"
proof -
  have "(case defn False None [] 0 order_body of Inr d \<Rightarrow> map fst (wd_queries d) = [Some ''status''] | Inl _ \<Rightarrow> False)"
    by code_simp
  then obtain d where d: "defn False None [] 0 order_body = Inr d" and q: "map fst (wd_queries d) = [Some ''status'']"
    by (auto split: sum.splits)
  from decorated_workflow_well_formed [OF d] d q show ?thesis
    by (auto simp: order_body_def order_method_def)
qed

end
