(* ===== verification/Workflow_Api.thy ===== *)
theory Workflow_Api
  imports Interp_Loop
begin

text \<open>
  The functions of \<open>dbosify/workflow.py\<close> that workflow code and handlers call, through the root of the outbound
  interceptor chain (\<open>_RootWorkflowOutbound\<close>) to the runtime operations of \<open>dbosify/_internal/interpreter.py\<close>, and
  \<open>runtime_info\<close>. Without interceptors the chain is its root. Awaiting a returned future is workflow code; ignored
  options, deprecation warnings and log lines are not modelled.
\<close>

subsection \<open>References and arguments\<close>

text \<open>What an activity, a workflow or a signal is referred to by; \<open>SignalMethod None\<close> is a dynamic handler.\<close>

datatype activity_ref = ActivityName string | DecoratedActivity string | PlainFunction

datatype workflow_ref = WorkflowName string | WorkflowClass "string option" | RunMethod string | OtherReference

datatype signal_ref = SignalName string | SignalMethod "string option" | UndecoratedMethod

fun resolve_activity_name :: "activity_ref \<Rightarrow> string result" where
  "resolve_activity_name (ActivityName n) = Inr n"
| "resolve_activity_name (DecoratedActivity n) = Inr n"
| "resolve_activity_name PlainFunction = Inl TypeError"

fun resolve_workflow_type :: "workflow_ref \<Rightarrow> string result" where
  "resolve_workflow_type (WorkflowName n) = Inr n"
| "resolve_workflow_type (WorkflowClass (Some n)) = Inr n"
| "resolve_workflow_type (WorkflowClass None) = Inl TypeError"
| "resolve_workflow_type (RunMethod n) = Inr n"
| "resolve_workflow_type OtherReference = Inl TypeError"

text \<open>\<open>str(getattr(signal, SIGNAL_ATTR))\<close>: the marker of a dynamic handler is \<open>None\<close>.\<close>

fun signal_name :: "signal_ref \<Rightarrow> string result" where
  "signal_name (SignalName n) = Inr n"
| "signal_name (SignalMethod (Some n)) = Inr n"
| "signal_name (SignalMethod None) = Inr ''None''"
| "signal_name UndecoratedMethod = Inl AttributeError"

definition resolve_args :: "json option \<Rightarrow> json list \<Rightarrow> json list result" where
  "resolve_args arg args =
     (case arg of
        Some a \<Rightarrow> if args \<noteq> [] then Inl ValueError else Inr [a]
      | None \<Rightarrow> Inr args)"

subsection \<open>Activities\<close>

definition TRY_CANCEL :: int where "TRY_CANCEL = 0"

record activity_call =
  ac_activity :: activity_ref
  ac_arg :: "json option"
  ac_args :: "json list"
  ac_id :: "string option"
  ac_task_queue :: "string option"
  ac_schedule_to_close :: "timedelta option"
  ac_schedule_to_start :: "timedelta option"
  ac_start_to_close :: "timedelta option"
  ac_heartbeat :: "timedelta option"
  ac_retry_policy :: "retry_policy option"
  ac_cancellation :: "int option"

text \<open>\<open>not t\<close>: no timeout, or a zero duration.\<close>

definition no_timeout :: "timedelta option \<Rightarrow> bool" where
  "no_timeout t \<longleftrightarrow> t = None \<or> t = Some 0"

definition activity_input :: "activity_call \<Rightarrow> activity_request result" where
  "activity_input c =
     (if no_timeout (ac_start_to_close c) \<and> no_timeout (ac_schedule_to_close c) then Inl ValueError
      else bind_result (resolve_activity_name (ac_activity c)) (\<lambda>name.
           bind_result (resolve_args (ac_arg c) (ac_args c)) (\<lambda>args.
             Inr \<lparr>ar_name = name, ar_args = args, ar_schedule_to_close = ac_schedule_to_close c,
               ar_start_to_close = ac_start_to_close c, ar_retry_policy = ac_retry_policy c, ar_activity_id = ac_id c,
               ar_cancellation_type = (case ac_cancellation c of Some k \<Rightarrow> k | None \<Rightarrow> TRY_CANCEL),
               ar_heartbeat_timeout = ac_heartbeat c, ar_task_queue = ac_task_queue c,
               ar_schedule_to_start = ac_schedule_to_start c, ar_headers = []\<rparr>)))"

text \<open>A local activity has no queue, and its input no heartbeat and no schedule-to-start timeout.\<close>

definition local_activity_input :: "activity_call \<Rightarrow> activity_request result" where
  "local_activity_input c =
     bind_result (activity_input c) (\<lambda>r.
       Inr (r\<lparr>ar_heartbeat_timeout := None, ar_task_queue := None, ar_schedule_to_start := None\<rparr>))"

definition api_start_activity :: "env \<Rightarrow> activity_call \<Rightarrow> interp \<Rightarrow> interp \<times> (nat \<times> nat) result" where
  "api_start_activity e c s =
     (case activity_input c of Inl err \<Rightarrow> (s, Inl err) | Inr r \<Rightarrow> start_activity e r s)"

definition api_start_local_activity :: "env \<Rightarrow> activity_call \<Rightarrow> interp \<Rightarrow> interp \<times> (nat \<times> nat) result" where
  "api_start_local_activity e c s =
     (case local_activity_input c of Inl err \<Rightarrow> (s, Inl err) | Inr r \<Rightarrow> start_activity e r s)"

subsection \<open>Children and external workflows\<close>

record child_call =
  cc_workflow :: workflow_ref
  cc_arg :: "json option"
  cc_args :: "json list"
  cc_id :: "string option"
  cc_task_queue :: "string option"
  cc_policy :: int
  cc_cancellation :: int
  cc_memo :: "jdict option"
  cc_sa :: "sa_pair list option"
  cc_run_timeout :: "timedelta option"
  cc_retry_policy :: "retry_policy option"

text \<open>\<open>id or ""\<close> on the way into the chain, \<open>input.id or None\<close> at its root.\<close>

definition child_input :: "child_call \<Rightarrow> child_request result" where
  "child_input c =
     bind_result (case cc_id c of Some cid \<Rightarrow> validate_workflow_id cid | None \<Rightarrow> Inr ()) (\<lambda>_.
     bind_result (resolve_workflow_type (cc_workflow c)) (\<lambda>name.
     bind_result (resolve_args (cc_arg c) (cc_args c)) (\<lambda>args.
       let cid = (case cc_id c of Some i \<Rightarrow> i | None \<Rightarrow> []) in
       Inr \<lparr>cr_type = name, cr_args = args, cr_id = (if cid = [] then None else Some cid),
         cr_task_queue = cc_task_queue c, cr_policy = cc_policy c, cr_cancellation = cc_cancellation c,
         cr_memo = cc_memo c, cr_sa = cc_sa c, cr_run_timeout = cc_run_timeout c,
         cr_retry_policy = cc_retry_policy c, cr_headers = []\<rparr>)))"

definition api_start_child :: "child_call \<Rightarrow> interp \<Rightarrow> interp \<times> (nat \<times> nat) result" where
  "api_start_child c s = (case child_input c of Inl err \<Rightarrow> (s, Inl err) | Inr r \<Rightarrow> start_child_workflow r s)"

text \<open>An \<open>ExternalWorkflowHandle\<close>: the workflow id and the run it is bound to.\<close>

record external_handle =
  eh_id :: string
  eh_run :: "string option"

text \<open>\<open>run_id or workflow_id\<close>; the chain is resolved only when there is no run id.\<close>

definition external_target :: "external_handle \<Rightarrow> string" where
  "external_target h = (case eh_run h of Some r \<Rightarrow> if r \<noteq> [] then r else eh_id h | None \<Rightarrow> eh_id h)"

definition signal_input :: "signal_ref \<Rightarrow> json option \<Rightarrow> json list \<Rightarrow> (string \<times> json list) result" where
  "signal_input sig arg args =
     bind_result (signal_name sig) (\<lambda>name. bind_result (resolve_args arg args) (\<lambda>as. Inr (name, as)))"

definition signal_external ::
  "env \<Rightarrow> external_handle \<Rightarrow> signal_ref \<Rightarrow> json option \<Rightarrow> json list \<Rightarrow> interp \<Rightarrow> interp \<times> nat result" where
  "signal_external e h sig arg args s =
     (case signal_input sig arg args of
        Inl err \<Rightarrow> (s, Inl err)
      | Inr (name, as) \<Rightarrow>
          send_to_workflow (external_target h) (signal_envelope (env_now e) name as (Some [])) (eh_run h = None) s)"

definition cancel_external :: "env \<Rightarrow> external_handle \<Rightarrow> string \<Rightarrow> interp \<Rightarrow> interp \<times> nat result" where
  "cancel_external e h reason s =
     send_to_workflow (external_target h) (cancel_envelope (env_now e) reason) (eh_run h = None) s"

definition signal_child ::
  "env \<Rightarrow> string \<Rightarrow> signal_ref \<Rightarrow> json option \<Rightarrow> json list \<Rightarrow> interp \<Rightarrow> interp \<times> nat result" where
  "signal_child e child_id sig arg args s =
     (case signal_input sig arg args of
        Inl err \<Rightarrow> (s, Inl err)
      | Inr (name, as) \<Rightarrow> send_to_workflow child_id (signal_envelope (env_now e) name as (Some [])) True s)"

subsection \<open>Continue-as-new, memo and randomness\<close>

record can_call =
  cn_workflow :: "workflow_ref option"
  cn_arg :: "json option"
  cn_args :: "json list"
  cn_task_queue :: "string option"
  cn_run_timeout :: "timedelta option"
  cn_retry_policy :: "retry_policy option"
  cn_memo :: "jdict option"
  cn_sa :: "sa_pair list option"

text \<open>\<open>continue_as_new\<close> never returns: the value is the \<open>ContinueAsNewError\<close> it raises.\<close>

definition api_continue_as_new :: "can_call \<Rightarrow> interp \<Rightarrow> can_request result" where
  "api_continue_as_new c s =
     (if i_read_only s then Inl ReadOnlyContextError
      else bind_result (case cn_retry_policy c of Some p \<Rightarrow> validate_retry_policy p | None \<Rightarrow> Inr ()) (\<lambda>_.
           bind_result (case cn_workflow c of Some w \<Rightarrow> bind_result (resolve_workflow_type w) (Inr \<circ> Some) | None \<Rightarrow> Inr None) (\<lambda>name.
           bind_result (resolve_args (cn_arg c) (cn_args c)) (\<lambda>args.
             Inr \<lparr>can_args = args, can_workflow = name, can_task_queue = cn_task_queue c,
               can_run_timeout = cn_run_timeout c, can_retry_policy = cn_retry_policy c, can_memo = cn_memo c,
               can_sa = cn_sa c, can_headers = []\<rparr>))))"

text \<open>\<open>memo_value\<close> and \<open>runtime_memo_value\<close>: \<open>rebuild\<close> is the conversion to a type hint, \<open>None\<close> without one.\<close>

definition runtime_memo_value :: "(json \<Rightarrow> json result) option \<Rightarrow> string \<Rightarrow> interp \<Rightarrow> json result" where
  "runtime_memo_value rebuild key s =
     (case dict_get (i_memo s) key of
        None \<Rightarrow> Inl KeyError
      | Some v \<Rightarrow> (case rebuild of None \<Rightarrow> Inr v | Some f \<Rightarrow> f v))"

definition memo_value :: "(json \<Rightarrow> json result) option \<Rightarrow> string \<Rightarrow> json option \<Rightarrow> interp \<Rightarrow> json result" where
  "memo_value rebuild key dflt s =
     (if key \<notin> fst ` set (i_memo s) then (case dflt of None \<Rightarrow> Inl KeyError | Some d \<Rightarrow> Inr d)
      else runtime_memo_value rebuild key s)"

text \<open>
  \<open>sleep\<close>: \<open>asyncio.sleep\<close> starts a timer for a positive delay and only yields otherwise. A duration is a number of
  seconds or a \<open>timedelta\<close>.
\<close>

datatype duration = Seconds rat | Delta timedelta

fun duration_seconds :: "duration \<Rightarrow> rat" where
  "duration_seconds (Seconds q) = q"
| "duration_seconds (Delta d) = total_seconds d"

definition api_sleep :: "duration \<Rightarrow> interp \<Rightarrow> interp \<times> nat option result" where
  "api_sleep d s =
     (if duration_seconds d \<le> 0 then (s, Inr None)
      else apsnd (map_sum id Some) (create_timer (duration_seconds d) s))"

text \<open>
  \<open>set_signal_handler\<close> and its siblings: \<open>_build_handler_defn\<close> wraps a callable, with the default policy; only an update has a
  validator, and \<open>None\<close> names the dynamic handler. The getters look the same name up.
\<close>

definition build_handler_defn :: "category \<Rightarrow> string option \<Rightarrow> nat \<Rightarrow> bool \<Rightarrow> handler_defn" where
  "build_handler_defn cat name fn validator =
     \<lparr>h_name = name, h_fn = fn, h_policy = 1, h_validator = (cat = UpdateHandler \<and> validator)\<rparr>"

definition api_set_handler :: "category \<Rightarrow> string option \<Rightarrow> nat option \<Rightarrow> bool \<Rightarrow> interp \<Rightarrow> interp \<times> unit result" where
  "api_set_handler cat name handler validator s =
     set_handler cat name (map_option (\<lambda>fn. build_handler_defn cat name fn validator) handler) s"

definition api_get_handler :: "category \<Rightarrow> string option \<Rightarrow> interp \<Rightarrow> nat option" where
  "api_get_handler cat name s =
     map_option h_fn (case cat of
        SignalHandler \<Rightarrow> get_handler (i_signal_overrides s) (wd_signals (i_defn s)) name
      | QueryHandler \<Rightarrow> get_handler (i_query_overrides s) (wd_queries (i_defn s)) name
      | UpdateHandler \<Rightarrow> get_handler (i_update_overrides s) (wd_updates (i_defn s)) name)"

text \<open>\<open>random\<close> hands out the generator of the run, which \<open>uuid4\<close> draws from.\<close>

definition random_access :: "interp \<Rightarrow> unit result" where
  "random_access s = (if i_read_only s then Inl ReadOnlyContextError else Inr ())"

subsection \<open>The calls of workflow code\<close>

text \<open>
  Everything workflow code and handlers can ask of the runtime. A call returns a value or raises; only what it leaves
  behind and whether it raises is kept here.
\<close>

datatype api_call =
    ApiActivity activity_call
  | ApiLocalActivity activity_call
  | ApiChild child_call
  | ApiSignalExternal external_handle signal_ref "json option" "json list"
  | ApiCancelExternal external_handle string
  | ApiSignalChild string signal_ref "json option" "json list"
  | ApiTimer rat
  | ApiSleep duration
  | ApiSetHandler category "string option" "nat option" bool
  | ApiMemo jdict
  | ApiSearchAttributes "sa_update list"
  | ApiDetails string
  | ApiPatch string
  | ApiRandom
  | ApiContinueAsNew can_call
  | ApiCancelActivity nat
  | ApiCancelFuture nat

definition api_step :: "env \<Rightarrow> api_call \<Rightarrow> interp \<Rightarrow> interp \<times> unit result" where
  "api_step e c s =
     (case c of
        ApiActivity a \<Rightarrow> apsnd (map_sum id (\<lambda>_. ())) (api_start_activity e a s)
      | ApiLocalActivity a \<Rightarrow> apsnd (map_sum id (\<lambda>_. ())) (api_start_local_activity e a s)
      | ApiChild k \<Rightarrow> apsnd (map_sum id (\<lambda>_. ())) (api_start_child k s)
      | ApiSignalExternal h sig arg args \<Rightarrow> apsnd (map_sum id (\<lambda>_. ())) (signal_external e h sig arg args s)
      | ApiCancelExternal h reason \<Rightarrow> apsnd (map_sum id (\<lambda>_. ())) (cancel_external e h reason s)
      | ApiSignalChild k sig arg args \<Rightarrow> apsnd (map_sum id (\<lambda>_. ())) (signal_child e k sig arg args s)
      | ApiTimer d \<Rightarrow> apsnd (map_sum id (\<lambda>_. ())) (create_timer d s)
      | ApiSleep d \<Rightarrow> apsnd (map_sum id (\<lambda>_. ())) (api_sleep d s)
      | ApiSetHandler cat name h v \<Rightarrow> api_set_handler cat name h v s
      | ApiMemo m \<Rightarrow> upsert_memo m s
      | ApiSearchAttributes us \<Rightarrow> upsert_search_attributes us s
      | ApiDetails d \<Rightarrow> set_current_details d s
      | ApiPatch pid \<Rightarrow> apsnd (map_sum id (\<lambda>_. ())) (patch e pid s)
      | ApiRandom \<Rightarrow> (s, random_access s)
      | ApiContinueAsNew r \<Rightarrow> (s, map_sum id (\<lambda>_. ()) (api_continue_as_new r s))
      | ApiCancelActivity q \<Rightarrow> (request_activity_cancel q s, Inr ())
      | ApiCancelFuture f \<Rightarrow> (cancel_future f s, Inr ()))"

text \<open>The cancel of a handle: \<open>ActivityHandle.cancel\<close>, and \<open>ChildWorkflowHandle.cancel\<close> on its result future.\<close>

definition cancels_handle :: "api_call \<Rightarrow> bool" where
  "cancels_handle c \<longleftrightarrow> (case c of ApiCancelActivity _ \<Rightarrow> True | ApiCancelFuture _ \<Rightarrow> True | _ \<Rightarrow> False)"

named_theorems api_defs
lemmas [api_defs] = api_step_def api_start_activity_def api_start_local_activity_def api_start_child_def
  signal_external_def cancel_external_def signal_child_def random_access_def api_continue_as_new_def
  api_sleep_def api_set_handler_def

text \<open>In a read-only context every runtime operation raises first.\<close>

lemma read_only_runtime [simp]:
  assumes "i_read_only s"
  shows "start_activity e r s = (s, Inl ReadOnlyContextError)"
    and "start_child_workflow k s = (s, Inl ReadOnlyContextError)"
    and "send_to_workflow target envelope rc s = (s, Inl ReadOnlyContextError)"
    and "create_timer d s = (s, Inl ReadOnlyContextError)"
    and "set_handler cat name h s = (s, Inl ReadOnlyContextError)"
    and "upsert_memo m s = (s, Inl ReadOnlyContextError)"
    and "upsert_search_attributes us s = (s, Inl ReadOnlyContextError)"
    and "set_current_details t s = (s, Inl ReadOnlyContextError)"
    and "patch e pid s = (s, Inl ReadOnlyContextError)"
  using assms
  by (simp_all add: start_activity_def start_child_workflow_def send_to_workflow_def create_timer_def set_handler_def
      upsert_memo_def upsert_search_attributes_def set_current_details_def patch_def assert_not_read_only_def)

text \<open>What a handler set at run time answers to.\<close>

theorem set_handler_reads_back:
  assumes "api_set_handler cat name h validator s = (t, Inr ())"
  shows "api_get_handler cat name t = h"
  using assms
  by (cases cat; cases h; cases name)
     (auto simp: api_set_handler_def api_get_handler_def set_handler_def get_handler_def assert_not_read_only_def dict_get_set
       build_handler_defn_def Let_def split: if_splits option.splits)

text \<open>
  Claim C26. A query handler or an update validator leaves the state of the run as it was, whatever it calls, unless it
  cancels a handle: each of these calls raises, except a sleep that does not wait.
\<close>

theorem read_only_leaves_no_trace:
  assumes "i_read_only s" and "\<not> cancels_handle c"
  shows "fst (api_step e c s) = s \<and>
    ((\<exists>err. snd (api_step e c s) = Inl err) \<or> (\<exists>d. c = ApiSleep d \<and> duration_seconds d \<le> 0))"
  using assms by (cases c) (auto simp: api_defs cancels_handle_def split: sum.split prod.split)

theorem read_only_leaves_no_trace_witness:
  "i_read_only ((new_interp ''w'' plain_defn None None None)\<lparr>i_read_only := True\<rparr>) \<and>
     fst (api_step plain_env (ApiDetails ''x'') ((new_interp ''w'' plain_defn None None None)\<lparr>i_read_only := True\<rparr>)) =
       (new_interp ''w'' plain_defn None None None)\<lparr>i_read_only := True\<rparr>"
  using read_only_leaves_no_trace
      [of "(new_interp ''w'' plain_defn None None None)\<lparr>i_read_only := True\<rparr>" "ApiDetails ''x''" plain_env]
  by (simp add: cancels_handle_def)

text \<open>The cancel of a handle is not guarded: a pending activity is cancelled from a query.\<close>

theorem query_cancels_activity:
  assumes "i_read_only s" and "dict_get (i_activities s) q = Some a" and "i_futs s (ae_future a) = Pending"
    and "ae_cancellation_type a \<noteq> WAIT_CANCELLATION_COMPLETED"
  shows "snd (api_step e (ApiCancelActivity q) s) = Inr () \<and>
    i_futs (fst (api_step e (ApiCancelActivity q) s)) (ae_future a) = FutCancelled"
  using assms by (simp add: api_step_def request_activity_cancel_def cancel_future_def complete_future_def)

subsection \<open>Calls as operations of the execution\<close>

text \<open>A call that raises before it reaches the runtime changes nothing; any other is one operation of the step relation.\<close>

definition is_user_step :: "interp \<Rightarrow> interp \<Rightarrow> bool" where
  "is_user_step s t \<longleftrightarrow> t = s \<or> run_step (Draining, s) (Draining, t)"

lemma user_call [intro]: "permitted u s \<Longrightarrow> t = user_step e u s \<Longrightarrow> is_user_step s t"
  using run_step.user [of u s e] by (simp add: is_user_step_def)

lemma same_state [simp, intro]: "is_user_step s s"
  by (simp add: is_user_step_def)

lemma activity_call_step: "is_user_step s (fst (start_activity e r s))"
  by (rule user_call [where u = "UActivity r" and e = e]) (simp_all add: permitted_def user_step_def)

lemma send_call_step: "is_user_step s (fst (send_to_workflow target envelope rc s))"
  by (rule user_call [where u = "USend target envelope rc"]) (simp_all add: permitted_def user_step_def)

lemma child_call_step: "is_user_step s (fst (start_child_workflow r s))"
  by (rule user_call [where u = "UChild r"]) (simp_all add: permitted_def user_step_def)

lemma plain_call_steps:
  "is_user_step s (fst (create_timer d s))"
  "is_user_step s (fst (set_handler cat name h s))"
  "is_user_step s (fst (upsert_memo m s))"
  "is_user_step s (fst (upsert_search_attributes us s))"
  "is_user_step s (fst (set_current_details t s))"
  "is_user_step s (fst (patch e pid s))"
  "is_user_step s (request_activity_cancel q s)"
  "is_user_step s (cancel_future f s)"
  by (rule user_call [where u = "UTimer d"] user_call [where u = "USetHandler cat name h"]
      user_call [where u = "UMemo m"] user_call [where u = "USearchAttributes us"] user_call [where u = "UDetails t"]
      user_call [where u = "UPatch pid" and e = e] user_call [where u = "UCancelActivity q"]
      user_call [where u = "UCancelFuture f"],
      simp add: permitted_def, simp add: user_step_def)+

lemma handler_call_step: "is_user_step s (fst (api_set_handler cat name h v s))"
  unfolding api_set_handler_def by (rule plain_call_steps)

lemma sleep_call_step: "is_user_step s (fst (api_sleep d s))"
  using plain_call_steps(1) [of s "duration_seconds d"] by (simp add: api_sleep_def)

lemma call_steps: "is_user_step s (fst (api_step e c s))"
  by (cases c)
     (auto simp: api_step_def api_start_activity_def api_start_local_activity_def api_start_child_def signal_external_def
       cancel_external_def signal_child_def handler_call_step sleep_call_step activity_call_step send_call_step child_call_step
       plain_call_steps split: sum.split prod.split)

text \<open>
  Whatever workflow code calls, in whatever order, an execution stays one the step relation reaches, so no future
  of it is ever settled twice.
\<close>

theorem api_calls_stay_reachable:
  assumes "reachable s0 (Draining, s)"
  shows "reachable s0 (Draining, fold (\<lambda>(e, c) s. fst (api_step e c s)) calls s)"
  using assms
proof (induction calls arbitrary: s)
  case (Cons call calls)
  obtain e c where call: "call = (e, c)" by (cases call)
  have "reachable s0 (Draining, fst (api_step e c s))"
    using call_steps [of s e c] Cons.prems reachable.step by (auto simp: is_user_step_def)
  from Cons.IH [OF this] show ?case by (simp add: call)
qed simp

theorem api_calls_stay_reachable_witness:
  "reachable (new_interp ''w'' plain_defn None None None) (Draining, new_interp ''w'' plain_defn None None None) \<and>
     reachable (new_interp ''w'' plain_defn None None None)
       (Draining, fst (api_step plain_env (ApiTimer 1) (new_interp ''w'' plain_defn None None None)))"
  using api_calls_stay_reachable [OF reachable.start, of "new_interp ''w'' plain_defn None None None" "[(plain_env, ApiTimer 1)]"]
    reachable.start by simp

text \<open>
  A started activity is bounded by one of its two timeouts, carries the arguments, name and id it was called with,
  waits on a pending future and is the last command of the turn.
\<close>

theorem started_activity_is_bounded:
  assumes "api_start_activity e c s = (t, Inr (q, f))"
  shows "\<exists>a. dict_get (i_activities t) q = Some a \<and> ae_future a = f \<and> i_futs t f = Pending \<and>
    (ae_start_to_close a \<noteq> None \<or> ae_schedule_to_close a \<noteq> None) \<and>
    Inr (ae_name a) = resolve_activity_name (ac_activity c) \<and> Inr (ae_args a) = resolve_args (ac_arg c) (ac_args c) \<and>
    ae_activity_id a = (case ac_id c of Some i \<Rightarrow> if i \<noteq> [] then i else dec q | None \<Rightarrow> dec q) \<and>
    (\<forall>b\<in>snd ` set (i_activities s). ae_activity_id b \<noteq> ae_activity_id a) \<and>
    i_commands t = i_commands s @ [CmdActivity q] \<and> \<not> i_read_only s"
proof -
  obtain r where r: "activity_input c = Inr r" and run: "start_activity e r s = (t, Inr (q, f))"
    using assms by (auto simp: api_start_activity_def split: sum.splits)
  have input: "\<not> (no_timeout (ac_start_to_close c) \<and> no_timeout (ac_schedule_to_close c))"
    "Inr (ar_name r) = resolve_activity_name (ac_activity c)" "Inr (ar_args r) = resolve_args (ac_arg c) (ac_args c)"
    "ar_start_to_close r = ac_start_to_close c" "ar_schedule_to_close r = ac_schedule_to_close c" "ar_activity_id r = ac_id c"
    using r by (auto simp: activity_input_def bind_result_Inr_iff split: if_splits)
  have "seconds_if t' \<noteq> None" if "\<not> no_timeout t'" for t'
    using that by (auto simp: no_timeout_def seconds_if_def split: option.split)
  note bounded = this
  define policy where "policy = (case ar_retry_policy r of Some p \<Rightarrow> p | None \<Rightarrow> default_retry_policy)"
  define s1 where "s1 = s\<lparr>i_seqs := (i_seqs s)(SeqActivity := Suc (i_seqs s SeqActivity))\<rparr>"
  define a where "a = new_activity_exec r policy (Suc (i_seqs s SeqActivity)) (i_next_fut s) (i_time s)"
  define t0 where "t0 = add_done_callback (ae_future a) (ActivityDone (ae_future a) (ae_seq a)) (push_command (CmdActivity (ae_seq a))
    ((snd (create_future s1))\<lparr>i_activities := dict_set (ae_seq a) a (i_activities s)\<rparr>))"
  have eq: "start_activity e r s =
      (if i_read_only s then (s, Inl ReadOnlyContextError)
       else if ar_task_queue r = None \<and> \<not> env_activity_step e (ar_name r) then (s, Inl KeyError)
       else if \<exists>b\<in>snd ` set (i_activities s). ae_activity_id b = ae_activity_id a then (s1, Inl ValueError)
       else case validate_retry_policy policy of Inl err \<Rightarrow> (s1, Inl err) | Inr _ \<Rightarrow> (t0, Inr (ae_seq a, ae_future a)))"
    unfolding start_activity_def assert_not_read_only_def next_seq_def Let_def prod.case
    by (simp add: policy_def s1_def a_def t0_def new_activity_exec_def create_future_def split: sum.split)
  have t: "t = t0" "q = ae_seq a" "f = ae_future a" "\<not> i_read_only s"
      "\<forall>b\<in>snd ` set (i_activities s). ae_activity_id b \<noteq> ae_activity_id a"
    using run unfolding eq by (auto split: if_splits sum.splits)
  have "dict_get (i_activities t) q = Some a" "i_futs t f = Pending" "i_commands t = i_commands s @ [CmdActivity q]"
    by (simp_all add: t t0_def s1_def a_def new_activity_exec_def add_done_callback_def push_command_def create_future_def
        dict_get_set)
  moreover have "ae_activity_id a = (case ac_id c of Some i \<Rightarrow> if i \<noteq> [] then i else dec q | None \<Rightarrow> dec q)"
      "ae_name a = ar_name r" "ae_args a = ar_args r"
      "ae_start_to_close a = seconds_if (ar_start_to_close r)" "ae_schedule_to_close a = seconds_if (ar_schedule_to_close r)"
    using input by (simp_all add: t a_def new_activity_exec_def resolved_activity_id_def split: option.split)
  ultimately show ?thesis
    using input t bounded by (intro exI [of _ a]) auto
qed

theorem started_activity_is_bounded_witness:
  "\<exists>a. dict_get (i_activities (fst (api_start_activity plain_env \<lparr>ac_activity = ActivityName ''ship'', ac_arg = None, ac_args = [],
        ac_id = None, ac_task_queue = None, ac_schedule_to_close = None, ac_schedule_to_start = None,
        ac_start_to_close = Some 5, ac_heartbeat = None, ac_retry_policy = None, ac_cancellation = None\<rparr>
        (new_interp ''w'' plain_defn None None None)))) 1 = Some a \<and> ae_name a = ''ship''"
proof -
  let ?c = "\<lparr>ac_activity = ActivityName ''ship'', ac_arg = None, ac_args = [],
        ac_id = None, ac_task_queue = None, ac_schedule_to_close = None, ac_schedule_to_start = None,
        ac_start_to_close = Some 5, ac_heartbeat = None, ac_retry_policy = None, ac_cancellation = None\<rparr>"
  let ?s = "new_interp ''w'' plain_defn None None None"
  have "snd (api_start_activity plain_env ?c ?s) = Inr (1, 0)" by code_simp
  then have "api_start_activity plain_env ?c ?s = (fst (api_start_activity plain_env ?c ?s), Inr (1, 0))"
    by (metis prod.collapse)
  from started_activity_is_bounded [OF this] show ?thesis by auto
qed

text \<open>A dynamic signal handler as the reference of a signal: its marker is \<open>None\<close>, and the signal is sent as \<open>''None''\<close>.\<close>

theorem dynamic_signal_is_misnamed:
  assumes "\<not> i_read_only s"
  shows "signal_external e h (SignalMethod None) arg [] s = signal_external e h (SignalName ''None'') arg [] s \<and>
    (\<exists>f. snd (signal_external e h (SignalMethod None) arg [] s) = Inr f)"
  using assms
  by (cases arg) (simp_all add: signal_external_def signal_input_def resolve_args_def send_to_workflow_def assert_not_read_only_def Let_def split_def)

subsection \<open>What a run knows of itself\<close>

record info =
  inf_attempt :: int
  inf_continued :: "string option"
  inf_cron :: "string option"
  inf_first_run :: string
  inf_headers :: jdict
  inf_namespace :: string
  inf_parent :: "(string \<times> string \<times> string) option"
  inf_root :: "(json \<times> json) option"
  inf_retry_policy :: "retry_policy option"
  inf_run_id :: string
  inf_run_timeout :: "timedelta option"
  inf_search_attributes :: "(string, sa_value list) dict"
  inf_start_time :: rat
  inf_task_queue :: string
  inf_typed :: "sa_pair list"
  inf_workflow_id :: string
  inf_workflow_type :: string

definition typed_to_untyped :: "sa_pair list \<Rightarrow> (string, sa_value list) dict" where
  "typed_to_untyped typed =
     fold (\<lambda>p. dict_set (sp_name p) (case sp_value p of
         SaKeywords ks \<Rightarrow> if sp_type p = SA_KEYWORD_LIST then map SaStr ks else [sp_value p]
       | v \<Rightarrow> [v])) typed []"

definition root_info :: "jdict option \<Rightarrow> (json \<times> json) option result" where
  "root_info family =
     (case family of
        None \<Rightarrow> Inr None
      | Some r \<Rightarrow> bind_result (jindex (JObj r) ''run_id'') (\<lambda>run.
                  bind_result (jindex (JObj r) ''workflow_id'') (\<lambda>w. Inr (Some (run, w)))))"

text \<open>
  \<open>runtime_info\<close>. The two parent links (\<open>classify_parent\<close>), the start time and the decoded headers are set at the start of
  \<open>execute\<close>. A parent is its namespace, run id and workflow id, a root its run id and workflow id.
\<close>

definition runtime_info :: "string option \<times> string option \<Rightarrow> rat \<Rightarrow> jdict \<Rightarrow> interp \<Rightarrow> info result" where
  "runtime_info links start headers s =
     (let base = fst (parse_run (i_workflow_id s)) in
      bind_result (root_info (m_root (i_meta s))) (\<lambda>top.
      bind_result (case m_retry_policy (i_meta s) of
                     None \<Rightarrow> Inr None | Some p \<Rightarrow> bind_result (deserialize_retry_policy (JObj p)) (Inr \<circ> Some)) (\<lambda>policy.
        Inr \<lparr>inf_attempt = m_attempt (i_meta s), inf_continued = fst links, inf_cron = m_cron (i_meta s),
          inf_first_run = base, inf_headers = headers, inf_namespace = i_namespace s,
          inf_parent = map_option (\<lambda>p. (i_namespace s, p, fst (parse_run p))) (snd links),
          inf_root = top, inf_retry_policy = policy, inf_run_id = i_workflow_id s,
          inf_run_timeout = map_option timedelta_seconds (m_run_timeout (i_meta s)),
          inf_search_attributes = typed_to_untyped (i_sa s), inf_start_time = start,
          inf_task_queue = i_task_queue_name s, inf_typed = i_sa s, inf_workflow_id = base,
          inf_workflow_type = wd_name (i_defn s)\<rparr>)))"

lemma api_child_exec:
  assumes "api_start_child c s = (t, Inr (q, sf))"
  shows "\<exists>k. dict_get (i_children t) q = Some k \<and> i_workflow_id t = i_workflow_id s \<and> i_meta t = i_meta s \<and>
    ce_run_timeout k = map_option total_seconds (cc_run_timeout c) \<and>
    ce_retry_policy k = map_option (jdict_of \<circ> serialize_retry_policy) (cc_retry_policy c)"
proof -
  obtain r where r: "child_input c = Inr r" and run: "start_child_workflow r s = (t, Inr (q, sf))"
    using assms by (auto simp: api_start_child_def split: sum.splits)
  have "cr_run_timeout r = cc_run_timeout c" "cr_retry_policy r = cc_retry_policy c"
    using r by (auto simp: child_input_def bind_result_Inr_iff Let_def)
  then show ?thesis
    using run
    by (auto simp: start_child_workflow_def assert_not_read_only_def Let_def next_seq_def create_future_def
        add_done_callback_def push_command_def dict_get_set split: if_splits sum.splits)
qed

lemma child_log [simp]:
  "i_log (fst (settle_unless_cancelled f st s)) = i_log s"
  "i_log (fst (fail_child_start q k exc s)) = i_log s"
  "i_log (resolve_own_queue e s) = i_log s"
  "i_log (register_child k s) = i_log s @ [SetEvent CHILDREN_EVENT_KEY (registry_json (i_children_registry s @ [(ce_id k, ce_policy k)]))]"
  by (simp_all add: settle_unless_cancelled_def settle_def complete_future_def fail_child_start_def register_child_def
      emit_def Let_def resolve_own_queue_def)

lemma start_child_log:
  assumes k: "dict_get (i_children s) q = Some k"
  shows "\<exists>ops. i_log (fst (start_child e q s)) = i_log s @ ops \<and>
    (\<forall>typ cid payload queue rt attrs. EnqueueRun typ cid payload queue rt attrs \<in> set ops \<longrightarrow>
      cid = ce_id k \<and> (\<exists>as. payload = wrap_input (map (env_enc e) (ce_args k)) (Some (child_meta e s k as))))"
proof -
  let ?s1 = "register_child k (resolve_own_queue e s)"
  consider msg where "env_workflow_type e (ce_type k) = Some msg"
    | "env_workflow_type e (ce_type k) = None" "env_taken e (ce_id k)"
    | err where "env_workflow_type e (ce_type k) = None" "\<not> env_taken e (ce_id k)"
        "encode_attributes (env_enc e) (ce_memo k) (ce_sa k) = Inl err"
    | as where "env_workflow_type e (ce_type k) = None" "\<not> env_taken e (ce_id k)"
        "encode_attributes (env_enc e) (ce_memo k) (ce_sa k) = Inr as"
    by (metis option.exhaust sum.exhaust)
  then show ?thesis
  proof cases
    case 4
    let ?op = "EnqueueRun (ce_type k) (ce_id k) (wrap_input (map (env_enc e) (ce_args k)) (Some (child_meta e s k as)))
      (child_queue e ?s1 k) (ce_run_timeout k) as"
    show ?thesis
    proof (cases "env_raises e ?op")
      case None
      let ?s4 = "settle_unless_cancelled (ce_start_future k) (Resolved JNull)
        ((emit ?op ?s1)\<lparr>i_children := dict_set q (k\<lparr>ce_started := True\<rparr>) (i_children (emit ?op ?s1))\<rparr>)"
      have "i_log (fst ?s4) = i_log ?s1 @ [?op]" by (simp add: emit_def)
      moreover have "fst (start_child e q s) = (case snd ?s4 of Inl _ \<Rightarrow> fst ?s4 | Inr _ \<Rightarrow> launch_waiter WChild q (TChildResult (ce_id k)) (fst ?s4))"
        using k 4 None by (simp add: start_child_def Let_def split_def split: sum.split)
      ultimately show ?thesis
        by (cases "snd ?s4") (auto simp: launch_waiter_def emit_def)
    qed (use k 4 in \<open>auto simp: start_child_def Let_def split: prod.split\<close>)
  qed (use k in \<open>simp_all add: start_child_def Let_def\<close>)
qed

text \<open>
  Claim C19. A child learns its family from its own start: its info names the run that started it as parent, the root of that
  run or that run as root, and the run timeout and retry policy it was started with.
\<close>

theorem child_learns_its_family:
  assumes start: "api_start_child call s0 = (s, Inr (q, sf))" and parent: "runtime_info links st h s = Inr p"
    and later: "dict_get (i_children u) q = dict_get (i_children s) q" "i_workflow_id u = i_workflow_id s" "i_meta u = i_meta s"
    and op: "EnqueueRun typ cid payload queue rt attrs \<in> set (drop (length (i_log u)) (i_log (fst (start_child e q u))))"
    and chain: "fst (parse_run cid) \<noteq> inf_workflow_id p"
    and child: "unwrap_input payload = Inr (args, m)" "i_workflow_id c = cid" "i_meta c = m"
  shows "\<exists>i. runtime_info (classify_parent cid (Some (inf_run_id p))) st' h' c = Inr i \<and>
    inf_parent i = Some (i_namespace c, inf_run_id p, inf_workflow_id p) \<and>
    inf_root i = (case inf_root p of Some r \<Rightarrow> Some r | None \<Rightarrow> Some (JStr (inf_run_id p), JStr (inf_workflow_id p))) \<and>
    inf_run_timeout i = cc_run_timeout call \<and> inf_retry_policy i = cc_retry_policy call"
proof -
  obtain k where k: "dict_get (i_children u) q = Some k" "ce_run_timeout k = map_option total_seconds (cc_run_timeout call)"
      "ce_retry_policy k = map_option (jdict_of \<circ> serialize_retry_policy) (cc_retry_policy call)"
    using api_child_exec [OF start] later by auto
  obtain as where as: "payload = wrap_input (map (env_enc e) (ce_args k)) (Some (child_meta e u k as))"
  proof -
    obtain ops where ops: "i_log (fst (start_child e q u)) = i_log u @ ops"
        "\<forall>typ cid payload queue rt attrs. EnqueueRun typ cid payload queue rt attrs \<in> set ops \<longrightarrow>
          cid = ce_id k \<and> (\<exists>as. payload = wrap_input (map (env_enc e) (ce_args k)) (Some (child_meta e u k as)))"
      using start_child_log [OF k(1), of e] by blast
    have "EnqueueRun typ cid payload queue rt attrs \<in> set ops" using op ops(1) by simp
    with ops(2) that show ?thesis by blast
  qed
  have r: "m_root (child_meta e u k as) \<noteq> None" by (simp add: child_meta_def Let_def split: option.split)
  have m: "m = child_meta e u k as"
    using child(1) r by (simp add: as unwrap_wrapped is_empty_meta_def)
  have ids: "inf_run_id p = i_workflow_id u" "inf_workflow_id p = base_id u"
      "root_info (m_root (i_meta u)) = Inr (inf_root p)"
    using parent later by (auto simp: runtime_info_def bind_result_Inr_iff Let_def base_id_def)
  have root: "root_info (m_root m) =
      Inr (case inf_root p of Some r \<Rightarrow> Some r | None \<Rightarrow> Some (JStr (inf_run_id p), JStr (inf_workflow_id p)))"
    using ids(3) by (auto simp: m child_meta_def root_info_def ids jindex_def bind_result_Inr_iff split: option.splits)
  have wire: "JObj (jdict_of (serialize_retry_policy p)) = serialize_retry_policy p" for p
    by (simp add: jdict_of_def serialize_retry_policy_def)
  have "m_retry_policy m = map_option (jdict_of \<circ> serialize_retry_policy) (cc_retry_policy call)"
      "m_run_timeout m = map_option total_seconds (cc_run_timeout call)"
    by (simp_all add: m child_meta_def k)
  moreover have "classify_parent cid (Some (inf_run_id p)) = (None, Some (inf_run_id p))"
    using chain by (auto simp: classify_parent_def ids base_id_def)
  moreover have "fst (parse_run (inf_run_id p)) = inf_workflow_id p" by (simp add: ids base_id_def)
  ultimately show ?thesis
    using child root
    by (cases "cc_retry_policy call")
       (auto simp: runtime_info_def Let_def wire wire_policy_roundtrip option.map_comp o_def option.map_ident)
qed

definition shipping_child :: child_call where
  "shipping_child = \<lparr>cc_workflow = WorkflowName ''Ship'', cc_arg = None, cc_args = [JInt 7], cc_id = Some ''ship-7'',
     cc_task_queue = None, cc_policy = 1, cc_cancellation = 2, cc_memo = None, cc_sa = None,
     cc_run_timeout = Some 60000000, cc_retry_policy = None\<rparr>"

definition shipping_parent :: interp where
  "shipping_parent = fst (api_start_child shipping_child (new_interp ''w--r2'' plain_defn None None None))"

lemma shipping_parent_facts:
  "snd (api_start_child shipping_child (new_interp ''w--r2'' plain_defn None None None)) = Inr (1, 0)"
  "i_workflow_id shipping_parent = ''w--r2''" "m_root (i_meta shipping_parent) = None"
  "m_retry_policy (i_meta shipping_parent) = None" "parse_run ''w--r2'' = (''w'', 2)" "fst (parse_run ''ship-7'') = ''ship-7''"
  by code_simp+

lemma shipping_child_enqueued:
  "map (\<lambda>op. case op of EnqueueRun _ cid payload _ _ _ \<Rightarrow> (cid, map_sum id fst (unwrap_input payload)) | _ \<Rightarrow> ([], Inr []))
     (drop (length (i_log shipping_parent)) (i_log (fst (start_child plain_env 1 shipping_parent)))) =
   [([], Inr []), (''ship-7'', Inr [JInt 7]), ([], Inr [])]"
  by code_simp

theorem child_learns_its_family_witness:
  "\<exists>(i :: info) m. runtime_info (classify_parent ''ship-7'' (Some ''w--r2'')) 0 []
       ((new_interp ''ship-7'' plain_defn None None None)\<lparr>i_meta := m\<rparr>) = Inr i \<and>
     inf_parent i = Some (''default'', ''w--r2'', ''w'') \<and> inf_root i = Some (JStr ''w--r2'', JStr ''w'') \<and>
     inf_run_timeout i = Some 60000000"
proof -
  let ?ops = "drop (length (i_log shipping_parent)) (i_log (fst (start_child plain_env 1 shipping_parent)))"
  have start: "api_start_child shipping_child (new_interp ''w--r2'' plain_defn None None None) = (shipping_parent, Inr (1, 0))"
    using shipping_parent_facts(1) by (simp add: shipping_parent_def prod_eq_iff)
  obtain p where p: "runtime_info (None, None) 0 [] shipping_parent = Inr p"
      "inf_run_id p = ''w--r2''" "inf_workflow_id p = ''w''" "inf_root p = None"
    by (simp add: runtime_info_def Let_def shipping_parent_facts root_info_def)
  have "length ?ops = 3" using arg_cong [OF shipping_child_enqueued, of length] by simp
  then have "?ops ! 1 \<in> set ?ops" by (intro nth_mem) simp
  moreover have "(case ?ops ! 1 of EnqueueRun _ cid payload _ _ _ \<Rightarrow> (cid, map_sum id fst (unwrap_input payload)) | _ \<Rightarrow> ([], Inr [])) =
      (''ship-7'', Inr [JInt 7])"
    using arg_cong [OF shipping_child_enqueued, of "\<lambda>xs. xs ! 1"] \<open>length ?ops = 3\<close> by simp
  ultimately obtain ty payload queue rt attrs ys m where op: "EnqueueRun ty ''ship-7'' payload queue rt attrs \<in> set ?ops"
      and unwrap: "unwrap_input payload = Inr (ys, m)"
    by (auto split: dbos_op.splits) (metis sum.exhaust map_sum.simps(1) old.sum.distinct(1) prod.exhaust)
  let ?c = "(new_interp ''ship-7'' plain_defn None None None)\<lparr>i_meta := m\<rparr>"
  have "fst (parse_run ''ship-7'') \<noteq> inf_workflow_id p" "i_workflow_id ?c = ''ship-7''" "i_meta ?c = m"
    by (simp_all add: shipping_parent_facts p new_interp_def)
  from child_learns_its_family [OF start p(1) refl refl refl op this(1) unwrap this(2, 3),
      where st' = 0 and h' = "[]"]
  obtain i where "runtime_info (classify_parent ''ship-7'' (Some ''w--r2'')) 0 [] ?c = Inr i"
      "inf_parent i = Some (''default'', ''w--r2'', ''w'')" "inf_root i = Some (JStr ''w--r2'', JStr ''w'')"
      "inf_run_timeout i = Some 60000000"
    by (auto simp: p shipping_child_def new_interp_def)
  then show ?thesis by blast
qed

end
