(* ===== verification/Workflow_Wait.thy ===== *)
theory Workflow_Wait
  imports Prelude "HOL-Library.Multiset"
begin

text \<open>
  \<open>wait\<close> and \<open>as_completed\<close> of \<open>dbosify/workflow.py\<close> as steps of the event loop: futures end, their done callbacks are
  queued and run in order, a timer fires, the awaiting task is woken up. Futures are numbers, and what they end with is
  kept as far as the code looks at it. Removing a done callback does not take back one that is already queued.
\<close>

subsection \<open>Futures and timers\<close>

datatype future_end = EndResult | EndException | EndCancelled

datatype timer = NoTimer | Armed | TimerCancelled | Fired

definition cancel_handle :: "timer \<Rightarrow> timer" where
  "cancel_handle t = (if t = Armed then TimerCancelled else t)"

lemma cancel_handle_Fired [simp]: "cancel_handle t = Fired \<longleftrightarrow> t = Fired"
  by (simp add: cancel_handle_def)

subsection \<open>The wait function\<close>

datatype return_when = FirstCompleted | FirstException | AllCompleted

datatype wait_arg = AFuture nat | ACoroutine

datatype wait_event = Completed nat | Wake

text \<open>\<open>wt_callbacks\<close> has an entry per registered done callback; \<open>wt_waiter\<close>: the waiter future is done.\<close>

record wait_state =
  wt_fs :: "nat list"
  wt_when :: return_when
  wt_counter :: int
  wt_callbacks :: "nat list"
  wt_ready :: "wait_event list"
  wt_waiter :: bool
  wt_cancelled :: bool
  wt_timer :: timer
  wt_ends :: "nat \<Rightarrow> future_end option"
  wt_returned :: "(nat list \<times> nat list) result option"

text \<open>A future that is done already has its callback queued at once.\<close>

definition register :: "nat \<Rightarrow> wait_state \<Rightarrow> wait_state" where
  "register f s =
     (if wt_ends s f = None then s\<lparr>wt_callbacks := wt_callbacks s @ [f]\<rparr>
      else s\<lparr>wt_ready := wt_ready s @ [Completed f]\<rparr>)"

text \<open>What \<open>fs\<close> can be: a future or coroutine itself, or items. \<open>rw\<close> is \<open>None\<close> for an unknown \<open>return_when\<close>.\<close>

definition begin_wait ::
  "wait_arg list option \<Rightarrow> bool \<Rightarrow> return_when option \<Rightarrow> (nat \<Rightarrow> future_end option) \<Rightarrow> wait_state result" where
  "begin_wait items timeout rw ends =
     (case items of
        None \<Rightarrow> Inl TypeError
      | Some items \<Rightarrow>
          if items = [] then Inl ValueError
          else case rw of
            None \<Rightarrow> Inl ValueError
          | Some w \<Rightarrow>
              if ACoroutine \<in> set items then Inl TypeError
              else let fs = List.map_filter (\<lambda>a. case a of AFuture f \<Rightarrow> Some f | ACoroutine \<Rightarrow> None) items in
                Inr (fold register fs
                  \<lparr>wt_fs = fs, wt_when = w, wt_counter = int (length fs), wt_callbacks = [], wt_ready = [],
                   wt_waiter = False, wt_cancelled = False, wt_timer = (if timeout then Armed else NoTimer),
                   wt_ends = ends, wt_returned = None\<rparr>))"

definition release_waiter :: "wait_state \<Rightarrow> wait_state" where
  "release_waiter s = (if wt_waiter s then s else s\<lparr>wt_waiter := True, wt_ready := wt_ready s @ [Wake]\<rparr>)"

text \<open>\<open>_on_completion\<close>.\<close>

definition on_completion :: "nat \<Rightarrow> wait_state \<Rightarrow> wait_state" where
  "on_completion f s =
     (let s1 = s\<lparr>wt_counter := wt_counter s - 1\<rparr> in
      if wt_counter s1 \<le> 0 \<or> wt_when s = FirstCompleted \<or>
         wt_when s = FirstException \<and> wt_ends s f = Some EndException
      then release_waiter (s1\<lparr>wt_timer := cancel_handle (wt_timer s)\<rparr>)
      else s1)"

text \<open>The task goes on behind \<open>await waiter\<close>: the finally clause, then the two lists or the cancellation.\<close>

definition resume :: "wait_state \<Rightarrow> wait_state" where
  "resume s =
     s\<lparr>wt_timer := cancel_handle (wt_timer s), wt_callbacks := filter (\<lambda>f. f \<notin> set (wt_fs s)) (wt_callbacks s),
       wt_returned := Some (if wt_cancelled s then Inl CancelledErr
         else Inr (filter (\<lambda>f. wt_ends s f \<noteq> None) (wt_fs s), filter (\<lambda>f. wt_ends s f = None) (wt_fs s)))\<rparr>"

fun run_event :: "wait_event \<Rightarrow> wait_state \<Rightarrow> wait_state" where
  "run_event (Completed f) s = on_completion f s"
| "run_event Wake s = resume s"

definition settle_future :: "nat \<Rightarrow> future_end \<Rightarrow> wait_state \<Rightarrow> wait_state" where
  "settle_future f x s =
     s\<lparr>wt_ends := (wt_ends s)(f := Some x), wt_callbacks := filter (\<lambda>g. g \<noteq> f) (wt_callbacks s),
       wt_ready := wt_ready s @ map Completed (filter (\<lambda>g. g = f) (wt_callbacks s))\<rparr>"

inductive wait_step :: "wait_state \<Rightarrow> wait_state \<Rightarrow> bool" where
  settle: "wt_ends s f = None \<Longrightarrow> wait_step s (settle_future f x s)"
| run: "wt_ready s = ev # evs \<Longrightarrow> wait_step s (run_event ev (s\<lparr>wt_ready := evs\<rparr>))"
| fire: "wt_timer s = Armed \<Longrightarrow> wait_step s (release_waiter (s\<lparr>wt_timer := Fired\<rparr>))"
| cancel: "wt_returned s = None \<Longrightarrow> wait_step s (release_waiter (s\<lparr>wt_cancelled := True\<rparr>))"

inductive waiting :: "wait_state \<Rightarrow> wait_state \<Rightarrow> bool" for s0 where
  start: "waiting s0 s0"
| step: "waiting s0 s \<Longrightarrow> wait_step s t \<Longrightarrow> waiting s0 t"

subsection \<open>When wait returns\<close>

text \<open>What the caller asked for, by the futures alone.\<close>

definition enough :: "return_when \<Rightarrow> nat list \<Rightarrow> (nat \<Rightarrow> future_end option) \<Rightarrow> bool" where
  "enough w fs ends \<longleftrightarrow> (\<forall>f\<in>set fs. ends f \<noteq> None) \<or>
     w = FirstCompleted \<and> (\<exists>f\<in>set fs. ends f \<noteq> None) \<or>
     w = FirstException \<and> (\<exists>f\<in>set fs. ends f = Some EndException)"

fun queued :: "wait_event list \<Rightarrow> nat list" where
  "queued [] = []"
| "queued (Completed f # evs) = f # queued evs"
| "queued (Wake # evs) = queued evs"

lemma queued_append [simp]: "queued (xs @ ys) = queued xs @ queued ys"
  by (induction xs rule: queued.induct) simp_all

lemma queued_completed [simp]: "queued (map Completed fs) = fs"
  by (induction fs) simp_all

text \<open>The callbacks that are registered or queued; who releases the waiter; what a waiter not released says.\<close>

definition callbacks_ok :: "wait_state \<Rightarrow> bool" where
  "callbacks_ok s \<longleftrightarrow> (\<forall>f\<in>set (queued (wt_ready s)). f \<in> set (wt_fs s) \<and> wt_ends s f \<noteq> None) \<and>
     (\<forall>f\<in>set (wt_callbacks s). f \<in> set (wt_fs s) \<and> wt_ends s f = None) \<and>
     (wt_returned s = None \<longrightarrow>
        wt_counter s = int (length (wt_callbacks s)) + int (length (queued (wt_ready s))) \<and>
        (\<forall>f\<in>set (wt_fs s). wt_ends s f = None \<longrightarrow> f \<in> set (wt_callbacks s)))"

definition reason :: "wait_state \<Rightarrow> bool" where
  "reason s \<longleftrightarrow> wt_timer s = Fired \<or> wt_cancelled s \<or> enough (wt_when s) (wt_fs s) (wt_ends s)"

definition waiter_ok :: "wait_state \<Rightarrow> bool" where
  "waiter_ok s \<longleftrightarrow> (wt_timer s = Fired \<or> wt_cancelled s \<or> Wake \<in> set (wt_ready s) \<or> wt_returned s \<noteq> None \<longrightarrow> wt_waiter s) \<and>
     (wt_waiter s \<longrightarrow> reason s \<and> (Wake \<in> set (wt_ready s) \<or> wt_returned s \<noteq> None))"

definition unreleased_ok :: "wait_state \<Rightarrow> bool" where
  "unreleased_ok s \<longleftrightarrow> (\<not> wt_waiter s \<longrightarrow> 0 < wt_counter s \<and>
     (\<forall>f\<in>set (wt_fs s). wt_ends s f = None \<or> f \<in> set (queued (wt_ready s)) \<or> wt_when s = AllCompleted \<or>
        wt_when s = FirstException \<and> wt_ends s f \<noteq> Some EndException))"

definition wait_inv :: "wait_state \<Rightarrow> bool" where
  "wait_inv s \<longleftrightarrow> callbacks_ok s \<and> waiter_ok s \<and> unreleased_ok s"

lemmas wait_parts = callbacks_ok_def waiter_ok_def unreleased_ok_def reason_def

lemma enough_settled:
  assumes "ends f = None" and "enough w fs ends"
  shows "enough w fs (ends(f := Some x))"
proof -
  have keep: "(ends(f := Some x)) g = ends g" if "ends g \<noteq> None" for g using that assms(1) by auto
  show ?thesis
    using assms(2) unfolding enough_def
  proof (elim disjE conjE bexE)
    fix g assume "w = FirstException" "g \<in> set fs" "ends g = Some EndException"
    with keep [of g] have "(ends(f := Some x)) g = Some EndException" by simp
    with \<open>w = FirstException\<close> \<open>g \<in> set fs\<close> show "(\<forall>f'\<in>set fs. (ends(f := Some x)) f' \<noteq> None) \<or>
        w = FirstCompleted \<and> (\<exists>f'\<in>set fs. (ends(f := Some x)) f' \<noteq> None) \<or>
        w = FirstException \<and> (\<exists>f'\<in>set fs. (ends(f := Some x)) f' = Some EndException)"
      by (intro disjI2 conjI bexI [of _ g])
  qed (use keep in auto)
qed

lemma settle_inv:
  assumes inv: "wait_inv s" and pending: "wt_ends s f = None"
  shows "wait_inv (settle_future f x s)"
proof -
  have old: "f \<notin> set (queued (wt_ready s))" using inv pending by (auto simp: wait_inv_def callbacks_ok_def)
  have len: "int (length (filter (\<lambda>g. g \<noteq> f) xs)) + int (length (filter (\<lambda>g. g = f) xs)) = int (length xs)" for xs
    using sum_length_filter_compl [of "\<lambda>g. g = f" xs] by linarith
  have "callbacks_ok (settle_future f x s)"
    using inv pending old len [of "wt_callbacks s"]
    by (auto simp: wait_inv_def callbacks_ok_def settle_future_def)
  moreover have "waiter_ok (settle_future f x s)"
    using inv enough_settled [where ends = "wt_ends s" and f = f and x = x, OF pending] by (auto simp: wait_inv_def waiter_ok_def reason_def settle_future_def)
  moreover have "f \<in> set (wt_callbacks s)" if "f \<in> set (wt_fs s)" "\<not> wt_waiter s"
    using inv that pending unfolding wait_inv_def callbacks_ok_def waiter_ok_def by blast
  then have "unreleased_ok (settle_future f x s)"
    using inv unfolding wait_inv_def unreleased_ok_def by (simp add: settle_future_def)
  ultimately show ?thesis by (simp add: wait_inv_def)
qed

lemma release_inv:
  assumes "callbacks_ok s" and "reason s" and "wt_waiter s \<longrightarrow> Wake \<in> set (wt_ready s) \<or> wt_returned s \<noteq> None"
  shows "wait_inv (release_waiter s)"
  using assms by (auto simp: wait_inv_def release_waiter_def wait_parts)

lemma completion_inv:
  assumes inv: "wait_inv s" and ready: "wt_ready s = Completed f # evs"
  shows "wait_inv (on_completion f (s\<lparr>wt_ready := evs\<rparr>))"
proof -
  define s1 where "s1 = s\<lparr>wt_ready := evs, wt_counter := wt_counter s - 1\<rparr>"
  have f: "f \<in> set (wt_fs s)" "wt_ends s f \<noteq> None" and cb: "callbacks_ok s1"
    using inv ready by (auto simp: wait_inv_def callbacks_ok_def s1_def)
  have waiter: "waiter_ok s1"
    using inv ready by (auto simp: wait_inv_def waiter_ok_def reason_def s1_def)
  show ?thesis
  proof (cases "wt_counter s1 \<le> 0 \<or> wt_when s = FirstCompleted \<or> wt_when s = FirstException \<and> wt_ends s f = Some EndException")
    case True
    let ?u = "s1\<lparr>wt_timer := cancel_handle (wt_timer s)\<rparr>"
    have u: "callbacks_ok ?u" "waiter_ok ?u" using cb waiter by (simp_all add: wait_parts s1_def)
    have "wait_inv (release_waiter ?u)"
    proof (cases "wt_waiter s")
      case True
      with u show ?thesis by (simp add: wait_inv_def release_waiter_def unreleased_ok_def s1_def)
    next
      case waits: False
      then have "wt_returned s = None" using inv by (auto simp: wait_inv_def waiter_ok_def)
      then have count: "wt_counter s1 = int (length (wt_callbacks s)) + int (length (queued evs))"
          "\<forall>g\<in>set (wt_fs s). wt_ends s g = None \<longrightarrow> g \<in> set (wt_callbacks s)"
        using cb by (simp_all add: callbacks_ok_def s1_def)
      have "wt_counter s1 \<le> 0 \<Longrightarrow> length (wt_callbacks s) = 0" unfolding count(1) by linarith
      with count(2) have "wt_counter s1 \<le> 0 \<Longrightarrow> \<forall>g\<in>set (wt_fs s). wt_ends s g \<noteq> None" by auto
      with True f have "enough (wt_when s) (wt_fs s) (wt_ends s)" by (auto simp: enough_def)
      then show ?thesis using u(1) waits by (intro release_inv) (simp_all add: reason_def s1_def)
    qed
    with True show ?thesis by (simp add: on_completion_def s1_def Let_def)
  next
    case False
    have "unreleased_ok s1"
      using inv ready False by (cases "wt_when s") (auto simp: wait_inv_def unreleased_ok_def s1_def)
    with False cb waiter show ?thesis by (auto simp: wait_inv_def on_completion_def s1_def Let_def)
  qed
qed

lemma resume_inv:
  assumes inv: "wait_inv s" and ready: "wt_ready s = Wake # evs"
  shows "wait_inv (resume (s\<lparr>wt_ready := evs\<rparr>))"
  using assms by (auto simp: wait_inv_def wait_parts resume_def)

lemma callbacks_frame:
  "callbacks_ok (s\<lparr>wt_timer := t\<rparr>) = callbacks_ok s" "callbacks_ok (s\<lparr>wt_cancelled := c\<rparr>) = callbacks_ok s"
  by (simp_all add: callbacks_ok_def)

lemma wait_step_inv: "wait_step s t \<Longrightarrow> wait_inv s \<Longrightarrow> wait_inv t"
proof (induction rule: wait_step.induct)
  case (run s ev evs)
  then show ?case by (cases ev) (simp_all add: completion_inv resume_inv)
next
  case (fire s)
  then have "callbacks_ok s" "wt_waiter s \<longrightarrow> Wake \<in> set (wt_ready s) \<or> wt_returned s \<noteq> None"
    unfolding wait_inv_def waiter_ok_def by blast+
  then show ?case by (intro release_inv) (simp_all add: callbacks_frame reason_def)
next
  case (cancel s)
  then have "callbacks_ok s" "wt_waiter s \<longrightarrow> Wake \<in> set (wt_ready s) \<or> wt_returned s \<noteq> None"
    unfolding wait_inv_def waiter_ok_def by blast+
  then show ?case by (intro release_inv) (simp_all add: callbacks_frame reason_def)
qed (simp add: settle_inv)

lemma register_all:
  "fold register fs s = s\<lparr>wt_callbacks := wt_callbacks s @ filter (\<lambda>f. wt_ends s f = None) fs,
     wt_ready := wt_ready s @ map Completed (filter (\<lambda>f. wt_ends s f \<noteq> None) fs)\<rparr>"
  by (induction fs arbitrary: s) (simp_all add: register_def)

lemma begin_inv:
  assumes "begin_wait items timeout rw ends = Inr s"
  shows "wait_inv s" and "wt_returned s = None"
proof -
  obtain args w where args: "args \<noteq> []" "ACoroutine \<notin> set args"
    and s: "s = fold register (List.map_filter (\<lambda>a. case a of AFuture f \<Rightarrow> Some f | ACoroutine \<Rightarrow> None) args)
      \<lparr>wt_fs = List.map_filter (\<lambda>a. case a of AFuture f \<Rightarrow> Some f | ACoroutine \<Rightarrow> None) args, wt_when = w,
       wt_counter = int (length (List.map_filter (\<lambda>a. case a of AFuture f \<Rightarrow> Some f | ACoroutine \<Rightarrow> None) args)),
       wt_callbacks = [], wt_ready = [], wt_waiter = False, wt_cancelled = False,
       wt_timer = (if timeout then Armed else NoTimer), wt_ends = ends, wt_returned = None\<rparr>"
    using assms by (auto simp: begin_wait_def Let_def split: option.splits if_splits)
  define fs where "fs = List.map_filter (\<lambda>a. case a of AFuture f \<Rightarrow> Some f | ACoroutine \<Rightarrow> None) args"
  have "fs \<noteq> []"
    using args by (cases args) (auto simp: fs_def List.map_filter_simps split: wait_arg.splits)
  moreover have "length (filter (\<lambda>f. ends f = None) fs) + length (filter (\<lambda>f. \<exists>y. ends f = Some y) fs) = length fs"
    using sum_length_filter_compl [of "\<lambda>f. ends f = None" fs] by simp
  ultimately show "wait_inv s" "wt_returned s = None"
    unfolding s fs_def [symmetric]
    by (auto simp: register_all wait_inv_def wait_parts)
qed

lemma waiting_inv: "waiting s0 s \<Longrightarrow> wait_inv s0 \<Longrightarrow> wait_inv s"
  by (induction rule: waiting.induct) (simp_all add: wait_step_inv)

text \<open>The lists \<open>wait\<close> returns are the futures that were done when it went on, and the others, in the order they were given.\<close>

definition seen :: "(nat \<Rightarrow> bool) \<Rightarrow> (nat \<Rightarrow> future_end option) \<Rightarrow> nat \<Rightarrow> future_end option" where
  "seen P ends f = (if P f then ends f else None)"

lemma seen_self [simp]: "seen (\<lambda>f. \<exists>x. ends f = Some x) ends = ends"
  by (auto simp: seen_def)

lemma seen_update [simp]: "\<not> P f \<Longrightarrow> seen P (ends(f := x)) = seen P ends"
  by (auto simp: seen_def)

definition answer_ok :: "wait_state \<Rightarrow> bool" where
  "answer_ok s \<longleftrightarrow> (\<forall>d p. wt_returned s = Some (Inr (d, p)) \<longrightarrow>
     (\<exists>done_then. d = filter done_then (wt_fs s) \<and> p = filter (Not \<circ> done_then) (wt_fs s) \<and>
        (\<forall>f. done_then f \<longrightarrow> wt_ends s f \<noteq> None) \<and>
        (wt_timer s = Fired \<or> enough (wt_when s) (wt_fs s) (seen done_then (wt_ends s)))))"

lemma static_parts:
  "wt_fs (release_waiter s) = wt_fs s" "wt_when (release_waiter s) = wt_when s" "wt_ends (release_waiter s) = wt_ends s"
  "wt_returned (release_waiter s) = wt_returned s" "wt_timer (release_waiter s) = wt_timer s"
  "wt_fs (on_completion f s) = wt_fs s" "wt_when (on_completion f s) = wt_when s" "wt_ends (on_completion f s) = wt_ends s"
  "wt_returned (on_completion f s) = wt_returned s" "wt_timer (on_completion f s) = Fired \<longleftrightarrow> wt_timer s = Fired"
  by (simp_all add: release_waiter_def on_completion_def Let_def)

lemma answer_settled:
  assumes "answer_ok s" and "wt_ends s f = None"
  shows "answer_ok (settle_future f x s)"
  unfolding answer_ok_def
proof (intro allI impI)
  fix d p assume "wt_returned (settle_future f x s) = Some (Inr (d, p))"
  then obtain P where P: "d = filter P (wt_fs s)" "p = filter (Not \<circ> P) (wt_fs s)" "\<forall>g. P g \<longrightarrow> wt_ends s g \<noteq> None"
      "wt_timer s = Fired \<or> enough (wt_when s) (wt_fs s) (seen P (wt_ends s))"
    using assms(1) by (auto simp: answer_ok_def settle_future_def)
  moreover have "\<not> P f" using P(3) assms(2) by auto
  ultimately show "\<exists>P. d = filter P (wt_fs (settle_future f x s)) \<and> p = filter (Not \<circ> P) (wt_fs (settle_future f x s)) \<and>
      (\<forall>g. P g \<longrightarrow> wt_ends (settle_future f x s) g \<noteq> None) \<and>
      (wt_timer (settle_future f x s) = Fired \<or>
       enough (wt_when (settle_future f x s)) (wt_fs (settle_future f x s)) (seen P (wt_ends (settle_future f x s))))"
    by (intro exI [of _ P]) (auto simp: settle_future_def)
qed

lemma answer_static:
  assumes "wt_fs t = wt_fs s" "wt_when t = wt_when s" "wt_ends t = wt_ends s" "wt_returned t = wt_returned s"
    and "wt_timer s = Fired \<longrightarrow> wt_timer t = Fired"
  shows "answer_ok s \<Longrightarrow> answer_ok t"
  using assms unfolding answer_ok_def by metis

lemma answer_resumed:
  assumes "wait_inv s" and "wt_ready s = Wake # evs"
  shows "answer_ok (resume (s\<lparr>wt_ready := evs\<rparr>))"
proof -
  have "wt_cancelled s \<or> wt_timer s = Fired \<or> enough (wt_when s) (wt_fs s) (wt_ends s)"
    using assms by (auto simp: wait_inv_def waiter_ok_def reason_def)
  then show ?thesis
    by (auto simp: answer_ok_def resume_def comp_def intro!: exI [of _ "\<lambda>f. wt_ends s f \<noteq> None"])
qed

lemma answer_step: "wait_step s t \<Longrightarrow> wait_inv s \<Longrightarrow> answer_ok s \<Longrightarrow> answer_ok t"
proof (induction rule: wait_step.induct)
  case (run s ev evs)
  then show ?case
    by (cases ev) (auto simp: answer_resumed static_parts elim!: answer_static [rotated -1])
qed (auto simp: answer_settled static_parts elim!: answer_static [rotated -1])

lemma waiting_answer: "waiting s0 s \<Longrightarrow> wait_inv s0 \<Longrightarrow> answer_ok s0 \<Longrightarrow> answer_ok s"
  by (induction rule: waiting.induct) (auto intro: answer_step dest: waiting_inv)


text \<open>Waiting for the first of two futures, the second of which ends.\<close>

definition two_futures :: wait_state where
  "two_futures = fold register [1, 2] \<lparr>wt_fs = [1, 2], wt_when = FirstCompleted, wt_counter = 2, wt_callbacks = [], wt_ready = [],
     wt_waiter = False, wt_cancelled = False, wt_timer = NoTimer, wt_ends = (\<lambda>_. None), wt_returned = None\<rparr>"

definition second_ended :: wait_state where
  "second_ended = run_event Wake ((run_event (Completed 2) ((settle_future 2 EndResult two_futures)\<lparr>wt_ready := []\<rparr>))\<lparr>wt_ready := []\<rparr>)"


subsection \<open>The as_completed function\<close>

text \<open>
  \<open>ac_queue\<close> is the queue of futures and dummies; \<open>ac_taken\<close> what the coroutines handed out have taken from it, one item
  each: the future whose result the coroutine returns or raises, or \<open>None\<close> for a \<open>TimeoutError\<close>.
\<close>

record ac_state =
  ac_fs :: "nat list"
  ac_todo :: "nat list"
  ac_callbacks :: "nat list"
  ac_ready :: "nat list"
  ac_ends :: "nat \<Rightarrow> future_end option"
  ac_timer :: timer
  ac_queue :: "nat option list"
  ac_taken :: "nat option list"

definition ac_register :: "nat \<Rightarrow> ac_state \<Rightarrow> ac_state" where
  "ac_register f s =
     (if ac_ends s f = None then s\<lparr>ac_callbacks := ac_callbacks s @ [f]\<rparr> else s\<lparr>ac_ready := ac_ready s @ [f]\<rparr>)"

definition begin_as_completed :: "nat list \<Rightarrow> bool \<Rightarrow> (nat \<Rightarrow> future_end option) \<Rightarrow> ac_state" where
  "begin_as_completed fs timeout ends =
     fold ac_register fs
       \<lparr>ac_fs = fs, ac_todo = fs, ac_callbacks = [], ac_ready = [], ac_ends = ends,
        ac_timer = (if fs \<noteq> [] \<and> timeout then Armed else NoTimer), ac_queue = [], ac_taken = []\<rparr>"

text \<open>\<open>_on_completion\<close>: \<open>todo.remove\<close> raises when the future is not there.\<close>

definition ac_completion :: "nat \<Rightarrow> ac_state \<Rightarrow> ac_state result" where
  "ac_completion f s =
     (if ac_todo s = [] then Inr s
      else if f \<notin> set (ac_todo s) then Inl ValueError
      else let todo = remove1 f (ac_todo s) in
        Inr (s\<lparr>ac_todo := todo, ac_queue := ac_queue s @ [Some f],
          ac_timer := (if todo = [] then cancel_handle (ac_timer s) else ac_timer s)\<rparr>))"

definition ac_timeout :: "ac_state \<Rightarrow> ac_state" where
  "ac_timeout s =
     s\<lparr>ac_timer := Fired, ac_callbacks := filter (\<lambda>f. f \<notin> set (ac_todo s)) (ac_callbacks s),
       ac_queue := ac_queue s @ replicate (length (ac_todo s)) None, ac_todo := []\<rparr>"

definition ac_settle :: "nat \<Rightarrow> future_end \<Rightarrow> ac_state \<Rightarrow> ac_state" where
  "ac_settle f x s =
     s\<lparr>ac_ends := (ac_ends s)(f := Some x), ac_callbacks := filter (\<lambda>g. g \<noteq> f) (ac_callbacks s),
       ac_ready := ac_ready s @ filter (\<lambda>g. g = f) (ac_callbacks s)\<rparr>"

text \<open>One step; \<open>ac_take\<close> is a coroutine that has not had an item yet and finds one in the queue.\<close>

inductive ac_step :: "ac_state \<Rightarrow> ac_state result \<Rightarrow> bool" where
  ac_settle: "ac_ends s f = None \<Longrightarrow> ac_step s (Inr (ac_settle f x s))"
| ac_run: "ac_ready s = f # fs \<Longrightarrow> ac_step s (ac_completion f (s\<lparr>ac_ready := fs\<rparr>))"
| ac_fire: "ac_timer s = Armed \<Longrightarrow> ac_step s (Inr (ac_timeout s))"
| ac_take: "ac_queue s = x # xs \<Longrightarrow> length (ac_taken s) < length (ac_fs s) \<Longrightarrow>
    ac_step s (Inr (s\<lparr>ac_queue := xs, ac_taken := ac_taken s @ [x]\<rparr>))"

inductive iterating :: "ac_state \<Rightarrow> ac_state \<Rightarrow> bool" for s0 where
  ac_start: "iterating s0 s0"
| ac_next: "iterating s0 s \<Longrightarrow> ac_step s (Inr t) \<Longrightarrow> iterating s0 t"

text \<open>The items handed out or queued, and the futures among them.\<close>

definition items :: "ac_state \<Rightarrow> nat option list" where
  "items s = ac_taken s @ ac_queue s"

definition completed :: "nat option list \<Rightarrow> nat list" where
  "completed xs = List.map_filter id xs"

lemma completed_simps [simp]:
  "completed [] = []" "completed (xs @ ys) = completed xs @ completed ys" "completed (Some f # xs) = f # completed xs"
  "completed (None # xs) = completed xs" "completed (replicate k None) = []" "completed (map Some fs) = fs"
proof -
  show "completed (replicate k None) = []" by (induction k) (simp_all add: completed_def List.map_filter_simps)
  show "completed (map Some fs) = fs" by (induction fs) (simp_all add: completed_def List.map_filter_simps)
qed (simp_all add: completed_def List.map_filter_def)

text \<open>
  Before the timeout every future is either done and in the queue, or still to do with its callback registered or queued;
  the timeout puts a dummy for each future still to do.
\<close>

definition shape :: "bool \<Rightarrow> nat option list \<Rightarrow> bool" where
  "shape fired xs \<longleftrightarrow> (\<exists>k. xs = map Some (completed xs) @ replicate k None \<and> (\<not> fired \<longrightarrow> k = 0))"

definition ac_inv :: "ac_state \<Rightarrow> bool" where
  "ac_inv s \<longleftrightarrow>
     shape (ac_timer s = Fired) (items s) \<and>
     length (items s) + length (ac_todo s) = length (ac_fs s) \<and>
     mset (completed (items s)) + mset (ac_todo s) \<subseteq># mset (ac_fs s) \<and>
     (\<forall>f\<in>set (completed (items s)) \<union> set (ac_ready s). ac_ends s f \<noteq> None) \<and>
     (\<forall>f\<in>set (ac_callbacks s). ac_ends s f = None) \<and>
     (if ac_timer s = Fired then ac_todo s = []
      else mset (ac_todo s) = mset (ac_callbacks s) + mset (ac_ready s) \<and>
        mset (completed (items s)) + mset (ac_todo s) = mset (ac_fs s))"

lemma ac_register_all:
  "fold ac_register fs s = s\<lparr>ac_callbacks := ac_callbacks s @ filter (\<lambda>f. ac_ends s f = None) fs,
     ac_ready := ac_ready s @ filter (\<lambda>f. ac_ends s f \<noteq> None) fs\<rparr>"
  by (induction fs arbitrary: s) (simp_all add: ac_register_def)

lemma mset_partition: "mset (filter P xs) + mset (filter (\<lambda>x. \<not> P x) xs) = mset xs"
  by (induction xs) simp_all

lemma ac_begin_inv: "ac_inv (begin_as_completed fs timeout ends)"
  using mset_partition [of "\<lambda>f. ends f = None" fs]
  by (auto simp: ac_inv_def begin_as_completed_def ac_register_all items_def shape_def)

lemma ac_invD:
  assumes "ac_inv s"
  shows "shape (ac_timer s = Fired) (items s)" "length (items s) + length (ac_todo s) = length (ac_fs s)"
    "mset (completed (items s)) + mset (ac_todo s) \<subseteq># mset (ac_fs s)"
    "\<And>f. f \<in> set (completed (items s)) \<Longrightarrow> ac_ends s f \<noteq> None" "\<And>f. f \<in> set (ac_ready s) \<Longrightarrow> ac_ends s f \<noteq> None"
    "\<And>f. f \<in> set (ac_callbacks s) \<Longrightarrow> ac_ends s f = None" "ac_timer s = Fired \<Longrightarrow> ac_todo s = []"
    "ac_timer s \<noteq> Fired \<Longrightarrow> mset (ac_todo s) = mset (ac_callbacks s) + mset (ac_ready s)"
    "ac_timer s \<noteq> Fired \<Longrightarrow> mset (completed (items s)) + mset (ac_todo s) = mset (ac_fs s)"
  using assms by (auto simp: ac_inv_def)

lemma items_frame [simp]:
  "items (s\<lparr>ac_ready := r\<rparr>) = items s" "items (s\<lparr>ac_ends := e\<rparr>) = items s" "items (s\<lparr>ac_callbacks := c\<rparr>) = items s"
  "items (s\<lparr>ac_todo := t\<rparr>) = items s" "items (s\<lparr>ac_timer := h\<rparr>) = items s"
  "items (s\<lparr>ac_queue := ac_queue s @ xs\<rparr>) = items s @ xs"
  by (simp_all add: items_def)

lemma ac_settle_inv:
  assumes inv: "ac_inv s" and open': "ac_ends s f = None"
  shows "ac_inv (ac_settle f x s)"
proof -
  have old: "f \<notin> set (completed (items s))" "f \<notin> set (ac_ready s)"
    using ac_invD(4,5) [OF inv, of f] open' by auto
  have part: "mset (filter (\<lambda>g. g \<noteq> f) (ac_callbacks s)) + mset (filter (\<lambda>g. g = f) (ac_callbacks s)) = mset (ac_callbacks s)"
    using mset_partition [of "\<lambda>g. g \<noteq> f" "ac_callbacks s"] by simp
  show ?thesis
    using ac_invD [OF inv] old part unfolding ac_inv_def
    by (auto simp: ac_settle_def union_assoc union_commute)
qed

lemma shape_snoc: "shape False xs \<Longrightarrow> shape False (xs @ [Some f])"
  by (auto simp: shape_def)

lemma ac_completion_inv:
  assumes inv: "ac_inv s" and ready: "ac_ready s = f # fs"
  shows "\<exists>t. ac_completion f (s\<lparr>ac_ready := fs\<rparr>) = Inr t \<and> ac_inv t \<and> ac_fs t = ac_fs s"
proof (cases "ac_timer s = Fired")
  case True
  have "ac_inv (s\<lparr>ac_ready := fs\<rparr>)"
    using ac_invD [OF inv] ready True unfolding ac_inv_def by auto
  then show ?thesis using ac_invD(7) [OF inv True] by (simp add: ac_completion_def)
next
  case False
  have todo: "mset (ac_todo s) = mset (ac_callbacks s) + mset (f # fs)"
    using ac_invD(8) [OF inv False] ready by simp
  then have f: "f \<in> set (ac_todo s)" by (metis list.set_intros(1) set_mset_mset union_iff)
  define rem where "rem = remove1 f (ac_todo s)"
  have rest: "mset (ac_todo s) = add_mset f (mset (rem))"
    "length (ac_todo s) = Suc (length (rem))"
    using f length_pos_if_in_set [OF f] by (simp add: rem_def, simp add: rem_def length_remove1)
  define t where "t = s\<lparr>ac_ready := fs, ac_todo := rem, ac_queue := ac_queue s @ [Some f],
    ac_timer := (if rem = [] then cancel_handle (ac_timer s) else ac_timer s)\<rparr>"
  have items: "items t = items s @ [Some f]" by (simp add: t_def items_def)
  have t: "ac_timer t \<noteq> Fired" "ac_ends t = ac_ends s" "ac_fs t = ac_fs s" "ac_ready t = fs" "ac_callbacks t = ac_callbacks s"
      "ac_todo t = rem"
    using False by (simp_all add: t_def)
  have "mset (rem) = mset (ac_callbacks s) + mset fs" using todo rest(1) by simp
  moreover have "mset (completed (items s)) + mset (ac_todo s) = mset (ac_fs s)" by (rule ac_invD(9) [OF inv False])
  then have "add_mset f (mset (completed (items s)) + mset (rem)) = mset (ac_fs s)" using rest(1) by simp
  moreover have "shape False (items s @ [Some f])" using ac_invD(1) [OF inv] False shape_snoc by simp
  moreover have "\<forall>g\<in>insert f (set (completed (items s)) \<union> set fs). ac_ends s g \<noteq> None"
    using ac_invD(4,5) [OF inv] ready by auto
  moreover have "\<forall>g\<in>set (ac_callbacks s). ac_ends s g = None" using ac_invD(6) [OF inv] by blast
  moreover have "length (items s) + Suc (length (rem)) = length (ac_fs s)"
    using ac_invD(2) [OF inv] rest(2) by simp
  ultimately have "ac_inv t"
    using t(1) unfolding ac_inv_def items t(2-6) by simp
  moreover have "ac_completion f (s\<lparr>ac_ready := fs\<rparr>) = Inr t"
    using f by (cases "ac_todo s") (auto simp: ac_completion_def Let_def t_def rem_def)
  ultimately show ?thesis by (auto simp: t_def)
qed

lemma ac_timeout_inv:
  assumes inv: "ac_inv s" and armed: "ac_timer s = Armed"
  shows "ac_inv (ac_timeout s)"
proof -
  have "shape True (items s @ replicate k None)" for k
    using ac_invD(1) [OF inv] armed by (auto simp: shape_def)
  moreover have "set (ac_callbacks s) \<subseteq> set (ac_todo s)"
    using arg_cong [OF ac_invD(8) [OF inv], of set_mset] armed by auto
  moreover have "mset (completed (items s)) \<subseteq># mset (ac_fs s)"
    using ac_invD(3) [OF inv] by (rule subset_mset.dual_order.trans) simp
  moreover have "items (ac_timeout s) = items s @ replicate (length (ac_todo s)) None" by (simp add: ac_timeout_def items_def)
  ultimately show ?thesis
    using ac_invD(2,4,5) [OF inv] unfolding ac_inv_def by (auto simp: ac_timeout_def)
qed

lemma ac_take_inv:
  assumes "ac_inv s" and "ac_queue s = x # xs"
  shows "ac_inv (s\<lparr>ac_queue := xs, ac_taken := ac_taken s @ [x]\<rparr>)"
proof -
  have "items (s\<lparr>ac_queue := xs, ac_taken := ac_taken s @ [x]\<rparr>) = items s" using assms(2) by (simp add: items_def)
  then show ?thesis using assms(1) by (auto simp: ac_inv_def)
qed

lemma ac_frame: "ac_fs (ac_settle f x s) = ac_fs s" "ac_fs (ac_timeout s) = ac_fs s"
  by (simp_all add: ac_settle_def ac_timeout_def)

lemma ac_step_inv: "ac_step s r \<Longrightarrow> ac_inv s \<Longrightarrow> \<exists>t. r = Inr t \<and> ac_inv t \<and> ac_fs t = ac_fs s"
proof (induction rule: ac_step.induct)
  case (ac_run s f fs)
  with ac_completion_inv show ?case by blast
qed (simp_all add: ac_settle_inv ac_timeout_inv ac_take_inv ac_frame)

lemma iterating_inv: "iterating s0 s \<Longrightarrow> ac_inv s0 \<Longrightarrow> ac_inv s \<and> ac_fs s = ac_fs s0"
  by (induction rule: iterating.induct) (auto dest: ac_step_inv)

text \<open>
  Claim C18. Iterating over \<open>as_completed\<close> never breaks on its own bookkeeping; whatever the interleaving, the items handed to
  its coroutines are the futures that ended, each as often as it was given, followed by timeouts only after the timer fired; and
  once the loop is idle, no timeout means exactly the ended futures are handed out or queued, and a timeout means every coroutine has its item.
\<close>

theorem as_completed_hands_out:
  assumes "iterating (begin_as_completed fs timeout ends) s"
  shows "(\<forall>r. ac_step s r \<longrightarrow> (\<exists>t. r = Inr t)) \<and>
    (\<exists>cs k. items s = map Some cs @ replicate k None \<and> mset cs \<subseteq># mset fs \<and> (\<forall>f\<in>set cs. ac_ends s f \<noteq> None) \<and>
       (if ac_timer s = Fired then length cs + k = length fs
        else k = 0 \<and> (ac_ready s = [] \<longrightarrow> mset cs = mset (filter (\<lambda>f. ac_ends s f \<noteq> None) fs))))"
proof -
  have fs: "ac_fs (begin_as_completed fs timeout ends) = fs" by (simp add: begin_as_completed_def ac_register_all)
  have inv: "ac_inv s" "ac_fs s = fs" using iterating_inv [OF assms ac_begin_inv] fs by simp_all
  note parts = ac_invD [OF inv(1), unfolded inv(2)]
  obtain k where k: "items s = map Some (completed (items s)) @ replicate k None" "ac_timer s \<noteq> Fired \<Longrightarrow> k = 0"
    using parts(1) by (auto simp: shape_def)
  have len: "length (items s) = length (completed (items s)) + k" by (subst k(1)) simp
  have sub: "mset (completed (items s)) \<subseteq># mset fs"
    using parts(3) by (rule subset_mset.dual_order.trans) simp
  have idle: "mset (completed (items s)) = mset (filter (\<lambda>f. ac_ends s f \<noteq> None) fs)"
    if "ac_timer s \<noteq> Fired" "ac_ready s = []"
  proof -
    have "mset fs = mset (completed (items s)) + mset (ac_callbacks s)" using parts(8,9) that by simp
    moreover have "filter_mset (\<lambda>f. ac_ends s f \<noteq> None) (mset (completed (items s))) = mset (completed (items s))"
      using parts(4) by (simp add: filter_mset_eq_conv)
    moreover have "filter (\<lambda>f. ac_ends s f \<noteq> None) (ac_callbacks s) = []"
      using parts(6) by (simp add: filter_empty_conv)
    ultimately show ?thesis by (metis filter_union_mset mset_filter add.right_neutral mset.simps(1))
  qed
  show ?thesis
    using ac_step_inv [OF _ inv(1)] k len sub idle parts(2,4,7)
    by (intro conjI exI [of _ "completed (items s)"] exI [of _ k]) auto
qed

text \<open>Two futures with a timeout, which fires when one of them has ended.\<close>

definition one_of_two :: ac_state where
  "one_of_two = ac_timeout ((ac_settle 2 EndResult (begin_as_completed [3, 2] True (\<lambda>_. None)))\<lparr>ac_ready := [],
     ac_todo := [3], ac_queue := [Some 2]\<rparr>)"

theorem as_completed_hands_out_witness:
  "iterating (begin_as_completed [3, 2] True (\<lambda>_. None)) one_of_two \<and> items one_of_two = [Some 2, None] \<and>
     (\<exists>cs k. items one_of_two = map Some cs @ replicate k None \<and> length cs + k = length [3, 2 :: nat])"
proof -
  let ?s0 = "begin_as_completed [3, 2] True (\<lambda>_. None)"
  let ?a = "ac_settle 2 EndResult ?s0"
  let ?b = "?a\<lparr>ac_ready := [], ac_todo := [3], ac_queue := [Some 2]\<rparr>"
  have a: "ac_ready ?a = [2]" "ac_todo ?a = [3, 2]" "ac_queue ?a = []" "ac_timer ?a = Armed"
    by (simp_all add: begin_as_completed_def ac_register_def ac_settle_def)
  have "ac_step ?s0 (Inr ?a)" by (rule ac_step.ac_settle) (simp add: begin_as_completed_def ac_register_def)
  moreover have "ac_step ?a (ac_completion 2 (?a\<lparr>ac_ready := []\<rparr>))" by (rule ac_step.ac_run) (rule a(1))
  moreover have "ac_completion 2 (?a\<lparr>ac_ready := []\<rparr>) = Inr ?b" by (simp add: ac_completion_def a Let_def)
  moreover have "ac_step ?b (Inr one_of_two)"
    unfolding one_of_two_def by (rule ac_step.ac_fire) (simp add: a)
  ultimately have run: "iterating ?s0 one_of_two" by (metis ac_next ac_start)
  have items: "items one_of_two = [Some 2, None]" "ac_timer one_of_two = Fired"
    by (simp_all add: one_of_two_def ac_timeout_def items_def begin_as_completed_def ac_register_def ac_settle_def)
  with as_completed_hands_out [OF run] run show ?thesis by auto
qed

end
