(* ===== verification/Client_Api.thy ===== *)
theory Client_Api
  imports Client_Replies
begin

text \<open>
  The calls of \<open>dbosify/client.py\<close> in front of the handles: references to workflows, signals, queries and updates, the
  arguments of \<open>Client.start_workflow\<close> and \<open>WithStartWorkflowOperation\<close> with \<open>start_update_with_start_workflow\<close>. The chain of
  outbound interceptors is its root (\<open>_ClientOutbound\<close>), which hands every call to the implementation modelled in
  \<open>Client_Start\<close> and \<open>Client_Handle\<close>; options that are ignored and result types are not modelled.
\<close>

subsection \<open>References and arguments\<close>

text \<open>A reference by name, by a handler with its marker (\<open>None\<close> for a dynamic one), or by something else.\<close>

datatype handler_ref = ByName string | ByMethod "string option" | NoHandler

definition handler_name :: "handler_ref \<Rightarrow> string result" where
  "handler_name r = (case r of ByName n \<Rightarrow> Inr n | ByMethod (Some n) \<Rightarrow> Inr n | _ \<Rightarrow> Inl TypeError)"

datatype type_ref = TypeName string | DecoratedClass string | UndecoratedClass | RunOf string | OtherRef

definition workflow_type_name :: "type_ref \<Rightarrow> string result" where
  "workflow_type_name r =
     (case r of TypeName n \<Rightarrow> Inr n | DecoratedClass n \<Rightarrow> Inr n | RunOf n \<Rightarrow> Inr n | _ \<Rightarrow> Inl TypeError)"

definition client_args :: "json option \<Rightarrow> json list \<Rightarrow> json list result" where
  "client_args arg args =
     (case arg of Some a \<Rightarrow> if args \<noteq> [] then Inl ValueError else Inr [a] | None \<Rightarrow> Inr args)"

text \<open>A start as it is asked for: the reference and the arguments, and the other options in \<open>sc_options\<close>.\<close>

record start_call =
  sc_workflow :: type_ref
  sc_arg :: "json option"
  sc_args :: "json list"
  sc_options :: start_input

definition start_input_of :: "start_call \<Rightarrow> start_input result" where
  "start_input_of c =
     bind_result (workflow_type_name (sc_workflow c)) (\<lambda>name.
     bind_result (client_args (sc_arg c) (sc_args c)) (\<lambda>args.
       Inr ((sc_options c)\<lparr>si_type := name, si_args := args, si_headers := []\<rparr>)))"

definition client_start_workflow :: "'w dbos \<Rightarrow> start_call \<Rightarrow> ('w, handle) act" where
  "client_start_workflow c call = act_bind (act_lift (lift_py (start_input_of call))) (start_in c)"

text \<open>The verbs of a handle, with their references.\<close>

definition client_signal :: "'w dbos \<Rightarrow> handle \<Rightarrow> handler_ref \<Rightarrow> json option \<Rightarrow> json list \<Rightarrow> ('w, unit) act" where
  "client_signal c h sig arg args =
     act_bind (act_lift (lift_py (handler_name sig))) (\<lambda>name.
     act_bind (act_lift (lift_py (client_args arg args))) (\<lambda>as. signal_handle c h name as []))"

subsection \<open>Update-with-start\<close>

record with_start =
  wo_call :: start_call
  wo_handle :: "handle option"
  wo_exception :: "client_error option"
  wo_used :: bool

text \<open>\<open>WithStartWorkflowOperation.__init__\<close>: the arguments are resolved at once, the workflow when it starts.\<close>

definition new_with_start :: "start_call \<Rightarrow> with_start result" where
  "new_with_start call =
     (if si_conflict (sc_options call) = CONFLICT_UNSPECIFIED then Inl ValueError
      else bind_result (client_args (sc_arg call) (sc_args call)) (\<lambda>args.
        Inr \<lparr>wo_call = call\<lparr>sc_arg := None, sc_args := args\<rparr>, wo_handle = None, wo_exception = None, wo_used = False\<rparr>))"

definition workflow_handle :: "with_start \<Rightarrow> handle client_result" where
  "workflow_handle op =
     (case wo_handle op of
        Some h \<Rightarrow> Inr h
      | None \<Rightarrow> (case wo_exception op of Some err \<Rightarrow> Inl err | None \<Rightarrow> Inl (PyErr RuntimeError)))"

text \<open>What is asked of the update; \<open>uc_id\<close> is the id given or drawn.\<close>

record update_call =
  uc_update :: handler_ref
  uc_arg :: "json option"
  uc_args :: "json list"
  uc_stage :: update_stage
  uc_id :: string
  uc_timeout :: "timedelta option"

definition update_request :: "update_call \<Rightarrow> (string \<times> json list) result" where
  "update_request u =
     bind_result (handler_name (uc_update u)) (\<lambda>name.
     bind_result (client_args (uc_arg u) (uc_args u)) (\<lambda>args.
       if uc_stage u = ADMITTED then Inl ValueError else Inr (name, args)))"

text \<open>The wait for the stage asked for, once the start has delivered the update.\<close>

definition await_update :: "'w dbos \<Rightarrow> update_call \<Rightarrow> string \<Rightarrow> handle \<Rightarrow> ('w, update_handle) act" where
  "await_update c u workflow_id h =
     act_bind (target_of c (h_id h) (h_run_id h)) (\<lambda>target.
     act_bind (if uc_stage u = ACCEPTED then await_accepted c workflow_id target (uc_id u) (reply_timeout (uc_timeout u))
               else await_completed c workflow_id target (uc_id u) (reply_timeout (uc_timeout u))) (\<lambda>known.
       act_lift (Inr \<lparr>uh_id = uc_id u, uh_workflow = workflow_id, uh_run = Some target, uh_known = known\<rparr>)))"

text \<open>The start of the operation: \<open>start_workflow\<close> with the update riding along.\<close>

definition start_operation :: "'w dbos \<Rightarrow> with_start \<Rightarrow> json \<Rightarrow> string \<Rightarrow> ('w, handle) act" where
  "start_operation c op envelope update_id =
     client_start_workflow c ((wo_call op)\<lparr>sc_options := (sc_options (wo_call op))\<lparr>si_update := Some (envelope, INBOX_TOPIC, Some update_id)\<rparr>\<rparr>)"

text \<open>\<open>start_update_with_start_workflow\<close>: the operation it leaves behind, and how the call ends.\<close>

definition update_with_start ::
  "'w dbos \<Rightarrow> with_start \<Rightarrow> update_call \<Rightarrow> 'w \<Rightarrow> (with_start \<times> update_handle client_result \<times> 'w) option" where
  "update_with_start c op u w =
     (if wo_used op then Some (op, Inl (PyErr RuntimeError), w)
      else let op1 = op\<lparr>wo_used := True\<rparr> in
        case update_request u of
          Inl err \<Rightarrow> Some (op1, Inl (PyErr err), w)
        | Inr (name, args) \<Rightarrow>
            let envelope = update_envelope (db_clock c w) name (map (db_enc c) args) (uc_id u) (Some []) in
            (case start_operation c op envelope (uc_id u) w of
               None \<Rightarrow> None
             | Some (Inl err, w1) \<Rightarrow> Some (op1\<lparr>wo_exception := Some err\<rparr>, Inl err, w1)
             | Some (Inr h, w1) \<Rightarrow>
                 map_option (\<lambda>(r, w2). (op1\<lparr>wo_handle := Some h\<rparr>, r, w2))
                   (await_update c u (si_id (sc_options (wo_call op))) h w1)))"

text \<open>\<open>execute_update_with_start_workflow\<close>.\<close>

definition execute_with_start ::
  "'w dbos \<Rightarrow> with_start \<Rightarrow> update_call \<Rightarrow> 'w \<Rightarrow> (with_start \<times> json client_result \<times> 'w) option" where
  "execute_with_start c op u w =
     (case update_with_start c op (u\<lparr>uc_stage := STAGE_COMPLETED\<rparr>) w of
        None \<Rightarrow> None
      | Some (op1, Inl err, w1) \<Rightarrow> Some (op1, Inl err, w1)
      | Some (op1, Inr h, w1) \<Rightarrow> map_option (\<lambda>(r, w2). (op1, r, w2)) (update_result c h (uc_timeout u) w1))"

subsection \<open>Properties\<close>

text \<open>The operation a program makes, and the calls it makes with it, one after the other.\<close>

fun uses :: "'w dbos \<Rightarrow> with_start \<Rightarrow> update_call list \<Rightarrow> 'w \<Rightarrow> (with_start \<times> update_handle client_result list \<times> 'w) option" where
  "uses c op [] w = Some (op, [], w)"
| "uses c op (u # us) w =
     (case update_with_start c op u w of
        None \<Rightarrow> None
      | Some (op1, r, w1) \<Rightarrow> map_option (\<lambda>(op2, rs, w2). (op2, r # rs, w2)) (uses c op1 us w1))"

lemma used_operation:
  "wo_used op \<Longrightarrow> uses c op us w = Some (op, replicate (length us) (Inl (PyErr RuntimeError)), w)"
  by (induction us) (simp_all add: update_with_start_def)

text \<open>The update of an operation is the update the handle would start with the same request.\<close>

theorem with_start_is_start_update:
  assumes "wo_used op = False" and "update_request u = Inr (name, args)" and "start_input_of (wo_call op) = Inr i"
  shows "map_option snd (update_with_start c op u w) =
    start_update c \<lparr>h_id = si_id i, h_run_id = None, h_result_run = None, h_first_run = None\<rparr> (Some i) (uc_stage u) name args []
      (uc_id u) (uc_timeout u) w"
proof -
  have stage: "uc_stage u \<noteq> ADMITTED" using assms(2) by (auto simp: update_request_def bind_result_Inr_iff)
  define m where "m = (update_envelope (db_clock c w) name (map (db_enc c) args) (uc_id u) (Some []), INBOX_TOPIC, Some (uc_id u))"
  have "start_input_of ((wo_call op)\<lparr>sc_options := (sc_options (wo_call op))\<lparr>si_update := Some m\<rparr>\<rparr>) = Inr (i\<lparr>si_update := Some m\<rparr>)"
    using assms(3) by (auto simp: start_input_of_def bind_result_Inr_iff)
  then have start: "start_operation c op (fst m) (uc_id u) = start_in c (i\<lparr>si_update := Some m\<rparr>)"
    by (rule_tac ext) (simp add: start_operation_def client_start_workflow_def act_bind_def act_lift_def lift_py_def m_def)
  have sid: "si_id (sc_options (wo_call op)) = si_id i"
    using assms(3) by (auto simp: start_input_of_def bind_result_Inr_iff)
  show ?thesis
    using assms(1,2) stage start
    by (auto simp: update_with_start_def start_update_def deliver_update_def await_update_def act_bind_def act_lift_def m_def Let_def sid
        option.map_comp o_def split: option.split sum.split prod.split)
qed

text \<open>
  Claim C20. However often an operation is used, its workflow is started once: the handle it gives afterwards is what that start
  ended with, the start's own exception included, even when the update failed; every later use is refused without effect.
\<close>

theorem with_start_starts_once:
  assumes fresh: "\<not> wo_used op" "wo_handle op = None" "wo_exception op = None"
    and request: "update_request u = Inr (name, args)"
    and run: "uses c op (u # us) w = Some (op', r # rs, w')"
  shows "\<exists>started w1. start_operation c op (update_envelope (db_clock c w) name (map (db_enc c) args) (uc_id u) (Some [])) (uc_id u) w =
      Some (started, w1) \<and> workflow_handle op' = started \<and>
    (case started of Inl err \<Rightarrow> r = Inl err \<and> w' = w1
     | Inr h \<Rightarrow> await_update c u (si_id (sc_options (wo_call op))) h w1 = Some (r, w')) \<and>
    rs = replicate (length us) (Inl (PyErr RuntimeError))"
proof -
  obtain op1 w1 where first: "update_with_start c op u w = Some (op1, r, w1)"
      and rest: "uses c op1 us w1 = Some (op', rs, w')"
    using run by (auto split: option.splits)
  have used: "wo_used op1"
    using first fresh(1) request by (auto simp: update_with_start_def Let_def split: option.splits sum.splits)
  have same: "op' = op1" "w' = w1" "rs = replicate (length us) (Inl (PyErr RuntimeError))"
    using rest used_operation [OF used, of c us w1] by simp_all
  show ?thesis
    using first fresh request
    by (auto simp: update_with_start_def Let_def same workflow_handle_def split: option.splits sum.splits)
qed

text \<open>An operation whose id is already running under another program, used twice.\<close>

definition taken_start :: start_input where
  "taken_start = \<lparr>si_type = [], si_args = [], si_id = ''W'', si_queue = ''q'', si_run_timeout = None, si_reuse = ALLOW_DUPLICATE,
     si_conflict = CONFLICT_FAIL, si_retry = None, si_cron = [], si_memo = None, si_search = None, si_delay = None,
     si_headers = [], si_signal = None, si_update = None\<rparr>"

definition taken_operation :: with_start where
  "taken_operation = \<lparr>wo_call = \<lparr>sc_workflow = TypeName ''Cart'', sc_arg = None, sc_args = [], sc_options = taken_start\<rparr>,
     wo_handle = None, wo_exception = None, wo_used = False\<rparr>"

definition add_item :: update_call where
  "add_item = \<lparr>uc_update = ByName ''add'', uc_arg = None, uc_args = [], uc_stage = ACCEPTED, uc_id = ''u'', uc_timeout = None\<rparr>"

lemma taken_refused:
  "start_operation clocked taken_operation envelope update_id w = Some (Inl (WorkflowAlreadyStarted (run_dbos_id ''W'' 1)), w)"
proof -
  have valid: "validate_workflow_id ''W'' = Inr ()" by code_simp
  have "lists_table (ce_list (env_at clocked w)) two_runs"
    by (auto simp: env_at_def clocked_def lists_table_def set_map_filter_iff two_runs_def split: if_splits)
  from current_run_newest [OF this, of "''W''" 2] have "current_run (env_at clocked w) ''W'' = Some (Inr (Some (1, the (two_runs (run_dbos_id ''W'' 1)))))"
    using two_runs_runs by simp
  moreover have "the (two_runs (run_dbos_id ''W'' 1)) = \<lparr>rr_id = run_dbos_id ''W'' 1, rr_status = Some ''PENDING'', rr_error = None, rr_parent = Some ''W''\<rparr>"
    by (simp add: two_runs_def)
  moreover have "is_open (Some ''PENDING'')" by (simp add: is_open_def OPEN_DBOS_STATUSES_def)
  ultimately show ?thesis
    by (simp add: start_operation_def client_start_workflow_def act_bind_def act_lift_def lift_py_def start_input_of_def
        workflow_type_name_def client_args_def taken_operation_def taken_start_def start_in_def start_workflow_def start_delay_def
        valid start_meta_def encode_attributes_def start_plan_for_def carry_out_def cancel_ops_def)
qed

theorem with_start_starts_once_witness:
  "\<exists>op'. uses clocked taken_operation [add_item, add_item] 0 =
       Some (op', [Inl (WorkflowAlreadyStarted (run_dbos_id ''W'' 1)), Inl (PyErr RuntimeError)], 0) \<and>
     workflow_handle op' = Inl (WorkflowAlreadyStarted (run_dbos_id ''W'' 1))"
proof -
  have fresh: "\<not> wo_used taken_operation" "wo_handle taken_operation = None" "wo_exception taken_operation = None"
    by (simp_all add: taken_operation_def)
  have request: "update_request add_item = Inr (''add'', [])"
    by (simp add: update_request_def add_item_def handler_name_def client_args_def)
  have run: "uses clocked taken_operation [add_item, add_item] 0 =
      Some (taken_operation\<lparr>wo_used := True, wo_exception := Some (WorkflowAlreadyStarted (run_dbos_id ''W'' 1))\<rparr>,
        [Inl (WorkflowAlreadyStarted (run_dbos_id ''W'' 1)), Inl (PyErr RuntimeError)], 0)"
    using fresh(1) by (simp add: update_with_start_def request taken_refused Let_def)
  from with_start_starts_once [OF fresh request run] show ?thesis
    using run by (simp add: taken_refused)
qed

end
