(* ===== verification/Interceptors.thy ===== *)
theory Interceptors
  imports Workflow_Api Activity_Context
begin

text \<open>
  Worker interceptors (\<open>dbosify/_internal/workflow_interceptor.py\<close>, \<open>dbosify/_internal/activity_interceptor.py\<close>) and
  the chains they form (\<open>_build_interceptor_chains\<close>, \<open>_RootWorkflowInbound\<close>, \<open>_RootWorkflowOutbound\<close> of
  \<open>dbosify/_internal/interpreter.py\<close>; \<open>_RootActivityInbound\<close>, \<open>_RootActivityOutbound\<close> of
  \<open>dbosify/_internal/activities.py\<close>). An interceptor object is the function from a call, which is a method with its input,
  to what the call does; a class is the function from the next object to the object. What a coroutine does after it
  suspends is a later step of the event loop and not part of the call.
\<close>

subsection \<open>Objects and classes\<close>

text \<open>
  An inbound object: its calls, and \<open>init\<close>, which gives the outbound object the root is left with, if any.
\<close>

record ('c, 'r, 'o) inbound =
  in_call :: "'c \<Rightarrow> 'r"
  in_init :: "'o \<Rightarrow> 'o option"

text \<open>The base classes: every method hands its input to the next object.\<close>

definition inbound_base :: "('c, 'r, 'o) inbound \<Rightarrow> ('c, 'r, 'o) inbound" where
  "inbound_base following = \<lparr>in_call = (\<lambda>c. in_call following c), in_init = (\<lambda>out. in_init following out)\<rparr>"

definition outbound_base :: "('c \<Rightarrow> 'r) \<Rightarrow> 'c \<Rightarrow> 'r" where
  "outbound_base following c = following c"

text \<open>The root of a chain: it runs the calls, and its \<open>init\<close> installs the outbound object it is given.\<close>

definition inbound_root :: "('c \<Rightarrow> 'r) \<Rightarrow> ('c, 'r, 'o) inbound" where
  "inbound_root run = \<lparr>in_call = run, in_init = Some\<rparr>"

subsection \<open>The chain of a workflow\<close>

datatype inbound_call =
    ExecuteWorkflow "json list" jdict
  | HandleSignal string "json list" jdict
  | HandleQuery string string "json list" jdict
  | HandleUpdateValidator string string "json list" jdict
  | HandleUpdateHandler string string "json list" jdict

datatype outbound_call =
    OutContinueAsNew can_request
  | OutInfo
  | OutSignalChild string "json list" string jdict
  | OutSignalExternal string "json list" string string "string option" jdict
  | OutStartActivity activity_request
  | OutStartChild child_request
  | OutStartLocal activity_request

text \<open>What an outbound call returns; \<open>continue_as_new\<close> raises the request it returns here.\<close>

datatype outbound_value = Handle nat nat | Sent nat | RunInfo info | Continues can_request

type_synonym outbound = "outbound_call \<Rightarrow> interp \<Rightarrow> interp \<times> outbound_value result"

definition gives :: "('a \<Rightarrow> outbound_value) \<Rightarrow> interp \<times> 'a result \<Rightarrow> interp \<times> outbound_value result" where
  "gives f = apsnd (map_sum id f)"

text \<open>
  \<open>_RootWorkflowOutbound\<close>. The input of a local activity has no heartbeat timeout, queue or schedule-to-start timeout,
  and an empty child id means none was given.
\<close>

definition root_outbound :: "env \<Rightarrow> (interp \<Rightarrow> info result) \<Rightarrow> outbound" where
  "root_outbound e info_of c s =
     (case c of
        OutContinueAsNew can \<Rightarrow> (s, Inr (Continues can))
      | OutInfo \<Rightarrow> gives RunInfo (s, info_of s)
      | OutSignalChild name args child_id headers \<Rightarrow>
          gives Sent (send_to_workflow child_id (signal_envelope (env_now e) name args (Some headers)) True s)
      | OutSignalExternal name args namespace workflow_id run_id headers \<Rightarrow>
          gives Sent (send_to_workflow (external_target \<lparr>eh_id = workflow_id, eh_run = run_id\<rparr>)
            (signal_envelope (env_now e) name args (Some headers)) (run_id = None) s)
      | OutStartActivity r \<Rightarrow> gives (\<lambda>(q, f). Handle q f) (start_activity e r s)
      | OutStartChild r \<Rightarrow>
          gives (\<lambda>(q, f). Handle q f)
            (start_child_workflow (r\<lparr>cr_id := (if cr_id r = Some [] then None else cr_id r)\<rparr>) s)
      | OutStartLocal r \<Rightarrow>
          gives (\<lambda>(q, f). Handle q f)
            (start_activity e (r\<lparr>ar_heartbeat_timeout := None, ar_task_queue := None, ar_schedule_to_start := None\<rparr>) s))"

text \<open>
  \<open>_RootWorkflowInbound\<close>: the user function a call invokes. A signal without a handler is dropped; a query or update without
  one fails an assertion.
\<close>

datatype user_function = RunMethod | Handler handler_defn | Validator handler_defn

datatype call_error = PyRaised py_error | UserRaised "json exc"

type_synonym user_code = "user_function \<Rightarrow> json list \<Rightarrow> interp \<Rightarrow> interp \<times> (call_error + json)"
type_synonym workflow_inbound = "(inbound_call, interp \<Rightarrow> interp \<times> (call_error + json), outbound) inbound"

definition in_read_only :: "(interp \<Rightarrow> interp \<times> 'a) \<Rightarrow> interp \<Rightarrow> interp \<times> 'a" where
  "in_read_only f s = (let (t, r) = f (s\<lparr>i_read_only := True\<rparr>) in (t\<lparr>i_read_only := False\<rparr>, r))"

fun root_inbound :: "user_code \<Rightarrow> inbound_call \<Rightarrow> interp \<Rightarrow> interp \<times> (call_error + json)" where
  "root_inbound run (ExecuteWorkflow args headers) s = run RunMethod args s"
| "root_inbound run (HandleSignal name args headers) s =
     (case resolve_signal s name of
        None \<Rightarrow> (s, Inr JNull)
      | Some d \<Rightarrow> apsnd (map_sum id (\<lambda>_. JNull)) (run (Handler d) args s))"
| "root_inbound run (HandleQuery i name args headers) s =
     (case resolve_query s name of
        None \<Rightarrow> (s, Inl (PyRaised AssertionError))
      | Some d \<Rightarrow> run (Handler d) args s)"
| "root_inbound run (HandleUpdateValidator i name args headers) s =
     (case resolve_update s name of
        None \<Rightarrow> (s, Inl (PyRaised AssertionError))
      | Some d \<Rightarrow>
          if \<not> h_validator d then (s, Inr JNull)
          else apsnd (map_sum id (\<lambda>_. JNull)) (in_read_only (run (Validator d) args) s))"
| "root_inbound run (HandleUpdateHandler i name args headers) s =
     (case resolve_update s name of
        None \<Rightarrow> (s, Inl (PyRaised AssertionError))
      | Some d \<Rightarrow> run (Handler d) args s)"

text \<open>
  A worker interceptor: \<open>intercept_activity\<close>, which returns the next object by default, and
  \<open>workflow_interceptor_class\<close>, which returns no class by default. \<open>'a\<close> is the inbound object of activities.
\<close>

record 'a worker_interceptor =
  wi_activity :: "'a \<Rightarrow> 'a"
  wi_workflow :: "(workflow_inbound \<Rightarrow> workflow_inbound) option"

definition default_interceptor :: "'a worker_interceptor" where
  "default_interceptor = \<lparr>wi_activity = (\<lambda>following. following), wi_workflow = None\<rparr>"

definition workflow_chain :: "'a worker_interceptor list \<Rightarrow> workflow_inbound \<Rightarrow> workflow_inbound" where
  "workflow_chain ws start =
     fold (\<lambda>w inb. case wi_workflow w of None \<Rightarrow> inb | Some cls \<Rightarrow> cls inb) (rev ws) start"

text \<open>\<open>_build_interceptor_chains\<close>: the head of the inbound chain and the outbound object its \<open>init\<close> leaves.\<close>

definition build_interceptor_chains ::
  "'a worker_interceptor list \<Rightarrow> user_code \<Rightarrow> env \<Rightarrow> (interp \<Rightarrow> info result) \<Rightarrow> workflow_inbound \<times> outbound option" where
  "build_interceptor_chains ws run e info_of =
     (let inb = workflow_chain ws (inbound_root (root_inbound run)) in (inb, in_init inb (root_outbound e info_of)))"

text \<open>\<open>runtime_outbound\<close>: an \<open>init\<close> that never reached the root fails every outbound call.\<close>

definition outbound_do :: "outbound option \<Rightarrow> outbound" where
  "outbound_do out c s = (case out of None \<Rightarrow> (s, Inl AssertionError) | Some f \<Rightarrow> f c s)"

text \<open>The calls of \<open>dbosify/workflow.py\<close> through the chain.\<close>

definition through :: "outbound option \<Rightarrow> ('a \<Rightarrow> outbound_call) \<Rightarrow> 'a result \<Rightarrow> interp \<Rightarrow> interp \<times> outbound_value result" where
  "through out call input s = (case input of Inl err \<Rightarrow> (s, Inl err) | Inr x \<Rightarrow> outbound_do out (call x) s)"

text \<open>The synchronous uses of the inbound chain: \<open>_apply_query\<close>, and the validator step of \<open>_apply_update\<close>.\<close>

definition query_through :: "workflow_inbound \<Rightarrow> string \<Rightarrow> string \<Rightarrow> json list \<Rightarrow> jdict \<Rightarrow> interp \<Rightarrow> interp \<times> (call_error + json)" where
  "query_through inb workflow_id name args headers =
     in_read_only (in_call inb (HandleQuery workflow_id name args headers))"

definition validate_through :: "workflow_inbound \<Rightarrow> string \<Rightarrow> string \<Rightarrow> json list \<Rightarrow> jdict \<Rightarrow> interp \<Rightarrow> interp \<times> (call_error + unit)" where
  "validate_through inb workflow_id name args headers s =
     apsnd (map_sum id (\<lambda>_. ())) (in_call inb (HandleUpdateValidator workflow_id name args headers) s)"

subsection \<open>The chain of an activity\<close>

datatype activity_inbound_call = ExecuteActivity "json list" jdict

datatype activity_outbound_call = ActivityInfo | Heartbeat "json list"

datatype activity_value = ActivityIs activity_info | Beaten

type_synonym activity_outbound = "activity_outbound_call \<Rightarrow> attempts \<Rightarrow> attempts \<times> (json exc + activity_value)"

text \<open>\<open>_RootActivityOutbound\<close> over the context \<open>k\<close> with its info; \<open>now\<close> is the time of a heartbeat.\<close>

fun root_activity_outbound :: "nat \<Rightarrow> activity_info \<Rightarrow> rat \<Rightarrow> activity_outbound" where
  "root_activity_outbound k ai now ActivityInfo s = (s, Inr (ActivityIs ai))"
| "root_activity_outbound k ai now (Heartbeat details) s =
     apsnd (map_sum id (\<lambda>_. Beaten)) (root_heartbeat k details now s)"

text \<open>The chain of one attempt; \<open>call\<close> is the user function.\<close>

definition activity_chain ::
  "('c, 'r, 'o) inbound worker_interceptor list \<Rightarrow> ('c \<Rightarrow> 'r) \<Rightarrow> 'o \<Rightarrow> ('c, 'r, 'o) inbound \<times> 'o option" where
  "activity_chain ws call out =
     (let inb = fold (\<lambda>w impl. wi_activity w impl) (rev ws) (inbound_root call) in (inb, in_init inb out))"

text \<open>\<open>activity.info\<close> and \<open>activity.heartbeat\<close>: through the outbound object of the context, or as the root does.\<close>

definition activity_call :: "activity_outbound option \<Rightarrow> nat \<Rightarrow> activity_info \<Rightarrow> rat \<Rightarrow> activity_outbound" where
  "activity_call out k ai now c s =
     (case out of Some f \<Rightarrow> f c s | None \<Rightarrow> root_activity_outbound k ai now c s)"

subsection \<open>Without interceptors\<close>

text \<open>Without interceptors every call of \<open>dbosify/workflow.py\<close> is the one modelled in \<open>Workflow_Api\<close>.\<close>

lemma no_interceptors:
  "build_interceptor_chains [] run e info_of = (inbound_root (root_inbound run), Some (root_outbound e info_of))"
  by (simp add: build_interceptor_chains_def workflow_chain_def inbound_root_def Let_def)

lemma start_child_input: "child_input c = Inr r \<Longrightarrow> cr_id r \<noteq> Some []"
  by (auto simp: child_input_def Let_def bind_result_Inr_iff split: option.splits if_splits)

theorem chain_without_interceptors_is_api:
  assumes "snd (build_interceptor_chains [] run e info_of) = out"
  shows "through out OutStartActivity (activity_input a) s = gives (\<lambda>(q, f). Handle q f) (api_start_activity e a s)"
    and "through out OutStartLocal (activity_input a) s = gives (\<lambda>(q, f). Handle q f) (api_start_local_activity e a s)"
    and "through out OutStartChild (child_input c) s = gives (\<lambda>(q, f). Handle q f) (api_start_child c s)"
    and "through out (\<lambda>(name, args). OutSignalChild name args child []) (signal_input sig arg args) s =
      gives Sent (signal_child e child sig arg args s)"
    and "through out (\<lambda>(name, args). OutSignalExternal name args ns (eh_id h) (eh_run h) []) (signal_input sig arg args) s =
      gives Sent (signal_external e h sig arg args s)"
    and "through out OutContinueAsNew (api_continue_as_new k s) s = gives Continues (s, api_continue_as_new k s)"
proof -
  have out: "outbound_do out = root_outbound e info_of"
    using assms by (auto simp: no_interceptors outbound_do_def fun_eq_iff)
  have h: "\<lparr>eh_id = eh_id h, eh_run = eh_run h\<rparr> = h" by simp
  have child: "r\<lparr>cr_id := (if cr_id r = Some [] then None else cr_id r)\<rparr> = r" if "child_input c = Inr r" for r
    using start_child_input [OF that] by simp
  show "through out OutStartActivity (activity_input a) s = gives (\<lambda>(q, f). Handle q f) (api_start_activity e a s)"
    by (simp add: through_def out root_outbound_def api_start_activity_def gives_def split: sum.split)
  show "through out OutStartLocal (activity_input a) s = gives (\<lambda>(q, f). Handle q f) (api_start_local_activity e a s)"
    by (simp add: through_def out root_outbound_def api_start_local_activity_def local_activity_input_def gives_def bind_result_def
        split: sum.split)
  show "through out OutStartChild (child_input c) s = gives (\<lambda>(q, f). Handle q f) (api_start_child c s)"
    using child by (simp add: through_def out root_outbound_def api_start_child_def gives_def split: sum.split)
  show "through out (\<lambda>(name, args). OutSignalChild name args child []) (signal_input sig arg args) s =
      gives Sent (signal_child e child sig arg args s)"
    by (simp add: through_def out root_outbound_def signal_child_def gives_def split: sum.split prod.split)
  show "through out (\<lambda>(name, args). OutSignalExternal name args ns (eh_id h) (eh_run h) []) (signal_input sig arg args) s =
      gives Sent (signal_external e h sig arg args s)"
    by (simp add: through_def out root_outbound_def signal_external_def gives_def h split: sum.split prod.split)
  show "through out OutContinueAsNew (api_continue_as_new k s) s = gives Continues (s, api_continue_as_new k s)"
    by (simp add: through_def out root_outbound_def gives_def split: sum.split)
qed

subsection \<open>The order of a chain\<close>

text \<open>
  A class that rewrites what goes to the next object and what comes back, in both directions. It wraps the outbound
  object on its way to the next \<open>init\<close>.
\<close>

record ('c, 'r, 'oc, 'or) layer =
  ly_in :: "'c \<Rightarrow> 'c"
  ly_back :: "'r \<Rightarrow> 'r"
  ly_out :: "'oc \<Rightarrow> 'oc"
  ly_out_back :: "'or \<Rightarrow> 'or"

definition layer_class ::
  "('c, 'r, 'oc, 'or) layer \<Rightarrow> ('c, 'r, 'oc \<Rightarrow> 'or) inbound \<Rightarrow> ('c, 'r, 'oc \<Rightarrow> 'or) inbound" where
  "layer_class l following =
     \<lparr>in_call = (\<lambda>c. ly_back l (in_call following (ly_in l c))),
      in_init = (\<lambda>out. in_init following (\<lambda>c. ly_out_back l (out (ly_out l c))))\<rparr>"

lemma fold_layers:
  "in_call (fold layer_class (rev ls) nxt) c = foldr ly_back ls (in_call nxt (fold ly_in ls c))"
  "in_init (fold layer_class (rev ls) nxt) out = in_init nxt (\<lambda>c. fold ly_out_back ls (out (foldr ly_out ls c)))"
  by (induction ls arbitrary: c out) (simp_all add: layer_class_def)

lemma workflow_chain_layers:
  "workflow_chain (map (\<lambda>(l, a). \<lparr>wi_activity = a, wi_workflow = map_option layer_class l\<rparr>) ws) start =
     fold layer_class (rev (List.map_filter fst ws)) start"
proof -
  have "fold (\<lambda>w inb. case wi_workflow w of None \<Rightarrow> inb | Some cls \<Rightarrow> cls inb)
      (map (\<lambda>(l, a). \<lparr>wi_activity = a, wi_workflow = map_option layer_class l\<rparr>) xs) start =
    fold layer_class (List.map_filter fst xs) start" for xs start
    by (induction xs arbitrary: start) (auto simp: List.map_filter_def split: option.split prod.split)
  from this [of "rev ws" start] show ?thesis
    by (simp add: workflow_chain_def rev_map List.map_filter_def rev_filter)
qed

text \<open>
  What the workflow of a run is called with passes the interceptors in the order the worker lists them, and the
  outcome comes back in the opposite order; what the workflow asks of the runtime passes them in the opposite order, last
  listed first. An interceptor without a workflow class plays no part, and the outbound chain is always installed.
\<close>

theorem interceptors_nest:
  assumes "build_interceptor_chains (map (\<lambda>(l, a). \<lparr>wi_activity = a, wi_workflow = map_option layer_class l\<rparr>) ws) run e info_of = (inb, out)"
    and "ls = List.map_filter fst ws"
  shows "in_call inb c = foldr ly_back ls (root_inbound run (fold ly_in ls c)) \<and>
    outbound_do out oc = fold ly_out_back ls (root_outbound e info_of (foldr ly_out ls oc))"
proof -
  have "inb = fold layer_class (rev ls) (inbound_root (root_inbound run))" "out = in_init inb (root_outbound e info_of)"
    using assms by (auto simp: build_interceptor_chains_def Let_def workflow_chain_layers)
  then show ?thesis
    by (simp add: fold_layers inbound_root_def outbound_do_def fun_eq_iff)
qed

text \<open>Two interceptors that leave their name in the arguments of queries and of signals to children.\<close>

fun tag_in :: "string \<Rightarrow> inbound_call \<Rightarrow> inbound_call" where
  "tag_in t (HandleQuery i name args headers) = HandleQuery i name (args @ [JStr t]) headers"
| "tag_in t c = c"

fun tag_out :: "string \<Rightarrow> outbound_call \<Rightarrow> outbound_call" where
  "tag_out t (OutSignalChild name args child headers) = OutSignalChild name (args @ [JStr t]) child headers"
| "tag_out t c = c"

definition tagging :: "string \<Rightarrow> (inbound_call, interp \<Rightarrow> interp \<times> (call_error + json), outbound_call,
    interp \<Rightarrow> interp \<times> outbound_value result) layer" where
  "tagging t = \<lparr>ly_in = tag_in t, ly_back = id, ly_out = tag_out t, ly_out_back = id\<rparr>"

definition echo_code :: user_code where
  "echo_code f args s = (s, Inr (JList args))"

definition tagged_chains :: "workflow_inbound \<times> outbound option" where
  "tagged_chains = build_interceptor_chains
     (map (\<lambda>(l, a). \<lparr>wi_activity = a, wi_workflow = map_option layer_class l\<rparr>)
        [(Some (tagging ''a''), id :: nat \<Rightarrow> nat), (None, id), (Some (tagging ''b''), id)])
     echo_code plain_env (\<lambda>_. Inl KeyError)"

theorem interceptors_nest_witness:
  "in_call (fst tagged_chains) (HandleQuery ''w'' ''q'' [] []) =
     root_inbound echo_code (HandleQuery ''w'' ''q'' [JStr ''a'', JStr ''b''] []) \<and>
   outbound_do (snd tagged_chains) (OutSignalChild ''s'' [] ''c'' []) =
     root_outbound plain_env (\<lambda>_. Inl KeyError) (OutSignalChild ''s'' [JStr ''b'', JStr ''a''] ''c'' [])"
proof -
  obtain inb out where chains: "tagged_chains = (inb, out)" by (cases tagged_chains)
  from interceptors_nest [OF chains [unfolded tagged_chains_def] refl, of "HandleQuery ''w'' ''q'' [] []" "OutSignalChild ''s'' [] ''c'' []"]
  show ?thesis by (simp add: chains List.map_filter_def tagging_def)
qed

lemma activity_interceptors_nest:
  assumes "activity_chain (map (\<lambda>l. \<lparr>wi_activity = layer_class l, wi_workflow = k\<rparr>) ls) call out0 = (inb, out)"
  shows "in_call inb c = foldr ly_back ls (call (fold ly_in ls c)) \<and>
    out = Some (\<lambda>c. fold ly_out_back ls (out0 (foldr ly_out ls c)))"
proof -
  have "fold (\<lambda>w impl. wi_activity w impl) (map (\<lambda>l. \<lparr>wi_activity = layer_class l, wi_workflow = k\<rparr>) xs) start =
      fold layer_class xs start" for xs start
    by (induction xs arbitrary: start) simp_all
  from this [of "rev ls"] have "inb = fold layer_class (rev ls) (inbound_root call)" "out = in_init inb out0"
    using assms by (auto simp: activity_chain_def Let_def rev_map)
  then show ?thesis by (simp add: fold_layers inbound_root_def)
qed

text \<open>A heartbeat in an attempt with interceptors reaches the registries with the details the outbound objects leave.\<close>

lemma heartbeat_through_interceptors:
  assumes "activity_chain (map (\<lambda>l. \<lparr>wi_activity = layer_class l, wi_workflow = k\<rparr>) ls) call (root_activity_outbound n ai now) = (inb, out)"
    and "foldr ly_out ls (Heartbeat details) = Heartbeat details'" and "\<forall>l\<in>set ls. ly_out_back l = id"
  shows "fst (activity_call out n ai now (Heartbeat details) s) = fst (root_heartbeat n details' now s)"
proof -
  have "fold ly_out_back ls = id" using assms(3) by (induction ls) auto
  then show ?thesis using activity_interceptors_nest [OF assms(1)] assms(2) by (simp add: activity_call_def)
qed

subsection \<open>What read-only contexts cover\<close>

text \<open>An interceptor with code of its own around the next object: the calls it makes before and after it, each caught if it raises.\<close>

record meddler =
  md_before :: "(env \<times> api_call) list"
  md_after :: "(env \<times> api_call) list"
  md_input :: "inbound_call \<Rightarrow> inbound_call"

definition run_calls :: "(env \<times> api_call) list \<Rightarrow> interp \<Rightarrow> interp" where
  "run_calls calls s = fold (\<lambda>(e, c) s. fst (api_step e c s)) calls s"

definition meddler_class :: "meddler \<Rightarrow> workflow_inbound \<Rightarrow> workflow_inbound" where
  "meddler_class m following =
     (inbound_base following)\<lparr>in_call := (\<lambda>c s.
        let (t, r) = in_call following (md_input m c) (run_calls (md_before m) s) in (run_calls (md_after m) t, r))\<rparr>"

definition is_query :: "inbound_call \<Rightarrow> bool" where
  "is_query c \<longleftrightarrow> (\<exists>i name args headers. c = HandleQuery i name args headers)"

definition is_validation :: "inbound_call \<Rightarrow> bool" where
  "is_validation c \<longleftrightarrow> (\<exists>i name args headers. c = HandleUpdateValidator i name args headers)"

text \<open>An interceptor keeps to the method it intercepts and cancels no handle.\<close>

definition well_behaved :: "meddler \<Rightarrow> bool" where
  "well_behaved m \<longleftrightarrow>
     (\<forall>(e, c)\<in>set (md_before m @ md_after m). \<not> cancels_handle c) \<and>
     (\<forall>c. is_query c \<longrightarrow> is_query (md_input m c)) \<and> (\<forall>c. is_validation c \<longrightarrow> is_validation (md_input m c))"

definition meddler_chain :: "meddler list \<Rightarrow> user_code \<Rightarrow> env \<Rightarrow> (interp \<Rightarrow> info result) \<Rightarrow> workflow_inbound" where
  "meddler_chain ms run e info_of =
     fst (build_interceptor_chains
       (map (\<lambda>m. (default_interceptor :: nat worker_interceptor)\<lparr>wi_workflow := Some (meddler_class m)\<rparr>) ms) run e info_of)"

lemma meddler_chain_fold:
  "meddler_chain ms run e info_of = fold meddler_class (rev ms) (inbound_root (root_inbound run))"
proof -
  have "fold (\<lambda>w inb. case wi_workflow w of None \<Rightarrow> inb | Some cls \<Rightarrow> cls inb)
      (map (\<lambda>m. (default_interceptor :: nat worker_interceptor)\<lparr>wi_workflow := Some (meddler_class m)\<rparr>) xs) start =
    fold meddler_class xs start" for xs start
    by (induction xs arbitrary: start) simp_all
  then show ?thesis by (simp add: meddler_chain_def build_interceptor_chains_def workflow_chain_def Let_def rev_map)
qed

lemma read_only_call: "i_read_only s \<Longrightarrow> \<not> cancels_handle c \<Longrightarrow> fst (api_step e c s) = s"
  by (cases c) (auto simp: api_defs cancels_handle_def split: sum.split prod.split)

lemma read_only_calls: "i_read_only s \<Longrightarrow> \<forall>(e, c)\<in>set calls. \<not> cancels_handle c \<Longrightarrow> run_calls calls s = s"
  by (induction calls) (auto simp: run_calls_def read_only_call)

lemma in_read_only_obedient:
  assumes "\<not> i_read_only s" and "fst (f (s\<lparr>i_read_only := True\<rparr>)) = s\<lparr>i_read_only := True\<rparr>"
  shows "fst (in_read_only f s) = s"
  using assms by (cases "f (s\<lparr>i_read_only := True\<rparr>)") (simp add: in_read_only_def)

lemma meddler_step:
  "fst (in_call (meddler_class m following) c s) =
     run_calls (md_after m) (fst (in_call following (md_input m c) (run_calls (md_before m) s)))"
  by (simp add: meddler_class_def split_def Let_def)

lemma query_chain_obedient:
  assumes "\<forall>f args s. i_read_only s \<longrightarrow> fst (run f args s) = s" and "\<forall>m\<in>set ms. well_behaved m"
    and "i_read_only s" and "is_query c"
  shows "fst (in_call (fold meddler_class (rev ms) (inbound_root (root_inbound run))) c s) = s"
  using assms(2-4)
proof (induction ms arbitrary: c)
  case Nil
  then show ?case using assms(1) by (auto simp: inbound_root_def is_query_def split: option.split)
next
  case (Cons m ms)
  have m: "run_calls (md_before m) s = s" "run_calls (md_after m) s = s" "is_query (md_input m c)"
    using Cons.prems read_only_calls [of s] by (auto simp: well_behaved_def)
  then show ?case using Cons by (simp add: meddler_step)
qed

text \<open>No call opens or closes a read-only context.\<close>

lemma state_keeps_read_only [simp]:
  "i_read_only (snd (create_future s)) = i_read_only s"
  "i_read_only (add_done_callback f cb s) = i_read_only s"
  "i_read_only (complete_future f st s) = i_read_only s"
  "i_read_only (push_command c s) = i_read_only s"
  "i_read_only (update_activity q g s) = i_read_only s"
  "i_read_only (snd (next_seq k s)) = i_read_only s"
  by (simp_all add: create_future_def add_done_callback_def complete_future_def push_command_def update_activity_def
      next_seq_def Let_def split: option.split)

lemma cancels_keep_read_only [simp]:
  "i_read_only (cancel_future f s) = i_read_only s"
  "i_read_only (request_activity_cancel q s) = i_read_only s"
  by (simp_all add: cancel_future_def request_activity_cancel_def emit_def Let_def split: option.split)

lemma upserts_keep_read_only [simp]:
  "i_read_only (fst (upsert_memo m s)) = i_read_only s"
  "i_read_only (fst (upsert_search_attributes us s)) = i_read_only s"
  "i_read_only (fst (set_current_details t s)) = i_read_only s"
  by (simp_all add: upsert_memo_def upsert_search_attributes_def set_current_details_def assert_not_read_only_def Let_def
      split: sum.split)

lemma patch_keeps_read_only [simp]: "i_read_only (fst (patch e pid s)) = i_read_only s"
  by (simp add: patch_def assert_not_read_only_def Let_def split_def split: sum.split option.split)

lemma timer_keeps_read_only [simp]: "i_read_only (fst (create_timer d s)) = i_read_only s"
  by (simp add: create_timer_def assert_not_read_only_def Let_def split_def split: sum.split)

lemma send_keeps_read_only [simp]: "i_read_only (fst (send_to_workflow target envelope rc s)) = i_read_only s"
  by (simp add: send_to_workflow_def assert_not_read_only_def Let_def split_def split: sum.split)

lemma activity_keeps_read_only [simp]: "i_read_only (fst (start_activity e r s)) = i_read_only s"
  by (simp add: start_activity_def assert_not_read_only_def Let_def split_def split: sum.split)

lemma child_keeps_read_only [simp]: "i_read_only (fst (start_child_workflow k s)) = i_read_only s"
  by (simp add: start_child_workflow_def assert_not_read_only_def Let_def split_def split: sum.split option.split)

lemma set_handler_keeps_read_only [simp]: "i_read_only (fst (set_handler cat name h s)) = i_read_only s"
  by (cases cat; cases name)
     (auto simp: set_handler_def assert_not_read_only_def Let_def split: option.split)

lemma calls_keep_read_only: "i_read_only (fst (api_step e c s)) = i_read_only s"
  by (cases c)
     (simp_all add: api_step_def api_start_activity_def api_start_local_activity_def api_start_child_def signal_external_def
       cancel_external_def signal_child_def random_access_def api_continue_as_new_def api_sleep_def api_set_handler_def
       split: sum.split prod.split)

lemma run_calls_simps [simp]:
  "run_calls [] s = s"
  "run_calls (call # calls) s = run_calls calls (fst (api_step (fst call) (snd call) s))"
  "run_calls (xs @ ys) s = run_calls ys (run_calls xs s)"
  by (simp_all add: run_calls_def split_def)

lemma run_calls_keep_read_only [simp]: "i_read_only (run_calls xs s) = i_read_only s"
proof (induction xs arbitrary: s)
  case (Cons call xs)
  show ?case unfolding run_calls_simps(2) Cons.IH by (rule calls_keep_read_only)
qed simp

lemma validation_root:
  assumes "\<forall>f args s. i_read_only s \<longrightarrow> fst (run f args s) = s" and "\<not> i_read_only s" and "is_validation c"
  shows "fst (root_inbound run c s) = s"
  using assms(2,3) in_read_only_obedient [OF assms(2), of "run f args" for f args] assms(1)
  by (auto simp: is_validation_def split: option.split)

lemma validation_chain_leaves:
  assumes "\<forall>f args s. i_read_only s \<longrightarrow> fst (run f args s) = s" and "\<forall>m\<in>set ms. well_behaved m"
    and "\<not> i_read_only s" and "is_validation c"
  shows "fst (in_call (fold meddler_class (rev ms) (inbound_root (root_inbound run))) c s) =
    run_calls (concat (map md_before ms) @ concat (map md_after (rev ms))) s"
  using assms(2-4)
proof (induction ms arbitrary: c s)
  case Nil
  then show ?case using validation_root [OF assms(1)] by (simp add: inbound_root_def)
next
  case (Cons m ms)
  then have "is_validation (md_input m c)" by (simp add: well_behaved_def)
  with Cons show ?case by (simp add: meddler_step)
qed


text \<open>An interceptor that notes what it sees in the details of the run.\<close>

definition noting :: meddler where
  "noting = \<lparr>md_before = [(plain_env, ApiDetails ''seen'')], md_after = [], md_input = id\<rparr>"

definition validated_defn :: workflow_defn where
  "validated_defn = workflow_defn.wd_updates_update
     (\<lambda>_. [(Some ''set'', \<lparr>h_name = Some ''set'', h_fn = 0, h_policy = 1, h_validator = True\<rparr>)]) plain_defn"

definition reject_all :: user_code where
  "reject_all f args s = (s, Inl (PyRaised ValueError))"


end
