(* ===== verification/Client_Interceptors.thy ===== *)
theory Client_Interceptors
  imports Client_Api Client_Terminate Client_Listing Schedule_Handle Converter
begin

text \<open>
  Client interceptors (\<open>dbosify/_internal/client_interceptor.py\<close>): the calls of a client with their inputs, the root of the
  outbound chain (\<open>_ClientOutbound\<close> of \<open>dbosify/client.py\<close>), which reconstructs the handle of a call from its input and
  runs the implementation, and the chain \<open>Client.__init__\<close> folds over it. Options that only log, RPC options and codec
  errors are not modelled; an update that rides a start is modelled in \<open>Client_Api\<close>.
\<close>

subsection \<open>Calls\<close>

text \<open>The address of an activity completed from outside: a task token, or ids.\<close>

datatype activity_address = ByToken json | ByIds string "string option" string

type_synonym headers = "(string, payload) dict"

datatype client_call =
    StartWorkflow start_input headers
  | CancelWorkflow string "string option" string
  | DescribeWorkflow string "string option"
  | QueryWorkflow string "string option" string "json list" "reject_condition option" headers "timedelta option"
  | SignalWorkflow string "string option" string "json list" headers
  | TerminateWorkflow string "string option"
  | UpdateWorkflow string "string option" "string option" string "json list" update_stage headers "timedelta option"
  | HeartbeatActivity activity_address "json list"
  | CompleteActivity activity_address json
  | FailActivity activity_address json
  | ReportCancellation activity_address
  | CreateNewSchedule string schedule bool "backfill list"
  | ListSchedules
  | BackfillOf string "backfill list"
  | DeleteOf string
  | DescribeSchedule string
  | PauseOf string
  | TriggerOf string "overlap_policy option"
  | UnpauseOf string
  | UpdateOf string "schedule_description \<Rightarrow> schedule option"

datatype client_value =
    Done
  | Started handle
  | Updated update_handle
  | Answer json
  | Described Client_Listing.execution
  | ScheduleHandle string
  | Listed "listed_schedule schedule_iterator"
  | ScheduleIs schedule_description

type_synonym 'w outbound = "client_call \<Rightarrow> ('w, client_value) act"

subsection \<open>The root\<close>

text \<open>
  A client: its DBOS client, the default reject condition, what \<open>uuid4\<close> draws next, the wire form of headers, the full row
  of a run with the listing it is shown by, and the schedules with what DBOS does to them.
\<close>

record 'w client =
  cl_dbos :: "'w dbos"
  cl_condition :: "reject_condition option"
  cl_draw :: "'w \<Rightarrow> string"
  cl_wire :: "headers \<Rightarrow> jdict"
  cl_row :: "'w \<Rightarrow> string \<Rightarrow> exec_row"
  cl_listing :: listing
  cl_schedule_env :: "'w \<Rightarrow> schedule_env"
  cl_schedules :: "'w \<Rightarrow> schedule_row list"
  cl_schedule_op :: "schedule_op \<Rightarrow> 'w \<Rightarrow> 'w"

definition handle_of :: "string \<Rightarrow> string option \<Rightarrow> handle" where
  "handle_of i run = \<lparr>h_id = i, h_run_id = run, h_result_run = None, h_first_run = None\<rparr>"

definition act_map :: "('a \<Rightarrow> 'b) \<Rightarrow> ('w, 'a) act \<Rightarrow> ('w, 'b) act" where
  "act_map f m = act_bind m (\<lambda>x. act_lift (Inr (f x)))"

definition describe_handle :: "'w client \<Rightarrow> handle \<Rightarrow> ('w, Client_Listing.execution) act" where
  "describe_handle cl h =
     act_bind (target_of (cl_dbos cl) (h_id h) (h_run_id h)) (\<lambda>target.
     act_bind (status_of (cl_dbos cl) target) (\<lambda>_ w.
       act_lift (lift_py (bind_result (execution_from_status (cl_listing cl) (cl_row cl w target)) (\<lambda>x.
         Inr (x\<lparr>ex_id := h_id h\<rparr>)))) w))"

definition reference_at :: "activity_address \<Rightarrow> activity_ref result" where
  "reference_at a = (case a of ByToken t \<Rightarrow> reference_of_token t | ByIds i run aid \<Rightarrow> reference_to i run aid)"

definition at_activity :: "activity_address \<Rightarrow> (activity_ref \<Rightarrow> ('w, unit) act) \<Rightarrow> ('w, client_value) act" where
  "at_activity a f = act_bind (act_lift (lift_py (reference_at a))) (\<lambda>r. act_map (\<lambda>_. Done) (f r))"

definition stored_schedules :: "'w client \<Rightarrow> 'w \<Rightarrow> schedule_table" where
  "stored_schedules cl w = (\<lambda>sid. List.find (\<lambda>row. rw_name row = sid) (cl_schedules cl w))"

definition do_schedule :: "'w client \<Rightarrow> ('w \<Rightarrow> schedule_op list \<times> 'a result) \<Rightarrow> ('w, 'a) act" where
  "do_schedule cl f w = (let (ops, r) = f w in Some (lift_py r, fold (cl_schedule_op cl) ops w))"

fun client_root :: "'w client \<Rightarrow> 'w outbound" where
  "client_root cl (StartWorkflow i hs) = act_map Started (start_in (cl_dbos cl) (i\<lparr>si_headers := cl_wire cl hs\<rparr>))"
| "client_root cl (CancelWorkflow i run reason) = act_map (\<lambda>_. Done) (cancel_handle (cl_dbos cl) (handle_of i run) reason)"
| "client_root cl (DescribeWorkflow i run) = act_map Described (describe_handle cl (handle_of i run))"
| "client_root cl (QueryWorkflow i run name args condition hs timeout) =
     (\<lambda>w. act_map Answer (query_handle (cl_dbos cl) (handle_of i run) condition (cl_condition cl) name args
        (cl_wire cl hs) (cl_draw cl w) timeout) w)"
| "client_root cl (SignalWorkflow i run name args hs) =
     act_map (\<lambda>_. Done) (signal_handle (cl_dbos cl) (handle_of i run) name args (cl_wire cl hs))"
| "client_root cl (TerminateWorkflow i run) = act_map (\<lambda>_. Done) (terminate_handle (cl_dbos cl) (handle_of i run))"
| "client_root cl (UpdateWorkflow i run uid name args stage hs timeout) =
     (\<lambda>w. act_map Updated (start_update (cl_dbos cl) (handle_of i run) None stage name args (cl_wire cl hs)
        (case uid of Some u \<Rightarrow> if u = [] then cl_draw cl w else u | None \<Rightarrow> cl_draw cl w) timeout) w)"
| "client_root cl (HeartbeatActivity a details) = at_activity a (\<lambda>r. heartbeat_activity (cl_dbos cl) r details)"
| "client_root cl (CompleteActivity a v) = at_activity a (\<lambda>r. complete_activity (cl_dbos cl) r v)"
| "client_root cl (FailActivity a failure) = at_activity a (\<lambda>r. fail_activity (cl_dbos cl) r failure)"
| "client_root cl (ReportCancellation a) = at_activity a (\<lambda>r. report_cancelled (cl_dbos cl) r)"
| "client_root cl (CreateNewSchedule sid s now bs) =
     act_map (\<lambda>_. ScheduleHandle sid) (do_schedule cl (\<lambda>w. create_schedule_row (cl_schedule_env cl w) sid s now bs))"
| "client_root cl ListSchedules =
     act_map (\<lambda>page. Listed \<lparr>si_page = page, si_index = 0\<rparr>)
       (do_schedule cl (\<lambda>w. ([], list_schedules (cl_schedule_env cl w) (cl_schedules cl w))))"
| "client_root cl (BackfillOf sid bs) = act_map (\<lambda>_. Done) (do_schedule cl (\<lambda>_. backfill_schedule sid bs))"
| "client_root cl (DeleteOf sid) = act_map (\<lambda>_. Done) (do_schedule cl (\<lambda>_. (delete_schedule sid, Inr ())))"
| "client_root cl (DescribeSchedule sid) =
     act_map ScheduleIs (do_schedule cl (\<lambda>w. ([], describe_schedule (cl_schedule_env cl w) (stored_schedules cl w) sid)))"
| "client_root cl (PauseOf sid) = act_map (\<lambda>_. Done) (do_schedule cl (\<lambda>_. (pause_schedule sid, Inr ())))"
| "client_root cl (TriggerOf sid overlap) = act_map (\<lambda>_. Done) (do_schedule cl (\<lambda>_. trigger_schedule sid overlap))"
| "client_root cl (UnpauseOf sid) = act_map (\<lambda>_. Done) (do_schedule cl (\<lambda>_. (unpause_schedule sid, Inr ())))"
| "client_root cl (UpdateOf sid updater) =
     act_map (\<lambda>_. Done) (do_schedule cl (\<lambda>w. update_schedule (cl_schedule_env cl w) (stored_schedules cl w) updater sid))"

subsection \<open>The chain\<close>

text \<open>
  \<open>Interceptor.intercept_client\<close> gives the object for the next one, by default that object itself. A class inherits the
  methods of \<open>OutboundInterceptor\<close>, which hand their input on, and overrides some of them.
\<close>

type_synonym 'w client_interceptor = "'w outbound \<Rightarrow> 'w outbound"

definition intercept_client :: "'w client_interceptor" where
  "intercept_client following = following"

definition outbound_interceptor :: "'w outbound \<Rightarrow> 'w outbound" where
  "outbound_interceptor following call = following call"

definition client_chain :: "'w client_interceptor list \<Rightarrow> 'w outbound \<Rightarrow> 'w outbound" where
  "client_chain interceptors start = fold (\<lambda>interceptor impl. interceptor impl) (rev interceptors) start"

definition client_impl :: "'w client \<Rightarrow> 'w client_interceptor list \<Rightarrow> 'w outbound" where
  "client_impl cl interceptors = client_chain interceptors (client_root cl)"

lemma client_chain_simps [simp]:
  "client_chain [] start = start"
  "client_chain (f # fs) start = f (client_chain fs start)"
  by (simp_all add: client_chain_def)

text \<open>
  A call that no interceptor overrides is the root's, whatever other methods they override: in particular updating a
  schedule does not run an override of its description.
\<close>

lemma untouched_calls_reach_root:
  assumes "\<And>f following. f \<in> set interceptors \<Longrightarrow> f following call = following call"
  shows "client_impl cl interceptors call = client_root cl call"
  using assms unfolding client_impl_def by (induction interceptors) simp_all

lemma default_interceptors_are_transparent:
  assumes "set interceptors \<subseteq> {intercept_client, outbound_interceptor}"
  shows "client_impl cl interceptors call = client_root cl call"
  using assms by (intro untouched_calls_reach_root) (auto simp: intercept_client_def outbound_interceptor_def)

subsection \<open>Headers\<close>

text \<open>A payload that survives its wire form: inlined JSON has the canonical text.\<close>

definition header_safe :: "json_text \<Rightarrow> data_converter \<Rightarrow> payload \<Rightarrow> bool" where
  "header_safe T dc p \<longleftrightarrow> tagged p \<and> (dc_codec dc = None \<longrightarrow> inlinable T p)"

definition codec_ok_for :: "data_converter \<Rightarrow> bool" where
  "codec_ok_for dc \<longleftrightarrow> (case dc_codec dc of Some c \<Rightarrow> codec_inverts c | None \<Rightarrow> True)"

lemma headers_roundtrip:
  assumes "\<forall>p\<in>snd ` set hs. header_safe T dc p" and "codec_ok_for dc"
  shows "\<exists>wire. encode_headers T dc hs = Inr wire \<and> decode_headers T dc wire = Inr hs \<and> map fst wire = map fst hs"
proof (cases "hs = []")
  case False
  have "\<forall>p\<in>set (map snd hs). tagged p \<and> (dc_codec dc = None \<longrightarrow> inlinable T p)"
    using assms(1) by (simp add: header_safe_def)
  then obtain qs ds where qs: "(case dc_codec dc of Some c \<Rightarrow> cd_encode c (map snd hs) | None \<Rightarrow> Inr (map snd hs)) = Inr qs"
    "(case dc_codec dc of Some c \<Rightarrow> cd_decode c qs | None \<Rightarrow> Inr qs) = Inr (map snd hs)"
    and ds: "map_result (payload_to_dict T (dc_codec dc = None)) qs = Inr ds" "map_result (payload_from_dict T) ds = Inr qs"
    and lens: "length qs = length (map snd hs)" "length ds = length (map snd hs)"
    by (rule codec_wire [OF _ assms(2) [unfolded codec_ok_for_def]])
  let ?wire = "zip (map fst hs) ds"
  have wire: "map snd ?wire = ds" "map fst ?wire = map fst hs" using lens(2) by simp_all
  then have "?wire \<noteq> []" using False by auto
  with qs ds lens wire False have "encode_headers T dc hs = Inr ?wire" "decode_headers T dc ?wire = Inr hs"
    by (simp_all add: encode_headers_def decode_headers_def zip_map_fst_snd)
  with wire(2) show ?thesis by blast
qed (simp add: encode_headers_def decode_headers_def)

text \<open>An interceptor that adds a header to every start, as a tracing interceptor does.\<close>

definition adds_header :: "string \<times> payload \<Rightarrow> 'w client_interceptor" where
  "adds_header h following call =
     (case call of
        StartWorkflow i hs \<Rightarrow> following (StartWorkflow i (dict_set (fst h) (snd h) hs))
      | _ \<Rightarrow> outbound_interceptor following call)"

definition add_headers :: "(string \<times> payload) list \<Rightarrow> headers \<Rightarrow> headers" where
  "add_headers added hs = fold (\<lambda>h. dict_set (fst h) (snd h)) added hs"

lemma adds_headers_chain:
  "client_impl cl (map adds_header added) (StartWorkflow i hs) = client_root cl (StartWorkflow i (add_headers added hs))"
  by (induction added arbitrary: hs) (simp_all add: client_impl_def adds_header_def add_headers_def)

lemma dict_set_member: "(k, v) \<in> set (dict_set a b d) \<Longrightarrow> v = b \<or> (k, v) \<in> set d"
  by (induction d) (auto split: if_splits)

lemma add_headers_payloads: "snd ` set (add_headers added hs) \<subseteq> snd ` set added \<union> snd ` set hs"
proof (induction added arbitrary: hs)
  case (Cons h added)
  have "snd ` set (dict_set (fst h) (snd h) hs) \<subseteq> insert (snd h) (snd ` set hs)"
    using dict_set_member by fastforce
  with Cons.IH [of "dict_set (fst h) (snd h) hs"] show ?case by (auto simp: add_headers_def)
qed (simp add: add_headers_def)

lemma carried_enqueue:
  assumes "ClientEnqueue st msgs \<in> set (fst (carry_out e i meta delay plan))"
  shows "\<exists>index. st = start_of e i meta delay index \<and> msgs = with_start_messages e i"
  using assms by (cases plan) (auto simp: carry_out_def cancel_ops_def Let_def split: option.splits)

lemma enqueued_start:
  assumes "start_workflow e i = Some (ops, res)" and "ClientEnqueue st msgs \<in> set ops"
  shows "\<exists>meta delay index. start_meta e i = Inr meta \<and> st = start_of e i meta delay index \<and> msgs = with_start_messages e i"
proof (cases "bind_result (start_delay e i) (\<lambda>delay. bind_result (start_meta e i) (\<lambda>meta. Inr (delay, meta)))")
  case (Inl err)
  with assms show ?thesis by (simp add: start_workflow_def)
next
  case (Inr p)
  then obtain delay meta where p: "p = (delay, meta)" and meta: "start_meta e i = Inr meta"
    by (auto simp: bind_result_Inr_iff)
  from assms(1) Inr p obtain cur where
    "(case bind_result cur (start_plan_for (si_reuse i) (si_conflict i)) of
        Inl err \<Rightarrow> ([], Inl (PyErr err)) | Inr plan \<Rightarrow> carry_out e i meta delay plan) = (ops, res)"
    by (auto simp: start_workflow_def)
  with assms(2) obtain plan where "ClientEnqueue st msgs \<in> set (fst (carry_out e i meta delay plan))"
    by (cases "bind_result cur (start_plan_for (si_reuse i) (si_conflict i))") (auto, metis fst_conv)
  with meta carried_enqueue show ?thesis by blast
qed

lemma started_headers:
  assumes "start_meta e i = Inr meta"
  shows "\<exists>args m. unwrap_input (st_payload (start_of e i meta delay index)) = Inr (args, m) \<and>
    (case m_headers m of Some h \<Rightarrow> h | None \<Rightarrow> []) = si_headers i"
proof -
  have "m_headers meta = (if si_headers i = [] then None else Some (si_headers i))"
    using assms by (auto simp: start_meta_def bind_result_Inr_iff)
  then show ?thesis
    using unwrap_wrapped [of "map (ce_enc e) (si_args i)" meta]
    by (auto simp: start_of_def is_empty_meta_def default_meta_def)
qed

text \<open>
  Claim C21. The headers interceptors add to a start reach the run it starts, whatever the codec: the run's input carries
  exactly them, in the order the interceptors are listed, a later one replacing an earlier one of the same name. A signal
  that rides the start carries the same headers.
\<close>

theorem headers_reach_the_run:
  assumes "\<forall>p\<in>snd ` set added. header_safe T dc p" and "codec_ok_for dc"
    and wire: "\<And>hs. cl_wire cl hs = projr (encode_headers T dc hs)"
    and "start_workflow (env_at (cl_dbos cl) w) (i\<lparr>si_headers := cl_wire cl (add_headers added [])\<rparr>) = Some (ops, res)"
  shows "client_impl cl (map adds_header added) (StartWorkflow i []) w =
      Some (map_sum id Started res, fold (perform (cl_dbos cl)) ops w) \<and>
    (\<forall>st msgs. ClientEnqueue st msgs \<in> set ops \<longrightarrow>
      (\<exists>args meta. unwrap_input (st_payload st) = Inr (args, meta) \<and>
        decode_headers T dc (case m_headers meta of Some h \<Rightarrow> h | None \<Rightarrow> []) = Inr (add_headers added [])) \<and>
      (si_signal i \<noteq> None \<longrightarrow>
        (\<exists>h. jget (fst (hd msgs)) ''headers'' = JObj h \<and> decode_headers T dc h = Inr (add_headers added []))))"
proof -
  let ?hs = "add_headers added []" and ?e = "env_at (cl_dbos cl) w"
  let ?i = "i\<lparr>si_headers := cl_wire cl ?hs\<rparr>"
  have "snd ` set ?hs \<subseteq> snd ` set added" using add_headers_payloads [of added "[]"] by simp
  with assms(1) have "\<forall>p\<in>snd ` set ?hs. header_safe T dc p" by blast
  from headers_roundtrip [OF this assms(2)] wire have restored: "decode_headers T dc (cl_wire cl ?hs) = Inr ?hs" by auto
  have "client_impl cl (map adds_header added) (StartWorkflow i []) w = Some (map_sum id Started res, fold (perform (cl_dbos cl)) ops w)"
    using assms(4)
    by (cases res) (simp_all add: adds_headers_chain act_map_def act_bind_def start_in_def act_lift_def)
  moreover have "(\<exists>args meta. unwrap_input (st_payload st) = Inr (args, meta) \<and>
        decode_headers T dc (case m_headers meta of Some h \<Rightarrow> h | None \<Rightarrow> []) = Inr ?hs) \<and>
      (si_signal i \<noteq> None \<longrightarrow> (\<exists>h. jget (fst (hd msgs)) ''headers'' = JObj h \<and> decode_headers T dc h = Inr ?hs))"
    if started: "ClientEnqueue st msgs \<in> set ops" for st msgs
  proof -
    obtain meta delay index where st: "start_meta ?e ?i = Inr meta" "st = start_of ?e ?i meta delay index"
      "msgs = with_start_messages ?e ?i" using enqueued_start [OF assms(4) started] by blast
    from started_headers [OF st(1), of delay index] st(2) restored have
      "\<exists>args meta. unwrap_input (st_payload st) = Inr (args, meta) \<and>
        decode_headers T dc (case m_headers meta of Some h \<Rightarrow> h | None \<Rightarrow> []) = Inr ?hs" by auto
    moreover have "si_signal i \<noteq> None \<longrightarrow> jget (fst (hd msgs)) ''headers'' = JObj (cl_wire cl ?hs)"
      by (auto simp: st(3) with_start_messages_def signal_envelope_def headers_json_def jget_def)
    ultimately show ?thesis using restored by blast
  qed
  ultimately show ?thesis by blast
qed

text \<open>A start of a new workflow with two tracing headers, the second set twice.\<close>

definition binary_header :: "string \<Rightarrow> payload" where
  "binary_header data = \<lparr>pl_metadata = [(''encoding'', ''binary/plain'')], pl_data = data\<rparr>"

definition plain_data :: data_converter where
  "plain_data = \<lparr>dc_converters = [], dc_codec = None\<rparr>"

definition empty_world :: "client_op list dbos" where
  "empty_world = \<lparr>db_clock = (\<lambda>_. 0), db_list = (\<lambda>_ _. []), db_send = (\<lambda>d m w. w @ [ClientSend d m]),
     db_cancel = (\<lambda>d w. w @ [ClientCancel d]), db_enqueue = (\<lambda>st msgs w. w @ [ClientEnqueue st msgs]),
     db_event = (\<lambda>_ _ _ w. (None, w)), db_await = (\<lambda>_ _. None), db_steps = (\<lambda>_ _. []), db_fork = (\<lambda>_ _ _ w. w),
     db_ends_first = (\<lambda>_ _. None), db_settles = (\<lambda>_ _ w. (True, w)), db_delete = (\<lambda>_ w. w),
     db_cron = \<lparr>cron_zone = (\<lambda>_. True), cron_valid = (\<lambda>_. True), cron_next = (\<lambda>_ _ _. 0)\<rparr>,
     db_enc = id, db_dec = Inr, db_detail = id\<rparr>"

definition traced_client :: "client_op list client" where
  "traced_client = \<lparr>cl_dbos = empty_world, cl_condition = None, cl_draw = (\<lambda>_. ''u''),
     cl_wire = (\<lambda>hs. projr (encode_headers index_text plain_data hs)), cl_row = (\<lambda>_ _. hd three_rows),
     cl_listing = three_listing, cl_schedule_env = (\<lambda>_. demo_env), cl_schedules = (\<lambda>_. []), cl_schedule_op = (\<lambda>_ w. w)\<rparr>"

definition trace_headers :: "(string \<times> payload) list" where
  "trace_headers = [(''span'', binary_header ''1''), (''user'', binary_header ''a''), (''span'', binary_header ''2'')]"

definition traced_start :: start_input where
  "traced_start = (order_start ALLOW_DUPLICATE)\<lparr>si_conflict := CONFLICT_FAIL\<rparr>"

lemma traced_run:
  "\<exists>st msgs res. start_workflow (env_at (cl_dbos traced_client) [])
       (traced_start\<lparr>si_headers := cl_wire traced_client (add_headers trace_headers [])\<rparr>) = Some ([ClientEnqueue st msgs], Inr res)"
proof -
  have valid: "validate_workflow_id ''order'' = Inr ()" by code_simp
  have rows: "lists_table (\<lambda>_. []) Map.empty" by (simp add: lists_table_def)
  let ?e = "env_at empty_world []"
  have "current_run ?e ''order'' = Some (Inr None)"
    using current_run_newest [of ?e Map.empty "''order''" 0] rows by (simp add: env_at_def empty_world_def)
  then show ?thesis
    by (simp add: traced_client_def traced_start_def order_start_def start_workflow_def start_delay_def valid start_meta_def
        encode_attributes_def start_plan_for_def carry_out_def cancel_ops_def Let_def)
qed

theorem headers_reach_the_run_witness:
  "\<exists>st msgs res args meta. client_impl traced_client (map adds_header trace_headers) (StartWorkflow traced_start []) [] =
       Some (Inr (Started res), [ClientEnqueue st msgs]) \<and>
     unwrap_input (st_payload st) = Inr (args, meta) \<and>
     decode_headers index_text plain_data (case m_headers meta of Some h \<Rightarrow> h | None \<Rightarrow> []) =
       Inr [(''span'', binary_header ''2''), (''user'', binary_header ''a'')]"
proof -
  obtain st msgs res where run: "start_workflow (env_at (cl_dbos traced_client) [])
       (traced_start\<lparr>si_headers := cl_wire traced_client (add_headers trace_headers [])\<rparr>) = Some ([ClientEnqueue st msgs], Inr res)"
    using traced_run by blast
  have "\<forall>p\<in>snd ` set trace_headers. header_safe index_text plain_data p"
    by (auto simp: trace_headers_def header_safe_def inlinable_def binary_header_def tagged_def dict_wf_def encoding_of_def dict_get_Cons)
  from headers_reach_the_run [OF this _ _ run] have
    "client_impl traced_client (map adds_header trace_headers) (StartWorkflow traced_start []) [] =
       Some (Inr (Started res), [ClientEnqueue st msgs])"
    "\<exists>args meta. unwrap_input (st_payload st) = Inr (args, meta) \<and>
       decode_headers index_text plain_data (case m_headers meta of Some h \<Rightarrow> h | None \<Rightarrow> []) = Inr (add_headers trace_headers [])"
    by (simp_all add: codec_ok_for_def plain_data_def traced_client_def empty_world_def)
  moreover have "add_headers trace_headers [] = [(''span'', binary_header ''2''), (''user'', binary_header ''a'')]"
    by (simp add: add_headers_def trace_headers_def)
  ultimately show ?thesis by auto
qed

end
