(* ===== verification/Spec2Isabelle.thy ===== *)
theory Spec2Isabelle
  imports Schedule_Fire Visibility_Queries Namespaces Chain Ledger Retry Attributes Inbox Interp_Close Interp_Props Interp_Safety Interp_Futures
    Interp_Loop Activity_Attempt Client_Terminate Client_Replies Client_Listing Schedule_Handle Worker Replay Child_Wait Activity_Context
    Decorators Workflow_Api Workflow_Wait Client_Api Interceptors Client_Interceptors
begin

text \<open>
  A model of dbosify, the Temporal Python SDK surface on top of DBOS. Paths below are under \<open>src/dbosify/\<close>.

  THE PROGRAM. A client (\<open>client.py\<close>) turns starts, signals, queries, updates and cancels into rows and
  messages of the DBOS database. A worker process (\<open>worker.py\<close>, \<open>_internal/dispatcher.py\<close>) runs each
  workflow as a DBOS workflow whose body is the interpreter (\<open>_internal/interpreter.py\<close>): a deterministic virtual
  event loop that runs the user's coroutines, queues their commands, performs them as checkpointed DBOS steps and
  wakes the coroutines when a step completes. A crashed run is recovered by running it again against its checkpoints.
  One Temporal workflow is a chain of DBOS workflows, one per run (\<open>_internal/ids.py\<close>): a run ends by completing,
  failing, or handing over to the next run of its chain (continue-as-new, retry, cron). Activities run as steps of the
  run or, on another queue, as DBOS workflows of their own (\<open>_internal/activities.py\<close>,
  \<open>_internal/activity_workflow.py\<close>). Schedules are DBOS schedules whose firing is a workflow (\<open>_schedule.py\<close>).

  CONVENTIONS. A Python function is a HOL function or \<open>partial_function (option)\<close>; an exception is \<open>Inl e\<close> with
  \<open>e\<close> of \<open>Prelude.py_error\<close> or a datatype of the component; a dict with observable order is an association list
  with the laws of \<open>Prelude.ordered_dict\<close>; a class is a record. Python's unbounded ints are \<open>int\<close> or \<open>nat\<close>, a
  time is an exact rational number of seconds, and a string is a list of characters (code points below 256).

  THEORIES, in the order of the code, with the state each keeps.
  \<^item> Prelude: errors, results, Python strings and dicts; locale \<open>ordered_dict\<close>, interpreted on the association lists.
  \<^item> Ids (\<open>_internal/ids.py\<close>), Namespaces (\<open>_internal/namespaces.py\<close>), Chain (\<open>resolve_latest_run\<close>; locales
    \<open>chain_store\<close>, \<open>run_chain\<close> and \<open>status_listing\<close> are what resolution relies on in the status table, interpreted
    on a table of rows, on the client's listing and on the interpreter's reads).
  \<^item> Payloads, Failures, Ledger, Retry (\<open>_internal/payloads.py\<close>, \<open>exceptions.py\<close>, \<open>_internal/serializer.py\<close>,
    \<open>_internal/status.py\<close>, \<open>common.py\<close>): run inputs, the exception tree and its envelope (locale \<open>detail_codec\<close>),
    what is recorded of a run, and when a failure is retried.
  \<^item> Attributes (\<open>_internal/attributes.py\<close>, \<open>common.py\<close>; locale \<open>attribute_codec\<close>), Convert_Types, Convert_Json,
    Converter (\<open>converter.py\<close>, \<open>_internal/conversion.py\<close>): values, hints and payloads.
  \<^item> Inbox (\<open>_internal/inbox.py\<close>): envelopes and event keys.
  \<^item> Interp_State, Interp_Runtime, Interp_Commands, Interp_Messages, Interp_Deliver, Interp_Close, Interp_Loop
    (\<open>_internal/interpreter.py\<close>): record \<open>interp\<close> is the object \<open>Interpreter\<close> with its futures, waiters, buffers, and the log of
    the DBOS calls it makes; each operation returns the next state. Interp_Loop composes them to the step relation of an
    execution. Interp_Props, Interp_Safety and Interp_Futures hold what every operation preserves.
  \<^item> Workflow_Api, Workflow_Wait, Decorators (\<open>workflow.py\<close>): what workflow code calls, \<open>wait\<close> and
    \<open>as_completed\<close> as steps of the event loop, and the definition decorators.
  \<^item> Registry (\<open>_internal/registry.py\<close>), Worker (\<open>worker.py\<close>), Dispatcher (\<open>_internal/dispatcher.py\<close>,
    \<open>_internal/enqueue.py\<close>): definitions, the process and the body of a workflow run with its retry loop and its close.
  \<^item> Activity_Attempt, Queued_Activity, Activity_Context (\<open>_internal/activities.py\<close>,
    \<open>_internal/activity_workflow.py\<close>, \<open>activity.py\<close>): one attempt as a race of events, the activity workflow, and the
    process-wide registries of attempts. Child_Wait: how a run waits for a child chain or a queued activity.
  \<^item> Client_Start, Client_Handle, Client_Replies, Client_Terminate, Client_Listing, Client_Api (\<open>client.py\<close>):
    operations over an arbitrary world of type \<open>'w\<close>, through the calls of the record \<open>dbos\<close>.
  \<^item> Interceptors (\<open>_internal/workflow_interceptor.py\<close>, \<open>_internal/activity_interceptor.py\<close>) and Client_Interceptors
    (\<open>_internal/client_interceptor.py\<close>): the calls with their inputs, the roots that run them, and the chains over the
    roots. The other theories call the roots directly, which is what a chain without interceptors does
    (\<open>chain_without_interceptors_is_api\<close>, \<open>default_interceptors_are_transparent\<close>).
  \<^item> Visibility_Tokens, Visibility, Visibility_Filters, Visibility_Queries (\<open>_internal/visibility.py\<close>): from the
    text of a query to the rows it selects.
  \<^item> Schedules (\<open>_internal/schedules.py\<close>), Schedule_Types, Schedule_Handle (\<open>_schedule.py\<close>), Schedule_Fire (the
    firing, \<open>_internal/dispatcher.py\<close>), Replay (\<open>_internal/replay.py\<close>).

  WHAT THE LEMMAS SHOW.
  \<^item> The execution: no future is settled twice in any reachable state, signals are neither lost nor duplicated,
    updates are deduplicated and answered once, read-only contexts leave no trace (but do not
    cover interceptors around a validator), a consumed replay makes no DBOS call,
    and continue-as-new carries over exactly the messages that are not run scoped (Interp_Safety, Interp_Loop, Workflow_Api).
  \<^item> Runs and chains: run ids are injective, a chain resolves to its newest run, a start keeps at most one open run,
    a close starts at most one successor, a client's and a parent's wait follow the chain to its end and learn the same.
  \<^item> Data: values, attributes, failures and schedules survive their stored form; a decoded value conforms to its hint.
  \<^item> Refinements: a parsed visibility query selects exactly the rows its clauses hold of; a cron expression matches
    exactly the calendar's times; termination takes down exactly the reachable open children; the class scan builds
    the reference definition; listing by pages is the listing.
  \<^item> Faults that hold of the code are theorems too: a failed launch wedges the process, an unchanged cron run is
    condemned by replay, a refused update loses its schedule, a query can cancel an activity.

  LOOPS. Loops with a bound are structural recursion or \<open>function\<close> with a measure. Loops that may not end are
  \<open>partial_function (option)\<close>, \<open>None\<close> being a call that never returns, and each has a theorem on when it returns:
  \<open>extend_bracket\<close> (for chains of every length), \<open>result_loop\<close> and \<open>child_wait\<close> (when the chain is finite, and never
  on an endless one), \<open>await_reply_until\<close> (the deadline passes), \<open>advance\<close> and \<open>drain\<close> (a finite listing), \<open>close_tree\<close> and
  \<open>terminate_tree\<close> (cyclic registries included), \<open>task_loop\<close> and \<open>queued_loop\<close> (the first attempt that is not retried).
  No fuel is used.

  PARAMETERS AND HYPOTHESES. DBOS, user code, codecs and the text of JSON, dates and floats are not under src/; they are
  arguments of the definitions. What the properties assume of them is named: \<open>documented_events\<close> (an event read returns
  a value posted by the deadline), \<open>documented_world\<close> and \<open>lists_table\<close> (calls read and change the status table as
  documented), \<open>documented_listing\<close> and \<open>documented_aggregate\<close> (filters and counts), \<open>documented_schedules\<close>
  (the schedule table), \<open>codec_ok\<close>, \<open>codec_inverts\<close>, \<open>text_ok\<close> and \<open>plain_lib\<close> (writing then reading a value gives
  it back). The witnesses instantiate each with a concrete function.

  NOT MODELLED.
  \<^item> The user's coroutines and asyncio itself: workflow code is any sequence of the runtime operations; a
    \<open>wait_condition\<close> predicate that raises is left out.
  \<^item> What a user's interceptors do: they are arbitrary functions from the next object, or the classes the lemmas name.
  \<^item> Threads, executors, locks, polling intervals, log lines, deprecation warnings, RPC options, \<open>DBOS.destroy\<close>
    and \<open>on_fatal_error\<close>; the registration of functions with DBOS.
  \<^item> Serialization contexts, failure converter classes, Pydantic models, namedtuples and \<open>__post_init__\<close> in
    \<open>converter.py\<close>; the properties and constructors of \<open>exceptions.py\<close> and \<open>common.py\<close> that only store a field.
  \<^item> \<open>testing/__init__.py\<close> provisions databases and runs a worker for tests; it has no logic of its own to verify.
\<close>

end
